(* ===== verification/Prelude.thy ===== *)
theory Prelude
  imports Main "HOL-Library.AList" "HOL-Library.Char_ord" "HOL-Library.List_Lexorder"
begin

text \<open>
  Shared vocabulary of the development: Python exceptions as values, operations on a
  mutable object as state-passing functions that return the state on the error path too,
  Python dictionaries as association lists in insertion order, and the two contracts that
  the stateful components share (an invariant kept by every operation; rejected operations
  that change nothing).
\<close>

named_theorems dict_simps \<open>rewriting of dictionary reads, writes and sums\<close>

section \<open>Exceptions and operations\<close>

text \<open>
  The exceptions the sources raise. \<open>ProtocolError\<close> subclasses \<open>ValueError\<close> in
  \<open>splitchain/model.py\<close>, \<open>CommitUncertain\<close> subclasses \<open>ProtocolError\<close> in
  \<open>splitchain/node.py\<close>, \<open>DistributionError\<close> and \<open>EnrollmentError\<close> subclass \<open>ValueError\<close> in
  \<open>splitchain/distributor.py\<close> and \<open>splitchain/enrollment.py\<close>, \<open>OSError\<close> is a missing file or a failed connection, \<open>InvalidSignature\<close> is the exception of
  the signature library. \<open>Unmodelled\<close> marks inputs on which Python's implicit
  coercions (\<open>int(...)\<close>, \<open>str(...)\<close> of a value of another JSON type) are not modelled.
\<close>

datatype error =
    ProtocolError string
  | CommitUncertain string
  | ValueError string
  | TypeError
  | AttributeError
  | KeyError
  | IndexError
  | AssertionError string
  | RuntimeError string
  | InvalidSignature
  | DistributionError string
  | EnrollmentError string
  | OSError
  | Unmodelled

type_synonym 'a result = "error + 'a"

type_synonym ('s, 'a) operation = "'s \<Rightarrow> 'a result \<times> 's"

definition raise :: "error \<Rightarrow> ('s, 'a) operation" where
  "raise e s = (Inl e, s)"

definition return :: "'a \<Rightarrow> ('s, 'a) operation" where
  "return x s = (Inr x, s)"

definition is_ok :: "'a result \<Rightarrow> bool" where
  "is_ok r = (case r of Inl _ \<Rightarrow> False | Inr _ \<Rightarrow> True)"

lemma raise_simps [simp]: "fst (raise e s) = Inl e" "snd (raise e s) = s"
  by (simp_all add: raise_def)

lemma return_simps [simp]: "fst (return x s) = Inr x" "snd (return x s) = s"
  by (simp_all add: return_def)

lemma is_ok_simps [simp]: "\<not> is_ok (Inl e)" "is_ok (Inr x)"
  by (simp_all add: is_ok_def)

lemma is_ok_iff: "is_ok r \<longleftrightarrow> (\<exists>x. r = Inr x)"
  by (cases r) auto

text \<open>Sequencing of pure fallible computations: the first exception wins.\<close>

definition bindR :: "'a result \<Rightarrow> ('a \<Rightarrow> 'b result) \<Rightarrow> 'b result" where
  "bindR r f = (case r of Inl e \<Rightarrow> Inl e | Inr x \<Rightarrow> f x)"

lemma bindR_simps [simp]: "bindR (Inl e) f = Inl e" "bindR (Inr x) f = f x"
  by (simp_all add: bindR_def)

lemma bindR_Inr_iff: "bindR r f = Inr y \<longleftrightarrow> (\<exists>x. r = Inr x \<and> f x = Inr y)"
  by (cases r) simp_all

fun mapR :: "('a \<Rightarrow> 'b result) \<Rightarrow> 'a list \<Rightarrow> 'b list result" where
  "mapR f [] = Inr []"
| "mapR f (x # xs) = bindR (f x) (\<lambda>y. bindR (mapR f xs) (\<lambda>ys. Inr (y # ys)))"

lemma mapR_Inr: "(\<And>x. x \<in> set xs \<Longrightarrow> f x = Inr (g x)) \<Longrightarrow> mapR f xs = Inr (map g xs)"
  by (induction xs) simp_all

lemma mapR_length: "mapR f xs = Inr ys \<Longrightarrow> length ys = length xs"
  by (induction xs arbitrary: ys) (auto simp: bindR_Inr_iff)

section \<open>Dictionaries\<close>

text \<open>
  A Python \<open>dict\<close> keeps its keys in insertion order, and storing to an existing key
  keeps the key's place. \<open>AList.update\<close> does the same: it replaces the value in place
  or appends the pair. \<open>map_of\<close> is the lookup, and \<open>dict_get d k v\<close> is
  \<open>d.get(k, v)\<close>.
\<close>

type_synonym ('k, 'v) dict = "('k \<times> 'v) list"

definition dict_get :: "('k, 'v) dict \<Rightarrow> 'k \<Rightarrow> 'v \<Rightarrow> 'v" where
  "dict_get d k v = (case map_of d k of None \<Rightarrow> v | Some x \<Rightarrow> x)"

definition dict_has :: "('k, 'v) dict \<Rightarrow> 'k \<Rightarrow> bool" where
  "dict_has d k = (map_of d k \<noteq> None)"

definition dict_sum :: "('k, int) dict \<Rightarrow> int" where
  "dict_sum d = sum_list (map snd d)"

definition keys :: "('k, 'v) dict \<Rightarrow> 'k list" where
  "keys d = map fst d"

definition wf_dict :: "('k, 'v) dict \<Rightarrow> bool" where
  "wf_dict d = distinct (map fst d)"

text \<open>Python's \<open>==\<close> on dictionaries ignores the order of the keys.\<close>

definition dict_eq :: "('k, 'v) dict \<Rightarrow> ('k, 'v) dict \<Rightarrow> bool" where
  "dict_eq d d' = (length d = length d' \<and> (\<forall>(k, v) \<in> set d. map_of d' k = Some v))"

lemma map_of_update [dict_simps, simp]:
  "map_of (AList.update k v d) = (map_of d)(k \<mapsto> v)"
  by (rule AList.update_conv')

lemma dict_get_update [dict_simps, simp]:
  "dict_get (AList.update k v d) k' w = (if k' = k then v else dict_get d k' w)"
  by (simp add: dict_get_def)

lemma dict_get_Nil [dict_simps, simp]: "dict_get [] k v = v"
  by (simp add: dict_get_def)

lemma dict_get_Some [dict_simps]: "map_of d k = Some x \<Longrightarrow> dict_get d k v = x"
  by (simp add: dict_get_def)

lemma dict_get_None [dict_simps]: "map_of d k = None \<Longrightarrow> dict_get d k v = v"
  by (simp add: dict_get_def)

lemma dict_has_update [dict_simps, simp]:
  "dict_has (AList.update k v d) k' \<longleftrightarrow> k' = k \<or> dict_has d k'"
  by (simp add: dict_has_def)

lemma dict_has_iff: "dict_has d k \<longleftrightarrow> k \<in> fst ` set d"
  by (simp add: dict_has_def map_of_eq_None_iff)

lemma wf_dict_Nil [simp]: "wf_dict []"
  by (simp add: wf_dict_def)

lemma wf_dict_update [simp, intro]: "wf_dict d \<Longrightarrow> wf_dict (AList.update k v d)"
  unfolding wf_dict_def by (rule distinct_update)

lemma wf_dict_mem: "wf_dict d \<Longrightarrow> (k, v) \<in> set d \<longleftrightarrow> map_of d k = Some v"
  unfolding wf_dict_def by auto

lemma wf_dict_values: "wf_dict d \<Longrightarrow> v \<in> snd ` set d \<longleftrightarrow> (\<exists>k. map_of d k = Some v)"
  by (force simp: wf_dict_mem [symmetric])

lemma dict_sum_Nil [simp]: "dict_sum [] = 0"
  by (simp add: dict_sum_def)

lemma dict_sum_Cons [simp]: "dict_sum ((k, v) # d) = v + dict_sum d"
  by (simp add: dict_sum_def)

lemma dict_sum_update [dict_simps]:
  "wf_dict d \<Longrightarrow> dict_sum (AList.update k v d) = dict_sum d - dict_get d k 0 + v"
proof (induction d)
  case Nil
  then show ?case by (simp add: dict_get_def)
next
  case (Cons p d)
  obtain k' v' where p: "p = (k', v')" by (cases p)
  from Cons.prems p have "wf_dict d" and "map_of d k' = None"
    by (auto simp: wf_dict_def map_of_eq_None_iff)
  with Cons.IH p show ?case
    by (auto simp: dict_get_def)
qed

lemma keys_update: "keys (AList.update k v d) = (if k \<in> set (keys d) then keys d else keys d @ [k])"
  by (simp add: keys_def update_keys)

lemma update_new: "k \<notin> fst ` set d \<Longrightarrow> AList.update k v d = d @ [(k, v)]"
  by (induction d) auto

text \<open>\<open>tuple.index\<close>: the first place of a value, \<open>None\<close> where Python raises \<open>ValueError\<close>.\<close>

fun index_of :: "'a \<Rightarrow> 'a list \<Rightarrow> nat option" where
  "index_of x [] = None"
| "index_of x (y # ys) = (if x = y then Some 0 else map_option Suc (index_of x ys))"

section \<open>Objects as machines\<close>

text \<open>The result of an operation passed through a function.\<close>

definition map_op :: "('a \<Rightarrow> 'b) \<Rightarrow> 'a result \<times> 's \<Rightarrow> 'b result \<times> 's" where
  "map_op f r = (map_sum id f (fst r), snd r)"

lemma map_op_simps [simp]:
  "snd (map_op f r) = snd r"
  "fst (map_op f r) = Inl e \<longleftrightarrow> fst r = Inl e"
  "fst (map_op f r) = Inr y \<longleftrightarrow> (\<exists>x. fst r = Inr x \<and> y = f x)"
  by (cases "fst r"; auto simp: map_op_def)+

text \<open>A run of operations: every caller goes on after an exception, with the state it left.\<close>

fun run_ops :: "('o \<Rightarrow> ('s, 'a) operation) \<Rightarrow> 'o list \<Rightarrow> 's \<Rightarrow> 's" where
  "run_ops step [] s = s"
| "run_ops step (a # as) s = run_ops step as (snd (step a s))"

text \<open>The operations of a run that returned normally.\<close>

fun accepted :: "('o \<Rightarrow> ('s, 'a) operation) \<Rightarrow> 'o list \<Rightarrow> 's \<Rightarrow> 'o list" where
  "accepted step [] s = []"
| "accepted step (a # as) s =
     (if is_ok (fst (step a s)) then a # accepted step as (snd (step a s))
      else accepted step as (snd (step a s)))"

lemma run_ops_append: "run_ops step (xs @ ys) s = run_ops step ys (run_ops step xs s)"
  by (induction xs arbitrary: s) simp_all

lemma accepted_append: "accepted step (xs @ ys) s = accepted step xs s @ accepted step ys (run_ops step xs s)"
  by (induction xs arbitrary: s) simp_all

text \<open>The contract of a component with an invariant.\<close>

locale invariant_machine =
  fixes step :: "'o \<Rightarrow> 's \<Rightarrow> (error + 'a) \<times> 's"
    and inv :: "'s \<Rightarrow> bool"
  assumes step_inv: "inv s \<Longrightarrow> inv (snd (step a s))"
begin

lemma run_inv: "inv s \<Longrightarrow> inv (run_ops step as s)"
  by (induction as arbitrary: s) (simp_all add: step_inv)

end

text \<open>
  The contract of a component whose rejected operations change nothing: a run is then
  equal to the run of its accepted operations.
\<close>

locale atomic_machine = invariant_machine +
  assumes rejected_frame: "inv s \<Longrightarrow> fst (step a s) = Inl e \<Longrightarrow> snd (step a s) = s"
begin

lemma run_accepted: "inv s \<Longrightarrow> run_ops step as s = run_ops step (accepted step as s) s"
proof (induction as arbitrary: s)
  case Nil
  then show ?case by simp
next
  case (Cons a as)
  show ?case
  proof (cases "fst (step a s)")
    case (Inl e)
    with Cons.prems have same: "snd (step a s) = s" by (rule rejected_frame)
    with Inl Cons show ?thesis by simp
  next
    case (Inr x)
    with Cons.prems Cons.IH [of "snd (step a s)"] show ?thesis
      by (simp add: step_inv)
  qed
qed

end

end
