(* ===== verification/Json_Encoding.thy ===== *)
theory Json_Encoding
  imports Canonical_Json "HOL-Library.Multiset"
begin

text \<open>
  The canonical encoding of \<open>Canonical_Json\<close> is unambiguous. Numbers, escaped strings,
  arrays and objects are each read back uniquely in front of a delimiter, so the writer is
  injective; sorting the keys identifies exactly the objects that differ in key order only.
\<close>

section \<open>Numbers are read back uniquely\<close>

fun digit_val :: "char \<Rightarrow> nat" where
  "digit_val c = of_char c - 48"

definition nat_val :: "string \<Rightarrow> nat" where
  "nat_val s = foldl (\<lambda>n c. 10 * n + digit_val c) 0 s"

lemma digit_val_char: "d < 10 \<Longrightarrow> digit_val (digit_char d) = d"
  by (simp add: digit_char_def of_char_of)

lemma nat_val_str [simp]: "nat_val (nat_str n) = n"
proof (induction n rule: nat_str.induct)
  case (1 n)
  show ?case
  proof (cases "n < 10")
    case True
    then show ?thesis by (simp add: nat_str.simps [of n] nat_val_def digit_val_char del: digit_val.simps)
  next
    case False
    with 1 show ?thesis
      by (simp add: nat_str.simps [of n] nat_val_def digit_val_char del: digit_val.simps)
  qed
qed

definition digit_set :: "char set" where
  "digit_set = {c. 48 \<le> (of_char c :: nat) \<and> of_char c < (58 :: nat)}"

definition num_set :: "char set" where
  "num_set = digit_set \<union> set ''-+.e''"

lemma digit_char_in: "d < 10 \<Longrightarrow> digit_char d \<in> digit_set"
  by (simp add: digit_char_def digit_set_def of_char_of)

lemma nat_str_digits: "set (nat_str n) \<subseteq> digit_set"
proof (induction n rule: nat_str.induct)
  case (1 n)
  then show ?case
    by (cases "n < 10") (auto simp: nat_str.simps [of n] digit_char_in)
qed

lemma nat_str_nonempty: "nat_str n \<noteq> []"
  by (simp add: nat_str.simps [of n])

lemma int_str_inj: "int_str i = int_str j \<Longrightarrow> i = j"
proof -
  assume eq: "int_str i = int_str j"
  have hd: "nat_str n \<noteq> CHR ''-'' # xs" for n xs
  proof
    assume "nat_str n = CHR ''-'' # xs"
    with nat_str_digits [of n] show False by (simp add: digit_set_def)
  qed
  have sgn: "i < 0 \<longleftrightarrow> j < 0"
    using eq hd hd [symmetric] by (auto simp: int_str_def split: if_splits)
  have "nat_str (nat \<bar>i\<bar>) = nat_str (nat \<bar>j\<bar>)"
    using eq sgn by (auto simp: int_str_def split: if_splits)
  then have "nat \<bar>i\<bar> = nat \<bar>j\<bar>" by (metis nat_val_str)
  with sgn show ?thesis by arith
qed

lemma int_str_chars: "set (int_str i) \<subseteq> insert (CHR ''-'') digit_set"
  using nat_str_digits [of "nat (- i)"] nat_str_digits [of "nat i"] by (auto simp: int_str_def)

lemma int_str_nonempty: "int_str i \<noteq> []"
  by (simp add: int_str_def nat_str_nonempty)

section \<open>Strings are read back uniquely\<close>

definition hex_val :: "char \<Rightarrow> nat" where
  "hex_val c = (if of_char c < (58::nat) then of_char c - 48 else of_char c - 87)"

fun unescape :: "string \<Rightarrow> (char \<times> string) option" where
  "unescape (c # d # a # b # x # y # r) =
     (if c = CHR 0x5C \<and> d = CHR ''u'' then Some (char_of (16 * hex_val x + hex_val y), r) else None)"
| "unescape _ = None"

lemma hex_val_char: "d < 16 \<Longrightarrow> hex_val (hex_char d) = d"
  by (auto simp: hex_val_def hex_char_def of_char_of)

lemma escape_control:
  assumes "of_char c < (32::nat)"
  shows "char_of (16 * hex_val (hex_char (of_char c div 16)) + hex_val (hex_char (of_char c mod 16))) = c"
proof -
  have "of_char c div 16 < (16::nat)" using assms by simp
  then show ?thesis by (simp add: hex_val_char)
qed

lemma escape_char_inj:
  assumes "escape_char c @ x = escape_char d @ y"
  shows "c = d \<and> x = y"
proof -
  have hex: "of_char c < (32::nat) \<Longrightarrow> of_char d < (32::nat) \<Longrightarrow>
      hex_char (of_char c div 16) = hex_char (of_char d div 16) \<Longrightarrow>
      hex_char (of_char c mod 16) = hex_char (of_char d mod 16) \<Longrightarrow> c = d"
    by (metis escape_control)
  show ?thesis
    using assms hex by (auto simp: escape_char_def split: if_splits)
qed

lemma escape_char_start: "escape_char c \<noteq> []" "hd (escape_char c) \<noteq> CHR 0x22"
  by (auto simp: escape_char_def)

lemma json_str_inj:
  assumes "json_str s @ x = json_str t @ y"
  shows "s = t \<and> x = y"
proof -
  have quote: "\<not> escape_char c @ u = CHR 0x22 # v" for c u v
    using escape_char_start [of c] by (cases "escape_char c") auto
  have "concat (map escape_char s) @ CHR 0x22 # x = concat (map escape_char t) @ CHR 0x22 # y
      \<Longrightarrow> s = t \<and> x = y"
  proof (induction s arbitrary: t)
    case Nil
    then show ?case by (cases t) (auto simp: quote [symmetric] dest: sym)
  next
    case (Cons c s)
    then show ?case
    proof (cases t)
      case Nil
      with Cons.prems show ?thesis by (simp add: quote)
    next
      case (Cons d t')
      with Cons.prems have "escape_char c @ (concat (map escape_char s) @ CHR 0x22 # x)
         = escape_char d @ (concat (map escape_char t') @ CHR 0x22 # y)" by simp
      from escape_char_inj [OF this] Cons.IH [of t'] Cons show ?thesis by simp
    qed
  qed
  with assms show ?thesis by (simp add: json_str_def)
qed

section \<open>Values are read back uniquely before a delimiter\<close>

definition wf_float :: "string \<Rightarrow> bool" where
  "wf_float t = (t \<noteq> [] \<and> set t \<subseteq> num_set \<and> (CHR ''.'' \<in> set t \<or> CHR ''e'' \<in> set t))"

fun wf_floats :: "json \<Rightarrow> bool" where
  "wf_floats (JFloat t) = wf_float t"
| "wf_floats (JList xs) = (\<forall>x \<in> set xs. wf_floats x)"
| "wf_floats (JObj kvs) = (\<forall>p \<in> set kvs. wf_floats (snd p))"
| "wf_floats v = True"

fun kind :: "json \<Rightarrow> nat" where
  "kind JNull = 0"
| "kind (JBool b) = (if b then 1 else 2)"
| "kind (JInt i) = 6"
| "kind (JFloat t) = 6"
| "kind (JStr s) = 3"
| "kind (JList xs) = 4"
| "kind (JObj kvs) = 5"

definition kind_of_char :: "char \<Rightarrow> nat" where
  "kind_of_char c =
     (if c = CHR ''n'' then 0 else if c = CHR ''t'' then 1 else if c = CHR ''f'' then 2
      else if c = CHR 0x22 then 3 else if c = CHR ''['' then 4 else if c = CHR ''{'' then 5
      else if c \<in> num_set then 6 else 7)"

definition delimited :: "string \<Rightarrow> bool" where
  "delimited r = (r = [] \<or> hd r \<in> set '',]}'')"

lemma kind_cases:
  "kind w = 0 \<longleftrightarrow> w = JNull"
  "kind w = (if b then 1 else 2) \<longleftrightarrow> w = JBool b"
  "kind w = 3 \<longleftrightarrow> (\<exists>s. w = JStr s)"
  "kind w = 4 \<longleftrightarrow> (\<exists>xs. w = JList xs)"
  "kind w = 5 \<longleftrightarrow> (\<exists>kvs. w = JObj kvs)"
  by (cases w; simp)+

lemma num_set_kind: "c \<in> num_set \<Longrightarrow> kind_of_char c = 6"
  by (auto simp: kind_of_char_def num_set_def digit_set_def)

lemma num_set_not_delim: "c \<in> num_set \<Longrightarrow> c \<notin> set '',]}''"
  by (auto simp: num_set_def digit_set_def)

lemma render_hd:
  assumes "wf_floats v"
  shows "\<exists>c cs. render v = c # cs \<and> kind_of_char c = kind v"
proof (cases v)
  case (JInt i)
  obtain c cs where ccs: "int_str i = c # cs" using int_str_nonempty [of i] by (cases "int_str i") auto
  with int_str_chars [of i] have "c \<in> num_set" by (auto simp: num_set_def)
  with JInt ccs show ?thesis by (simp add: num_set_kind)
next
  case (JFloat t)
  with assms show ?thesis by (cases t) (auto simp: wf_float_def num_set_kind)
qed (auto simp: kind_of_char_def json_str_def)

lemma render_kind:
  assumes "wf_floats v" "wf_floats w" "render v @ r = render w @ r'"
  shows "kind v = kind w"
  using render_hd [OF assms(1)] render_hd [OF assms(2)] assms(3) by auto

lemma num_token_inj:
  assumes "set s \<subseteq> num_set" "set t \<subseteq> num_set" "delimited r" "delimited r'" "s @ r = t @ r'"
  shows "s = t \<and> r = r'"
proof -
  have split: "takeWhile (\<lambda>c. c \<in> num_set) (u @ x) = u" if "set u \<subseteq> num_set" "delimited x" for u x
  proof -
    have "takeWhile (\<lambda>c. c \<in> num_set) x = []"
      using that(2) by (cases x) (auto simp: delimited_def dest: num_set_not_delim)
    with that(1) show ?thesis by (subst takeWhile_append2) auto
  qed
  from split [of s r] split [of t r'] assms have "s = t" by metis
  with assms(5) show ?thesis by simp
qed

text \<open>One element of a sequence is read back uniquely before a delimiter.\<close>

definition readable :: "('a \<Rightarrow> string) \<Rightarrow> ('a \<Rightarrow> bool) \<Rightarrow> 'a \<Rightarrow> bool" where
  "readable f P x = (\<forall>y r r'. P y \<longrightarrow> delimited r \<longrightarrow> delimited r' \<longrightarrow> f x @ r = f y @ r' \<longrightarrow> x = y \<and> r = r')"

definition tail_join :: "('a \<Rightarrow> string) \<Rightarrow> 'a list \<Rightarrow> string" where
  "tail_join f xs = concat (map (\<lambda>x. CHR '','' # f x) xs)"

lemma tail_join_simps [simp]:
  "tail_join f [] = []" "tail_join f (x # xs) = CHR '','' # f x @ tail_join f xs"
  by (simp_all add: tail_join_def)

lemma comma_join_map:
  "comma_join (map f xs) = (case xs of [] \<Rightarrow> [] | x # xs' \<Rightarrow> f x @ tail_join f xs')"
  by (cases xs) (simp_all add: tail_join_def comp_def)

lemma tail_join_delimited: "e \<in> set '']}'' \<Longrightarrow> delimited (tail_join f xs @ e # r)"
  by (cases xs) (auto simp: delimited_def)

lemma tail_join_inj:
  assumes "\<forall>x \<in> set xs. readable f P x" "\<forall>y \<in> set ys. P y" "e \<in> set '']}''"
    "tail_join f xs @ e # r = tail_join f ys @ e # r'"
  shows "xs = ys \<and> r = r'"
  using assms
proof (induction xs arbitrary: ys)
  case Nil
  then show ?case by (cases ys) auto
next
  case (Cons x xs)
  then obtain y ys' where ys: "ys = y # ys'" by (cases ys) auto
  with Cons.prems have eq: "f x @ tail_join f xs @ e # r = f y @ tail_join f ys' @ e # r'" by simp
  moreover have "readable f P x" "P y" using Cons.prems ys by auto
  ultimately have "x = y \<and> tail_join f xs @ e # r = tail_join f ys' @ e # r'"
    unfolding readable_def using tail_join_delimited Cons.prems(3) by blast
  with Cons.IH [of ys'] Cons.prems ys show ?case by auto
qed

lemma comma_join_inj:
  assumes "\<forall>x \<in> set xs. readable f P x" "\<forall>y \<in> set ys. P y" "e \<in> set '']}''"
    "\<forall>x \<in> set xs \<union> set ys. \<exists>c cs. f x = c # cs \<and> c \<noteq> e"
    "comma_join (map f xs) @ e # r = comma_join (map f ys) @ e # r'"
  shows "xs = ys \<and> r = r'"
proof -
  have start: "f x @ u \<noteq> e # r''" if "x \<in> set xs \<union> set ys" for x u r''
    using assms(4) that by force
  have eq: "(case xs of [] \<Rightarrow> [] | x # xs' \<Rightarrow> f x @ tail_join f xs') @ e # r
      = (case ys of [] \<Rightarrow> [] | y # ys' \<Rightarrow> f y @ tail_join f ys') @ e # r'"
    using assms(5) by (simp only: comma_join_map)
  show ?thesis
  proof (cases xs)
    case Nil
    with eq start [of "hd ys"] show ?thesis by (cases ys) (auto dest: sym)
  next
    case (Cons x xs')
    with eq start [of x] obtain y ys' where ys: "ys = y # ys'" by (cases ys) auto
    have "f x @ tail_join f xs' @ e # r = f y @ tail_join f ys' @ e # r'"
      using eq Cons ys by simp
    moreover have "readable f P x" "P y" using assms(1,2) Cons ys by auto
    ultimately have "x = y \<and> tail_join f xs' @ e # r = tail_join f ys' @ e # r'"
      unfolding readable_def using tail_join_delimited assms(3) by blast
    with tail_join_inj [of xs' f P ys' e r r'] assms(1-3) Cons ys show ?thesis by auto
  qed
qed

lemma kind_le: "kind v \<le> 6"
  by (cases v) auto

lemma render_start: "wf_floats v \<Longrightarrow> \<exists>c cs. render v = c # cs \<and> c \<noteq> CHR '']''"
proof -
  assume "wf_floats v"
  from render_hd [OF this] obtain c cs where c: "render v = c # cs" "kind_of_char c = kind v" by blast
  have "kind_of_char (CHR '']'') = 7" by (simp add: kind_of_char_def num_set_def digit_set_def)
  with c kind_le [of v] show ?thesis by auto
qed

definition field_text :: "string \<times> json \<Rightarrow> string" where
  "field_text p = json_str (fst p) @ CHR '':'' # render (snd p)"

lemma render_obj: "render (JObj kvs) = CHR ''{'' # comma_join (map field_text kvs) @ ''}''"
  by (simp add: field_text_def case_prod_beta' cong: map_cong)

lemma field_readable:
  assumes "readable render wf_floats (snd p)"
  shows "readable field_text (\<lambda>q. wf_floats (snd q)) p"
  unfolding readable_def
proof (intro allI impI)
  fix q r r'
  assume q: "wf_floats (snd q)" and d: "delimited r" "delimited r'"
    and eq: "field_text p @ r = field_text q @ r'"
  then have "fst p = fst q \<and> render (snd p) @ r = render (snd q) @ r'"
    by (auto simp: field_text_def dest!: json_str_inj)
  with assms q d show "p = q \<and> r = r'"
    unfolding readable_def by (auto simp: prod_eq_iff)
qed

lemma num_readable:
  assumes v: "kind v = 6" "wf_floats v"
  shows "readable render wf_floats v"
  unfolding readable_def
proof (intro allI impI)
  fix w r r'
  assume w: "wf_floats w" and d: "delimited r" "delimited r'" and eq: "render v @ r = render w @ r'"
  have ints: "set (int_str j) \<subseteq> num_set" for j
    using int_str_chars [of j] by (auto simp: num_set_def)
  have nofloat: "int_str j \<noteq> t" if "wf_float t" for j t
    using int_str_chars [of j] that by (auto simp: wf_float_def digit_set_def)
  have token: "set (render u) \<subseteq> num_set" if "kind u = 6" "wf_floats u" for u
    using that ints by (cases u) (auto simp: wf_float_def split: if_splits)
  from render_kind [OF v(2) w eq] v(1) have k: "kind w = 6" by simp
  from num_token_inj [OF token [OF v] token [OF k w] d eq]
  have same: "render v = render w" and r: "r = r'" by auto
  from same v w k have "v = w"
    by (cases v; cases w) (auto split: if_splits dest: int_str_inj nofloat sym)
  with r show "v = w \<and> r = r'" by simp
qed

lemma render_readable: "wf_floats v \<Longrightarrow> readable render wf_floats v"
proof (induction v)
  case (JStr s)
  show ?case
    unfolding readable_def
  proof (intro allI impI)
    fix w r r'
    assume w: "wf_floats w" and eq: "render (JStr s) @ r = render w @ r'"
    from render_kind [OF _ w eq] obtain t where t: "w = JStr t" by (auto simp: kind_cases)
    with eq have "json_str s @ r = json_str t @ r'" by simp
    from json_str_inj [OF this] t show "JStr s = w \<and> r = r'" by simp
  qed
next
  case (JList xs)
  show ?case
    unfolding readable_def
  proof (intro allI impI)
    fix w r r'
    assume w: "wf_floats w" and eq: "render (JList xs) @ r = render w @ r'"
    from render_kind [OF _ w eq] JList.prems have k: "kind w = 4" by simp
    then obtain ys where ys: "w = JList ys" by (auto simp: kind_cases)
    have "comma_join (map render xs) @ CHR '']'' # r = comma_join (map render ys) @ CHR '']'' # r'"
      using eq ys by simp
    moreover have "\<forall>x \<in> set xs \<union> set ys. \<exists>c cs. render x = c # cs \<and> c \<noteq> CHR '']''"
      using render_start JList.prems w ys by auto
    ultimately have "xs = ys \<and> r = r'"
      using comma_join_inj [of xs render wf_floats ys "CHR '']''" r r'] JList w ys by simp
    with ys show "JList xs = w \<and> r = r'" by simp
  qed
next
  case (JObj kvs)
  show ?case
    unfolding readable_def
  proof (intro allI impI)
    fix w r r'
    assume w: "wf_floats w" and eq: "render (JObj kvs) @ r = render w @ r'"
    from render_kind [OF _ w eq] JObj.prems have k: "kind w = 5" by simp
    then obtain kvs' where w': "w = JObj kvs'" by (auto simp: kind_cases)
    have rd: "\<forall>p \<in> set kvs. readable field_text (\<lambda>q. wf_floats (snd q)) p"
      using JObj by (auto intro!: field_readable)
    have "comma_join (map field_text kvs) @ CHR ''}'' # r = comma_join (map field_text kvs') @ CHR ''}'' # r'"
      using eq w' by (simp only: render_obj) simp
    moreover have "\<forall>p \<in> set kvs \<union> set kvs'. \<exists>c cs. field_text p = c # cs \<and> c \<noteq> CHR ''}''"
      by (simp add: field_text_def json_str_def)
    ultimately have "kvs = kvs' \<and> r = r'"
      using comma_join_inj [OF rd, of kvs' "CHR ''}''" r r'] w w' by simp
    with w' show "JObj kvs = w \<and> r = r'" by simp
  qed
next
  case JNull
  show ?case
    unfolding readable_def
  proof (intro allI impI)
    fix w r r'
    assume w: "wf_floats w" and eq: "render JNull @ r = render w @ r'"
    from render_kind [OF _ w eq] have "w = JNull" by (simp add: kind_cases)
    with eq show "JNull = w \<and> r = r'" by simp
  qed
next
  case (JBool b)
  show ?case
    unfolding readable_def
  proof (intro allI impI)
    fix w r r'
    assume w: "wf_floats w" and eq: "render (JBool b) @ r = render w @ r'"
    from render_kind [OF _ w eq] have "kind w = (if b then 1 else 2)" by simp
    then have "w = JBool b" by (simp only: kind_cases)
    with eq show "JBool b = w \<and> r = r'" by (simp split: if_splits)
  qed
qed (rule num_readable, simp, simp)+

lemma render_inj: "wf_floats v \<Longrightarrow> wf_floats w \<Longrightarrow> render v = render w \<Longrightarrow> v = w"
proof -
  assume v: "wf_floats v" and w: "wf_floats w" and eq: "render v = render w"
  have "delimited []" by (simp add: delimited_def)
  moreover have "render v @ [] = render w @ []" using eq by simp
  ultimately show "v = w"
    using render_readable [OF v] w unfolding readable_def by blast
qed

lemma wf_floats_sort_keys: "wf_floats v \<Longrightarrow> wf_floats (sort_keys v)"
  by (induction v) (auto)

lemma wf_floats_finite: "wf_floats v \<Longrightarrow> \<not> has_nonfinite v"
proof (induction v)
  case (JFloat t)
  then show ?case by (auto simp: wf_float_def nonfinite_text_def num_set_def digit_set_def)
qed (auto simp: list_ex_iff)

lemma canonical_inj:
  assumes "wf_floats v" "wf_floats w"
  shows "canonical_json v = canonical_json w \<longleftrightarrow> sort_keys v = sort_keys w"
  using assms render_inj [OF wf_floats_sort_keys wf_floats_sort_keys, of v w]
  by (auto simp: canonical_json_def wf_floats_finite)

section \<open>Sorting keys and JSON equality\<close>

inductive same_json :: "json \<Rightarrow> json \<Rightarrow> bool" where
  same_refl: "same_json v v"
| same_list: "list_all2 same_json xs ys \<Longrightarrow> same_json (JList xs) (JList ys)"
| same_obj: "map fst kvs = map fst kvs' \<Longrightarrow> list_all2 same_json (map snd kvs) (map snd kvs')
    \<Longrightarrow> mset kvs' = mset kvs'' \<Longrightarrow> same_json (JObj kvs) (JObj kvs'')"

fun wf_keys :: "json \<Rightarrow> bool" where
  "wf_keys (JList xs) = (\<forall>x \<in> set xs. wf_keys x)"
| "wf_keys (JObj kvs) = (distinct (map fst kvs) \<and> (\<forall>p \<in> set kvs. wf_keys (snd p)))"
| "wf_keys v = True"

lemma map_mset_permute:
  "mset (map h ys) = mset zs \<Longrightarrow> \<exists>ys'. mset ys' = mset ys \<and> map h ys' = zs"
proof (induction zs arbitrary: ys)
  case Nil
  then show ?case by simp
next
  case (Cons z zs)
  then have "z \<in> set (map h ys)" by (metis list.set_intros(1) set_mset_mset)
  then obtain y where y: "y \<in> set ys" "h y = z" by auto
  then have rm: "mset (y # remove1 y ys) = mset ys" by simp
  then have "mset (map h (y # remove1 y ys)) = mset (z # zs)" using Cons.prems by (metis mset_map)
  with y have "mset (map h (remove1 y ys)) = mset zs" by simp
  from Cons.IH [OF this] obtain ys' where "mset ys' = mset (remove1 y ys)" "map h ys' = zs" by blast
  with y rm show ?case by (intro exI [of _ "y # ys'"]) simp
qed

lemma sort_key_mset:
  assumes "mset xs = mset ys" "distinct (map f xs)"
  shows "sort_key f xs = sort_key f ys"
proof (rule sort_key_inj_key_eq)
  show "mset xs = mset (sort_key f ys)" using assms(1) by simp
  show "inj_on f (set xs)" using assms(2) by (simp add: distinct_map)
qed simp

lemma same_json_sort_keys:
  "same_json v w \<Longrightarrow> wf_keys v \<Longrightarrow> sort_keys v = sort_keys w"
proof (induction rule: same_json.induct)
  case (same_list xs ys)
  then have "list_all2 (\<lambda>x y. sort_keys x = sort_keys y) xs ys"
    by (auto simp: list_all2_conv_all_nth)
  then show ?case by (simp add: list_all2_conv_all_nth list_eq_iff_nth_eq)
next
  case (same_obj kvs kvs' kvs'')
  let ?h = "\<lambda>(k, v). (k, sort_keys v)"
  have len: "length kvs = length kvs'" using same_obj(1) by (metis length_map)
  have keys: "fst (kvs ! i) = fst (kvs' ! i)" if "i < length kvs" for i
    using that same_obj(1) len by (metis nth_map)
  have vals: "sort_keys (snd (kvs ! i)) = sort_keys (snd (kvs' ! i))" if "i < length kvs" for i
    using that same_obj.IH same_obj.prems len by (auto simp: list_all2_conv_all_nth)
  have "map ?h kvs = map ?h kvs'"
    using len keys vals by (auto simp: list_eq_iff_nth_eq case_prod_beta)
  moreover have "mset (map ?h kvs') = mset (map ?h kvs'')"
    using same_obj.hyps by simp
  ultimately have "sort_key fst (map ?h kvs) = sort_key fst (map ?h kvs'')"
    using same_obj.prems same_obj.hyps(1) by (intro sort_key_mset) (auto simp: comp_def case_prod_beta)
  then show ?case by simp
qed simp

lemma sort_keys_shape:
  "sort_keys w = JList zs \<Longrightarrow> \<exists>ys. w = JList ys"
  "sort_keys w = JObj ps \<Longrightarrow> \<exists>qs. w = JObj qs"
  by (cases w; simp)+

lemma sort_keys_same_json: "sort_keys v = sort_keys w \<Longrightarrow> same_json v w"
proof (induction v arbitrary: w)
  case (JList xs)
  from JList.prems obtain ys where w: "w = JList ys" by (metis sort_keys_shape(1) sort_keys.simps(1))
  with JList.prems have eq: "map sort_keys xs = map sort_keys ys" by simp
  then have len: "length xs = length ys" by (metis length_map)
  have "same_json (xs ! i) (ys ! i)" if "i < length xs" for i
    using that eq len by (intro JList.IH) (auto simp: list_eq_iff_nth_eq)
  with len w show ?case by (auto intro!: same_list simp: list_all2_conv_all_nth)
next
  case (JObj kvs)
  let ?h = "\<lambda>(k, v). (k, sort_keys v)"
  from JObj.prems obtain qs where w: "w = JObj qs" by (metis sort_keys_shape(2) sort_keys.simps(2))
  with JObj.prems have "sort_key fst (map ?h kvs) = sort_key fst (map ?h qs)" by simp
  then have "mset (map ?h qs) = mset (map ?h kvs)" by (metis mset_sort)
  from map_mset_permute [OF this] obtain qs' where qs': "mset qs' = mset qs" "map ?h qs' = map ?h kvs"
    by blast
  then have len: "length kvs = length qs'" by (metis length_map)
  have at: "?h (kvs ! i) = ?h (qs' ! i)" if "i < length kvs" for i
  proof -
    have "?h (kvs ! i) = map ?h kvs ! i" by (rule nth_map [OF that, symmetric])
    also have "\<dots> = map ?h qs' ! i" by (simp only: qs'(2))
    also have "\<dots> = ?h (qs' ! i)" using that len by (intro nth_map) simp
    finally show ?thesis .
  qed
  have "map fst kvs = map fst qs'"
  proof (rule nth_equalityI)
    show "length (map fst kvs) = length (map fst qs')" using len by simp
    show "map fst kvs ! i = map fst qs' ! i" if "i < length (map fst kvs)" for i
      using at [of i] that len by (simp add: case_prod_beta)
  qed
  moreover have "same_json (snd (kvs ! i)) (snd (qs' ! i))" if "i < length kvs" for i
  proof (rule JObj.IH)
    show "kvs ! i \<in> set kvs" using that by simp
    show "snd (kvs ! i) \<in> Basic_BNFs.snds (kvs ! i)" by (simp add: prod_set_defs)
    show "sort_keys (snd (kvs ! i)) = sort_keys (snd (qs' ! i))" using at [OF that] by (simp add: case_prod_beta)
  qed
  ultimately show ?case
    unfolding w using len qs'(1) by (intro same_obj [of kvs qs' qs]) (auto simp: list_all2_conv_all_nth)
qed (case_tac w; simp add: same_refl)+

text \<open>C40. Canonical JSON has no whitespace or key-order ambiguity: two payloads (with distinct
  keys in each object and finite floats) are encoded to the same bytes exactly when they are the
  same JSON value up to the order of object keys. A signature or hash over the bytes therefore
  binds the whole value.\<close>

theorem canonical_json_unambiguous:
  assumes "wf_floats v" "wf_floats w" "wf_keys v"
  shows "canonical_json v = canonical_json w \<longleftrightarrow> same_json v w"
  using canonical_inj [OF assms(1,2)] same_json_sort_keys [OF _ assms(3)] sort_keys_same_json by blast

theorem canonical_json_unambiguous_witness:
  "canonical_json (JObj [(''b'', JInt 1), (''a'', JList [JNull, JFloat ''1.5''])])
     = canonical_json (JObj [(''a'', JList [JNull, JFloat ''1.5'']), (''b'', JInt 1)])
   \<longleftrightarrow> same_json (JObj [(''b'', JInt 1), (''a'', JList [JNull, JFloat ''1.5''])])
         (JObj [(''a'', JList [JNull, JFloat ''1.5'']), (''b'', JInt 1)])"
  by (rule canonical_json_unambiguous) (simp_all add: wf_float_def num_set_def digit_set_def)

section \<open>Domain separation\<close>

text \<open>The bytes that \<open>protocol_digest\<close> hashes.\<close>

definition digest_input :: "string \<Rightarrow> json \<Rightarrow> string" where
  "digest_input d v = d @ [CHR 0x00] @ render (sort_keys v)"

lemma digest_input_inj:
  assumes "digest_input d v = digest_input d' w" "CHR 0x00 \<notin> set d" "CHR 0x00 \<notin> set d'"
  shows "d = d' \<and> render (sort_keys v) = render (sort_keys w)"
proof -
  have "p = q \<and> u = u'" if "p @ CHR 0x00 # u = q @ CHR 0x00 # u'"
    "CHR 0x00 \<notin> set p" "CHR 0x00 \<notin> set q" for p q u u' :: string
    using that
  proof (induction p arbitrary: q)
    case Nil
    then show ?case by (cases q) auto
  next
    case (Cons a p)
    then show ?case by (cases q) auto
  qed
  from this [of d _ d'] assms show ?thesis by (simp add: digest_input_def)
qed

lemma protocol_digest_Inr:
  "protocol_digest C d v = Inr x \<Longrightarrow>
     x = sha256 C (digest_input d v) \<and> CHR 0x00 \<notin> set d \<and> canonical_json v = Inr (render (sort_keys v))"
  by (auto simp: protocol_digest_def digest_input_def canonical_json_def bindR_Inr_iff split: if_splits)

lemma protocol_digest_ok:
  "d \<noteq> [] \<Longrightarrow> is_ascii d \<Longrightarrow> CHR 0x00 \<notin> set d \<Longrightarrow> \<not> has_nonfinite v
     \<Longrightarrow> protocol_digest C d v = Inr (sha256 C (digest_input d v))"
  by (simp add: protocol_digest_def canonical_json_def digest_input_def)

text \<open>Protocol hashes are domain separated: if two digests agree then both the domain and
  the payload agree, or the two hashed byte strings are an explicit SHA-256 collision.\<close>

theorem protocol_digest_domains:
  assumes "protocol_digest C d v = Inr x" "protocol_digest C d' w = Inr x"
    and "wf_floats v" "wf_floats w" "wf_keys v"
  shows "(d = d' \<and> same_json v w) \<or>
     (digest_input d v \<noteq> digest_input d' w
      \<and> sha256 C (digest_input d v) = sha256 C (digest_input d' w))"
proof (cases "digest_input d v = digest_input d' w")
  case True
  note ok = protocol_digest_Inr [OF assms(1)] protocol_digest_Inr [OF assms(2)]
  with True have "d = d' \<and> canonical_json v = canonical_json w"
    using digest_input_inj [of d v d' w] by simp
  then show ?thesis
    using canonical_inj [OF assms(3,4)] sort_keys_same_json by blast
next
  case False
  with protocol_digest_Inr [OF assms(1)] protocol_digest_Inr [OF assms(2)] show ?thesis by simp
qed

theorem protocol_digest_domains_witness:
  "(''a'' = ''a'' \<and> same_json (JInt 3) (JInt 3)) \<or>
     (digest_input ''a'' (JInt 3) \<noteq> digest_input ''a'' (JInt 3)
      \<and> rev (digest_input ''a'' (JInt 3)) = rev (digest_input ''a'' (JInt 3)))"
  using protocol_digest_domains [of "\<lparr>sha256 = rev, hmac_sha256 = append\<rparr>" "''a''" "JInt 3"
      "rev (digest_input ''a'' (JInt 3))" "''a''" "JInt 3"]
  by (simp add: protocol_digest_def canonical_json_def digest_input_def is_ascii_def)

text \<open>Payloads that always have a canonical encoding.\<close>

lemma wf_floats_dict_json [simp]: "\<not> has_nonfinite (dict_json d)"
  by (auto simp: dict_json_def list_ex_iff)

end
