(* ===== verification/Genesis.thy ===== *)
theory Genesis
  imports Json_Encoding
begin

text \<open>
  \<open>GenesisConfig\<close> of \<open>splitchain/model.py\<close>: the reviewed starting state of a network,
  its validation from untrusted JSON, its public form and its digest.
\<close>

section \<open>Record and validation\<close>

record genesis_config =
  network_id :: string
  max_supply :: int
  allocations :: "(string, int) dict"
  locked_accounts :: "string list"

definition genesis_schema :: string where
  "genesis_schema = ''splitchain-genesis/v1''"

text \<open>\<open>c.isascii() and (c.isalnum() or c in "-_")\<close>\<close>

definition network_char :: "char \<Rightarrow> bool" where
  "network_char c =
     (let n = (of_char c :: nat) in
      48 \<le> n \<and> n \<le> 57 \<or> 65 \<le> n \<and> n \<le> 90 \<or> 97 \<le> n \<and> n \<le> 122 \<or> c = CHR ''-'' \<or> c = CHR ''_'')"

text \<open>
  The length test counts code points in Python and bytes here: the two differ only for
  non-ASCII names, which the character test rejects with the same message.
\<close>

definition valid_network :: "json \<Rightarrow> bool" where
  "valid_network v =
     (case v of JStr s \<Rightarrow> s \<noteq> [] \<and> length s \<le> 64 \<and> list_all network_char s | _ \<Rightarrow> False)"

text \<open>An allocation table: \<open>Some\<close> of the table when every value is a non-negative \<open>int\<close>.\<close>

fun int_table :: "(string \<times> json) list \<Rightarrow> (string, int) dict option" where
  "int_table [] = Some []"
| "int_table ((k, JInt v) # kvs) =
     (if k = [] \<or> v < 0 then None else map_option ((#) (k, v)) (int_table kvs))"
| "int_table _ = None"

fun str_list :: "json list \<Rightarrow> string list option" where
  "str_list [] = Some []"
| "str_list (JStr s # xs) = map_option ((#) s) (str_list xs)"
| "str_list _ = None"

text \<open>\<open>set(locked)\<close> raises \<open>TypeError\<close> on a list or an object among the elements.\<close>

fun hashable :: "json \<Rightarrow> bool" where
  "hashable (JList _) = False"
| "hashable (JObj _) = False"
| "hashable _ = True"

definition genesis_locked :: "json \<Rightarrow> (string, int) dict \<Rightarrow> string list result" where
  "genesis_locked locked allocs =
     (case locked of
        JList xs \<Rightarrow>
          if \<not> list_all hashable xs then Inl TypeError
          else (case str_list xs of
              None \<Rightarrow> Inl (ProtocolError ''invalid locked accounts'')
            | Some names \<Rightarrow>
                if \<not> distinct names \<or> list_ex (\<lambda>k. \<not> dict_has allocs k) names
                then Inl (ProtocolError ''invalid locked accounts'')
                else Inr (sort names))
      | _ \<Rightarrow> Inl (ProtocolError ''invalid locked accounts''))"

definition genesis_from_dict :: "json \<Rightarrow> genesis_config result" where
  "genesis_from_dict raw =
     (case raw of
        JObj kvs \<Rightarrow>
          if set (map fst kvs) \<noteq> {''schema'', ''network_id'', ''max_supply'', ''allocations'', ''locked_accounts''}
             \<or> map_of kvs ''schema'' \<noteq> Some (JStr genesis_schema)
          then Inl (ProtocolError ''invalid genesis schema'')
          else if \<not> valid_network (the (map_of kvs ''network_id''))
          then Inl (ProtocolError ''invalid network id'')
          else (case (the (map_of kvs ''network_id''), the (map_of kvs ''max_supply''), the (map_of kvs ''allocations'')) of
              (JStr network, JInt cap, JObj allocs) \<Rightarrow>
                if cap \<le> 0 \<or> allocs = [] then Inl (ProtocolError ''invalid genesis supply'')
                else (case int_table allocs of
                    None \<Rightarrow> Inl (ProtocolError ''invalid genesis allocation'')
                  | Some table \<Rightarrow>
                      if dict_sum table > cap then Inl (ProtocolError ''invalid genesis allocation'')
                      else bindR (genesis_locked (the (map_of kvs ''locked_accounts'')) table)
                        (\<lambda>locked. Inr \<lparr>network_id = network, max_supply = cap,
                            allocations = table, locked_accounts = locked\<rparr>))
            | _ \<Rightarrow> Inl (ProtocolError ''invalid genesis supply''))
      | _ \<Rightarrow> Inl (ProtocolError ''invalid genesis schema''))"

section \<open>Public form and digest\<close>

definition sorted_dict :: "(string, 'v) dict \<Rightarrow> (string, 'v) dict" where
  "sorted_dict d = sort_key fst d"

definition genesis_public :: "genesis_config \<Rightarrow> json" where
  "genesis_public g = JObj
     [(''schema'', JStr genesis_schema),
      (''network_id'', JStr (network_id g)),
      (''max_supply'', JInt (max_supply g)),
      (''allocations'', dict_json (sorted_dict (allocations g))),
      (''locked_accounts'', JList (map JStr (locked_accounts g)))]"

definition genesis_digest :: "crypto \<Rightarrow> genesis_config \<Rightarrow> string result" where
  "genesis_digest C g = protocol_digest C ''splitchain/canonical-genesis/v2'' (genesis_public g)"

text \<open>Equality of the dataclass: field by field, dictionaries without regard to key order.\<close>

definition genesis_eq :: "genesis_config \<Rightarrow> genesis_config \<Rightarrow> bool" where
  "genesis_eq g h =
     (network_id g = network_id h \<and> max_supply g = max_supply h
      \<and> dict_eq (allocations g) (allocations h) \<and> locked_accounts g = locked_accounts h)"

section \<open>What validation guarantees\<close>

definition wf_genesis :: "genesis_config \<Rightarrow> bool" where
  "wf_genesis g =
     (valid_network (JStr (network_id g)) \<and> 0 < max_supply g \<and> allocations g \<noteq> []
      \<and> wf_dict (allocations g)
      \<and> (\<forall>(k, v) \<in> set (allocations g). k \<noteq> [] \<and> 0 \<le> v)
      \<and> dict_sum (allocations g) \<le> max_supply g
      \<and> sorted (locked_accounts g) \<and> distinct (locked_accounts g)
      \<and> (\<forall>k \<in> set (locked_accounts g). dict_has (allocations g) k))"

lemma int_table_Some:
  "int_table kvs = Some t \<Longrightarrow> kvs = map (\<lambda>(k, v). (k, JInt v)) t \<and> (\<forall>(k, v) \<in> set t. k \<noteq> [] \<and> 0 \<le> v)"
  by (induction kvs arbitrary: t rule: int_table.induct) (auto split: if_splits)

lemma int_table_map:
  "\<forall>(k, v) \<in> set t. k \<noteq> [] \<and> 0 \<le> v \<Longrightarrow> int_table (map (\<lambda>(k, v). (k, JInt v)) t) = Some t"
  by (induction t) auto

lemma str_list_map [simp]: "str_list (map JStr xs) = Some xs"
  by (induction xs) auto

lemma set_sorted_dict [simp]: "set (sorted_dict d) = set d"
  by (simp add: sorted_dict_def)

lemma length_sorted_dict [simp]: "length (sorted_dict d) = length d"
  by (simp add: sorted_dict_def)

lemma wf_sorted_dict [simp]: "wf_dict (sorted_dict d) \<longleftrightarrow> wf_dict d"
proof -
  have "mset (map fst (sorted_dict d)) = mset (map fst d)"
    by (simp add: sorted_dict_def)
  then show ?thesis unfolding wf_dict_def by (rule mset_eq_imp_distinct_iff)
qed

lemma map_of_sorted_dict [simp]: "wf_dict d \<Longrightarrow> map_of (sorted_dict d) = map_of d"
  using map_of_inject_set [of "sorted_dict d" d] wf_sorted_dict [of d] by (simp add: wf_dict_def)

lemma dict_sum_sorted_dict [simp]: "dict_sum (sorted_dict d) = dict_sum d"
proof -
  have "mset (map snd (sorted_dict d)) = mset (map snd d)"
    by (simp add: sorted_dict_def)
  then show ?thesis unfolding dict_sum_def by (metis sum_mset_sum_list)
qed

lemma sorted_dict_idem [simp]: "sorted_dict (sorted_dict d) = sorted_dict d"
  unfolding sorted_dict_def by (rule sort_key_id_if_sorted) simp

lemma dict_has_sorted_dict [simp]: "dict_has (sorted_dict d) k = dict_has d k"
  by (simp add: dict_has_iff)

lemma genesis_locked_names:
  "distinct names \<Longrightarrow> sorted names \<Longrightarrow> \<forall>k \<in> set names. dict_has t k \<Longrightarrow>
     genesis_locked (JList (map JStr names)) t = Inr names"
  by (auto simp: genesis_locked_def list_all_iff list_ex_iff sorted_sort_id)

lemma genesis_locked_Inr:
  "genesis_locked v t = Inr names \<Longrightarrow>
     sorted names \<and> distinct names \<and> (\<forall>k \<in> set names. dict_has t k)"
  by (auto simp: genesis_locked_def list_ex_iff split: json.splits if_splits option.splits)

lemma allocations_keys: "wf_dict (map (\<lambda>(k, v). (k, JInt v)) t) \<longleftrightarrow> wf_dict t"
  by (simp add: wf_dict_def comp_def case_prod_beta')

text \<open>Validation at the trust boundary: whatever JSON document is offered as a genesis file,
  an accepted configuration has a valid network name, a positive cap, non-negative allocations whose
  sum stays within the cap, and a sorted duplicate-free list of locked accounts that all exist.\<close>

theorem genesis_from_dict_wf:
  assumes "wf_keys raw" "genesis_from_dict raw = Inr g"
  shows "wf_genesis g"
proof -
  from assms(2) obtain kvs where raw: "raw = JObj kvs"
    by (auto simp: genesis_from_dict_def split: json.splits)
  let ?f = "\<lambda>k. the (map_of kvs k)"
  from assms(2) raw obtain network cap allocs table locked where
    fields: "?f ''network_id'' = JStr network" "?f ''max_supply'' = JInt cap"
      "?f ''allocations'' = JObj allocs"
    and checks: "valid_network (JStr network)" "0 < cap" "allocs \<noteq> []" "int_table allocs = Some table"
      "dict_sum table \<le> cap" "genesis_locked (?f ''locked_accounts'') table = Inr locked"
    and g: "g = \<lparr>network_id = network, max_supply = cap, allocations = table, locked_accounts = locked\<rparr>"
    and present: "''allocations'' \<in> set (map fst kvs)"
    by (fastforce simp: genesis_from_dict_def bindR_Inr_iff split: json.splits if_splits option.splits)
  from present obtain v where "map_of kvs ''allocations'' = Some v"
    by (metis map_of_eq_None_iff not_None_eq set_map)
  then have "(''allocations'', JObj allocs) \<in> set kvs" using fields(3) by (auto dest: map_of_SomeD)
  then have "wf_keys (JObj allocs)" using assms(1) raw by fastforce
  then have "wf_dict allocs" by (simp add: wf_dict_def)
  then have "wf_dict table" using int_table_Some [OF checks(4)] allocations_keys by metis
  moreover have "table \<noteq> []" using int_table_Some [OF checks(4)] checks(3) by auto
  ultimately show ?thesis
    using checks g genesis_locked_Inr [OF checks(6)] int_table_Some [OF checks(4)]
    by (auto simp: wf_genesis_def)
qed

lemma genesis_public_reads:
  assumes "wf_genesis g"
  shows "genesis_from_dict (genesis_public g)
    = Inr (g\<lparr>allocations := sorted_dict (allocations g)\<rparr>)"
proof -
  have "int_table (map (\<lambda>(k, v). (k, JInt v)) (sorted_dict (allocations g))) = Some (sorted_dict (allocations g))"
    using assms by (intro int_table_map) (auto simp: wf_genesis_def)
  moreover have "genesis_locked (JList (map JStr (locked_accounts g))) (sorted_dict (allocations g)) = Inr (locked_accounts g)"
    using assms by (intro genesis_locked_names) (auto simp: wf_genesis_def)
  moreover have "sorted_dict (allocations g) \<noteq> []"
    using assms by (metis length_sorted_dict list.size(3) length_0_conv wf_genesis_def)
  ultimately show ?thesis
    using assms by (auto simp: genesis_from_dict_def genesis_public_def wf_genesis_def dict_json_def)
qed

text \<open>Round trip: the public form of a valid configuration validates, and gives the same
  configuration back (with the allocation table in key order).\<close>

theorem genesis_roundtrip:
  assumes "wf_genesis g"
  shows "genesis_from_dict (genesis_public g)
    = Inr (g\<lparr>allocations := sorted_dict (allocations g)\<rparr>)"
  by (rule genesis_public_reads [OF assms])

definition sample_genesis :: genesis_config where
  "sample_genesis = \<lparr>network_id = ''net-1'', max_supply = 100,
     allocations = [(''reserve'', 60), (''faucet'', 40)], locked_accounts = [''reserve'']\<rparr>"

lemma wf_sample_genesis: "wf_genesis sample_genesis"
  by (simp add: sample_genesis_def wf_genesis_def valid_network_def network_char_def wf_dict_def
      dict_has_def Let_def)

theorem genesis_from_dict_wf_witness:
  "wf_genesis (sample_genesis\<lparr>allocations := [(''faucet'', 40), (''reserve'', 60)]\<rparr>)"
proof (rule genesis_from_dict_wf)
  show "wf_keys (genesis_public sample_genesis)"
    by (simp add: genesis_public_def sample_genesis_def dict_json_def sorted_dict_def)
  show "genesis_from_dict (genesis_public sample_genesis)
      = Inr (sample_genesis\<lparr>allocations := [(''faucet'', 40), (''reserve'', 60)]\<rparr>)"
    by (simp add: genesis_public_def genesis_from_dict_def sample_genesis_def dict_json_def
        sorted_dict_def genesis_schema_def valid_network_def network_char_def genesis_locked_def
        dict_has_def Let_def insert_commute)
qed

theorem genesis_roundtrip_witness:
  "genesis_from_dict (genesis_public sample_genesis)
     = Inr (sample_genesis\<lparr>allocations := sorted_dict (allocations sample_genesis)\<rparr>)"
  by (rule genesis_roundtrip [OF wf_sample_genesis])

end
