(* ===== verification/Ledger_Model.thy ===== *)
theory Ledger_Model
  imports Genesis
begin

text \<open>
  The class \<open>Ledger\<close> of \<open>splitchain/model.py\<close>: the canonical ledger with its two-party
  execution branches, one definition per method. Methods are state-passing operations that
  return the ledger on the error path too. \<open>Branch\<close> objects are values kept in the
  dictionary \<open>lg_branches\<close>; a method that mutates a branch stores the new value under its key.
  Amounts and rounds are Python integers, held as \<open>int\<close>, as the annotations say.
\<close>

section \<open>State\<close>

datatype branch_state = OFFERED | ACCEPTED | COMMITTED | FINAL | CANCELLED | EXPIRED

fun state_name :: "branch_state \<Rightarrow> string" where
  "state_name OFFERED = ''offered''"
| "state_name ACCEPTED = ''accepted''"
| "state_name COMMITTED = ''committed''"
| "state_name FINAL = ''final''"
| "state_name CANCELLED = ''cancelled''"
| "state_name EXPIRED = ''expired''"

record branch =
  br_id :: string
  br_sender :: string
  br_receiver :: string
  br_value :: int
  br_stake :: int
  br_created_round :: int
  br_expires_round :: int
  br_origin_height :: int
  br_origin_digest :: string
  br_state :: branch_state
  br_accepted_round :: "int option"
  br_committed_round :: "int option"
  br_tx_digest :: "string option"

fun opt_int_json :: "int option \<Rightarrow> json" where
  "opt_int_json None = JNull"
| "opt_int_json (Some i) = JInt i"

fun opt_str_json :: "string option \<Rightarrow> json" where
  "opt_str_json None = JNull"
| "opt_str_json (Some s) = JStr s"

definition branch_public :: "branch \<Rightarrow> json" where
  "branch_public b = JObj
     [(''branch_id'', JStr (br_id b)), (''sender'', JStr (br_sender b)),
      (''receiver'', JStr (br_receiver b)), (''value'', JInt (br_value b)),
      (''stake'', JInt (br_stake b)), (''created_round'', JInt (br_created_round b)),
      (''expires_round'', JInt (br_expires_round b)),
      (''origin_height'', JInt (br_origin_height b)), (''origin_digest'', JStr (br_origin_digest b)),
      (''state'', JStr (state_name (br_state b))),
      (''accepted_round'', opt_int_json (br_accepted_round b)),
      (''committed_round'', opt_int_json (br_committed_round b)),
      (''tx_digest'', opt_str_json (br_tx_digest b))]"

record ledger =
  lg_genesis :: "genesis_config option"
  lg_round :: int
  lg_balances :: "(string, int) dict"
  lg_locked :: "(string, int) dict"
  lg_branches :: "(string, branch) dict"
  lg_finalized :: "json list"
  lg_height :: int
  lg_digest :: string
  lg_history :: "(int, string) dict"

definition FINALITY_ROUNDS :: int where
  "FINALITY_ROUNDS = 3"

section \<open>Construction\<close>

text \<open>
  The branch of \<open>__init__\<close> that gives the origin digest, and the whole constructor. An empty
  or missing balance table is the empty one (\<open>balances or {}\<close>).
\<close>

definition ledger_origin_digest :: "crypto \<Rightarrow> genesis_config option \<Rightarrow> (string, int) dict \<Rightarrow> string result" where
  "ledger_origin_digest C genesis balances =
     (case genesis of
        Some g \<Rightarrow> genesis_digest C g
      | None \<Rightarrow> protocol_digest C ''splitchain/canonical-genesis/v1''
          (JObj [(''balances'', dict_json (sorted_dict balances))]))"

definition ledger_init :: "crypto \<Rightarrow> (string, int) dict option \<Rightarrow> genesis_config option \<Rightarrow> ledger result" where
  "ledger_init C balances genesis =
     (if (case (genesis, balances) of (Some g, Some b) \<Rightarrow> \<not> dict_eq b (allocations g) | _ \<Rightarrow> False)
      then Inl (ProtocolError ''initial balances differ from genesis'')
      else
        let start = (case genesis of Some g \<Rightarrow> allocations g
                     | None \<Rightarrow> (case balances of Some b \<Rightarrow> b | None \<Rightarrow> []))
        in bindR (ledger_origin_digest C genesis start) (\<lambda>d.
          Inr \<lparr>lg_genesis = genesis, lg_round = 0, lg_balances = start, lg_locked = [],
            lg_branches = [], lg_finalized = [], lg_height = 0, lg_digest = d,
            lg_history = [(0, d)]\<rparr>))"

section \<open>Private helpers\<close>

definition available :: "ledger \<Rightarrow> string \<Rightarrow> int" where
  "available L account = dict_get (lg_balances L) account 0 - dict_get (lg_locked L) account 0"

definition is_reserved :: "ledger \<Rightarrow> string \<Rightarrow> bool" where
  "is_reserved L account =
     (case lg_genesis L of None \<Rightarrow> False | Some g \<Rightarrow> account \<in> set (locked_accounts g))"

definition set_branch :: "string \<Rightarrow> branch \<Rightarrow> ledger \<Rightarrow> ledger" where
  "set_branch k b L = L\<lparr>lg_branches := AList.update k b (lg_branches L)\<rparr>"

text \<open>\<open>_branch\<close>: the branch under an id, if its state is one of those expected.\<close>

definition find_branch :: "string \<Rightarrow> branch_state list \<Rightarrow> ledger \<Rightarrow> branch result" where
  "find_branch k states L =
     (case map_of (lg_branches L) k of
        None \<Rightarrow> Inl (ProtocolError ''unknown branch'')
      | Some b \<Rightarrow>
          if br_state b \<notin> set states
          then Inl (ProtocolError (''invalid transition from '' @ state_name (br_state b)))
          else Inr b)"

definition ensure_live :: "branch \<Rightarrow> ledger \<Rightarrow> unit result" where
  "ensure_live b L =
     (if lg_round L \<ge> br_expires_round b then Inl (ProtocolError ''branch expired'') else Inr ())"

text \<open>\<open>_unlock\<close>: \<open>self.locked[sender] -= value + stake\<close>, a \<open>KeyError\<close> if the sender has no entry.\<close>

definition unlock :: "branch \<Rightarrow> (ledger, unit) operation" where
  "unlock b L =
     (case map_of (lg_locked L) (br_sender b) of
        None \<Rightarrow> (Inl KeyError, L)
      | Some x \<Rightarrow>
          (Inr (), L\<lparr>lg_locked := AList.update (br_sender b) (x - (br_value b + br_stake b)) (lg_locked L)\<rparr>))"

text \<open>The canonical head moves to a new block hashed over its parent.\<close>

definition append_block :: "string \<Rightarrow> ledger \<Rightarrow> ledger" where
  "append_block d L = L\<lparr>lg_digest := d, lg_history := AList.update (lg_height L) d (lg_history L)\<rparr>"

section \<open>Public operations\<close>

text \<open>\<open>re.fullmatch(r"[a-z][a-z0-9_]{2,31}", account)\<close> and the reserved prefix.\<close>

definition account_char :: "char \<Rightarrow> bool" where
  "account_char c =
     (let n = (of_char c :: nat) in 97 \<le> n \<and> n \<le> 122 \<or> 48 \<le> n \<and> n \<le> 57 \<or> c = CHR ''_'')"

definition account_name :: "string \<Rightarrow> bool" where
  "account_name s =
     (case s of [] \<Rightarrow> False
      | c # cs \<Rightarrow> (let n = (of_char c :: nat) in 97 \<le> n \<and> n \<le> 122)
          \<and> 2 \<le> length cs \<and> length cs \<le> 31 \<and> list_all account_char cs)"

definition starts_with :: "string \<Rightarrow> string \<Rightarrow> bool" where
  "starts_with s p = (take (length p) s = p)"

definition register_account :: "crypto \<Rightarrow> string \<Rightarrow> (ledger, string \<times> int) operation" where
  "register_account C account L =
     (if \<not> account_name account \<or> starts_with account ''testnet_'' \<or> dict_has (lg_balances L) account
      then (Inl (ProtocolError ''invalid or existing account''), L)
      else
        let L1 = L\<lparr>lg_balances := AList.update account 0 (lg_balances L), lg_height := lg_height L + 1\<rparr>
        in (case protocol_digest C ''splitchain/canonical-block/v1''
              (JObj [(''account'', JStr account), (''height'', JInt (lg_height L1)),
                     (''parent'', JStr (lg_digest L1)), (''type'', JStr ''account.register'')]) of
              Inl e \<Rightarrow> (Inl e, L1)
            | Inr d \<Rightarrow> (Inr (account, lg_height L1), append_block d L1)))"

definition branch_id_json :: "ledger \<Rightarrow> string \<Rightarrow> string \<Rightarrow> int \<Rightarrow> json" where
  "branch_id_json L sender receiver amount = JObj
     [(''nonce'', JInt (int (length (lg_branches L)))), (''origin_digest'', JStr (lg_digest L)),
      (''origin_height'', JInt (lg_height L)), (''receiver'', JStr receiver),
      (''round'', JInt (lg_round L)), (''sender'', JStr sender), (''value'', JInt amount)]"

definition new_branch :: "ledger \<Rightarrow> string \<Rightarrow> string \<Rightarrow> string \<Rightarrow> int \<Rightarrow> int \<Rightarrow> branch" where
  "new_branch L bid sender receiver amount ttl =
     \<lparr>br_id = bid, br_sender = sender, br_receiver = receiver, br_value = amount, br_stake = amount,
      br_created_round = lg_round L, br_expires_round = lg_round L + ttl,
      br_origin_height = lg_height L, br_origin_digest = lg_digest L, br_state = OFFERED,
      br_accepted_round = None, br_committed_round = None, br_tx_digest = None\<rparr>"

definition offer :: "crypto \<Rightarrow> string \<Rightarrow> string \<Rightarrow> int \<Rightarrow> int \<Rightarrow> (ledger, branch) operation" where
  "offer C sender receiver amount ttl L =
     (if is_reserved L sender then (Inl (ProtocolError ''genesis locked account cannot offer''), L)
      else if amount \<le> 0 \<or> ttl < FINALITY_ROUNDS
        then (Inl (ProtocolError ''value must be positive and ttl must cover finality''), L)
      else if sender = receiver then (Inl (ProtocolError ''sender and receiver must differ''), L)
      else if \<not> dict_has (lg_balances L) receiver
        then (Inl (ProtocolError ''unknown receiver account''), L)
      else if available L sender < amount * 2
        then (Inl (ProtocolError ''sender needs value plus equal branch stake''), L)
      else (case protocol_digest C ''splitchain/branch-id/v1'' (branch_id_json L sender receiver amount) of
          Inl e \<Rightarrow> (Inl e, L)
        | Inr d \<Rightarrow>
            let bid = take 16 d;
                b = new_branch L bid sender receiver amount ttl;
                L1 = set_branch bid b L
            in (Inr b, L1\<lparr>lg_locked :=
                  AList.update sender (dict_get (lg_locked L1) sender 0 + amount * 2) (lg_locked L1)\<rparr>)))"

definition accept :: "string \<Rightarrow> string \<Rightarrow> (ledger, branch) operation" where
  "accept branch_id receiver L =
     (case find_branch branch_id [OFFERED] L of
        Inl e \<Rightarrow> (Inl e, L)
      | Inr b \<Rightarrow>
          (case ensure_live b L of
             Inl e \<Rightarrow> (Inl e, L)
           | Inr _ \<Rightarrow>
               if receiver \<noteq> br_receiver b
               then (Inl (ProtocolError ''only the named receiver can accept''), L)
               else let b' = b\<lparr>br_state := ACCEPTED, br_accepted_round := Some (lg_round L)\<rparr>
                    in (Inr b', set_branch branch_id b' L)))"

definition commit :: "crypto \<Rightarrow> string \<Rightarrow> string \<Rightarrow> json \<Rightarrow> (ledger, branch) operation" where
  "commit C branch_id sender payload L =
     (case find_branch branch_id [ACCEPTED] L of
        Inl e \<Rightarrow> (Inl e, L)
      | Inr b \<Rightarrow>
          (case ensure_live b L of
             Inl e \<Rightarrow> (Inl e, L)
           | Inr _ \<Rightarrow>
               if sender \<noteq> br_sender b
               then (Inl (ProtocolError ''only the sender can commit''), L)
               else (case protocol_digest C ''splitchain/tx-commit/v1'' payload of
                   Inl e \<Rightarrow> (Inl e, L)
                 | Inr d \<Rightarrow>
                     let b' = b\<lparr>br_tx_digest := Some d, br_committed_round := Some (lg_round L),
                                br_state := COMMITTED\<rparr>
                     in (Inr b', set_branch branch_id b' L))))"

definition cancel :: "string \<Rightarrow> string \<Rightarrow> (ledger, branch) operation" where
  "cancel branch_id actor L =
     (case find_branch branch_id [OFFERED, ACCEPTED] L of
        Inl e \<Rightarrow> (Inl e, L)
      | Inr b \<Rightarrow>
          if actor \<noteq> br_sender b \<and> actor \<noteq> br_receiver b
          then (Inl (ProtocolError ''only a participant can cancel''), L)
          else let b' = b\<lparr>br_state := CANCELLED\<rparr>;
                   L1 = set_branch branch_id b' L
               in (case unlock b' L1 of
                     (Inl e, L2) \<Rightarrow> (Inl e, L2)
                   | (Inr _, L2) \<Rightarrow> (Inr b', L2)))"

section \<open>Rounds\<close>

text \<open>\<open>_finalize\<close>: the value moves, the stake and value are unlocked, a canonical block is added.\<close>

definition finalize :: "crypto \<Rightarrow> string \<Rightarrow> branch \<Rightarrow> (ledger, branch) operation" where
  "finalize C k b L =
     (case map_of (lg_balances L) (br_sender b) of
        None \<Rightarrow> (Inl KeyError, L)
      | Some x \<Rightarrow>
          let debited = AList.update (br_sender b) (x - br_value b) (lg_balances L);
              L1 = L\<lparr>lg_balances :=
                 AList.update (br_receiver b) (dict_get debited (br_receiver b) 0 + br_value b) debited\<rparr>
          in (case unlock b L1 of
                (Inl e, L2) \<Rightarrow> (Inl e, L2)
              | (Inr _, L2) \<Rightarrow>
                  let b' = b\<lparr>br_state := FINAL\<rparr>;
                      L3 = (set_branch k b' L2)\<lparr>
                        lg_finalized := lg_finalized L2 @
                          [JObj [(''branch_id'', JStr (br_id b)), (''tx_digest'', opt_str_json (br_tx_digest b))]],
                        lg_height := lg_height L2 + 1\<rparr>
                  in (case protocol_digest C ''splitchain/canonical-block/v1''
                        (JObj [(''branch_id'', JStr (br_id b)), (''height'', JInt (lg_height L3)),
                               (''parent'', JStr (lg_digest L3)), (''tx_digest'', opt_str_json (br_tx_digest b))]) of
                        Inl e \<Rightarrow> (Inl e, L3)
                      | Inr d \<Rightarrow> (Inr b', append_block d L3))))"

text \<open>The body of the inner loop of \<open>advance\<close>: the branch that changed, if it did.\<close>

definition age_branch :: "crypto \<Rightarrow> string \<Rightarrow> branch \<Rightarrow> (ledger, branch option) operation" where
  "age_branch C k b L =
     (if br_state b \<in> {OFFERED, ACCEPTED} then
        if lg_round L \<ge> br_expires_round b then
          let b' = b\<lparr>br_state := EXPIRED\<rparr>
          in (case unlock b' (set_branch k b' L) of
                (Inl e, L1) \<Rightarrow> (Inl e, L1)
              | (Inr _, L1) \<Rightarrow> (Inr (Some b'), L1))
        else (Inr None, L)
      else if br_state b = COMMITTED then
        (case br_committed_round b of
           None \<Rightarrow> (Inl (AssertionError ''branch.committed_round is not None''), L)
         | Some r \<Rightarrow>
             if lg_round L - r \<ge> FINALITY_ROUNDS then
               (case finalize C k b L of
                  (Inl e, L1) \<Rightarrow> (Inl e, L1)
                | (Inr b', L1) \<Rightarrow> (Inr (Some b'), L1))
             else (Inr None, L))
      else (Inr None, L))"

text \<open>
  The inner loop over \<open>self.branches.values()\<close>. The loop only stores to existing keys, so the
  keys taken at its start are the ones it visits.
\<close>

fun sweep :: "crypto \<Rightarrow> string list \<Rightarrow> branch list \<Rightarrow> (ledger, branch list) operation" where
  "sweep C [] changed L = (Inr changed, L)"
| "sweep C (k # ks) changed L =
     (case map_of (lg_branches L) k of
        None \<Rightarrow> sweep C ks changed L
      | Some b \<Rightarrow>
          (case age_branch C k b L of
             (Inl e, L1) \<Rightarrow> (Inl e, L1)
           | (Inr None, L1) \<Rightarrow> sweep C ks changed L1
           | (Inr (Some b'), L1) \<Rightarrow> sweep C ks (changed @ [b']) L1))"

definition tick :: "crypto \<Rightarrow> branch list \<Rightarrow> (ledger, branch list) operation" where
  "tick C changed L =
     (let L1 = L\<lparr>lg_round := lg_round L + 1\<rparr> in sweep C (keys (lg_branches L1)) changed L1)"

fun advance_loop :: "crypto \<Rightarrow> nat \<Rightarrow> branch list \<Rightarrow> (ledger, branch list) operation" where
  "advance_loop C 0 changed L = (Inr changed, L)"
| "advance_loop C (Suc n) changed L =
     (case tick C changed L of
        (Inl e, L1) \<Rightarrow> (Inl e, L1)
      | (Inr changed', L1) \<Rightarrow> advance_loop C n changed' L1)"

definition advance :: "crypto \<Rightarrow> int \<Rightarrow> (ledger, branch list) operation" where
  "advance C rounds L =
     (if rounds < 1 then (Inl (ProtocolError ''rounds must be positive''), L)
      else advance_loop C (nat rounds) [] L)"

section \<open>Mutations\<close>

text \<open>
  The six mutating methods, with their parameters bound, and the method switch of
  \<open>_apply_mutation\<close> in \<open>splitchain/node.py\<close>, whose results are the public JSON forms.
\<close>

datatype mutation =
    Offer string string int int
  | Accept string string
  | Commit string string json
  | Cancel string string
  | Advance int
  | Register string

fun apply_method :: "crypto \<Rightarrow> mutation \<Rightarrow> (ledger, json) operation" where
  "apply_method C (Offer sender receiver amount ttl) L =
     map_op branch_public (offer C sender receiver amount ttl L)"
| "apply_method C (Accept bid receiver) L = map_op branch_public (accept bid receiver L)"
| "apply_method C (Commit bid sender payload) L = map_op branch_public (commit C bid sender payload L)"
| "apply_method C (Cancel bid actor) L = map_op branch_public (cancel bid actor L)"
| "apply_method C (Advance rounds) L =
     map_op (\<lambda>changed. JList (map branch_public changed)) (advance C rounds L)"
| "apply_method C (Register account) L =
     map_op (\<lambda>(a, h). JObj [(''account'', JStr a), (''height'', JInt h)]) (register_account C account L)"

end
