(* ===== verification/Ledger_Invariants.thy ===== *)
theory Ledger_Invariants
  imports Ledger_Model
begin

text \<open>
  The invariant of the ledger and its preservation by every method: no negative balance or
  lock, no overspent account, equal stakes, recognised split points, a canonical head that is
  in the history, and locks that cover every open branch.
\<close>

section \<open>The invariant\<close>

definition is_open :: "branch \<Rightarrow> bool" where
  "is_open b = (br_state b \<in> {OFFERED, ACCEPTED, COMMITTED})"

text \<open>What an open branch locks on its sender's account, and what all of them lock on an account.\<close>

definition branch_lock :: "string \<Rightarrow> branch \<Rightarrow> int" where
  "branch_lock a b = (if is_open b \<and> br_sender b = a then br_value b + br_stake b else 0)"

definition open_locks :: "string \<Rightarrow> (string, branch) dict \<Rightarrow> int" where
  "open_locks a bs = sum_list (map (\<lambda>p. branch_lock a (snd p)) bs)"

definition wf_branch :: "ledger \<Rightarrow> string \<Rightarrow> branch \<Rightarrow> bool" where
  "wf_branch L k b =
     (br_id b = k \<and> 0 < br_value b \<and> br_stake b = br_value b
      \<and> map_of (lg_history L) (br_origin_height b) = Some (br_origin_digest b)
      \<and> (br_state b = COMMITTED \<longrightarrow> (\<exists>r. br_committed_round b = Some r \<and> r \<le> lg_round L))
      \<and> \<not> is_reserved L (br_sender b))"

definition ledger_inv :: "ledger \<Rightarrow> bool" where
  "ledger_inv L =
     (wf_dict (lg_balances L) \<and> wf_dict (lg_locked L) \<and> wf_dict (lg_branches L) \<and> wf_dict (lg_history L)
      \<and> (\<forall>a. 0 \<le> dict_get (lg_balances L) a 0)
      \<and> (\<forall>a. 0 \<le> dict_get (lg_locked L) a 0)
      \<and> (\<forall>a. 0 \<le> available L a)
      \<and> (\<forall>a. open_locks a (lg_branches L) \<le> dict_get (lg_locked L) a 0)
      \<and> (\<forall>k b. map_of (lg_branches L) k = Some b \<longrightarrow> wf_branch L k b)
      \<and> map_of (lg_history L) (lg_height L) = Some (lg_digest L)
      \<and> (\<forall>h. h \<in> dom (map_of (lg_history L)) \<longrightarrow> 0 \<le> h \<and> h \<le> lg_height L)
      \<and> 0 \<le> lg_round L \<and> 0 \<le> lg_height L)"

lemma ledger_invI:
  assumes "wf_dict (lg_balances L)" "wf_dict (lg_locked L)" "wf_dict (lg_branches L)" "wf_dict (lg_history L)"
    and "\<And>a. 0 \<le> dict_get (lg_balances L) a 0" "\<And>a. 0 \<le> dict_get (lg_locked L) a 0"
    and "\<And>a. 0 \<le> available L a" "\<And>a. open_locks a (lg_branches L) \<le> dict_get (lg_locked L) a 0"
    and "\<And>k b. map_of (lg_branches L) k = Some b \<Longrightarrow> wf_branch L k b"
    and "map_of (lg_history L) (lg_height L) = Some (lg_digest L)"
    and "\<And>h d. map_of (lg_history L) h = Some d \<Longrightarrow> 0 \<le> h \<and> h \<le> lg_height L"
    and "0 \<le> lg_round L" "0 \<le> lg_height L"
  shows "ledger_inv L"
  using assms unfolding ledger_inv_def by blast

lemma ledger_invD:
  assumes "ledger_inv L"
  shows "wf_dict (lg_balances L)" "wf_dict (lg_locked L)" "wf_dict (lg_branches L)" "wf_dict (lg_history L)"
    and "0 \<le> dict_get (lg_balances L) a 0" "0 \<le> dict_get (lg_locked L) a 0"
    and "0 \<le> available L a" "open_locks a (lg_branches L) \<le> dict_get (lg_locked L) a 0"
    and "map_of (lg_branches L) k = Some b \<Longrightarrow> wf_branch L k b"
    and "map_of (lg_history L) (lg_height L) = Some (lg_digest L)"
    and "map_of (lg_history L) h = Some d \<Longrightarrow> 0 \<le> h \<and> h \<le> lg_height L"
    and "0 \<le> lg_round L" "0 \<le> lg_height L"
  using assms unfolding ledger_inv_def by blast+

section \<open>Sums over branches\<close>

lemma sum_update:
  fixes f :: "'v \<Rightarrow> int"
  shows "wf_dict d \<Longrightarrow> sum_list (map (\<lambda>p. f (snd p)) (AList.update k v d)) =
     sum_list (map (\<lambda>p. f (snd p)) d) - (case map_of d k of None \<Rightarrow> 0 | Some x \<Rightarrow> f x) + f v"
proof (induction d)
  case Nil
  then show ?case by simp
next
  case (Cons p d)
  obtain k' v' where p: "p = (k', v')" by (cases p)
  from Cons.prems p have "wf_dict d" "map_of d k' = None"
    by (auto simp: wf_dict_def map_of_eq_None_iff)
  with Cons.IH p show ?case by auto
qed

lemma open_locks_update:
  "wf_dict bs \<Longrightarrow> open_locks a (AList.update k b bs) =
     open_locks a bs - (case map_of bs k of None \<Rightarrow> 0 | Some x \<Rightarrow> branch_lock a x) + branch_lock a b"
  unfolding open_locks_def by (rule sum_update)

lemma member_le_sum:
  fixes f :: "'a \<Rightarrow> int"
  shows "x \<in> set xs \<Longrightarrow> (\<And>y. y \<in> set xs \<Longrightarrow> 0 \<le> f y) \<Longrightarrow> f x \<le> sum_list (map f xs)"
proof (induction xs)
  case Nil
  then show ?case by simp
next
  case (Cons y ys)
  have "0 \<le> sum_list (map f ys)" using Cons.prems by (intro sum_list_nonneg) auto
  moreover have "0 \<le> f y" using Cons.prems(2) by simp
  moreover have "x \<in> set ys \<Longrightarrow> f x \<le> sum_list (map f ys)" using Cons by simp
  ultimately show ?case using Cons.prems(1) by fastforce
qed

lemma branch_lock_nonneg: "wf_branch L k b \<Longrightarrow> 0 \<le> branch_lock a b"
  by (simp add: wf_branch_def branch_lock_def)

lemma open_locks_ge:
  assumes "ledger_inv L" "map_of (lg_branches L) k = Some b"
  shows "branch_lock a b \<le> open_locks a (lg_branches L)"
proof -
  have mem: "(k, b) \<in> set (lg_branches L)" using assms(2) by (rule map_of_SomeD)
  have "0 \<le> branch_lock a (snd p)" if "p \<in> set (lg_branches L)" for p
  proof -
    have "map_of (lg_branches L) (fst p) = Some (snd p)"
      using that ledger_invD(3) [OF assms(1)] by (simp add: wf_dict_mem [symmetric])
    from ledger_invD(9) [OF assms(1) this] show ?thesis by (rule branch_lock_nonneg)
  qed
  from member_le_sum [OF mem, of "\<lambda>p. branch_lock a (snd p)", OF this] show ?thesis
    by (simp add: open_locks_def)
qed

text \<open>An open branch: its sender has a lock of twice the value and a balance above it.\<close>

lemma open_branch_funds:
  assumes "ledger_inv L" "map_of (lg_branches L) k = Some b" "is_open b"
  obtains x y where "map_of (lg_locked L) (br_sender b) = Some x"
    and "map_of (lg_balances L) (br_sender b) = Some y"
    and "2 * br_value b \<le> x" "x \<le> y" "0 < br_value b" "br_stake b = br_value b"
proof -
  have wf: "0 < br_value b" "br_stake b = br_value b"
    using ledger_invD(9) [OF assms(1,2)] by (auto simp: wf_branch_def)
  have "2 * br_value b \<le> open_locks (br_sender b) (lg_branches L)"
    using open_locks_ge [OF assms(1,2), of "br_sender b"] assms(3) wf by (simp add: branch_lock_def)
  also have "\<dots> \<le> dict_get (lg_locked L) (br_sender b) 0" using ledger_invD(8) [OF assms(1)] .
  finally have lock: "2 * br_value b \<le> dict_get (lg_locked L) (br_sender b) 0" .
  moreover have bal: "dict_get (lg_locked L) (br_sender b) 0 \<le> dict_get (lg_balances L) (br_sender b) 0"
    using ledger_invD(7) [OF assms(1), of "br_sender b"] by (simp add: available_def)
  ultimately show thesis
    using wf that by (cases "map_of (lg_locked L) (br_sender b)"; cases "map_of (lg_balances L) (br_sender b)")
      (auto simp: dict_simps)
qed

section \<open>Every method keeps the invariant\<close>

text \<open>Fields of a ledger under the elementary updates.\<close>

lemma wf_branch_cong:
  "lg_history L = lg_history L' \<Longrightarrow> lg_round L \<le> lg_round L' \<Longrightarrow> lg_genesis L = lg_genesis L' \<Longrightarrow>
     wf_branch L k b \<Longrightarrow> wf_branch L' k b"
  by (auto simp: wf_branch_def is_reserved_def)

lemma is_reserved_cong: "lg_genesis L' = lg_genesis L \<Longrightarrow> is_reserved L' a = is_reserved L a"
  by (simp add: is_reserved_def)

text \<open>A branch changes without a change of what it locks.\<close>

lemma set_branch_inv:
  assumes inv: "ledger_inv L" and b: "map_of (lg_branches L) k = Some b"
    and same: "\<And>a. branch_lock a b' = branch_lock a b" and wf: "wf_branch L k b'"
  shows "ledger_inv (set_branch k b' L)"
proof (rule ledger_invI)
  show "open_locks a (lg_branches (set_branch k b' L)) \<le> dict_get (lg_locked (set_branch k b' L)) a 0" for a
    using ledger_invD(3,8) [OF inv] b same by (simp add: set_branch_def open_locks_update)
  show "wf_branch (set_branch k b' L) k' c" if "map_of (lg_branches (set_branch k b' L)) k' = Some c" for k' c
  proof -
    have "wf_branch L k' c"
      using that wf ledger_invD(9) [OF inv, of k' c] by (auto simp: set_branch_def split: if_splits)
    then show ?thesis by (auto simp: set_branch_def intro: wf_branch_cong)
  qed
qed (use ledger_invD [OF inv] in \<open>auto simp: set_branch_def available_def\<close>)

text \<open>A branch is closed and its lock released.\<close>

definition release :: "string \<Rightarrow> branch \<Rightarrow> ledger \<Rightarrow> ledger" where
  "release k b L = (set_branch k b L)\<lparr>lg_locked :=
     AList.update (br_sender b) (dict_get (lg_locked L) (br_sender b) 0 - 2 * br_value b) (lg_locked L)\<rparr>"

lemma release_inv:
  assumes inv: "ledger_inv L" and b: "map_of (lg_branches L) k = Some b" and op: "is_open b"
    and b': "br_sender b' = br_sender b" "br_value b' = br_value b" "\<not> is_open b'" "wf_branch L k b'"
  shows "ledger_inv (release k b' L)"
proof -
  obtain x y where xy: "map_of (lg_locked L) (br_sender b) = Some x"
    "map_of (lg_balances L) (br_sender b) = Some y" "2 * br_value b \<le> x" "x \<le> y"
    "0 < br_value b" "br_stake b = br_value b"
    by (rule open_branch_funds [OF inv b op])
  have lock: "dict_get (lg_locked (release k b' L)) a 0
      = dict_get (lg_locked L) a 0 - (if a = br_sender b then 2 * br_value b else 0)" for a
    using b' by (simp add: release_def)
  have opens: "open_locks a (lg_branches (release k b' L))
      = open_locks a (lg_branches L) - (if a = br_sender b then 2 * br_value b else 0)" for a
    using ledger_invD(3) [OF inv] b b' op xy
    by (simp add: release_def set_branch_def open_locks_update branch_lock_def)
  show ?thesis
  proof (rule ledger_invI)
    show "0 \<le> dict_get (lg_locked (release k b' L)) a 0" for a
      using lock [of a] ledger_invD(6) [OF inv, of a] xy by (auto simp: dict_simps)
    show "0 \<le> available (release k b' L) a" for a
      using lock [of a] ledger_invD(7) [OF inv, of a] xy b'(1,2)
      by (auto simp: available_def release_def set_branch_def)
    show "open_locks a (lg_branches (release k b' L)) \<le> dict_get (lg_locked (release k b' L)) a 0" for a
      using lock [of a] opens [of a] ledger_invD(8) [OF inv, of a] by simp
    show "wf_branch (release k b' L) k' c" if "map_of (lg_branches (release k b' L)) k' = Some c" for k' c
    proof -
      have "wf_branch L k' c"
        using that b'(4) ledger_invD(9) [OF inv, of k' c]
        by (auto simp: release_def set_branch_def split: if_splits)
      then show ?thesis by (auto simp: release_def set_branch_def intro: wf_branch_cong)
    qed
  qed (use ledger_invD [OF inv] in \<open>auto simp: release_def set_branch_def\<close>)
qed

text \<open>On an open branch of a good ledger \<open>_unlock\<close> never raises.\<close>

lemma unlock_open:
  assumes "ledger_inv L" "map_of (lg_branches L) k = Some b" "is_open b"
    and "br_sender b' = br_sender b" "br_value b' = br_value b" "br_stake b' = br_stake b"
  shows "unlock b' (set_branch k b' L) = (Inr (), release k b' L)"
proof -
  obtain x y where "map_of (lg_locked L) (br_sender b) = Some x" "br_stake b = br_value b"
    by (rule open_branch_funds [OF assms(1-3)])
  with assms(4-6) show ?thesis
    by (simp add: unlock_def release_def set_branch_def dict_get_def)
qed

text \<open>Value moves between two accounts.\<close>

definition move_value :: "string \<Rightarrow> string \<Rightarrow> int \<Rightarrow> ledger \<Rightarrow> ledger" where
  "move_value s r v L =
     (let debited = AList.update s (dict_get (lg_balances L) s 0 - v) (lg_balances L)
      in L\<lparr>lg_balances := AList.update r (dict_get debited r 0 + v) debited\<rparr>)"

lemma move_value_balance:
  "dict_get (lg_balances (move_value s r v L)) a 0 =
     dict_get (lg_balances L) a 0 - (if a = s then v else 0) + (if a = r then v else 0)"
  by (simp add: move_value_def Let_def)

lemma move_value_frame [simp]:
  "lg_locked (move_value s r v L) = lg_locked L" "lg_branches (move_value s r v L) = lg_branches L"
  "lg_history (move_value s r v L) = lg_history L" "lg_height (move_value s r v L) = lg_height L"
  "lg_digest (move_value s r v L) = lg_digest L" "lg_round (move_value s r v L) = lg_round L"
  "lg_genesis (move_value s r v L) = lg_genesis L" "lg_finalized (move_value s r v L) = lg_finalized L"
  by (simp_all add: move_value_def Let_def)

lemma move_value_inv:
  assumes inv: "ledger_inv L" and v: "0 \<le> v" "v \<le> available L s"
  shows "ledger_inv (move_value s r v L)"
proof (rule ledger_invI)
  have avail: "available (move_value s r v L) a =
      available L a - (if a = s then v else 0) + (if a = r then v else 0)" for a
    by (simp add: available_def move_value_balance)
  show a: "0 \<le> available (move_value s r v L) a" for a
    using avail [of a] v ledger_invD(7) [OF inv, of a] by auto
  show "0 \<le> dict_get (lg_balances (move_value s r v L)) a 0" for a
    using a [of a] ledger_invD(6) [OF inv, of a] by (simp add: available_def)
  show "wf_dict (lg_balances (move_value s r v L))"
    using ledger_invD(1) [OF inv] by (simp add: move_value_def Let_def)
  show "wf_branch (move_value s r v L) k b" if "map_of (lg_branches (move_value s r v L)) k = Some b" for k b
    using that ledger_invD(9) [OF inv, of k b] by (auto intro: wf_branch_cong [of L])
qed (use ledger_invD [OF inv] in simp_all)

text \<open>A canonical block is added.\<close>

lemma append_block_inv:
  assumes inv: "ledger_inv L"
  shows "ledger_inv (append_block d (L\<lparr>lg_height := lg_height L + 1\<rparr>))" (is "ledger_inv ?L")
proof (rule ledger_invI)
  show "0 \<le> h \<and> h \<le> lg_height ?L" if "map_of (lg_history ?L) h = Some x" for h x
    using that ledger_invD(11) [OF inv, of h x] ledger_invD(13) [OF inv]
    by (auto simp: append_block_def split: if_splits)
  show "wf_branch ?L k b" if "map_of (lg_branches ?L) k = Some b" for k b
  proof -
    have "wf_branch L k b" using that ledger_invD(9) [OF inv, of k b] by (simp add: append_block_def)
    moreover from this have "br_origin_height b \<le> lg_height L"
      using ledger_invD(11) [OF inv] by (auto simp: wf_branch_def)
    ultimately show ?thesis
      by (auto simp: wf_branch_def append_block_def is_reserved_def)
  qed
qed (use ledger_invD [OF inv] in \<open>auto simp: append_block_def available_def\<close>)

lemma finalized_inv: "ledger_inv (L\<lparr>lg_finalized := fs\<rparr>) \<longleftrightarrow> ledger_inv L"
  by (simp add: ledger_inv_def wf_branch_def is_reserved_def available_def)

text \<open>The ledger after \<open>_finalize\<close>, as a composition of the elementary updates.\<close>

definition block_json :: "branch \<Rightarrow> int \<Rightarrow> string \<Rightarrow> json" where
  "block_json b height parent = JObj
     [(''branch_id'', JStr (br_id b)), (''height'', JInt height), (''parent'', JStr parent),
      (''tx_digest'', opt_str_json (br_tx_digest b))]"

definition settle :: "crypto \<Rightarrow> string \<Rightarrow> branch \<Rightarrow> ledger \<Rightarrow> ledger" where
  "settle C k b L =
     (let L1 = move_value (br_sender b) (br_receiver b) (br_value b) (release k (b\<lparr>br_state := FINAL\<rparr>) L);
          L2 = L1\<lparr>lg_finalized := lg_finalized L @
            [JObj [(''branch_id'', JStr (br_id b)), (''tx_digest'', opt_str_json (br_tx_digest b))]]\<rparr>
      in append_block
           (sha256 C (digest_input ''splitchain/canonical-block/v1''
              (block_json b (lg_height L + 1) (lg_digest L))))
           (L2\<lparr>lg_height := lg_height L + 1\<rparr>))"

lemma opt_str_json_finite [simp]: "\<not> has_nonfinite (opt_str_json s)"
  by (cases s) simp_all

lemma block_digest [simp]:
  "protocol_digest C ''splitchain/canonical-block/v1'' (block_json b h p)
     = Inr (sha256 C (digest_input ''splitchain/canonical-block/v1'' (block_json b h p)))"
  by (rule protocol_digest_ok) (simp_all add: is_ascii_def block_json_def)

lemma finalize_open:
  assumes "ledger_inv L" "map_of (lg_branches L) k = Some b" "is_open b"
  shows "finalize C k b L = (Inr (b\<lparr>br_state := FINAL\<rparr>), settle C k b L)"
proof -
  obtain x y where "map_of (lg_locked L) (br_sender b) = Some x"
    "map_of (lg_balances L) (br_sender b) = Some y" "br_stake b = br_value b"
    by (rule open_branch_funds [OF assms])
  then show ?thesis
    by (simp add: finalize_def settle_def unlock_def set_branch_def release_def move_value_def Let_def
        block_json_def [symmetric] append_block_def dict_get_def)
qed

lemma settle_inv:
  assumes inv: "ledger_inv L" and b: "map_of (lg_branches L) k = Some b" "is_open b"
  shows "ledger_inv (settle C k b L)"
proof -
  let ?b = "b\<lparr>br_state := FINAL\<rparr>"
  let ?R = "release k ?b L"
  obtain x y where xy: "map_of (lg_locked L) (br_sender b) = Some x" "br_stake b = br_value b"
    "2 * br_value b \<le> x" "0 < br_value b"
    by (rule open_branch_funds [OF inv b])
  have "wf_branch L k ?b" using ledger_invD(9) [OF inv b(1)] by (simp add: wf_branch_def)
  then have R: "ledger_inv ?R"
    by (intro release_inv [OF inv b]) (simp_all add: is_open_def)
  have "br_value b \<le> available ?R (br_sender b)"
    using ledger_invD(7) [OF inv, of "br_sender b"] xy
    by (simp add: available_def release_def set_branch_def)
  then have "ledger_inv (move_value (br_sender b) (br_receiver b) (br_value b) ?R)"
    using R xy by (intro move_value_inv) auto
  then have "ledger_inv (move_value (br_sender b) (br_receiver b) (br_value b) ?R\<lparr>lg_finalized := lg_finalized L @
      [JObj [(''branch_id'', JStr (br_id b)), (''tx_digest'', opt_str_json (br_tx_digest b))]]\<rparr>)"
    by (simp add: finalized_inv)
  from append_block_inv [OF this] show ?thesis
    by (simp add: settle_def Let_def release_def set_branch_def append_block_def)
qed

section \<open>Case analysis of the methods\<close>

text \<open>
  One rule per method: either the call is rejected with a \<open>ProtocolError\<close> and changes nothing,
  or it is accepted with its guards and its effect. The invariant, the frame of rejected calls and the
  lifecycle of branches are all read off these rules.
\<close>

lemma find_branch_Inr:
  "find_branch k states L = Inr b \<longleftrightarrow> map_of (lg_branches L) k = Some b \<and> br_state b \<in> set states"
  by (auto simp: find_branch_def split: option.splits)

lemma find_branch_Inl: "find_branch k states L = Inl e \<Longrightarrow> \<exists>m. e = ProtocolError m"
  by (auto simp: find_branch_def split: option.splits if_splits)

lemma accept_cases:
  obtains (rejected) m where "accept k r L = (Inl (ProtocolError m), L)"
  | (accepted) b b' where "map_of (lg_branches L) k = Some b" "br_state b = OFFERED"
      "lg_round L < br_expires_round b" "r = br_receiver b"
      "b' = b\<lparr>br_state := ACCEPTED, br_accepted_round := Some (lg_round L)\<rparr>"
      "accept k r L = (Inr b', set_branch k b' L)"
proof (cases "find_branch k [OFFERED] L")
  case (Inl e)
  with find_branch_Inl [OF this] rejected show thesis by (auto simp: accept_def)
next
  case (Inr b)
  show thesis
  proof (cases "lg_round L < br_expires_round b \<and> r = br_receiver b")
    case True
    with Inr Inr [unfolded find_branch_Inr] show thesis
      by (intro accepted [of b]) (simp_all add: accept_def ensure_live_def Let_def)
  next
    case False
    with Inr have "\<exists>m. accept k r L = (Inl (ProtocolError m), L)"
      by (auto simp: accept_def ensure_live_def)
    with rejected show thesis by blast
  qed
qed

lemma commit_cases:
  obtains (rejected) m where "commit C k s p L = (Inl (ProtocolError m), L)"
  | (accepted) b b' d where "map_of (lg_branches L) k = Some b" "br_state b = ACCEPTED"
      "lg_round L < br_expires_round b" "s = br_sender b"
      "protocol_digest C ''splitchain/tx-commit/v1'' p = Inr d"
      "b' = b\<lparr>br_tx_digest := Some d, br_committed_round := Some (lg_round L), br_state := COMMITTED\<rparr>"
      "commit C k s p L = (Inr b', set_branch k b' L)"
proof (cases "find_branch k [ACCEPTED] L")
  case (Inl e)
  with find_branch_Inl [OF this] rejected show thesis by (auto simp: commit_def)
next
  case found: (Inr b)
  have err: "\<exists>m. e = ProtocolError m" if "protocol_digest C ''splitchain/tx-commit/v1'' p = Inl e" for e
    using that by (auto simp: protocol_digest_def is_ascii_def canonical_json_def split: if_splits)
  show thesis
  proof (cases "lg_round L < br_expires_round b \<and> s = br_sender b")
    case True
    show thesis
    proof (cases "protocol_digest C ''splitchain/tx-commit/v1'' p")
      case (Inl e)
      with err [OF Inl] found True rejected show thesis by (auto simp: commit_def ensure_live_def)
    next
      case (Inr d)
      with found found [unfolded find_branch_Inr] True show thesis
        by (intro accepted [of b d]) (simp_all add: commit_def ensure_live_def Let_def)
    qed
  next
    case False
    with found have "\<exists>m. commit C k s p L = (Inl (ProtocolError m), L)"
      by (auto simp: commit_def ensure_live_def)
    with rejected show thesis by blast
  qed
qed

lemma cancel_cases:
  assumes "ledger_inv L"
  obtains (rejected) m where "cancel k a L = (Inl (ProtocolError m), L)"
  | (accepted) b b' where "map_of (lg_branches L) k = Some b" "br_state b \<in> {OFFERED, ACCEPTED}"
      "a \<in> {br_sender b, br_receiver b}" "b' = b\<lparr>br_state := CANCELLED\<rparr>"
      "cancel k a L = (Inr b', release k b' L)"
proof (cases "find_branch k [OFFERED, ACCEPTED] L")
  case (Inl e)
  then show thesis
    using rejected by (auto simp: cancel_def find_branch_def split: option.splits if_splits)
next
  case (Inr b)
  then have b: "map_of (lg_branches L) k = Some b" "br_state b \<in> {OFFERED, ACCEPTED}"
    by (auto simp: find_branch_def split: option.splits if_splits)
  then have "unlock (b\<lparr>br_state := CANCELLED\<rparr>) (set_branch k (b\<lparr>br_state := CANCELLED\<rparr>) L)
      = (Inr (), release k (b\<lparr>br_state := CANCELLED\<rparr>) L)"
    by (intro unlock_open [OF assms]) (auto simp: is_open_def)
  note eval = this Inr b
  show thesis
  proof (cases "a \<in> {br_sender b, br_receiver b}")
    case True
    with eval show thesis by (intro accepted [of b]) (auto simp: cancel_def Let_def)
  next
    case False
    with eval show thesis by (intro rejected) (auto simp: cancel_def)
  qed
qed

lemma branch_id_digest [simp]:
  "protocol_digest C ''splitchain/branch-id/v1'' (branch_id_json L s r v)
     = Inr (sha256 C (digest_input ''splitchain/branch-id/v1'' (branch_id_json L s r v)))"
  by (rule protocol_digest_ok) (simp_all add: is_ascii_def branch_id_json_def)

definition offer_id :: "crypto \<Rightarrow> ledger \<Rightarrow> string \<Rightarrow> string \<Rightarrow> int \<Rightarrow> string" where
  "offer_id C L s r v =
     take 16 (sha256 C (digest_input ''splitchain/branch-id/v1'' (branch_id_json L s r v)))"

definition locked_more :: "string \<Rightarrow> int \<Rightarrow> ledger \<Rightarrow> ledger" where
  "locked_more s v L = L\<lparr>lg_locked := AList.update s (dict_get (lg_locked L) s 0 + v) (lg_locked L)\<rparr>"

lemma offer_cases:
  obtains (rejected) m where "offer C s r v ttl L = (Inl (ProtocolError m), L)"
  | (accepted) b where "\<not> is_reserved L s" "0 < v" "3 \<le> ttl" "s \<noteq> r" "dict_has (lg_balances L) r"
      "2 * v \<le> available L s" "b = new_branch L (offer_id C L s r v) s r v ttl"
      "offer C s r v ttl L = (Inr b, locked_more s (2 * v) (set_branch (offer_id C L s r v) b L))"
proof (cases "\<not> is_reserved L s \<and> 0 < v \<and> 3 \<le> ttl \<and> s \<noteq> r \<and> dict_has (lg_balances L) r \<and> 2 * v \<le> available L s")
  case True
  then show thesis
    by (intro accepted [OF _ _ _ _ _ _ refl])
      (simp_all add: offer_def offer_id_def locked_more_def FINALITY_ROUNDS_def Let_def mult.commute [of v 2])
next
  case False
  then have "\<exists>m. offer C s r v ttl L = (Inl (ProtocolError m), L)"
    by (auto simp: offer_def FINALITY_ROUNDS_def)
  with rejected show thesis by blast
qed

lemma offer_inv:
  assumes inv: "ledger_inv L" shows "ledger_inv (snd (offer C s r v ttl L))"
proof (cases rule: offer_cases [of C s r v ttl L])
  case rejected
  with inv show ?thesis by simp
next
  case (accepted b)
  let ?k = "offer_id C L s r v" and ?L = "snd (offer C s r v ttl L)"
  have L: "?L = locked_more s (2 * v) (set_branch ?k b L)" using accepted by simp
  have wf: "wf_branch L ?k b"
    using accepted ledger_invD(10) [OF inv] by (simp add: wf_branch_def new_branch_def)
  have lock: "dict_get (lg_locked ?L) a 0 = dict_get (lg_locked L) a 0 + (if a = s then 2 * v else 0)" for a
    by (simp add: L locked_more_def set_branch_def)
  show ?thesis
  proof (rule ledger_invI)
    show "0 \<le> dict_get (lg_locked ?L) a 0" for a
      using lock [of a] ledger_invD(6) [OF inv, of a] accepted by auto
    show "0 \<le> available ?L a" for a
      using lock [of a] ledger_invD(7) [OF inv, of a] accepted
      by (auto simp: L available_def locked_more_def set_branch_def)
    show "open_locks a (lg_branches ?L) \<le> dict_get (lg_locked ?L) a 0" for a
    proof -
      have "branch_lock a b = (if a = s then 2 * v else 0)"
        using accepted by (auto simp: branch_lock_def new_branch_def is_open_def)
      moreover have "0 \<le> (case map_of (lg_branches L) ?k of None \<Rightarrow> 0 | Some x \<Rightarrow> branch_lock a x)"
        using ledger_invD(9) [OF inv, of ?k] by (auto split: option.splits intro: branch_lock_nonneg)
      ultimately show ?thesis
        using lock [of a] ledger_invD(3) [OF inv] ledger_invD(8) [OF inv, of a]
        by (simp add: L locked_more_def set_branch_def open_locks_update)
    qed
    show "wf_branch ?L k c" if "map_of (lg_branches ?L) k = Some c" for k c
    proof -
      have "wf_branch L k c"
        using that wf ledger_invD(9) [OF inv, of k c]
        by (auto simp: L locked_more_def set_branch_def split: if_splits)
      then show ?thesis by (auto simp: L locked_more_def set_branch_def intro: wf_branch_cong)
    qed
  qed (use ledger_invD [OF inv] in \<open>auto simp: L locked_more_def set_branch_def\<close>)
qed

lemma accept_inv:
  assumes inv: "ledger_inv L" shows "ledger_inv (snd (accept k r L))"
proof (cases rule: accept_cases [of k r L])
  case rejected
  with inv show ?thesis by simp
next
  case (accepted b b')
  have "wf_branch L k b'" using ledger_invD(9) [OF inv accepted(1)] accepted by (simp add: wf_branch_def)
  moreover have "branch_lock a b' = branch_lock a b" for a
    using accepted by (simp add: branch_lock_def is_open_def)
  ultimately show ?thesis using accepted set_branch_inv [OF inv accepted(1)] by simp
qed

lemma commit_inv:
  assumes inv: "ledger_inv L" shows "ledger_inv (snd (commit C k s p L))"
proof (cases rule: commit_cases [of C k s p L])
  case rejected
  with inv show ?thesis by simp
next
  case (accepted b b' d)
  have "wf_branch L k b'" using ledger_invD(9) [OF inv accepted(1)] accepted by (simp add: wf_branch_def)
  moreover have "branch_lock a b' = branch_lock a b" for a
    using accepted by (simp add: branch_lock_def is_open_def)
  ultimately show ?thesis using accepted set_branch_inv [OF inv accepted(1)] by simp
qed

lemma cancel_inv:
  assumes inv: "ledger_inv L" shows "ledger_inv (snd (cancel k a L))"
proof (cases rule: cancel_cases [OF inv, of k a])
  case 1
  with inv show ?thesis by simp
next
  case (2 b b')
  have "wf_branch L k b'" using ledger_invD(9) [OF inv 2(1)] 2 by (simp add: wf_branch_def)
  then show ?thesis using 2 release_inv [OF inv 2(1)] by (auto simp: is_open_def)
qed

section \<open>Registration and rounds\<close>

definition register_json :: "ledger \<Rightarrow> string \<Rightarrow> json" where
  "register_json L account = JObj
     [(''account'', JStr account), (''height'', JInt (lg_height L + 1)),
      (''parent'', JStr (lg_digest L)), (''type'', JStr ''account.register'')]"

lemma register_digest [simp]:
  "protocol_digest C ''splitchain/canonical-block/v1'' (register_json L a)
     = Inr (sha256 C (digest_input ''splitchain/canonical-block/v1'' (register_json L a)))"
  by (rule protocol_digest_ok) (simp_all add: is_ascii_def register_json_def)

definition new_account :: "string \<Rightarrow> ledger \<Rightarrow> ledger" where
  "new_account a L = L\<lparr>lg_balances := AList.update a 0 (lg_balances L)\<rparr>"

lemma register_cases:
  obtains (rejected) m where "register_account C a L = (Inl (ProtocolError m), L)"
  | (accepted) d where "account_name a" "\<not> starts_with a ''testnet_''" "\<not> dict_has (lg_balances L) a"
      "d = sha256 C (digest_input ''splitchain/canonical-block/v1'' (register_json L a))"
      "register_account C a L = (Inr (a, lg_height L + 1),
         append_block d (new_account a L\<lparr>lg_height := lg_height L + 1\<rparr>))"
proof (cases "account_name a \<and> \<not> starts_with a ''testnet_'' \<and> \<not> dict_has (lg_balances L) a")
  case True
  then show thesis
    by (intro accepted [OF _ _ _ refl])
      (simp_all add: register_account_def new_account_def Let_def register_json_def [symmetric])
next
  case False
  then have "\<exists>m. register_account C a L = (Inl (ProtocolError m), L)"
    by (auto simp: register_account_def)
  with rejected show thesis by blast
qed

lemma new_account_inv:
  assumes inv: "ledger_inv L" and new: "\<not> dict_has (lg_balances L) a"
  shows "ledger_inv (new_account a L)"
proof -
  have zero: "dict_get (lg_balances L) a 0 = 0" using new by (simp add: dict_has_def dict_get_def)
  then have bal: "dict_get (lg_balances (new_account a L)) b 0 = dict_get (lg_balances L) b 0" for b
    by (simp add: new_account_def)
  show ?thesis
  proof (rule ledger_invI)
    show "0 \<le> available (new_account a L) b" for b
      using bal [of b] ledger_invD(7) [OF inv, of b] by (simp add: available_def new_account_def)
    show "wf_branch (new_account a L) k b" if "map_of (lg_branches (new_account a L)) k = Some b" for k b
      using that ledger_invD(9) [OF inv, of k b] by (auto simp: new_account_def intro: wf_branch_cong [of L])
  qed (use ledger_invD [OF inv] bal in \<open>auto simp: new_account_def\<close>)
qed

lemma register_inv:
  assumes inv: "ledger_inv L" shows "ledger_inv (snd (register_account C a L))"
proof (cases rule: register_cases [of C a L])
  case rejected
  with inv show ?thesis by simp
next
  case (accepted d)
  from append_block_inv [OF new_account_inv [OF inv accepted(3)], of d] accepted show ?thesis
    by (simp add: new_account_def)
qed

lemma next_round_inv:
  assumes inv: "ledger_inv L" shows "ledger_inv (L\<lparr>lg_round := lg_round L + 1\<rparr>)" (is "ledger_inv ?L")
proof (rule ledger_invI)
  show "0 \<le> available ?L a" for a
    using ledger_invD(7) [OF inv, of a] by (simp add: available_def)
  show "wf_branch ?L k b" if "map_of (lg_branches ?L) k = Some b" for k b
    using that ledger_invD(9) [OF inv, of k b] by (auto intro: wf_branch_cong [of L])
qed (use ledger_invD [OF inv] in simp_all)

text \<open>What one step of the inner loop does to one branch, on a good ledger.\<close>

lemma age_cases:
  assumes "ledger_inv L" "map_of (lg_branches L) k = Some b"
  obtains (idle) "age_branch C k b L = (Inr None, L)"
      "br_state b \<in> {OFFERED, ACCEPTED} \<Longrightarrow> lg_round L < br_expires_round b"
      "\<And>r. br_state b = COMMITTED \<Longrightarrow> br_committed_round b = Some r \<Longrightarrow> lg_round L < r + 3"
  | (expired) "br_state b \<in> {OFFERED, ACCEPTED}" "br_expires_round b \<le> lg_round L"
      "age_branch C k b L = (Inr (Some (b\<lparr>br_state := EXPIRED\<rparr>)), release k (b\<lparr>br_state := EXPIRED\<rparr>) L)"
  | (final) r where "br_state b = COMMITTED" "br_committed_round b = Some r" "r + 3 \<le> lg_round L"
      "age_branch C k b L = (Inr (Some (b\<lparr>br_state := FINAL\<rparr>)), settle C k b L)"
proof -
  have open_case: "is_open b \<or> br_state b \<in> {FINAL, CANCELLED, EXPIRED}"
    by (cases "br_state b") (simp_all add: is_open_def)
  consider (pending) "br_state b \<in> {OFFERED, ACCEPTED}" | (committed) "br_state b = COMMITTED"
    | (closed) "br_state b \<in> {FINAL, CANCELLED, EXPIRED}"
    by (cases "br_state b") simp_all
  then show thesis
  proof cases
    case pending
    then have "is_open b" by (auto simp: is_open_def)
    then have "unlock (b\<lparr>br_state := EXPIRED\<rparr>) (set_branch k (b\<lparr>br_state := EXPIRED\<rparr>) L)
        = (Inr (), release k (b\<lparr>br_state := EXPIRED\<rparr>) L)"
      by (intro unlock_open [OF assms]) auto
    note unlocked = this
    show thesis
    proof (cases "br_expires_round b \<le> lg_round L")
      case True
      with pending unlocked show thesis by (intro expired) (simp_all add: age_branch_def Let_def)
    next
      case False
      with pending show thesis by (intro idle) (auto simp: age_branch_def)
    qed
  next
    case committed
    then have op: "is_open b" by (simp add: is_open_def)
    from committed ledger_invD(9) [OF assms] obtain r where r: "br_committed_round b = Some r"
      by (auto simp: wf_branch_def)
    show thesis
    proof (cases "r + 3 \<le> lg_round L")
      case True
      with committed r finalize_open [OF assms op, of C] show thesis
        by (intro final [of r]) (auto simp: age_branch_def FINALITY_ROUNDS_def)
    next
      case False
      with committed r show thesis
        by (intro idle) (auto simp: age_branch_def FINALITY_ROUNDS_def)
    qed
  next
    case closed
    then show thesis by (intro idle) (auto simp: age_branch_def)
  qed
qed

lemma age_inv:
  assumes "ledger_inv L" "map_of (lg_branches L) k = Some b"
  shows "ledger_inv (snd (age_branch C k b L)) \<and> (\<exists>x. fst (age_branch C k b L) = Inr x)"
proof (cases rule: age_cases [OF assms, of C])
  case 1
  with assms show ?thesis by simp
next
  case 2
  have "wf_branch L k (b\<lparr>br_state := EXPIRED\<rparr>)"
    using ledger_invD(9) [OF assms] by (simp add: wf_branch_def)
  with 2 release_inv [OF assms] show ?thesis by (auto simp: is_open_def)
next
  case (3 r)
  with settle_inv [OF assms] show ?thesis by (simp add: is_open_def)
qed

text \<open>The loops keep the invariant and never raise.\<close>

lemma sweep_inv:
  "ledger_inv L \<Longrightarrow> ledger_inv (snd (sweep C ks ch L)) \<and> (\<exists>x. fst (sweep C ks ch L) = Inr x)"
proof (induction ks arbitrary: ch L)
  case Nil
  then show ?case by simp
next
  case (Cons k ks)
  show ?case
  proof (cases "map_of (lg_branches L) k")
    case None
    with Cons show ?thesis by simp
  next
    case (Some b)
    from age_inv [OF Cons.prems Some, of C] obtain x L' where
      "age_branch C k b L = (Inr x, L')" and inv: "ledger_inv L'"
      by (cases "age_branch C k b L") auto
    with Some Cons.IH [OF inv] show ?thesis by (cases x) simp_all
  qed
qed

lemma tick_inv:
  "ledger_inv L \<Longrightarrow> ledger_inv (snd (tick C ch L)) \<and> (\<exists>x. fst (tick C ch L) = Inr x)"
  unfolding tick_def Let_def by (rule sweep_inv [OF next_round_inv])

lemma advance_loop_inv:
  "ledger_inv L \<Longrightarrow> ledger_inv (snd (advance_loop C n ch L)) \<and> (\<exists>x. fst (advance_loop C n ch L) = Inr x)"
proof (induction n arbitrary: ch L)
  case 0
  then show ?case by simp
next
  case (Suc n)
  from tick_inv [OF Suc.prems, of C ch] obtain x L' where
    "tick C ch L = (Inr x, L')" and inv: "ledger_inv L'"
    by (cases "tick C ch L") auto
  with Suc.IH [OF inv] show ?case by simp
qed

lemma advance_inv: "ledger_inv L \<Longrightarrow> ledger_inv (snd (advance C n L))"
  using advance_loop_inv [of L C "nat n" "[]"] by (simp add: advance_def)

lemma advance_error: "ledger_inv L \<Longrightarrow> fst (advance C n L) = Inl e \<Longrightarrow> n < 1 \<and> snd (advance C n L) = L \<and> (\<exists>m. e = ProtocolError m)"
  using advance_loop_inv [of L C "nat n" "[]"] by (auto simp: advance_def split: if_splits)

end
