(* ===== verification/Ledger_Steps.thy ===== *)
theory Ledger_Steps
  imports Ledger_Invariants
begin

text \<open>
  The ledger as a state machine. \<open>branch_move\<close> has one rule per elementary transition that
  keeps the set of branch ids (accept, commit, cancel, expire, finalize, next round, register), and
  \<open>ledger_move\<close> adds the offers; every method of the ledger, loops included, is a sequence of
  such moves. Properties of whole runs are proved once per move.
\<close>

section \<open>Elementary moves\<close>

inductive branch_move :: "crypto \<Rightarrow> ledger \<Rightarrow> ledger \<Rightarrow> bool" for C where
  accept_move: "map_of (lg_branches L) k = Some b \<Longrightarrow> br_state b = OFFERED
    \<Longrightarrow> lg_round L < br_expires_round b
    \<Longrightarrow> b' = b\<lparr>br_state := ACCEPTED, br_accepted_round := Some (lg_round L)\<rparr>
    \<Longrightarrow> branch_move C L (set_branch k b' L)"
| commit_move: "map_of (lg_branches L) k = Some b \<Longrightarrow> br_state b = ACCEPTED
    \<Longrightarrow> lg_round L < br_expires_round b
    \<Longrightarrow> b' = b\<lparr>br_tx_digest := Some d, br_committed_round := Some (lg_round L), br_state := COMMITTED\<rparr>
    \<Longrightarrow> branch_move C L (set_branch k b' L)"
| cancel_move: "map_of (lg_branches L) k = Some b \<Longrightarrow> br_state b \<in> {OFFERED, ACCEPTED}
    \<Longrightarrow> branch_move C L (release k (b\<lparr>br_state := CANCELLED\<rparr>) L)"
| expire_move: "map_of (lg_branches L) k = Some b \<Longrightarrow> br_state b \<in> {OFFERED, ACCEPTED}
    \<Longrightarrow> br_expires_round b \<le> lg_round L
    \<Longrightarrow> branch_move C L (release k (b\<lparr>br_state := EXPIRED\<rparr>) L)"
| final_move: "map_of (lg_branches L) k = Some b \<Longrightarrow> br_state b = COMMITTED
    \<Longrightarrow> br_committed_round b = Some r \<Longrightarrow> r + 3 \<le> lg_round L
    \<Longrightarrow> branch_move C L (settle C k b L)"
| round_move: "branch_move C L (L\<lparr>lg_round := lg_round L + 1\<rparr>)"
| register_move: "\<not> dict_has (lg_balances L) a
    \<Longrightarrow> branch_move C L (append_block d (new_account a L\<lparr>lg_height := lg_height L + 1\<rparr>))"

inductive ledger_move :: "crypto \<Rightarrow> ledger \<Rightarrow> ledger \<Rightarrow> bool" for C where
  offer_move: "\<not> is_reserved L s \<Longrightarrow> 0 < v \<Longrightarrow> 3 \<le> ttl \<Longrightarrow> s \<noteq> r \<Longrightarrow> dict_has (lg_balances L) r
    \<Longrightarrow> 2 * v \<le> available L s \<Longrightarrow> k = offer_id C L s r v \<Longrightarrow> b = new_branch L k s r v ttl
    \<Longrightarrow> ledger_move C L (locked_more s (2 * v) (set_branch k b L))"
| inner_move: "branch_move C L L' \<Longrightarrow> ledger_move C L L'"

lemma branch_move_inv: "branch_move C L L' \<Longrightarrow> ledger_inv L \<Longrightarrow> ledger_inv L'"
proof (induction rule: branch_move.induct)
  case (accept_move L k b b')
  then have "wf_branch L k b'" using ledger_invD(9) [OF accept_move.prems accept_move(1)]
    by (simp add: wf_branch_def)
  with accept_move show ?case
    by (intro set_branch_inv [of L k b]) (simp_all add: branch_lock_def is_open_def)
next
  case (commit_move L k b b' d)
  then have "wf_branch L k b'" using ledger_invD(9) [OF commit_move.prems commit_move(1)]
    by (simp add: wf_branch_def)
  with commit_move show ?case
    by (intro set_branch_inv [of L k b]) (simp_all add: branch_lock_def is_open_def)
next
  case (cancel_move L k b)
  then show ?case using ledger_invD(9) [OF cancel_move.prems cancel_move(1)]
    by (intro release_inv [of L k b]) (auto simp: is_open_def wf_branch_def)
next
  case (expire_move L k b)
  then show ?case using ledger_invD(9) [OF expire_move.prems expire_move(1)]
    by (intro release_inv [of L k b]) (auto simp: is_open_def wf_branch_def)
next
  case (final_move L k b r)
  then show ?case by (intro settle_inv) (simp_all add: is_open_def)
next
  case (round_move L)
  then show ?case by (rule next_round_inv)
next
  case (register_move L a d)
  from append_block_inv [OF new_account_inv [OF register_move.prems register_move(1)], of d]
  show ?case by (simp add: new_account_def)
qed

lemma ledger_move_inv: "ledger_move C L L' \<Longrightarrow> ledger_inv L \<Longrightarrow> ledger_inv L'"
proof (induction rule: ledger_move.induct)
  case (offer_move L s v ttl r k b)
  then have "offer C s r v ttl L = (Inr b, locked_more s (2 * v) (set_branch k b L))"
    by (simp add: offer_def offer_id_def locked_more_def FINALITY_ROUNDS_def Let_def mult.commute [of v 2])
  with offer_inv [OF offer_move.prems, of C s r v ttl] show ?case by simp
next
  case (inner_move L L')
  then show ?case by (blast intro: branch_move_inv)
qed

abbreviation branch_moves :: "crypto \<Rightarrow> ledger \<Rightarrow> ledger \<Rightarrow> bool" where
  "branch_moves C \<equiv> (branch_move C)\<^sup>*\<^sup>*"

abbreviation ledger_moves :: "crypto \<Rightarrow> ledger \<Rightarrow> ledger \<Rightarrow> bool" where
  "ledger_moves C \<equiv> (ledger_move C)\<^sup>*\<^sup>*"

lemma ledger_moves_inv: "ledger_moves C L L' \<Longrightarrow> ledger_inv L \<Longrightarrow> ledger_inv L'"
  by (induction rule: rtranclp_induct) (auto intro: ledger_move_inv)

section \<open>Methods are sequences of moves\<close>

lemma age_moves:
  assumes "ledger_inv L" "map_of (lg_branches L) k = Some b"
  shows "branch_moves C L (snd (age_branch C k b L))"
proof (cases rule: age_cases [OF assms, of C])
  case 1
  then show ?thesis by simp
next
  case 2
  with assms show ?thesis by (auto intro: expire_move)
next
  case (3 r)
  with assms show ?thesis by (auto intro: final_move)
qed

lemma sweep_moves: "ledger_inv L \<Longrightarrow> branch_moves C L (snd (sweep C ks ch L))"
proof (induction ks arbitrary: ch L)
  case Nil
  then show ?case by simp
next
  case (Cons k ks)
  show ?case
  proof (cases "map_of (lg_branches L) k")
    case None
    with Cons show ?thesis by simp
  next
    case (Some b)
    from age_inv [OF Cons.prems Some, of C] obtain x L' where
      x: "age_branch C k b L = (Inr x, L')" and inv: "ledger_inv L'"
      by (cases "age_branch C k b L") auto
    have "branch_moves C L L'" using age_moves [OF Cons.prems Some, of C] x by simp
    moreover have "branch_moves C L' (snd (sweep C ks ch' L'))" for ch' by (rule Cons.IH [OF inv])
    ultimately show ?thesis using x Some by (cases x) (auto intro: rtranclp_trans)
  qed
qed

lemma tick_moves: "ledger_inv L \<Longrightarrow> branch_moves C L (snd (tick C ch L))"
  unfolding tick_def Let_def
  by (rule converse_rtranclp_into_rtranclp [OF round_move sweep_moves [OF next_round_inv]])

lemma advance_loop_moves: "ledger_inv L \<Longrightarrow> branch_moves C L (snd (advance_loop C n ch L))"
proof (induction n arbitrary: ch L)
  case 0
  then show ?case by simp
next
  case (Suc n)
  from tick_inv [OF Suc.prems, of C ch] obtain x L' where
    x: "tick C ch L = (Inr x, L')" and inv: "ledger_inv L'"
    by (cases "tick C ch L") auto
  have "branch_moves C L L'" using tick_moves [OF Suc.prems, of C ch] x by simp
  with Suc.IH [OF inv] x show ?case by (auto intro: rtranclp_trans)
qed

lemma branch_moves_ledger: "branch_moves C L L' \<Longrightarrow> ledger_moves C L L'"
  by (rule mono_rtranclp [rule_format, of "branch_move C"]) (rule inner_move)

fun is_offer :: "mutation \<Rightarrow> bool" where
  "is_offer (Offer s r v ttl) = True"
| "is_offer _ = False"

lemma apply_method_branch_moves:
  assumes inv: "ledger_inv L" and "\<not> is_offer m"
  shows "branch_moves C L (snd (apply_method C m L))"
proof (cases m)
  case (Offer s r v ttl)
  with assms(2) show ?thesis by simp
next
  case (Accept k r)
  then show ?thesis
    by (cases rule: accept_cases [of k r L]) (auto intro: branch_move.intros)
next
  case (Commit k s p)
  then show ?thesis
    by (cases rule: commit_cases [of C k s p L]) (auto intro: branch_move.intros)
next
  case (Cancel k a)
  then show ?thesis
    by (cases rule: cancel_cases [OF inv, of k a]) (auto intro: cancel_move)
next
  case (Advance n)
  with inv advance_loop_moves show ?thesis by (simp add: advance_def)
next
  case (Register a)
  then show ?thesis
    by (cases rule: register_cases [of C a L]) (auto intro: register_move)
qed

text \<open>An offer is rejected, or it is one \<open>offer_move\<close>.\<close>

lemma apply_offer_cases:
  obtains (rejected) "snd (apply_method C (Offer s r v ttl) L) = L"
  | (accepted) b where "ledger_move C L (locked_more s (2 * v) (set_branch (offer_id C L s r v) b L))"
      "b = new_branch L (offer_id C L s r v) s r v ttl" "0 < v"
      "snd (apply_method C (Offer s r v ttl) L) = locked_more s (2 * v) (set_branch (offer_id C L s r v) b L)"
  by (cases rule: offer_cases [of C s r v ttl L]) (auto intro: offer_move)

lemma apply_method_moves:
  assumes inv: "ledger_inv L" shows "ledger_moves C L (snd (apply_method C m L))"
proof (cases "is_offer m")
  case True
  then obtain s r v ttl where "m = Offer s r v ttl" by (cases m) auto
  then show ?thesis
    by (cases rule: apply_offer_cases [of C s r v ttl L]) auto
next
  case False
  from branch_moves_ledger [OF apply_method_branch_moves [OF inv False]] show ?thesis .
qed

lemma apply_method_inv: "ledger_inv L \<Longrightarrow> ledger_inv (snd (apply_method C m L))"
  by (rule ledger_moves_inv [OF apply_method_moves])

text \<open>A rejected method: the exception is a \<open>ProtocolError\<close> and the ledger is unchanged.\<close>

lemma apply_method_rejected:
  assumes inv: "ledger_inv L" and "fst (apply_method C m L) = Inl e"
  shows "snd (apply_method C m L) = L \<and> (\<exists>msg. e = ProtocolError msg)"
proof (cases m)
  case (Offer s r v ttl)
  with assms(2) show ?thesis by (cases rule: offer_cases [of C s r v ttl L]) auto
next
  case (Accept k r)
  with assms(2) show ?thesis by (cases rule: accept_cases [of k r L]) auto
next
  case (Commit k s p)
  with assms(2) show ?thesis by (cases rule: commit_cases [of C k s p L]) auto
next
  case (Cancel k a)
  with assms(2) show ?thesis by (cases rule: cancel_cases [OF inv, of k a]) auto
next
  case (Advance n)
  with assms(2) advance_error [OF inv, of C n e] show ?thesis by simp
next
  case (Register a)
  with assms(2) show ?thesis by (cases rule: register_cases [of C a L]) auto
qed

interpretation ledger: atomic_machine "apply_method C" ledger_inv for C
  by unfold_locales (auto intro: apply_method_inv dest: apply_method_rejected)

lemma run_moves: "ledger_inv L \<Longrightarrow> ledger_moves C L (run_ops (apply_method C) ms L)"
proof (induction ms arbitrary: L)
  case Nil
  then show ?case by simp
next
  case (Cons m ms)
  have "ledger_moves C L (snd (apply_method C m L))" by (rule apply_method_moves [OF Cons.prems])
  also have "ledger_moves C \<dots> (run_ops (apply_method C) ms \<dots>)"
    by (rule Cons.IH [OF apply_method_inv [OF Cons.prems]])
  finally show ?case by simp
qed

end
