(* ===== verification/Ledger_Safety.thy ===== *)
theory Ledger_Safety
  imports Ledger_Steps
begin

text \<open>
  What holds along every run of the ledger: supply and funds, exact locks, the genesis reserve,
  the lifecycle and the terms of each branch. \<open>assert_invariants\<close> is the oracle of
  \<open>splitchain/simulator.py\<close>.
\<close>

section \<open>The simulator's oracle\<close>

text \<open>The loop over the branches stops at the first one that fails a test.\<close>

fun check_branches :: "ledger \<Rightarrow> branch list \<Rightarrow> unit result" where
  "check_branches L [] = Inr ()"
| "check_branches L (b # bs) =
     (if br_stake b \<noteq> br_value b then Inl (AssertionError ''branch stake differs from value'')
      else if map_of (lg_history L) (br_origin_height b) \<noteq> Some (br_origin_digest b)
        then Inl (AssertionError ''branch origin is not a recognized canonical split point'')
      else check_branches L bs)"

definition assert_invariants :: "ledger \<Rightarrow> int \<Rightarrow> unit result" where
  "assert_invariants L initial_supply =
     (if dict_sum (lg_balances L) \<noteq> initial_supply then Inl (AssertionError ''supply changed'')
      else if list_ex (\<lambda>(a, v). v < 0) (lg_balances L) then Inl (AssertionError ''negative balance'')
      else if list_ex (\<lambda>(a, v). v < 0) (lg_locked L) then Inl (AssertionError ''negative lock'')
      else if list_ex (\<lambda>(a, v). available L a < 0) (lg_balances L)
        then Inl (AssertionError ''overspent account'')
      else bindR (check_branches L (map snd (lg_branches L))) (\<lambda>_.
        if map_of (lg_history L) (lg_height L) \<noteq> Some (lg_digest L)
        then Inl (AssertionError ''canonical head is not present in canonical history'')
        else Inr ()))"

lemma check_branches_ok:
  "\<forall>b \<in> set bs. br_stake b = br_value b \<and> map_of (lg_history L) (br_origin_height b) = Some (br_origin_digest b)
     \<Longrightarrow> check_branches L bs = Inr ()"
  by (induction bs) auto

lemma assert_invariants_ok:
  assumes inv: "ledger_inv L"
  shows "assert_invariants L (dict_sum (lg_balances L)) = Inr ()"
proof -
  have bal: "0 \<le> v" if "(a, v) \<in> set (lg_balances L)" for a v
    using that ledger_invD(5) [OF inv, of a] wf_dict_mem [OF ledger_invD(1) [OF inv], of a v]
    by (simp add: dict_get_def)
  have lock: "0 \<le> v" if "(a, v) \<in> set (lg_locked L)" for a v
    using that ledger_invD(6) [OF inv, of a] wf_dict_mem [OF ledger_invD(2) [OF inv], of a v]
    by (simp add: dict_get_def)
  have "wf_branch L k b" if "(k, b) \<in> set (lg_branches L)" for k b
    using that ledger_invD(9) [OF inv] wf_dict_mem [OF ledger_invD(3) [OF inv], of k b] by simp
  then have "check_branches L (map snd (lg_branches L)) = Inr ()"
    by (intro check_branches_ok) (fastforce simp: wf_branch_def)
  then show ?thesis
    using bal lock ledger_invD(7) [OF inv] ledger_invD(10) [OF inv]
    by (fastforce simp: assert_invariants_def list_ex_iff not_less [symmetric])
qed

section \<open>Supply\<close>

lemma move_value_supply:
  "wf_dict (lg_balances L) \<Longrightarrow> dict_sum (lg_balances (move_value s r v L)) = dict_sum (lg_balances L)"
  by (simp add: move_value_def Let_def dict_sum_update)

lemma branch_move_supply:
  "branch_move C L L' \<Longrightarrow> ledger_inv L \<Longrightarrow> dict_sum (lg_balances L') = dict_sum (lg_balances L)"
proof (induction rule: branch_move.induct)
  case (final_move L k b r)
  have "wf_dict (lg_balances (release k (b\<lparr>br_state := FINAL\<rparr>) L))"
    using ledger_invD(1) [OF final_move.prems] by (simp add: release_def set_branch_def)
  from move_value_supply [OF this] show ?case
    by (simp add: settle_def Let_def append_block_def release_def set_branch_def)
next
  case (register_move L a d)
  then show ?case
    using ledger_invD(1) [OF register_move.prems]
    by (simp add: append_block_def new_account_def dict_sum_update dict_has_def dict_get_def)
qed (simp_all add: set_branch_def release_def)

lemma ledger_move_supply:
  "ledger_move C L L' \<Longrightarrow> ledger_inv L \<Longrightarrow> dict_sum (lg_balances L') = dict_sum (lg_balances L)"
  by (induction rule: ledger_move.induct) (simp_all add: locked_more_def set_branch_def branch_move_supply)

lemma ledger_moves_supply:
  "ledger_moves C L L' \<Longrightarrow> ledger_inv L \<Longrightarrow> dict_sum (lg_balances L') = dict_sum (lg_balances L)"
  by (induction rule: rtranclp_induct) (auto simp: ledger_move_supply dest: ledger_moves_inv)

section \<open>Initial ledgers\<close>

definition valid_start :: "(string, int) dict \<Rightarrow> bool" where
  "valid_start d = (wf_dict d \<and> (\<forall>(a, v) \<in> set d. 0 \<le> v))"

lemma ledger_init_fields:
  assumes "ledger_init C balances genesis = Inr L"
  shows "lg_branches L = []" "lg_locked L = []" "lg_round L = 0" "lg_height L = 0"
    "lg_history L = [(0, lg_digest L)]" "lg_genesis L = genesis" "lg_finalized L = []"
    "genesis = None \<Longrightarrow> balances = Some d \<Longrightarrow> lg_balances L = d"
    "genesis = Some g \<Longrightarrow> lg_balances L = allocations g"
  using assms by (auto simp: ledger_init_def bindR_Inr_iff Let_def split: if_splits)

lemma valid_start_nonneg: "valid_start d \<Longrightarrow> 0 \<le> dict_get d a 0"
  by (auto simp: valid_start_def dict_get_def split: option.splits dest: map_of_SomeD)

lemma start_inv:
  assumes "lg_branches L = []" "lg_locked L = []" "lg_round L = 0" "lg_height L = 0"
    "lg_history L = [(0, lg_digest L)]" "valid_start (lg_balances L)"
  shows "ledger_inv L"
  using assms valid_start_nonneg [OF assms(6)]
  by (intro ledger_invI) (auto simp: available_def open_locks_def wf_dict_def valid_start_def split: if_splits)

lemma ledger_init_inv:
  assumes "ledger_init C balances genesis = Inr L" "valid_start (lg_balances L)"
  shows "ledger_inv L"
  using assms(2) ledger_init_fields [OF assms(1)] by (intro start_inv) auto

text \<open>Without a genesis file construction always succeeds.\<close>

lemma ledger_init_ok:
  obtains L where "ledger_init C (Some d) None = Inr L" "lg_balances L = d"
proof -
  have "protocol_digest C ''splitchain/canonical-genesis/v1'' (JObj [(''balances'', dict_json (sorted_dict d))])
      = Inr (sha256 C (digest_input ''splitchain/canonical-genesis/v1'' (JObj [(''balances'', dict_json (sorted_dict d))])))"
    by (rule protocol_digest_ok) (simp_all add: is_ascii_def)
  then show thesis using that by (auto simp: ledger_init_def ledger_origin_digest_def Let_def)
qed

text \<open>C2. Safety of the ledger: after any sequence of offers, acceptances, commitments,
  cancellations, rounds and registrations, accepted or rejected, the simulator's oracle holds: the total
  supply is the initial one, no balance and no lock is negative, no account is overspent, every stake
  equals its value, every branch splits from a recognised canonical block and the canonical head is in
  the history.\<close>

theorem ledger_run_safe:
  assumes "ledger_init C (Some balances) None = Inr L" "valid_start balances"
  shows "assert_invariants (run_ops (apply_method C) ms L) (dict_sum balances) = Inr ()"
proof -
  have bal: "lg_balances L = balances" using ledger_init_fields(8) [OF assms(1)] by simp
  with assms have inv: "ledger_inv L" by (intro ledger_init_inv) auto
  from ledger.run_inv [OF inv] have "ledger_inv (run_ops (apply_method C) ms L)" .
  from assert_invariants_ok [OF this] ledger_moves_supply [OF run_moves [OF inv] inv, of C ms] bal
  show ?thesis by simp
qed

text \<open>C16. Rejected operations are atomic: on a ledger that satisfies its invariant, a method that
  raises leaves the ledger exactly as it was, and the only exception it can raise is a
  \<open>ProtocolError\<close> (no \<open>KeyError\<close> of a missing lock or balance and no failed assertion
  is reachable).\<close>

theorem ledger_rejection_atomic:
  assumes "ledger_inv L" "fst (apply_method C m L) = Inl e"
  shows "snd (apply_method C m L) = L \<and> (\<exists>msg. e = ProtocolError msg)"
  by (rule apply_method_rejected [OF assms])

section \<open>Fresh branch ids\<close>

text \<open>
  A branch id is a hash prefix of 16 hexadecimal characters, and storing a new branch under an id
  that is already taken would replace the old branch. \<open>no_collision C ms L\<close>: no offer of
  the run meets an id in use.
\<close>

fun fresh_mutation :: "crypto \<Rightarrow> mutation \<Rightarrow> ledger \<Rightarrow> bool" where
  "fresh_mutation C (Offer s r v ttl) L = (\<not> dict_has (lg_branches L) (offer_id C L s r v))"
| "fresh_mutation C _ L = True"

fun no_collision :: "crypto \<Rightarrow> mutation list \<Rightarrow> ledger \<Rightarrow> bool" where
  "no_collision C [] L = True"
| "no_collision C (m # ms) L = (fresh_mutation C m L \<and> no_collision C ms (snd (apply_method C m L)))"

section \<open>Lifecycle\<close>

text \<open>The states a branch can still reach: offered, accepted, committed, final, with cancellation and
  expiry as the other two ends of a branch that is not committed.\<close>

fun can_become :: "branch_state \<Rightarrow> branch_state \<Rightarrow> bool" where
  "can_become OFFERED s = True"
| "can_become ACCEPTED s = (s \<noteq> OFFERED)"
| "can_become COMMITTED s = (s = COMMITTED \<or> s = FINAL)"
| "can_become t s = (s = t)"

text \<open>The terms of a branch: everything that is fixed when it is offered.\<close>

definition same_terms :: "branch \<Rightarrow> branch \<Rightarrow> bool" where
  "same_terms b b' =
     (br_id b' = br_id b \<and> br_sender b' = br_sender b \<and> br_receiver b' = br_receiver b
      \<and> br_value b' = br_value b \<and> br_stake b' = br_stake b
      \<and> br_created_round b' = br_created_round b \<and> br_expires_round b' = br_expires_round b
      \<and> br_origin_height b' = br_origin_height b \<and> br_origin_digest b' = br_origin_digest b)"

definition evolves :: "branch \<Rightarrow> branch \<Rightarrow> bool" where
  "evolves b b' =
     (same_terms b b' \<and> can_become (br_state b) (br_state b')
      \<and> (br_state b \<in> {COMMITTED, FINAL} \<longrightarrow>
           br_tx_digest b' = br_tx_digest b \<and> br_committed_round b' = br_committed_round b))"

lemma can_become_refl [simp]: "can_become s s"
  by (cases s) simp_all

lemma can_become_trans: "can_become s t \<Longrightarrow> can_become t u \<Longrightarrow> can_become s u"
  by (cases s; cases t; auto)

lemma evolves_refl [simp]: "evolves b b"
  by (simp add: evolves_def same_terms_def)

lemma evolves_trans: "evolves b c \<Longrightarrow> evolves c d \<Longrightarrow> evolves b d"
proof -
  assume bc: "evolves b c" and cd: "evolves c d"
  have "br_state b \<in> {COMMITTED, FINAL} \<Longrightarrow> br_state c \<in> {COMMITTED, FINAL}"
    using bc by (cases "br_state b") (auto simp: evolves_def)
  with bc cd can_become_trans [of "br_state b" "br_state c" "br_state d"] show "evolves b d"
    by (auto simp: evolves_def same_terms_def)
qed

text \<open>Every branch of the first dictionary is still in the second, evolved.\<close>

definition branches_evolve :: "ledger \<Rightarrow> ledger \<Rightarrow> bool" where
  "branches_evolve L L' =
     (\<forall>k b. map_of (lg_branches L) k = Some b \<longrightarrow>
        (\<exists>b'. map_of (lg_branches L') k = Some b' \<and> evolves b b'))"

lemma branches_evolve_refl [simp]: "branches_evolve L L"
  by (simp add: branches_evolve_def)

lemma branches_evolve_trans: "branches_evolve L M \<Longrightarrow> branches_evolve M N \<Longrightarrow> branches_evolve L N"
  unfolding branches_evolve_def by (meson evolves_trans)

lemma set_branch_evolve:
  "map_of (lg_branches L) k = Some b \<Longrightarrow> evolves b b' \<Longrightarrow>
     lg_branches L' = AList.update k b' (lg_branches L) \<Longrightarrow> branches_evolve L L'"
  by (auto simp: branches_evolve_def)

lemma branch_move_evolve: "branch_move C L L' \<Longrightarrow> branches_evolve L L'"
proof (induction rule: branch_move.induct)
  case (accept_move L k b b')
  then show ?case
    by (intro set_branch_evolve [of L k b b']) (simp_all add: evolves_def same_terms_def set_branch_def)
next
  case (commit_move L k b b' d)
  then show ?case
    by (intro set_branch_evolve [of L k b b']) (simp_all add: evolves_def same_terms_def set_branch_def)
next
  case (cancel_move L k b)
  then show ?case
    by (intro set_branch_evolve [of L k b "b\<lparr>br_state := CANCELLED\<rparr>"])
      (auto simp: evolves_def same_terms_def set_branch_def release_def)
next
  case (expire_move L k b)
  then show ?case
    by (intro set_branch_evolve [of L k b "b\<lparr>br_state := EXPIRED\<rparr>"])
      (auto simp: evolves_def same_terms_def set_branch_def release_def)
next
  case (final_move L k b r)
  then show ?case
    by (intro set_branch_evolve [of L k b "b\<lparr>br_state := FINAL\<rparr>"])
      (simp_all add: evolves_def same_terms_def set_branch_def release_def settle_def Let_def append_block_def)
qed (simp_all add: branches_evolve_def append_block_def new_account_def)

lemma branch_moves_evolve: "branch_moves C L L' \<Longrightarrow> branches_evolve L L'"
  by (induction rule: rtranclp_induct) (auto intro: branches_evolve_trans branch_move_evolve)

lemma apply_method_evolve:
  assumes "ledger_inv L" "fresh_mutation C m L"
  shows "branches_evolve L (snd (apply_method C m L))"
proof (cases "is_offer m")
  case True
  then obtain s r v ttl where m: "m = Offer s r v ttl" by (cases m) auto
  show ?thesis
  proof (cases rule: apply_offer_cases [of C s r v ttl L])
    case rejected
    with m show ?thesis by simp
  next
    case (accepted b)
    with assms(2) m show ?thesis
      by (auto simp: branches_evolve_def locked_more_def set_branch_def dict_has_def)
  qed
next
  case False
  from branch_moves_evolve [OF apply_method_branch_moves [OF assms(1) False]] show ?thesis .
qed

lemma run_evolve:
  "ledger_inv L \<Longrightarrow> no_collision C ms L \<Longrightarrow> branches_evolve L (run_ops (apply_method C) ms L)"
proof (induction ms arbitrary: L)
  case Nil
  then show ?case by simp
next
  case (Cons m ms)
  then have "branches_evolve L (snd (apply_method C m L))" by (simp add: apply_method_evolve)
  moreover have "branches_evolve (snd (apply_method C m L)) (run_ops (apply_method C) ms (snd (apply_method C m L)))"
    using Cons by (intro Cons.IH apply_method_inv) simp_all
  ultimately show ?case by (simp add: branches_evolve_trans)
qed

section \<open>Exact locks\<close>

definition locks_exact :: "ledger \<Rightarrow> bool" where
  "locks_exact L = (\<forall>a. dict_get (lg_locked L) a 0 = open_locks a (lg_branches L))"

lemma set_branch_locks:
  assumes "ledger_inv L" "locks_exact L" "map_of (lg_branches L) k = Some b"
    and "\<And>a. branch_lock a b' = branch_lock a b"
  shows "locks_exact (set_branch k b' L)"
  using assms ledger_invD(3) [OF assms(1)]
  by (simp add: locks_exact_def set_branch_def open_locks_update)

lemma release_locks:
  assumes inv: "ledger_inv L" and ex: "locks_exact L" and b: "map_of (lg_branches L) k = Some b" "is_open b"
    and b': "br_sender b' = br_sender b" "br_value b' = br_value b" "\<not> is_open b'"
  shows "locks_exact (release k b' L)"
proof -
  have "br_stake b = br_value b" using ledger_invD(9) [OF inv b(1)] by (simp add: wf_branch_def)
  with ex b b' ledger_invD(3) [OF inv] show ?thesis
    by (simp add: locks_exact_def release_def set_branch_def open_locks_update branch_lock_def)
qed

lemma branch_move_locks: "branch_move C L L' \<Longrightarrow> ledger_inv L \<Longrightarrow> locks_exact L \<Longrightarrow> locks_exact L'"
proof (induction rule: branch_move.induct)
  case (accept_move L k b b')
  then show ?case by (intro set_branch_locks [of L k b b']) (simp_all add: branch_lock_def is_open_def)
next
  case (commit_move L k b b' d)
  then show ?case by (intro set_branch_locks [of L k b b']) (simp_all add: branch_lock_def is_open_def)
next
  case (cancel_move L k b)
  then show ?case by (intro release_locks [of L k b]) (auto simp: is_open_def)
next
  case (expire_move L k b)
  then show ?case by (intro release_locks [of L k b]) (auto simp: is_open_def)
next
  case (final_move L k b r)
  then have "locks_exact (release k (b\<lparr>br_state := FINAL\<rparr>) L)"
    by (intro release_locks [of L k b]) (auto simp: is_open_def)
  then show ?case by (simp add: locks_exact_def settle_def Let_def append_block_def)
qed (simp_all add: locks_exact_def append_block_def new_account_def)

lemma branch_moves_locks:
  "branch_moves C L L' \<Longrightarrow> ledger_inv L \<Longrightarrow> locks_exact L \<Longrightarrow> locks_exact L'"
proof (induction rule: rtranclp_induct)
  case (step M N)
  then show ?case
    using branch_move_locks [of C M N] ledger_moves_inv [OF branch_moves_ledger [of C L M]] by blast
qed simp

lemma apply_method_locks:
  assumes inv: "ledger_inv L" and "fresh_mutation C m L" "locks_exact L"
  shows "locks_exact (snd (apply_method C m L))"
proof (cases "is_offer m")
  case True
  then obtain s r v ttl where m: "m = Offer s r v ttl" by (cases m) auto
  show ?thesis
  proof (cases rule: apply_offer_cases [of C s r v ttl L])
    case rejected
    with m assms show ?thesis by simp
  next
    case (accepted b)
    have "branch_lock a b = (if a = s then 2 * v else 0)" for a
      using accepted(2) by (simp add: branch_lock_def new_branch_def is_open_def)
    with accepted m assms ledger_invD(3) [OF inv] show ?thesis
      by (simp add: locks_exact_def locked_more_def set_branch_def open_locks_update dict_has_def)
  qed
next
  case False
  from branch_moves_locks [OF apply_method_branch_moves [OF inv False] inv assms(3)] show ?thesis .
qed

lemma run_locks:
  "ledger_inv L \<Longrightarrow> no_collision C ms L \<Longrightarrow> locks_exact L \<Longrightarrow> locks_exact (run_ops (apply_method C) ms L)"
  by (induction ms arbitrary: L) (simp_all add: apply_method_locks apply_method_inv)

section \<open>The genesis reserve\<close>

lemma branch_move_reserve:
  "branch_move C L L' \<Longrightarrow> ledger_inv L \<Longrightarrow> is_reserved L a \<Longrightarrow>
     is_reserved L' a \<and> dict_get (lg_balances L) a 0 \<le> dict_get (lg_balances L') a 0"
proof (induction rule: branch_move.induct)
  case (final_move L k b r)
  then have "br_sender b \<noteq> a" "0 < br_value b"
    using ledger_invD(9) [OF final_move.prems(1) final_move(1)] by (auto simp: wf_branch_def)
  then have "dict_get (lg_balances L) a 0 \<le> dict_get (lg_balances (settle C k b L)) a 0"
    by (simp add: settle_def Let_def append_block_def move_value_balance release_def set_branch_def)
  with final_move.prems show ?case
    by (simp add: is_reserved_def settle_def Let_def append_block_def release_def set_branch_def)
next
  case (register_move L b d)
  have "dict_get (lg_balances L) b 0 = 0" using register_move(1) by (simp add: dict_has_def dict_get_def)
  with register_move.prems show ?case
    by (simp add: is_reserved_def append_block_def new_account_def)
qed (simp_all add: is_reserved_def set_branch_def release_def)

lemma ledger_move_reserve:
  "ledger_move C L L' \<Longrightarrow> ledger_inv L \<Longrightarrow> is_reserved L a \<Longrightarrow>
     is_reserved L' a \<and> dict_get (lg_balances L) a 0 \<le> dict_get (lg_balances L') a 0"
  by (induction rule: ledger_move.induct)
    (auto simp: is_reserved_def locked_more_def set_branch_def dest: branch_move_reserve)

lemma ledger_moves_reserve:
  "ledger_moves C L L' \<Longrightarrow> ledger_inv L \<Longrightarrow> is_reserved L a \<Longrightarrow>
     is_reserved L' a \<and> dict_get (lg_balances L) a 0 \<le> dict_get (lg_balances L') a 0"
proof (induction rule: rtranclp_induct)
  case (step M N)
  then show ?case
    using ledger_move_reserve [of C M N a] ledger_moves_inv [of C L M] by fastforce
qed simp

lemma no_collision_prefix:
  "no_collision C (ms @ ns) L \<Longrightarrow> no_collision C ms L"
  by (induction ms arbitrary: L) simp_all

section \<open>Properties of runs\<close>

text \<open>C17. Locks are exact: along every run from an initial ledger in which no two offers collide
  on their 16 digit id, the amount locked on an account is the value plus the stake of its open
  branches, nothing more: closing a branch releases exactly what its offer locked.\<close>

theorem ledger_locks_exact:
  assumes "ledger_init C (Some balances) None = Inr L" "valid_start balances" "no_collision C ms L"
  shows "dict_get (lg_locked (run_ops (apply_method C) ms L)) a 0
    = open_locks a (lg_branches (run_ops (apply_method C) ms L))"
proof -
  have "lg_balances L = balances" using ledger_init_fields(8) [OF assms(1)] by simp
  with assms have "ledger_inv L" by (intro ledger_init_inv) auto
  moreover have "locks_exact L"
    using ledger_init_fields(1,2) [OF assms(1)] by (simp add: locks_exact_def open_locks_def)
  ultimately show ?thesis using run_locks [OF _ assms(3)] by (simp add: locks_exact_def)
qed

text \<open>C14. Lifecycle: whatever happens after a branch was stored, it stays stored under its id,
  keeps its terms (parties, value, stake, rounds, split point), moves only forward from offered over
  accepted and committed to final (or leaves that path before the commit, by cancellation or expiry),
  and a committed branch is never cancelled nor expired and keeps its commitment.\<close>

theorem ledger_branch_lifecycle:
  assumes "ledger_inv L" "no_collision C ms L" "map_of (lg_branches L) k = Some b"
  shows "\<exists>b'. map_of (lg_branches (run_ops (apply_method C) ms L)) k = Some b' \<and> evolves b b'"
  using run_evolve [OF assms(1,2)] assms(3) by (simp add: branches_evolve_def)

text \<open>The genesis reserve: along every run an account locked by the genesis file stays locked,
  its balance never drops, and no branch spends from it.\<close>

theorem ledger_reserve_untouched:
  assumes "ledger_inv L" "is_reserved L a"
  shows "is_reserved (run_ops (apply_method C) ms L) a
    \<and> dict_get (lg_balances L) a 0 \<le> dict_get (lg_balances (run_ops (apply_method C) ms L)) a 0
    \<and> (\<forall>(k, b) \<in> set (lg_branches (run_ops (apply_method C) ms L)). br_sender b \<noteq> a)"
proof -
  let ?R = "run_ops (apply_method C) ms L"
  from ledger_moves_reserve [OF run_moves [OF assms(1)] assms]
  have r: "is_reserved ?R a" "dict_get (lg_balances L) a 0 \<le> dict_get (lg_balances ?R) a 0" by blast+
  have inv: "ledger_inv ?R" by (rule ledger.run_inv [OF assms(1)])
  have "br_sender b \<noteq> a" if "(k, b) \<in> set (lg_branches ?R)" for k b
  proof -
    have "map_of (lg_branches ?R) k = Some b" using that wf_dict_mem [OF ledger_invD(3) [OF inv]] by blast
    from ledger_invD(9) [OF inv this] r(1) show ?thesis by (auto simp: wf_branch_def)
  qed
  with r show ?thesis by auto
qed

text \<open>Rejected calls leave no trace: a run of arbitrary calls gives the same ledger, to the
  last field, as the run of only those calls that returned normally. A replica that receives the
  leader's accepted mutations therefore reaches the leader's state, whatever the leader rejected in
  between.\<close>

theorem ledger_replay_accepted:
  assumes "ledger_inv L"
  shows "run_ops (apply_method C) ms L
    = run_ops (apply_method C) (accepted (apply_method C) ms L) L"
  by (rule ledger.run_accepted [OF assms])

section \<open>A concrete run\<close>

text \<open>Alice pays Bob two units; Bob's late cancellation of the committed branch is rejected.\<close>

definition sample_crypto :: crypto where
  "sample_crypto = \<lparr>sha256 = (\<lambda>s. rev s), hmac_sha256 = (\<lambda>k s. k @ s)\<rparr>"

definition sample_balances :: "(string, int) dict" where
  "sample_balances = [(''alice'', 10), (''bob'', 0)]"

definition sample_ledger :: ledger where
  "sample_ledger = projr (ledger_init sample_crypto (Some sample_balances) None)"

definition sample_id :: string where
  "sample_id = offer_id sample_crypto sample_ledger ''alice'' ''bob'' 2"

definition sample_run :: "mutation list" where
  "sample_run = [Accept sample_id ''bob'', Commit sample_id ''alice'' JNull, Advance 2,
     Cancel sample_id ''bob'', Advance 1]"

definition offered_ledger :: ledger where
  "offered_ledger = snd (apply_method sample_crypto (Offer ''alice'' ''bob'' 2 5) sample_ledger)"

definition reserve_ledger :: ledger where
  "reserve_ledger = projr (ledger_init sample_crypto None (Some sample_genesis))"

lemma sample_init: "ledger_init sample_crypto (Some sample_balances) None = Inr sample_ledger"
  by code_simp

lemma sample_start: "valid_start sample_balances"
  by (simp add: valid_start_def sample_balances_def wf_dict_def)

lemma sample_inv: "ledger_inv sample_ledger"
  using ledger_init_fields(8) [OF sample_init] sample_start
  by (intro ledger_init_inv [OF sample_init]) simp

lemma offered_inv: "ledger_inv offered_ledger"
  unfolding offered_ledger_def by (rule apply_method_inv [OF sample_inv])

lemma reserve_init: "ledger_init sample_crypto None (Some sample_genesis) = Inr reserve_ledger"
  by code_simp

lemma reserve_inv: "ledger_inv reserve_ledger"
proof (rule ledger_init_inv [OF reserve_init])
  show "valid_start (lg_balances reserve_ledger)"
    using ledger_init_fields(9) [OF reserve_init refl]
    by (simp add: valid_start_def sample_genesis_def wf_dict_def)
qed

theorem ledger_run_safe_witness:
  "assert_invariants (run_ops (apply_method sample_crypto) (Offer ''alice'' ''bob'' 2 5 # sample_run) sample_ledger) 10
     = Inr ()"
  using ledger_run_safe [OF sample_init sample_start, of "Offer ''alice'' ''bob'' 2 5 # sample_run"]
  by (simp add: sample_balances_def)

theorem ledger_rejection_atomic_witness:
  "snd (apply_method sample_crypto (Accept sample_id ''carol'') offered_ledger) = offered_ledger
   \<and> (\<exists>msg. ProtocolError ''only the named receiver can accept'' = ProtocolError msg)"
proof (rule ledger_rejection_atomic [OF offered_inv])
  show "fst (apply_method sample_crypto (Accept sample_id ''carol'') offered_ledger)
      = Inl (ProtocolError ''only the named receiver can accept'')"
    by code_simp
qed

theorem ledger_locks_exact_witness:
  "dict_get (lg_locked (run_ops (apply_method sample_crypto) [Offer ''alice'' ''bob'' 2 5] sample_ledger)) ''alice'' 0
     = open_locks ''alice'' (lg_branches (run_ops (apply_method sample_crypto) [Offer ''alice'' ''bob'' 2 5] sample_ledger))"
proof (rule ledger_locks_exact [OF sample_init sample_start])
  show "no_collision sample_crypto [Offer ''alice'' ''bob'' 2 5] sample_ledger" by code_simp
qed

theorem ledger_branch_lifecycle_witness:
  "\<exists>b'. map_of (lg_branches (run_ops (apply_method sample_crypto) sample_run offered_ledger)) sample_id = Some b'
     \<and> evolves (new_branch sample_ledger sample_id ''alice'' ''bob'' 2 5) b'"
proof (rule ledger_branch_lifecycle [OF offered_inv])
  show "no_collision sample_crypto sample_run offered_ledger" by code_simp
  show "map_of (lg_branches offered_ledger) sample_id = Some (new_branch sample_ledger sample_id ''alice'' ''bob'' 2 5)"
    by code_simp
qed

theorem ledger_reserve_untouched_witness:
  "is_reserved (run_ops (apply_method sample_crypto) [Offer ''faucet'' ''reserve'' 5 3] reserve_ledger) ''reserve''
   \<and> 60 \<le> dict_get (lg_balances (run_ops (apply_method sample_crypto) [Offer ''faucet'' ''reserve'' 5 3] reserve_ledger)) ''reserve'' 0"
proof -
  have "is_reserved reserve_ledger ''reserve''" "dict_get (lg_balances reserve_ledger) ''reserve'' 0 = 60"
    by code_simp+
  with ledger_reserve_untouched [OF reserve_inv, of "''reserve''" sample_crypto "[Offer ''faucet'' ''reserve'' 5 3]"]
  show ?thesis by simp
qed

theorem ledger_replay_accepted_witness:
  "run_ops (apply_method sample_crypto) sample_run offered_ledger
     = run_ops (apply_method sample_crypto) (accepted (apply_method sample_crypto) sample_run offered_ledger) offered_ledger"
  by (rule ledger_replay_accepted [OF offered_inv])

end
