(* ===== verification/Ledger_Snapshot.thy ===== *)
theory Ledger_Snapshot
  imports Ledger_Safety
begin

text \<open>
  Snapshots of the ledger (\<open>Ledger.snapshot\<close>, \<open>Ledger.from_snapshot\<close> and
  \<open>_validate_restored_state\<close> of \<open>splitchain/model.py\<close>): what a node writes to disk and
  sends to its replicas, and what it accepts back.
\<close>

section \<open>Writing\<close>

definition history_json :: "(int, string) dict \<Rightarrow> json" where
  "history_json h = JObj (map (\<lambda>(n, d). (int_str n, JStr d)) (sort_key fst h))"

definition ledger_snapshot :: "ledger \<Rightarrow> json" where
  "ledger_snapshot L = JObj
     ([(''schema'', JStr ''splitchain-ledger/v1''),
       (''round'', JInt (lg_round L)),
       (''canonical_head'', JObj [(''height'', JInt (lg_height L)), (''digest'', JStr (lg_digest L))]),
       (''balances'', dict_json (sorted_dict (lg_balances L))),
       (''locked'', dict_json (sorted_dict (lg_locked L))),
       (''branches'', JList (map (\<lambda>(k, b). branch_public b) (lg_branches L))),
       (''finalized'', JList (lg_finalized L)),
       (''canonical_history'', history_json (lg_history L))]
      @ (case lg_genesis L of None \<Rightarrow> [] | Some g \<Rightarrow> [(''genesis'', genesis_public g)]))"

section \<open>Reading\<close>

text \<open>
  Reading of one field. A missing key (\<open>KeyError\<close>) and a value that is not an object
  (\<open>TypeError\<close>) are two of the exceptions that \<open>from_snapshot\<close> turns into its
  \<open>ProtocolError\<close>. A value of a type other than the one \<open>snapshot\<close> writes goes through
  Python's conversions, which are outside the model.
\<close>

definition invalid_snapshot :: error where
  "invalid_snapshot = ProtocolError ''invalid ledger snapshot''"

definition field :: "json \<Rightarrow> string \<Rightarrow> json result" where
  "field v k =
     (case obj_get v k of None \<Rightarrow> Inl invalid_snapshot | Some x \<Rightarrow> Inr x)"

fun as_int :: "json \<Rightarrow> int result" where
  "as_int (JInt i) = Inr i"
| "as_int _ = Inl Unmodelled"

fun as_str :: "json \<Rightarrow> string result" where
  "as_str (JStr s) = Inr s"
| "as_str _ = Inl Unmodelled"

fun as_list :: "json \<Rightarrow> json list result" where
  "as_list (JList xs) = Inr xs"
| "as_list _ = Inl Unmodelled"

fun as_items :: "json \<Rightarrow> (string \<times> json) list result" where
  "as_items (JObj kvs) = Inr kvs"
| "as_items _ = Inl Unmodelled"

fun as_opt_int :: "json \<Rightarrow> int option result" where
  "as_opt_int JNull = Inr None"
| "as_opt_int (JInt i) = Inr (Some i)"
| "as_opt_int _ = Inl Unmodelled"

fun as_opt_str :: "json \<Rightarrow> string option result" where
  "as_opt_str JNull = Inr None"
| "as_opt_str (JStr s) = Inr (Some s)"
| "as_opt_str _ = Inl Unmodelled"

text \<open>\<open>int(s)\<close> of a string of decimal digits with an optional minus sign.\<close>

definition is_digit :: "char \<Rightarrow> bool" where
  "is_digit c = (48 \<le> (of_char c :: nat) \<and> (of_char c :: nat) \<le> 57)"

definition read_nat :: "string \<Rightarrow> nat result" where
  "read_nat s =
     (if s \<noteq> [] \<and> list_all is_digit s then Inr (foldl (\<lambda>n c. 10 * n + (of_char c - 48)) 0 s)
      else Inl Unmodelled)"

definition read_int :: "string \<Rightarrow> int result" where
  "read_int s =
     (if s \<noteq> [] \<and> hd s = CHR ''-'' then bindR (read_nat (tl s)) (\<lambda>n. Inr (- int n))
      else bindR (read_nat s) (\<lambda>n. Inr (int n)))"

text \<open>A dictionary comprehension stores its pairs from left to right.\<close>

fun dict_of :: "('k \<times> 'v) list \<Rightarrow> ('k, 'v) dict \<Rightarrow> ('k, 'v) dict" where
  "dict_of [] d = d"
| "dict_of ((k, v) # kvs) d = dict_of kvs (AList.update k v d)"

text \<open>\<open>BranchState(s)\<close>, a \<open>ValueError\<close> on any other value.\<close>

definition read_state :: "json \<Rightarrow> branch_state result" where
  "read_state v =
     (case find (\<lambda>t. v = JStr (state_name t)) [OFFERED, ACCEPTED, COMMITTED, FINAL, CANCELLED, EXPIRED] of
        Some t \<Rightarrow> Inr t | None \<Rightarrow> Inl invalid_snapshot)"

definition branch_fields :: "string list" where
  "branch_fields = [''branch_id'', ''sender'', ''receiver'', ''value'', ''stake'', ''created_round'',
     ''expires_round'', ''origin_height'', ''origin_digest'', ''state'', ''accepted_round'',
     ''committed_round'', ''tx_digest'']"

definition opt_field :: "json \<Rightarrow> string \<Rightarrow> json" where
  "opt_field v k = (case obj_get v k of None \<Rightarrow> JNull | Some x \<Rightarrow> x)"

text \<open>
  \<open>Branch(**data)\<close>: the first nine parameters have no default, \<open>state\<close> has been read before,
  and an unexpected key is a \<open>TypeError\<close>.
\<close>

definition read_branch :: "json \<Rightarrow> branch result" where
  "read_branch v =
     bindR (as_items v) (\<lambda>kvs.
     bindR (bindR (field v ''state'') read_state) (\<lambda>state.
     if list_ex (\<lambda>(k, x). k \<notin> set branch_fields) kvs
        \<or> list_ex (\<lambda>k. map_of kvs k = None) (take 9 branch_fields) then Inl invalid_snapshot
     else
       bindR (bindR (field v ''branch_id'') as_str) (\<lambda>bid.
       bindR (bindR (field v ''sender'') as_str) (\<lambda>sender.
       bindR (bindR (field v ''receiver'') as_str) (\<lambda>receiver.
       bindR (bindR (field v ''value'') as_int) (\<lambda>amount.
       bindR (bindR (field v ''stake'') as_int) (\<lambda>stake.
       bindR (bindR (field v ''created_round'') as_int) (\<lambda>created.
       bindR (bindR (field v ''expires_round'') as_int) (\<lambda>expires.
       bindR (bindR (field v ''origin_height'') as_int) (\<lambda>oheight.
       bindR (bindR (field v ''origin_digest'') as_str) (\<lambda>odigest.
       bindR (as_opt_int (opt_field v ''accepted_round'')) (\<lambda>acc.
       bindR (as_opt_int (opt_field v ''committed_round'')) (\<lambda>com.
       bindR (as_opt_str (opt_field v ''tx_digest'')) (\<lambda>tx.
         Inr \<lparr>br_id = bid, br_sender = sender, br_receiver = receiver, br_value = amount,
           br_stake = stake, br_created_round = created, br_expires_round = expires,
           br_origin_height = oheight, br_origin_digest = odigest, br_state = state,
           br_accepted_round = acc, br_committed_round = com, br_tx_digest = tx\<rparr>))))))))))))))"

section \<open>Validation\<close>

text \<open>The checks of \<open>_validate_restored_state\<close>, in its order.\<close>

definition validate_genesis :: "crypto \<Rightarrow> ledger \<Rightarrow> genesis_config \<Rightarrow> unit result" where
  "validate_genesis C L g =
     bindR (genesis_digest C g) (\<lambda>d.
       if map_of (lg_history L) 0 \<noteq> Some d then Inl (ProtocolError ''snapshot genesis digest mismatch'')
       else if dict_sum (lg_balances L) \<noteq> dict_sum (allocations g)
         then Inl (ProtocolError ''snapshot violates genesis supply'')
       else if list_ex (\<lambda>(a, v). a \<in> set (locked_accounts g) \<and> map_of (lg_balances L) a \<noteq> Some v) (allocations g)
         then Inl (ProtocolError ''snapshot changed locked reserve'')
       else if list_ex (\<lambda>(k, b). br_sender b \<in> set (locked_accounts g)) (lg_branches L)
         then Inl (ProtocolError ''locked reserve appears in branch history'')
       else Inr ())"

text \<open>The loop over the branches: the locks that the open ones account for.\<close>

fun expected_locks :: "(int, string) dict \<Rightarrow> branch list \<Rightarrow> (string, int) dict \<Rightarrow> (string, int) dict result" where
  "expected_locks h [] acc = Inr acc"
| "expected_locks h (b # bs) acc =
     (if br_value b \<le> 0 \<or> br_stake b \<noteq> br_value b
      then Inl (ProtocolError ''snapshot violates equal branch stake'')
      else if map_of h (br_origin_height b) \<noteq> Some (br_origin_digest b)
        then Inl (ProtocolError ''branch origin is not canonical'')
      else if br_state b \<in> {OFFERED, ACCEPTED, COMMITTED}
        then expected_locks h bs
          (AList.update (br_sender b) (dict_get acc (br_sender b) 0 + br_value b + br_stake b) acc)
      else expected_locks h bs acc)"

definition validate_restored :: "crypto \<Rightarrow> ledger \<Rightarrow> unit result" where
  "validate_restored C L =
     bindR (case lg_genesis L of None \<Rightarrow> Inr () | Some g \<Rightarrow> validate_genesis C L g) (\<lambda>_.
       if lg_round L < 0 \<or> lg_height L < 0 then Inl (ProtocolError ''negative snapshot counter'')
       else if map_of (lg_history L) (lg_height L) \<noteq> Some (lg_digest L)
         then Inl (ProtocolError ''canonical head is not present in history'')
       else if list_ex (\<lambda>(a, v). v < 0) (lg_balances L)
         then Inl (ProtocolError ''snapshot contains a negative balance'')
       else bindR (expected_locks (lg_history L) (map snd (lg_branches L)) []) (\<lambda>expected.
         if \<not> dict_eq expected (filter (\<lambda>(a, v). v \<noteq> 0) (lg_locked L))
         then Inl (ProtocolError ''snapshot locked funds do not match active branches'')
         else if list_ex (\<lambda>a. available L a < 0) (keys (lg_balances L) @ keys (lg_locked L))
         then Inl (ProtocolError ''snapshot over-locks an account'')
         else Inr ()))"

section \<open>Restoring\<close>

definition snapshot_genesis :: "json \<Rightarrow> genesis_config option result" where
  "snapshot_genesis raw =
     (case obj_get raw ''genesis'' of
        None \<Rightarrow> Inr None
      | Some JNull \<Rightarrow> Inr None
      | Some v \<Rightarrow> bindR (genesis_from_dict v) (\<lambda>g. Inr (Some g)))"

definition genesis_matches :: "genesis_config option \<Rightarrow> genesis_config option \<Rightarrow> bool" where
  "genesis_matches expected g =
     (case expected of None \<Rightarrow> True
      | Some e \<Rightarrow> (case g of None \<Rightarrow> False | Some g' \<Rightarrow> genesis_eq g' e))"

text \<open>The balances of a snapshot: an explicit type check with a genesis, the bare constructor without.\<close>

fun read_ints :: "(string \<times> json) list \<Rightarrow> (string, int) dict option" where
  "read_ints [] = Some []"
| "read_ints ((k, JInt v) # kvs) = map_option ((#) (k, v)) (read_ints kvs)"
| "read_ints _ = None"

definition restore_base :: "crypto \<Rightarrow> genesis_config option \<Rightarrow> json \<Rightarrow> ledger result" where
  "restore_base C genesis raw =
     (case genesis of
        Some g \<Rightarrow>
          bindR (ledger_init C None (Some g)) (\<lambda>L.
            (case obj_get raw ''balances'' of
               Some (JObj kvs) \<Rightarrow>
                 (case read_ints kvs of
                    None \<Rightarrow> Inl (ProtocolError ''invalid genesis snapshot balances'')
                  | Some d \<Rightarrow> Inr (L\<lparr>lg_balances := d\<rparr>))
             | _ \<Rightarrow> Inl (ProtocolError ''invalid genesis snapshot balances'')))
      | None \<Rightarrow>
          (case obj_get raw ''balances'' of
             None \<Rightarrow> ledger_init C None None
           | Some JNull \<Rightarrow> ledger_init C None None
           | Some (JObj kvs) \<Rightarrow>
               (case read_ints kvs of None \<Rightarrow> Inl Unmodelled | Some d \<Rightarrow> ledger_init C (Some d) None)
           | _ \<Rightarrow> Inl Unmodelled))"

definition restore_fields :: "json \<Rightarrow> ledger \<Rightarrow> ledger result" where
  "restore_fields raw L =
     bindR (bindR (field raw ''round'') as_int) (\<lambda>round.
     bindR (field raw ''canonical_head'') (\<lambda>head.
     bindR (bindR (field head ''height'') as_int) (\<lambda>height.
     bindR (bindR (field head ''digest'') as_str) (\<lambda>digest.
     bindR (bindR (field raw ''locked'') as_items) (\<lambda>locks.
     bindR (mapR (\<lambda>(k, v). bindR (as_int v) (\<lambda>i. Inr (k, i))) locks) (\<lambda>locked.
     bindR (bindR (field raw ''finalized'') as_list) (\<lambda>finalized.
     bindR (bindR (field raw ''canonical_history'') as_items) (\<lambda>hist.
     bindR (mapR (\<lambda>(k, v). bindR (read_int k) (\<lambda>h. bindR (as_str v) (\<lambda>d. Inr (h, d)))) hist) (\<lambda>history.
     bindR (bindR (field raw ''branches'') as_list) (\<lambda>raws.
     bindR (mapR read_branch raws) (\<lambda>bs.
       Inr (L\<lparr>lg_round := round, lg_height := height, lg_digest := digest,
         lg_locked := dict_of locked [], lg_finalized := finalized,
         lg_history := dict_of history [],
         lg_branches := dict_of (map (\<lambda>b. (br_id b, b)) bs) []\<rparr>))))))))))))"

definition from_snapshot :: "crypto \<Rightarrow> json \<Rightarrow> genesis_config option \<Rightarrow> ledger result" where
  "from_snapshot C raw expected =
     (if obj_fields raw = None then Inl Unmodelled
      else if obj_get raw ''schema'' \<noteq> Some (JStr ''splitchain-ledger/v1'')
        then Inl (ProtocolError ''unsupported ledger snapshot schema'')
      else bindR (snapshot_genesis raw) (\<lambda>genesis.
        if \<not> genesis_matches expected genesis
        then Inl (ProtocolError ''snapshot genesis differs from configured network'')
        else bindR (restore_base C genesis raw) (\<lambda>base.
          bindR (restore_fields raw base) (\<lambda>L.
            bindR (validate_restored C L) (\<lambda>_. Inr L)))))"

end
