(* ===== verification/Ledger_Restore.thy ===== *)
theory Ledger_Restore
  imports Ledger_Snapshot
begin

text \<open>
  Snapshots are read back as what was written, for every ledger that a run from a genesis file can
  reach, provided no branch pays the locked reserve; and what \<open>from_snapshot\<close> accepts satisfies
  the ledger invariant, provided it passes two checks the code does not make.
\<close>

section \<open>Reading back the fields\<close>

lemma is_digit_set: "is_digit c \<longleftrightarrow> c \<in> digit_set"
  by (auto simp: is_digit_def digit_set_def)

lemma read_nat_str: "read_nat (nat_str n) = Inr n"
proof -
  have "list_all is_digit (nat_str n)"
    using nat_str_digits [of n] by (auto simp: list_all_iff is_digit_set)
  then show ?thesis
    using nat_val_str [of n] by (simp add: read_nat_def nat_str_nonempty nat_val_def)
qed

lemma nat_str_hd: "hd (nat_str n) \<noteq> CHR ''-''"
proof -
  have "hd (nat_str n) \<in> digit_set"
    using nat_str_digits [of n] hd_in_set [OF nat_str_nonempty [of n]] by blast
  moreover have "CHR ''-'' \<notin> digit_set" by (simp add: digit_set_def)
  ultimately show ?thesis by metis
qed

lemma read_int_str [simp]: "read_int (int_str i) = Inr i"
  using nat_str_hd by (simp add: read_int_def int_str_def read_nat_str nat_str_nonempty)

lemma dict_of_append: "distinct (map fst (d @ kvs)) \<Longrightarrow> dict_of kvs d = d @ kvs"
proof (induction kvs d rule: dict_of.induct)
  case (2 k v kvs d)
  then show ?case by (simp add: update_new)
qed simp

lemma dict_of_wf [simp]: "wf_dict d \<Longrightarrow> dict_of d [] = d"
  by (simp add: dict_of_append wf_dict_def)

lemma set_update_subset: "set (AList.update k v d) \<subseteq> insert (k, v) (set d)"
  by (induction d) auto

lemma wf_dict_of: "wf_dict d \<Longrightarrow> wf_dict (dict_of kvs d)"
  by (induction kvs d rule: dict_of.induct) simp_all

lemma map_of_dict_of:
  "map_of (dict_of kvs d) k = (case map_of (rev kvs) k of None \<Rightarrow> map_of d k | Some v \<Rightarrow> Some v)"
  by (induction kvs d rule: dict_of.induct) (auto split: option.splits simp: map_add_def)

lemma read_ints_map [simp]: "read_ints (map (\<lambda>(k, v). (k, JInt v)) d) = Some d"
  by (induction d) auto

lemma read_ints_Some: "read_ints kvs = Some d \<Longrightarrow> kvs = map (\<lambda>(k, v). (k, JInt v)) d"
  by (induction kvs arbitrary: d rule: read_ints.induct) auto

lemma as_opt_json [simp]: "as_opt_int (opt_int_json i) = Inr i" "as_opt_str (opt_str_json s) = Inr s"
  by (cases i; simp) (cases s; simp)

lemma read_state_name: "read_state (JStr (state_name s)) = Inr s"
  by (cases s) (simp_all add: read_state_def)

lemma read_branch_public: "read_branch (branch_public b) = Inr b"
  by (simp add: read_branch_def branch_public_def field_def obj_get_def opt_field_def branch_fields_def
      read_state_name)

lemma history_reads:
  "mapR (\<lambda>(k, v). bindR (read_int k) (\<lambda>h. bindR (as_str v) (\<lambda>d. Inr (h, d))))
     (map (\<lambda>(n, d). (int_str n, JStr d)) h) = Inr h"
  by (induction h) auto

lemma locks_read:
  "mapR (\<lambda>(k, v). bindR (as_int v) (\<lambda>i. Inr (k, i))) (map (\<lambda>(k, v). (k, JInt v)) d) = Inr d"
  by (induction d) auto

lemma branches_read: "mapR read_branch (map (\<lambda>(k, b). branch_public b) bs) = Inr (map snd bs)"
  by (induction bs) (auto simp: read_branch_public)

text \<open>The ledger that reading a snapshot gives: the same one, tables in key order.\<close>

definition canonical_genesis :: "genesis_config \<Rightarrow> genesis_config" where
  "canonical_genesis g = g\<lparr>allocations := sorted_dict (allocations g)\<rparr>"

definition canonical_ledger :: "ledger \<Rightarrow> ledger" where
  "canonical_ledger L = L\<lparr>lg_genesis := map_option canonical_genesis (lg_genesis L),
     lg_balances := sorted_dict (lg_balances L), lg_locked := sorted_dict (lg_locked L),
     lg_history := sort_key fst (lg_history L)\<rparr>"

lemma wf_sort_key [simp]: "wf_dict (sort_key fst h) \<longleftrightarrow> wf_dict h"
proof -
  have "mset (map fst (sort_key fst h)) = mset (map fst h)" by simp
  then show ?thesis unfolding wf_dict_def by (rule mset_eq_imp_distinct_iff)
qed

lemma map_of_sort_key [simp]: "wf_dict h \<Longrightarrow> map_of (sort_key fst h) = map_of h"
  using map_of_inject_set [of "sort_key fst h" h] wf_sort_key [of h] by (simp add: wf_dict_def)

lemma restore_fields_snapshot:
  assumes "wf_dict (lg_locked L)" "wf_dict (lg_history L)" "wf_dict (lg_branches L)"
    "\<And>k b. (k, b) \<in> set (lg_branches L) \<Longrightarrow> br_id b = k"
  shows "restore_fields (ledger_snapshot L) B = Inr (B\<lparr>lg_round := lg_round L, lg_height := lg_height L,
     lg_digest := lg_digest L, lg_locked := sorted_dict (lg_locked L), lg_finalized := lg_finalized L,
     lg_history := sort_key fst (lg_history L), lg_branches := lg_branches L\<rparr>)"
proof -
  have "map (\<lambda>b. (br_id b, b)) (map snd (lg_branches L)) = map id (lg_branches L)"
    unfolding map_map using assms(4) by (intro map_cong) auto
  then have bs: "map ((\<lambda>b. (br_id b, b)) \<circ> snd) (lg_branches L) = lg_branches L"
    by simp
  show ?thesis
    using assms bs
    by (simp add: restore_fields_def ledger_snapshot_def field_def obj_get_def dict_json_def history_json_def
        locks_read history_reads branches_read)
qed

section \<open>What validation accepts\<close>

text \<open>The accumulated locks, as a closed form.\<close>

definition locks_of :: "string \<Rightarrow> branch list \<Rightarrow> int" where
  "locks_of a bs = sum_list (map (branch_lock a) bs)"

lemma expected_locks_Cons:
  assumes "expected_locks h (b # bs) acc = Inr d"
  shows "0 < br_value b" "br_stake b = br_value b" "map_of h (br_origin_height b) = Some (br_origin_digest b)"
    "expected_locks h bs (if is_open b then AList.update (br_sender b) (dict_get acc (br_sender b) 0 + br_value b + br_stake b) acc else acc) = Inr d"
proof -
  show 1: "0 < br_value b" "br_stake b = br_value b" "map_of h (br_origin_height b) = Some (br_origin_digest b)"
    using assms by (simp_all split: if_split_asm)
  show "expected_locks h bs (if is_open b then AList.update (br_sender b) (dict_get acc (br_sender b) 0 + br_value b + br_stake b) acc else acc) = Inr d"
    using assms 1(1,3) 1(2) by (cases "is_open b") (simp_all add: is_open_def add.assoc split: if_split_asm)
qed

lemma expected_locks_value:
  assumes "expected_locks h bs acc = Inr d"
  shows "(wf_dict acc \<longrightarrow> wf_dict d) \<and> ((\<forall>(k, v) \<in> set acc. 0 < v) \<longrightarrow> (\<forall>(k, v) \<in> set d. 0 < v))
    \<and> dict_get d a 0 = dict_get acc a 0 + locks_of a bs
    \<and> (\<forall>b \<in> set bs. 0 < br_value b \<and> br_stake b = br_value b \<and> map_of h (br_origin_height b) = Some (br_origin_digest b))"
  using assms
proof (induction bs arbitrary: acc)
  case Nil
  then show ?case by (simp add: locks_of_def)
next
  case (Cons b bs)
  let ?acc = "AList.update (br_sender b) (dict_get acc (br_sender b) 0 + br_value b + br_stake b) acc"
  note b = expected_locks_Cons [OF Cons.prems]
  have pos: "\<forall>(k, v) \<in> set ?acc. 0 < v" if "\<forall>(k, v) \<in> set acc. 0 < v"
  proof -
    have "0 \<le> dict_get acc (br_sender b) 0"
      using that by (auto simp: dict_get_def split: option.splits dest!: map_of_SomeD)
    with b(1,2) have "0 < dict_get acc (br_sender b) 0 + br_value b + br_stake b" by simp
    with that set_update_subset [of "br_sender b" "dict_get acc (br_sender b) 0 + br_value b + br_stake b" acc]
    show ?thesis by blast
  qed
  show ?case
  proof (cases "is_open b")
    case True
    with b(4) have "expected_locks h bs ?acc = Inr d" by simp
    note ih = Cons.IH [OF this]
    have "wf_dict acc \<longrightarrow> wf_dict d" using ih wf_dict_update by blast
    moreover have "(\<forall>(k, v) \<in> set acc. 0 < v) \<longrightarrow> (\<forall>(k, v) \<in> set d. 0 < v)" using ih pos by blast
    moreover have "dict_get d a 0 = dict_get ?acc a 0 + locks_of a bs" using ih by blast
    then have "dict_get d a 0 = dict_get acc a 0 + locks_of a (b # bs)"
      using True by (simp add: locks_of_def branch_lock_def)
    ultimately show ?thesis using ih b(1-3) by (metis set_ConsD)
  next
    case False
    with b(4) have "expected_locks h bs acc = Inr d" by simp
    from Cons.IH [OF this] b(1-3) False show ?thesis
      by (simp add: locks_of_def branch_lock_def)
  qed
qed

lemma expected_locks_ok:
  assumes "\<forall>b \<in> set bs. 0 < br_value b \<and> br_stake b = br_value b \<and> map_of h (br_origin_height b) = Some (br_origin_digest b)"
  shows "\<exists>d. expected_locks h bs acc = Inr d"
  using assms by (induction bs arbitrary: acc) auto

lemma locks_of_branches: "locks_of a (map snd bs) = open_locks a bs"
  by (simp add: locks_of_def open_locks_def comp_def)

text \<open>Equality of dictionaries is equality of lookups.\<close>

lemma wf_dict_card: "wf_dict d \<Longrightarrow> card (set d) = length d"
  unfolding wf_dict_def by (metis distinct_card distinct_map)

lemma dict_eq_iff:
  assumes "wf_dict d" "wf_dict e"
  shows "dict_eq d e \<longleftrightarrow> map_of d = map_of e"
proof
  assume eq: "dict_eq d e"
  then have "set d \<subseteq> set e" using wf_dict_mem [OF assms(2)] by (auto simp: dict_eq_def)
  moreover have "card (set d) = card (set e)"
    using eq assms by (simp add: dict_eq_def wf_dict_card)
  ultimately have "set d = set e" by (simp add: card_subset_eq)
  then show "map_of d = map_of e" using assms by (simp add: map_of_inject_set wf_dict_def)
next
  assume eq: "map_of d = map_of e"
  then have "set d = set e" using assms by (simp add: map_of_inject_set wf_dict_def)
  then have "length d = length e"
    using assms by (metis wf_dict_card)
  with eq wf_dict_mem [OF assms(1)] show "dict_eq d e" by (auto simp: dict_eq_def)
qed

lemma wf_dict_filter [simp]: "wf_dict d \<Longrightarrow> wf_dict (filter P d)"
  by (simp add: wf_dict_def distinct_map_filter)

lemma nonzero_lookup:
  "wf_dict d \<Longrightarrow> map_of (filter (\<lambda>(a, v). v \<noteq> 0) d) a = (if dict_get d a 0 = 0 then None else Some (dict_get d a (0::int)))"
proof (induction d)
  case (Cons p d)
  obtain k v where p: "p = (k, v)" by (cases p)
  from Cons.prems p have "wf_dict d" "map_of d k = None" by (auto simp: wf_dict_def map_of_eq_None_iff)
  with Cons.IH p show ?case by (auto simp: dict_get_def)
qed simp

lemma positive_lookup:
  "wf_dict d \<Longrightarrow> \<forall>(k, v) \<in> set d. 0 < v \<Longrightarrow> map_of d a = (if dict_get d a 0 = 0 then None else Some (dict_get d a (0::int)))"
  using wf_dict_mem [of d a] by (auto simp: dict_get_def split: option.splits)

lemma nonzero_inject: "(if x = 0 then None else Some x) = (if y = 0 then None else Some y) \<longleftrightarrow> x = (y :: int)"
  by simp

text \<open>The lock test compares the two sides account by account.\<close>

lemma lock_test:
  assumes "expected_locks h (map snd bs) [] = Inr d" "wf_dict locked"
  shows "dict_eq d (filter (\<lambda>(a, v). v \<noteq> 0) locked) \<longleftrightarrow> (\<forall>a. dict_get locked a 0 = open_locks a bs)"
proof -
  from expected_locks_value [OF assms(1)] have
    d: "wf_dict d" "\<forall>(k, v) \<in> set d. 0 < v" "\<And>a. dict_get d a 0 = open_locks a bs"
    by (auto simp: locks_of_branches)
  have "dict_eq d (filter (\<lambda>(a, v). v \<noteq> 0) locked) \<longleftrightarrow> map_of d = map_of (filter (\<lambda>(a, v). v \<noteq> 0) locked)"
    using d assms(2) by (intro dict_eq_iff) simp_all
  also have "\<dots> \<longleftrightarrow> (\<forall>a. dict_get locked a 0 = open_locks a bs)"
    unfolding fun_eq_iff positive_lookup [OF d(1,2)] nonzero_lookup [OF assms(2)] d(3) nonzero_inject by metis
  finally show ?thesis .
qed

section \<open>What runs from a genesis file keep\<close>

text \<open>
  The part of the restored state that \<open>_validate_restored_state\<close> compares with the genesis file,
  with the condition under which the comparison keeps holding: no branch pays a locked account.
\<close>

definition genesis_kept :: "crypto \<Rightarrow> ledger \<Rightarrow> bool" where
  "genesis_kept C L =
     (case lg_genesis L of None \<Rightarrow> True
      | Some g \<Rightarrow> wf_genesis g
          \<and> genesis_digest C g = Inr (the (map_of (lg_history L) 0)) \<and> map_of (lg_history L) 0 \<noteq> None
          \<and> dict_sum (lg_balances L) = dict_sum (allocations g)
          \<and> (\<forall>a \<in> set (locked_accounts g). map_of (lg_balances L) a = map_of (allocations g) a)
          \<and> (\<forall>k b. map_of (lg_branches L) k = Some b \<longrightarrow> br_receiver b \<notin> set (locked_accounts g)))"

lemma release_fields:
  "lg_genesis (release k b L) = lg_genesis L" "lg_history (release k b L) = lg_history L"
  "lg_balances (release k b L) = lg_balances L" "lg_height (release k b L) = lg_height L"
  "lg_branches (release k b L) = AList.update k b (lg_branches L)"
  by (simp_all add: release_def set_branch_def)

lemma set_branch_fields:
  "lg_genesis (set_branch k b L) = lg_genesis L" "lg_history (set_branch k b L) = lg_history L"
  "lg_balances (set_branch k b L) = lg_balances L" "lg_height (set_branch k b L) = lg_height L"
  "lg_branches (set_branch k b L) = AList.update k b (lg_branches L)"
  by (simp_all add: set_branch_def)

lemma genesis_kept_branch:
  assumes "genesis_kept C L" "map_of (lg_branches L) k = Some b" "br_receiver b' = br_receiver b"
    "lg_genesis L' = lg_genesis L" "lg_history L' = lg_history L" "lg_balances L' = lg_balances L"
    "lg_branches L' = AList.update k b' (lg_branches L)"
  shows "genesis_kept C L'"
  using assms by (auto simp: genesis_kept_def split: option.splits)

lemma settle_fields:
  "lg_genesis (settle C k b L) = lg_genesis L"
  "lg_history (settle C k b L) = AList.update (lg_height L + 1) (lg_digest (settle C k b L)) (lg_history L)"
  "lg_branches (settle C k b L) = AList.update k (b\<lparr>br_state := FINAL\<rparr>) (lg_branches L)"
  by (simp_all add: settle_def Let_def append_block_def release_def set_branch_def move_value_def)

lemma settle_bystander:
  "a \<noteq> br_sender b \<Longrightarrow> a \<noteq> br_receiver b \<Longrightarrow> map_of (lg_balances (settle C k b L)) a = map_of (lg_balances L) a"
  by (simp add: settle_def Let_def append_block_def release_def set_branch_def move_value_def)

lemma branch_move_genesis:
  "branch_move C L L' \<Longrightarrow> ledger_inv L \<Longrightarrow> genesis_kept C L \<Longrightarrow> genesis_kept C L'"
proof (induction rule: branch_move.induct)
  case (accept_move L k b b')
  then show ?case by - (rule genesis_kept_branch [of C L k b b'], simp_all add: set_branch_fields)
next
  case (commit_move L k b b' d)
  then show ?case by - (rule genesis_kept_branch [of C L k b b'], simp_all add: set_branch_fields)
next
  case (cancel_move L k b)
  then show ?case
    by - (rule genesis_kept_branch [of C L k b "b\<lparr>br_state := CANCELLED\<rparr>"], simp_all add: release_fields)
next
  case (expire_move L k b)
  then show ?case
    by - (rule genesis_kept_branch [of C L k b "b\<lparr>br_state := EXPIRED\<rparr>"], simp_all add: release_fields)
next
  case (final_move L k b r)
  have sum: "dict_sum (lg_balances (settle C k b L)) = dict_sum (lg_balances L)"
    by (rule branch_move_supply [OF branch_move.final_move [OF final_move(1-4)] final_move.prems(1)])
  have h: "lg_height L + 1 \<noteq> 0" using ledger_invD(13) [OF final_move.prems(1)] by simp
  have s: "\<not> is_reserved L (br_sender b)"
    using ledger_invD(9) [OF final_move.prems(1) final_move(1)] by (simp add: wf_branch_def)
  show ?case
  proof (cases "lg_genesis L")
    case None
    then show ?thesis by (simp add: genesis_kept_def settle_fields)
  next
    case (Some g)
    with final_move.prems(2) have kept: "wf_genesis g" "genesis_digest C g = Inr (the (map_of (lg_history L) 0))"
      "map_of (lg_history L) 0 \<noteq> None" "dict_sum (lg_balances L) = dict_sum (allocations g)"
      "\<And>a. a \<in> set (locked_accounts g) \<Longrightarrow> map_of (lg_balances L) a = map_of (allocations g) a"
      "\<And>k b. map_of (lg_branches L) k = Some b \<Longrightarrow> br_receiver b \<notin> set (locked_accounts g)"
      by (auto simp: genesis_kept_def)
    have "map_of (lg_balances (settle C k b L)) a = map_of (allocations g) a"
      if "a \<in> set (locked_accounts g)" for a
      using that kept(5) [OF that] kept(6) [OF final_move(1)] s Some
      by (subst settle_bystander) (auto simp: is_reserved_def)
    with kept h sum Some kept(6) [OF final_move(1)] show ?thesis
      by (auto simp: genesis_kept_def settle_fields)
  qed
next
  case (round_move L)
  then show ?case by (simp add: genesis_kept_def split: option.splits)
next
  case (register_move L a d)
  have h: "lg_height L + 1 \<noteq> 0" using ledger_invD(13) [OF register_move.prems(1)] by simp
  have zero: "dict_get (lg_balances L) a 0 = 0" using register_move(1) by (simp add: dict_has_def dict_get_def)
  show ?case
  proof (cases "lg_genesis L")
    case (Some g)
    with register_move.prems(2) have "wf_genesis g"
      and kept: "\<And>x. x \<in> set (locked_accounts g) \<Longrightarrow> map_of (lg_balances L) x = map_of (allocations g) x"
      by (auto simp: genesis_kept_def)
    then have "a \<notin> set (locked_accounts g)"
      using register_move(1) by (fastforce simp: wf_genesis_def dict_has_def)
    with register_move.prems Some h zero ledger_invD(1) [OF register_move.prems(1)] show ?thesis
      by (auto simp: genesis_kept_def append_block_def new_account_def dict_sum_update)
  qed (simp add: genesis_kept_def append_block_def new_account_def)
qed

lemma branch_moves_genesis:
  "branch_moves C L L' \<Longrightarrow> ledger_inv L \<Longrightarrow> genesis_kept C L \<Longrightarrow> genesis_kept C L'"
proof (induction rule: rtranclp_induct)
  case (step M N)
  then show ?case
    using branch_move_genesis [of C M N] ledger_moves_inv [OF branch_moves_ledger [of C L M]] by blast
qed simp

text \<open>The offers that pay an account which the genesis file locks.\<close>

fun pays_reserve :: "genesis_config option \<Rightarrow> mutation \<Rightarrow> bool" where
  "pays_reserve (Some g) (Offer s r v ttl) = (r \<in> set (locked_accounts g))"
| "pays_reserve _ _ = False"

lemma branch_move_genesis_same: "branch_move C L L' \<Longrightarrow> lg_genesis L' = lg_genesis L"
  by (induction rule: branch_move.induct)
    (simp_all add: set_branch_fields release_fields settle_fields append_block_def new_account_def)

lemma ledger_moves_genesis_same: "ledger_moves C L L' \<Longrightarrow> lg_genesis L' = lg_genesis L"
proof (induction rule: rtranclp_induct)
  case (step M N)
  from step.hyps(2) have "lg_genesis N = lg_genesis M"
    by (cases rule: ledger_move.cases) (auto simp: locked_more_def set_branch_def dest: branch_move_genesis_same)
  with step.IH show ?case by simp
qed simp

lemma apply_method_genesis:
  assumes inv: "ledger_inv L" and "\<not> pays_reserve (lg_genesis L) m" "genesis_kept C L"
  shows "genesis_kept C (snd (apply_method C m L))"
proof (cases "is_offer m")
  case True
  then obtain s r v ttl where m: "m = Offer s r v ttl" by (cases m) auto
  show ?thesis
  proof (cases rule: apply_offer_cases [of C s r v ttl L])
    case rejected
    with m assms show ?thesis by simp
  next
    case (accepted b)
    with m assms show ?thesis
      by (auto simp: genesis_kept_def locked_more_def set_branch_def new_branch_def split: option.splits)
  qed
next
  case False
  from branch_moves_genesis [OF apply_method_branch_moves [OF inv False] inv assms(3)] show ?thesis .
qed

lemma run_genesis:
  "ledger_inv L \<Longrightarrow> genesis_kept C L \<Longrightarrow> list_all (\<lambda>m. \<not> pays_reserve (lg_genesis L) m) ms \<Longrightarrow>
     genesis_kept C (run_ops (apply_method C) ms L)"
proof (induction ms arbitrary: L)
  case (Cons m ms)
  then show ?case
    using ledger_moves_genesis_same [OF apply_method_moves [of L C m]]
    by (simp add: apply_method_genesis apply_method_inv)
qed simp

section \<open>The round trip\<close>

lemma genesis_public_canonical: "genesis_public (canonical_genesis g) = genesis_public g"
  by (simp add: genesis_public_def canonical_genesis_def)

lemma genesis_digest_canonical: "genesis_digest C (canonical_genesis g) = genesis_digest C g"
  by (simp add: genesis_digest_def genesis_public_canonical)

lemma canonical_genesis_fields:
  "locked_accounts (canonical_genesis g) = locked_accounts g"
  "allocations (canonical_genesis g) = sorted_dict (allocations g)"
  by (simp_all add: canonical_genesis_def)

lemma genesis_eq_canonical: "wf_genesis g \<Longrightarrow> genesis_eq (canonical_genesis g) g"
  by (simp add: genesis_eq_def canonical_genesis_def dict_eq_iff wf_genesis_def)

lemma snapshot_genesis_reads:
  assumes "genesis_kept C L"
  shows "snapshot_genesis (ledger_snapshot L) = Inr (map_option canonical_genesis (lg_genesis L))"
proof (cases "lg_genesis L")
  case None
  then show ?thesis by (simp add: snapshot_genesis_def ledger_snapshot_def obj_get_def)
next
  case (Some g)
  with assms have "wf_genesis g" by (simp add: genesis_kept_def)
  from genesis_public_reads [OF this] have "genesis_from_dict (genesis_public g) = Inr (canonical_genesis g)"
    by (simp add: canonical_genesis_def)
  moreover have "obj_get (ledger_snapshot L) ''genesis'' = Some (genesis_public g)"
    using Some by (simp add: ledger_snapshot_def obj_get_def)
  ultimately show ?thesis
    using Some by (simp add: snapshot_genesis_def genesis_public_def)
qed

lemma snapshot_get_balances: "obj_get (ledger_snapshot L) ''balances'' = Some (dict_json (sorted_dict (lg_balances L)))"
  by (simp add: ledger_snapshot_def obj_get_def)

lemma restore_base_reads:
  assumes "genesis_kept C L"
  obtains B where "restore_base C (map_option canonical_genesis (lg_genesis L)) (ledger_snapshot L) = Inr B"
    "lg_genesis B = map_option canonical_genesis (lg_genesis L)" "lg_balances B = sorted_dict (lg_balances L)"
proof (cases "lg_genesis L")
  case None
  obtain B where "ledger_init C (Some (sorted_dict (lg_balances L))) None = Inr B"
    "lg_balances B = sorted_dict (lg_balances L)"
    by (rule ledger_init_ok)
  with that [of B] None ledger_init_fields(6) [of C _ None B] show thesis
    by (simp add: restore_base_def snapshot_get_balances dict_json_def)
next
  case (Some g)
  with assms obtain d where "genesis_digest C g = Inr d" by (auto simp: genesis_kept_def)
  then have "genesis_digest C (canonical_genesis g) = Inr d" by (simp add: genesis_digest_canonical)
  with that Some show thesis
    by (simp add: restore_base_def ledger_init_def ledger_origin_digest_def Let_def snapshot_get_balances dict_json_def)
qed

lemma open_locks_exact: "locks_exact L \<Longrightarrow> open_locks a (lg_branches L) = dict_get (lg_locked L) a 0"
  by (simp add: locks_exact_def)

lemma validate_genesis_ok:
  assumes "genesis_kept C L" "lg_genesis L = Some g" "ledger_inv L"
  shows "validate_genesis C (canonical_ledger L) (canonical_genesis g) = Inr ()"
proof -
  from assms have kept: "wf_genesis g" "genesis_digest C g = Inr (the (map_of (lg_history L) 0))"
    "map_of (lg_history L) 0 \<noteq> None" "dict_sum (lg_balances L) = dict_sum (allocations g)"
    "\<And>a. a \<in> set (locked_accounts g) \<Longrightarrow> map_of (lg_balances L) a = map_of (allocations g) a"
    by (auto simp: genesis_kept_def)
  have "br_sender b \<notin> set (locked_accounts g)" if "(k, b) \<in> set (lg_branches L)" for k b
  proof -
    have "map_of (lg_branches L) k = Some b" using that wf_dict_mem [OF ledger_invD(3) [OF assms(3)]] by blast
    from ledger_invD(9) [OF assms(3) this] show ?thesis by (simp add: wf_branch_def is_reserved_def assms(2))
  qed
  moreover have "map_of (lg_balances L) a = Some v" if "(a, v) \<in> set (allocations g)" "a \<in> set (locked_accounts g)" for a v
    using that kept(5) [OF that(2)] kept(1) wf_dict_mem [of "allocations g" a v] by (simp add: wf_genesis_def)
  ultimately show ?thesis
    using kept ledger_invD(1,4) [OF assms(3)]
    by (auto simp: validate_genesis_def genesis_digest_canonical canonical_ledger_def canonical_genesis_fields list_ex_iff)
qed

lemma keys_sorted [simp]: "set (keys (sorted_dict d)) = set (keys d)"
  by (simp add: keys_def)

lemma dict_get_sorted [simp]: "wf_dict d \<Longrightarrow> dict_get (sorted_dict d) = dict_get d"
  by (simp add: dict_get_def fun_eq_iff)

lemma validate_restored_ok:
  assumes inv: "ledger_inv L" and "locks_exact L" "genesis_kept C L"
  shows "validate_restored C (canonical_ledger L) = Inr ()"
proof -
  let ?L = "canonical_ledger L"
  note wf = ledger_invD(1-4) [OF inv]
  have "0 < br_value b \<and> br_stake b = br_value b \<and> map_of (lg_history ?L) (br_origin_height b) = Some (br_origin_digest b)"
    if "b \<in> set (map snd (lg_branches ?L))" for b
  proof -
    from that obtain k where "map_of (lg_branches L) k = Some b"
      using wf_dict_values [OF wf(3), of b] by (auto simp: canonical_ledger_def)
    from ledger_invD(9) [OF inv this] wf show ?thesis by (simp add: wf_branch_def canonical_ledger_def)
  qed
  then obtain d where d: "expected_locks (lg_history ?L) (map snd (lg_branches ?L)) [] = Inr d"
    using expected_locks_ok [of "map snd (lg_branches ?L)" "lg_history ?L" "[]"] by blast
  have locks: "dict_eq d (filter (\<lambda>(a, v). v \<noteq> 0) (lg_locked ?L))"
    using lock_test [OF d, of "lg_locked ?L"] assms(2) wf by (simp add: canonical_ledger_def locks_exact_def)
  have avail: "0 \<le> available ?L a" for a
    using ledger_invD(7) [OF inv, of a] wf by (simp add: available_def canonical_ledger_def)
  have "\<not> list_ex (\<lambda>a. available ?L a < 0) (keys (lg_balances ?L) @ keys (lg_locked ?L))"
    using avail by (simp add: list_ex_iff not_less)
  moreover have "0 \<le> v" if "(a, v) \<in> set (lg_balances L)" for a v
    using that ledger_invD(5) [OF inv, of a] wf_dict_mem [OF wf(1), of a v] by (simp add: dict_get_def)
  then have "\<not> list_ex (\<lambda>(a, v). v < 0) (lg_balances ?L)"
    by (force simp: list_ex_iff canonical_ledger_def)
  moreover have "map_of (lg_history ?L) (lg_height ?L) = Some (lg_digest ?L)" "0 \<le> lg_round ?L" "0 \<le> lg_height ?L"
    using ledger_invD(10,12,13) [OF inv] wf by (simp_all add: canonical_ledger_def)
  moreover have "(case lg_genesis ?L of None \<Rightarrow> Inr () | Some g \<Rightarrow> validate_genesis C ?L g) = Inr ()"
    using validate_genesis_ok [OF assms(3) _ inv] by (auto simp: canonical_ledger_def [of L] split: option.splits)
  ultimately show ?thesis
    using d locks by (simp add: validate_restored_def)
qed

lemma from_snapshot_canonical:
  assumes inv: "ledger_inv L" and "locks_exact L" and kept: "genesis_kept C L"
    and "expected = None \<or> expected = lg_genesis L"
  shows "from_snapshot C (ledger_snapshot L) expected = Inr (canonical_ledger L)"
proof -
  let ?G = "map_option canonical_genesis (lg_genesis L)"
  obtain B where B: "restore_base C ?G (ledger_snapshot L) = Inr B"
    "lg_genesis B = ?G" "lg_balances B = sorted_dict (lg_balances L)"
    by (rule restore_base_reads [OF kept])
  have "br_id b = k" if "(k, b) \<in> set (lg_branches L)" for k b
    using that wf_dict_mem [OF ledger_invD(3) [OF inv]] ledger_invD(9) [OF inv, of k b] by (simp add: wf_branch_def)
  from restore_fields_snapshot [OF ledger_invD(2,4,3) [OF inv] this, of B] B(2,3)
  have "restore_fields (ledger_snapshot L) B = Inr (canonical_ledger L)"
    by (simp add: canonical_ledger_def)
  moreover have "genesis_matches expected ?G"
    using assms(4) kept genesis_eq_canonical
    by (auto simp: genesis_matches_def genesis_kept_def split: option.splits)
  ultimately show ?thesis
    using B(1) snapshot_genesis_reads [OF kept] validate_restored_ok [OF assms(1-3)]
    by (simp add: from_snapshot_def) (simp add: ledger_snapshot_def obj_fields_def obj_get_def)
qed

section \<open>Soundness of validation\<close>

text \<open>
  Two conditions that the ledger invariant needs and \<open>_validate_restored_state\<close> does not test:
  a committed branch has the round of its commit, and no block of the history is above the head.
\<close>

definition unchecked_ok :: "ledger \<Rightarrow> bool" where
  "unchecked_ok L =
     (list_all (\<lambda>(k, b). br_state b = COMMITTED \<longrightarrow>
         (case br_committed_round b of None \<Rightarrow> False | Some r \<Rightarrow> r \<le> lg_round L)) (lg_branches L)
      \<and> list_all (\<lambda>(h, d). 0 \<le> h \<and> h \<le> lg_height L) (lg_history L))"

lemma dict_of_ids: "\<forall>(k, b) \<in> set d. br_id b = k \<Longrightarrow> \<forall>(k, b) \<in> set (dict_of (map (\<lambda>b. (br_id b, b)) bs) d). br_id b = k"
proof (induction bs arbitrary: d)
  case (Cons b bs)
  have "\<forall>(k, b) \<in> set (AList.update (br_id b) b d). br_id b = k"
    using Cons.prems set_update_subset [of "br_id b" b d] by fastforce
  from Cons.IH [OF this] show ?case by simp
qed simp

lemma dict_of_id: "(k, b) \<in> set (dict_of (map (\<lambda>b. (br_id b, b)) bs) []) \<Longrightarrow> br_id b = k"
  using dict_of_ids [of "[]" bs] by auto

lemma wf_read_ints: "read_ints kvs = Some d \<Longrightarrow> wf_keys (JObj kvs) \<Longrightarrow> wf_dict d"
  using allocations_keys [of d] by (auto dest: read_ints_Some simp: wf_dict_def)

lemma wf_keys_get: "wf_keys v \<Longrightarrow> obj_get v k = Some w \<Longrightarrow> wf_keys w"
  by (cases v) (auto simp: obj_get_def dest: map_of_SomeD)

lemma restore_base_wf:
  assumes "restore_base C g raw = Inr B" "wf_keys raw"
  shows "wf_dict (lg_balances B)" "lg_genesis B = g"
proof -
  have wf: "wf_dict d" if "obj_get raw ''balances'' = Some (JObj kvs)" "read_ints kvs = Some d" for kvs d
    using wf_read_ints [OF that(2) wf_keys_get [OF assms(2) that(1)]] .
  have "wf_dict (lg_balances B) \<and> lg_genesis B = g"
  proof (cases g)
    case (Some c)
    with assms(1) obtain L where L: "ledger_init C None (Some c) = Inr L"
      and rest: "(case obj_get raw ''balances'' of
               Some (JObj kvs) \<Rightarrow>
                 (case read_ints kvs of
                    None \<Rightarrow> Inl (ProtocolError ''invalid genesis snapshot balances'')
                  | Some d \<Rightarrow> Inr (L\<lparr>lg_balances := d\<rparr>))
             | _ \<Rightarrow> Inl (ProtocolError ''invalid genesis snapshot balances'')) = Inr B"
      unfolding restore_base_def by (auto simp only: bindR_Inr_iff option.case)
    from rest obtain kvs d where "obj_get raw ''balances'' = Some (JObj kvs)" "read_ints kvs = Some d"
      "B = L\<lparr>lg_balances := d\<rparr>"
      by (auto split: option.split_asm json.split_asm)
    with wf ledger_init_fields(6) [OF L] Some show ?thesis by simp
  next
    case None
    with assms(1) have rest: "(case obj_get raw ''balances'' of
             None \<Rightarrow> ledger_init C None None
           | Some JNull \<Rightarrow> ledger_init C None None
           | Some (JObj kvs) \<Rightarrow>
               (case read_ints kvs of None \<Rightarrow> Inl Unmodelled | Some d \<Rightarrow> ledger_init C (Some d) None)
           | _ \<Rightarrow> Inl Unmodelled) = Inr B"
      by (simp add: restore_base_def)
    then obtain bal where init: "ledger_init C bal None = Inr B"
      and bal: "bal = None \<or> (\<exists>kvs d. bal = Some d \<and> obj_get raw ''balances'' = Some (JObj kvs) \<and> read_ints kvs = Some d)"
      by (auto split: option.split_asm json.split_asm)
    show ?thesis
    proof (cases bal)
      case None
      with init \<open>g = None\<close> show ?thesis by (auto simp: ledger_init_def bindR_Inr_iff)
    next
      case (Some d)
      with bal wf have "wf_dict d" by auto
      with Some init \<open>g = None\<close> ledger_init_fields(6) [OF init] ledger_init_fields(8) [OF init] show ?thesis by simp
    qed
  qed
  then show "wf_dict (lg_balances B)" "lg_genesis B = g" by auto
qed

lemma restore_fields_wf:
  assumes "restore_fields raw B = Inr L" "wf_dict (lg_balances B)"
  shows "wf_dict (lg_balances L)" "wf_dict (lg_locked L)" "wf_dict (lg_history L)" "wf_dict (lg_branches L)"
    "\<forall>(k, b) \<in> set (lg_branches L). br_id b = k" "lg_genesis L = lg_genesis B"
  using assms by (auto simp: restore_fields_def bindR_Inr_iff wf_dict_of dest: dict_of_id)

lemma validate_restored_Inr:
  assumes "validate_restored C L = Inr ()" "wf_dict (lg_locked L)"
  shows "0 \<le> lg_round L" "0 \<le> lg_height L" "map_of (lg_history L) (lg_height L) = Some (lg_digest L)"
    "\<forall>(a, v) \<in> set (lg_balances L). 0 \<le> v" "locks_exact L"
    "\<forall>a. 0 \<le> available L a"
    "\<forall>(k, b) \<in> set (lg_branches L). 0 < br_value b \<and> br_stake b = br_value b
       \<and> map_of (lg_history L) (br_origin_height b) = Some (br_origin_digest b) \<and> \<not> is_reserved L (br_sender b)"
proof -
  from assms(1) obtain d where
    checks: "\<not> (lg_round L < 0 \<or> lg_height L < 0)" "map_of (lg_history L) (lg_height L) = Some (lg_digest L)"
      "\<not> list_ex (\<lambda>(a, v). v < 0) (lg_balances L)"
      "\<not> list_ex (\<lambda>a. available L a < 0) (keys (lg_balances L) @ keys (lg_locked L))"
    and locks: "expected_locks (lg_history L) (map snd (lg_branches L)) [] = Inr d"
      "dict_eq d (filter (\<lambda>(a, v). v \<noteq> 0) (lg_locked L))"
    and gen: "(case lg_genesis L of None \<Rightarrow> Inr () | Some g \<Rightarrow> validate_genesis C L g) = Inr ()"
    by (auto simp: validate_restored_def bindR_Inr_iff simp del: list_ex_append split: if_split_asm)
  show "0 \<le> lg_round L" "0 \<le> lg_height L" "map_of (lg_history L) (lg_height L) = Some (lg_digest L)"
    using checks(1,2) by simp_all
  show "\<forall>(a, v) \<in> set (lg_balances L). 0 \<le> v" using checks(3) by (auto simp: list_ex_iff)
  show "locks_exact L" using lock_test [OF locks(1) assms(2)] locks(2) by (simp add: locks_exact_def)
  show "\<forall>a. 0 \<le> available L a"
  proof
    fix a show "0 \<le> available L a"
    proof (cases "a \<in> set (keys (lg_balances L) @ keys (lg_locked L))")
      case True
      with checks(4) show ?thesis by (metis list_ex_iff not_less)
    next
      case False
      then have "map_of (lg_balances L) a = None" "map_of (lg_locked L) a = None"
        by (auto simp: keys_def map_of_eq_None_iff)
      then show ?thesis by (simp add: available_def dict_get_def)
    qed
  qed
  have "\<forall>(k, b) \<in> set (lg_branches L). \<not> is_reserved L (br_sender b)"
    using gen by (auto simp: is_reserved_def validate_genesis_def bindR_Inr_iff list_ex_iff split: option.splits if_splits)
  moreover have "\<forall>b \<in> set (map snd (lg_branches L)). 0 < br_value b \<and> br_stake b = br_value b
       \<and> map_of (lg_history L) (br_origin_height b) = Some (br_origin_digest b)"
    using expected_locks_value [OF locks(1)] by blast
  ultimately show "\<forall>(k, b) \<in> set (lg_branches L). 0 < br_value b \<and> br_stake b = br_value b
       \<and> map_of (lg_history L) (br_origin_height b) = Some (br_origin_digest b) \<and> \<not> is_reserved L (br_sender b)"
    by auto
qed

lemma from_snapshot_sound:
  assumes "from_snapshot C raw expected = Inr L" "wf_keys raw" "unchecked_ok L"
  shows "ledger_inv L \<and> locks_exact L"
proof -
  from assms(1) obtain g B where B: "restore_base C g raw = Inr B" "restore_fields raw B = Inr L"
    and val: "validate_restored C L = Inr ()"
    by (auto simp: from_snapshot_def bindR_Inr_iff split: if_splits)
  note base = restore_base_wf [OF B(1) assms(2)]
  note wf = restore_fields_wf [OF B(2) base(1)]
  note ok = validate_restored_Inr [OF val wf(2)]
  have nonneg: "0 \<le> branch_lock a b" if "(k, b) \<in> set (lg_branches L)" for a k b
    using ok(7) that by (fastforce simp: branch_lock_def)
  have "0 \<le> open_locks a (lg_branches L)" for a
    using nonneg unfolding open_locks_def by (intro sum_list_nonneg) auto
  then have "0 \<le> dict_get (lg_locked L) a 0" for a using ok(5) by (simp add: locks_exact_def)
  moreover have "0 \<le> dict_get (lg_balances L) a 0" for a
    using ok(4) by (auto simp: dict_get_def split: option.splits dest!: map_of_SomeD)
  moreover have "wf_branch L k b" if "map_of (lg_branches L) k = Some b" for k b
    using map_of_SomeD [OF that] ok(7) wf(5) assms(3)
    by (fastforce simp: wf_branch_def unchecked_ok_def list_all_iff split: option.splits)
  moreover have "0 \<le> h \<and> h \<le> lg_height L" if "map_of (lg_history L) h = Some d" for h d
    using map_of_SomeD [OF that] assms(3) by (fastforce simp: unchecked_ok_def list_all_iff)
  ultimately have "ledger_inv L"
    using wf ok by (intro ledger_invI) (auto simp: locks_exact_def)
  with ok(5) show ?thesis by simp
qed

lemma init_genesis_kept:
  assumes "ledger_init C None (Some g) = Inr L" "wf_genesis g"
  shows "ledger_inv L" "locks_exact L" "genesis_kept C L" "lg_genesis L = Some g"
proof -
  note f = ledger_init_fields [OF assms(1)]
  have bal: "lg_balances L = allocations g" using f(9) by simp
  show "ledger_inv L"
    using assms(2) bal by (intro ledger_init_inv [OF assms(1)]) (auto simp: valid_start_def wf_genesis_def)
  show "locks_exact L" using f by (simp add: locks_exact_def open_locks_def)
  show "lg_genesis L = Some g" using f by simp
  have "genesis_digest C g = Inr (lg_digest L)"
    using assms(1) by (auto simp: ledger_init_def ledger_origin_digest_def bindR_Inr_iff Let_def)
  with f bal assms(2) show "genesis_kept C L" by (simp add: genesis_kept_def)
qed

lemma canonical_ledger_snapshot: "ledger_snapshot (canonical_ledger L) = ledger_snapshot L"
  by (simp add: ledger_snapshot_def canonical_ledger_def history_json_def genesis_public_canonical
      sort_key_id_if_sorted split: option.splits)

section \<open>Properties\<close>

text \<open>C15. Snapshots are lossless: for every ledger that the calls \<open>ms\<close> produce from a valid genesis
  file (without a collision of branch ids, and without an offer that pays a locked account),
  \<open>from_snapshot\<close> accepts the ledger's own snapshot, with the network's genesis as the expected one,
  and gives the same ledger back, with its tables in key order; the restored ledger has the same snapshot,
  so the digests that replicas exchange agree.\<close>

theorem ledger_snapshot_roundtrip:
  assumes "ledger_init C None (Some g) = Inr L" "wf_genesis g" "no_collision C ms L"
    and "list_all (\<lambda>m. \<not> pays_reserve (Some g) m) ms"
  shows "from_snapshot C (ledger_snapshot (run_ops (apply_method C) ms L)) (Some g)
      = Inr (canonical_ledger (run_ops (apply_method C) ms L))
    \<and> ledger_snapshot (canonical_ledger (run_ops (apply_method C) ms L))
      = ledger_snapshot (run_ops (apply_method C) ms L)"
proof -
  let ?R = "run_ops (apply_method C) ms L"
  note start = init_genesis_kept [OF assms(1,2)]
  have "ledger_inv ?R" by (rule ledger.run_inv [OF start(1)])
  moreover have "locks_exact ?R" by (rule run_locks [OF start(1) assms(3) start(2)])
  moreover have "genesis_kept C ?R"
    using assms(4) start(4) by (intro run_genesis [OF start(1,3)]) simp
  moreover have "lg_genesis ?R = Some g"
    using ledger_moves_genesis_same [OF run_moves [OF start(1)]] start(4) by simp
  ultimately show ?thesis
    using from_snapshot_canonical [of ?R C "Some g"] canonical_ledger_snapshot [of ?R] by simp
qed

text \<open>The trust boundary of a restart: a ledger that \<open>from_snapshot\<close> accepts from any JSON document
  satisfies the whole ledger invariant and has exact locks, so all the safety properties hold from there,
  as soon as it meets the two conditions that \<open>_validate_restored_state\<close> leaves untested
  (\<open>unchecked_ok\<close>).\<close>

theorem ledger_restore_sound:
  assumes "from_snapshot C raw expected = Inr L" "wf_keys raw" "unchecked_ok L"
  shows "ledger_inv L \<and> (\<forall>a. dict_get (lg_locked L) a 0 = open_locks a (lg_branches L))"
  using from_snapshot_sound [OF assms] by (simp add: locks_exact_def)

definition committed_ledger :: ledger where
  "committed_ledger = run_ops (apply_method sample_crypto)
     [Accept sample_id ''bob'', Commit sample_id ''alice'' JNull] offered_ledger"

text \<open>The snapshot of a ledger with a committed branch, its \<open>committed_round\<close> set to \<open>null\<close>.\<close>

definition roundless_ledger :: ledger where
  "roundless_ledger = committed_ledger\<lparr>lg_branches :=
     map (\<lambda>(k, b). (k, b\<lparr>br_committed_round := None\<rparr>)) (lg_branches committed_ledger)\<rparr>"

text \<open>The first untested condition matters: \<open>from_snapshot\<close> accepts a snapshot with a committed
  branch whose \<open>committed_round\<close> is \<open>null\<close>, and the next \<open>advance\<close> stops with an
  \<open>AssertionError\<close>, with the round already counted.\<close>

theorem ledger_restore_without_commit_round:
  "case from_snapshot sample_crypto (ledger_snapshot roundless_ledger) None of
     Inl e \<Rightarrow> False
   | Inr L \<Rightarrow> (case advance sample_crypto 1 L of
       (Inr _, _) \<Rightarrow> False
     | (Inl e, L') \<Rightarrow> e = AssertionError ''branch.committed_round is not None'' \<and> lg_round L' = lg_round L + 1)"
  by code_simp

text \<open>A block above the head, and a branch that claims to split from it.\<close>

definition foreseen_ledger :: ledger where
  "foreseen_ledger = committed_ledger\<lparr>
     lg_history := lg_history committed_ledger @ [(1, ''forged'')],
     lg_branches := lg_branches committed_ledger @ [(''f'', (new_branch sample_ledger ''f'' ''bob'' ''alice'' 1 3)\<lparr>
       br_state := FINAL, br_origin_height := 1, br_origin_digest := ''forged''\<rparr>)]\<rparr>"

text \<open>The second untested condition matters: a snapshot with a block above the canonical head is
  accepted; the next finalisation overwrites that block, and from then on the node rejects the snapshots
  of its own ledger.\<close>

theorem ledger_restore_block_above_head:
  "case from_snapshot sample_crypto (ledger_snapshot foreseen_ledger) None of
     Inl e \<Rightarrow> False
   | Inr L \<Rightarrow> from_snapshot sample_crypto (ledger_snapshot (snd (advance sample_crypto 3 L))) None
       = Inl (ProtocolError ''branch origin is not canonical'')"
  by code_simp

definition reserve_run :: "mutation list" where
  "reserve_run =
     (let k = offer_id sample_crypto reserve_ledger ''faucet'' ''reserve'' 5
      in [Offer ''faucet'' ''reserve'' 5 6, Accept k ''reserve'', Commit k ''faucet'' JNull, Advance 3])"

text \<open>A payment to the locked reserve stops the node: every call of the run is accepted, and
  afterwards \<open>from_snapshot\<close> rejects the ledger's own snapshot, because the reserve no longer has
  exactly its genesis allocation. The condition on \<open>pays_reserve\<close> in the round trip is therefore
  needed.\<close>

theorem ledger_reserve_payment_unrestorable:
  "accepted (apply_method sample_crypto) reserve_run reserve_ledger = reserve_run
   \<and> from_snapshot sample_crypto (ledger_snapshot (run_ops (apply_method sample_crypto) reserve_run reserve_ledger))
       (Some sample_genesis) = Inl (ProtocolError ''snapshot changed locked reserve'')"
  by code_simp

theorem ledger_snapshot_roundtrip_witness:
  "from_snapshot sample_crypto (ledger_snapshot (run_ops (apply_method sample_crypto)
       [Register ''alice'', Offer ''faucet'' ''alice'' 1 3] reserve_ledger)) (Some sample_genesis)
      = Inr (canonical_ledger (run_ops (apply_method sample_crypto)
          [Register ''alice'', Offer ''faucet'' ''alice'' 1 3] reserve_ledger))
    \<and> ledger_snapshot (canonical_ledger (run_ops (apply_method sample_crypto)
          [Register ''alice'', Offer ''faucet'' ''alice'' 1 3] reserve_ledger))
      = ledger_snapshot (run_ops (apply_method sample_crypto)
          [Register ''alice'', Offer ''faucet'' ''alice'' 1 3] reserve_ledger)"
proof (rule ledger_snapshot_roundtrip [OF reserve_init wf_sample_genesis])
  show "no_collision sample_crypto [Register ''alice'', Offer ''faucet'' ''alice'' 1 3] reserve_ledger"
    by code_simp
  show "list_all (\<lambda>m. \<not> pays_reserve (Some sample_genesis) m) [Register ''alice'', Offer ''faucet'' ''alice'' 1 3]"
    by code_simp
qed

theorem ledger_restore_sound_witness:
  "ledger_inv (canonical_ledger offered_ledger)
   \<and> (\<forall>a. dict_get (lg_locked (canonical_ledger offered_ledger)) a 0
        = open_locks a (lg_branches (canonical_ledger offered_ledger)))"
proof (rule ledger_restore_sound)
  show "from_snapshot sample_crypto (ledger_snapshot offered_ledger) None = Inr (canonical_ledger offered_ledger)"
    by code_simp
  show "wf_keys (ledger_snapshot offered_ledger)" by code_simp
  show "unchecked_ok (canonical_ledger offered_ledger)" by code_simp
qed

end
