(* ===== verification/Ledger_Rounds.thy ===== *)
theory Ledger_Rounds
  imports Ledger_Safety
begin

text \<open>
  What the nested loops of \<open>Ledger.advance\<close> compute, as closed forms: the state of every branch
  as a function of the round alone, and the balance of every account as the sum of the payments that
  became final. Finality comes exactly three rounds after the commit, expiry exactly at the branch's
  deadline, and neither depends on how the rounds are split into calls.
\<close>

section \<open>Specification\<close>

text \<open>A branch as it stands at round \<open>R\<close> when nobody touches it.\<close>

definition aged :: "int \<Rightarrow> branch \<Rightarrow> branch" where
  "aged R b =
     (if br_state b \<in> {OFFERED, ACCEPTED} \<and> br_expires_round b \<le> R then b\<lparr>br_state := EXPIRED\<rparr>
      else if br_state b = COMMITTED \<and> (case br_committed_round b of None \<Rightarrow> False | Some r \<Rightarrow> r + 3 \<le> R)
        then b\<lparr>br_state := FINAL\<rparr>
      else b)"

text \<open>What account \<open>a\<close> gains when the branch is final by round \<open>R\<close>.\<close>

definition gain :: "string \<Rightarrow> int \<Rightarrow> branch \<Rightarrow> int" where
  "gain a R b =
     (if br_state b = COMMITTED \<and> (case br_committed_round b of None \<Rightarrow> False | Some r \<Rightarrow> r + 3 \<le> R)
      then (if br_receiver b = a then br_value b else 0) - (if br_sender b = a then br_value b else 0)
      else 0)"

definition gains :: "string \<Rightarrow> int \<Rightarrow> (string, branch) dict \<Rightarrow> int" where
  "gains a R bs = sum_list (map (\<lambda>p. gain a R (snd p)) bs)"

lemma aged_mono: "R \<le> R' \<Longrightarrow> aged R' (aged R b) = aged R' b"
  by (cases "br_state b"; cases "br_committed_round b"; simp add: aged_def)

lemma gain_aged: "R \<le> R' \<Longrightarrow> gain a R (aged R' b) = 0"
  by (cases "br_state b"; cases "br_committed_round b"; simp add: aged_def gain_def)

section \<open>One branch\<close>

lemma gains_update:
  "wf_dict bs \<Longrightarrow> map_of bs k = Some b \<Longrightarrow> gains a R (AList.update k b' bs) = gains a R bs - gain a R b + gain a R b'"
  unfolding gains_def by (simp add: sum_update)

lemma age_effect:
  assumes inv: "ledger_inv L" and b: "map_of (lg_branches L) k = Some b" and R: "lg_round L \<le> R"
  shows "lg_round (snd (age_branch C k b L)) = lg_round L"
    and "map_of (lg_branches (snd (age_branch C k b L))) = (map_of (lg_branches L))(k \<mapsto> aged (lg_round L) b)"
    and "dict_get (lg_balances (snd (age_branch C k b L))) a 0 + gains a R (lg_branches (snd (age_branch C k b L)))
      = dict_get (lg_balances L) a 0 + gains a R (lg_branches L)"
proof -
  note wf = ledger_invD(3) [OF inv]
  have "lg_round (snd (age_branch C k b L)) = lg_round L
    \<and> map_of (lg_branches (snd (age_branch C k b L))) = (map_of (lg_branches L))(k \<mapsto> aged (lg_round L) b)
    \<and> dict_get (lg_balances (snd (age_branch C k b L))) a 0 + gains a R (lg_branches (snd (age_branch C k b L)))
      = dict_get (lg_balances L) a 0 + gains a R (lg_branches L)"
  proof (cases rule: age_cases [OF inv b, of C])
    case 1
    have "aged (lg_round L) b = b"
      using 1(2,3) by (auto simp: aged_def split: option.splits)
    with 1 b show ?thesis by (simp add: fun_upd_idem)
  next
    case 2
    with b R wf show ?thesis
      by (auto simp: release_def set_branch_def aged_def gains_update gain_def)
  next
    case (3 r)
    with b R wf show ?thesis
      by (simp add: settle_def Let_def append_block_def move_value_balance release_def set_branch_def
          aged_def gains_update gain_def)
  qed
  then show "lg_round (snd (age_branch C k b L)) = lg_round L"
    and "map_of (lg_branches (snd (age_branch C k b L))) = (map_of (lg_branches L))(k \<mapsto> aged (lg_round L) b)"
    and "dict_get (lg_balances (snd (age_branch C k b L))) a 0 + gains a R (lg_branches (snd (age_branch C k b L)))
      = dict_get (lg_balances L) a 0 + gains a R (lg_branches L)"
    by blast+
qed

section \<open>The loops\<close>

lemma sweep_effect:
  assumes "ledger_inv L" "lg_round L \<le> R"
  shows "lg_round (snd (sweep C ks ch L)) = lg_round L
    \<and> (\<forall>k. map_of (lg_branches (snd (sweep C ks ch L))) k
        = map_option (\<lambda>b. if k \<in> set ks then aged (lg_round L) b else b) (map_of (lg_branches L) k))
    \<and> dict_get (lg_balances (snd (sweep C ks ch L))) a 0 + gains a R (lg_branches (snd (sweep C ks ch L)))
      = dict_get (lg_balances L) a 0 + gains a R (lg_branches L)"
  using assms
proof (induction ks arbitrary: ch L)
  case Nil
  then show ?case by (simp add: option.map_ident)
next
  case (Cons k ks)
  show ?case
  proof (cases "map_of (lg_branches L) k")
    case None
    with Cons.IH [of L ch] Cons.prems show ?thesis by (auto split: option.splits simp: map_option_case)
  next
    case (Some b)
    from age_inv [OF Cons.prems(1) Some, of C] obtain x L' where
      step: "age_branch C k b L = (Inr x, L')" and inv: "ledger_inv L'"
      by (cases "age_branch C k b L") auto
    from age_effect(1,2) [OF Cons.prems(1) Some Cons.prems(2), of C]
      age_effect(3) [OF Cons.prems(1) Some Cons.prems(2), of C a] step
    have eff: "lg_round L' = lg_round L"
      "map_of (lg_branches L') = (map_of (lg_branches L))(k \<mapsto> aged (lg_round L) b)"
      "dict_get (lg_balances L') a 0 + gains a R (lg_branches L')
        = dict_get (lg_balances L) a 0 + gains a R (lg_branches L)"
      by simp_all
    have "lg_round L' \<le> R" using eff(1) Cons.prems(2) by simp
    from Cons.IH [OF inv this] eff step Some show ?thesis
      by (cases x) (auto simp: aged_mono map_option_case split: option.splits)
  qed
qed

lemma keys_cover: "map_of d k = Some b \<Longrightarrow> k \<in> set (keys d)"
  by (force simp: keys_def dest: map_of_SomeD)

lemma tick_effect:
  assumes "ledger_inv L" "lg_round L < R"
  shows "lg_round (snd (tick C ch L)) = lg_round L + 1
    \<and> (\<forall>k. map_of (lg_branches (snd (tick C ch L))) k
        = map_option (aged (lg_round L + 1)) (map_of (lg_branches L) k))
    \<and> dict_get (lg_balances (snd (tick C ch L))) a 0 + gains a R (lg_branches (snd (tick C ch L)))
      = dict_get (lg_balances L) a 0 + gains a R (lg_branches L)"
  using sweep_effect [OF next_round_inv [OF assms(1)], of R C "keys (lg_branches L)" ch a] assms(2)
  by (auto simp: tick_def Let_def map_option_case keys_cover split: option.splits)

lemma advance_loop_effect:
  assumes "ledger_inv L" "lg_round L + int (Suc n) \<le> R"
  shows "lg_round (snd (advance_loop C (Suc n) ch L)) = lg_round L + int (Suc n)
    \<and> (\<forall>k. map_of (lg_branches (snd (advance_loop C (Suc n) ch L))) k
        = map_option (aged (lg_round L + int (Suc n))) (map_of (lg_branches L) k))
    \<and> dict_get (lg_balances (snd (advance_loop C (Suc n) ch L))) a 0
        + gains a R (lg_branches (snd (advance_loop C (Suc n) ch L)))
      = dict_get (lg_balances L) a 0 + gains a R (lg_branches L)"
  using assms
proof (induction n arbitrary: ch L)
  case 0
  from tick_inv [OF 0(1), of C ch] obtain x L' where step: "tick C ch L = (Inr x, L')"
    by (cases "tick C ch L") auto
  with tick_effect [OF 0(1), of R C ch a] 0(2) show ?case by simp
next
  case (Suc n)
  from tick_inv [OF Suc.prems(1), of C ch] obtain x L' where
    step: "tick C ch L = (Inr x, L')" and inv: "ledger_inv L'"
    by (cases "tick C ch L") auto
  have eff: "lg_round L' = lg_round L + 1"
    "\<And>k. map_of (lg_branches L') k = map_option (aged (lg_round L + 1)) (map_of (lg_branches L) k)"
    "dict_get (lg_balances L') a 0 + gains a R (lg_branches L')
      = dict_get (lg_balances L) a 0 + gains a R (lg_branches L)"
    using tick_effect [OF Suc.prems(1), of R C ch a] Suc.prems(2) step by simp_all
  have "advance_loop C (Suc (Suc n)) ch L = advance_loop C (Suc n) x L'" using step by simp
  moreover have "lg_round L' + int (Suc n) \<le> R" using Suc.prems(2) eff(1) by simp
  note Suc.IH [OF inv this, of x]
  ultimately show ?case
    using eff by (simp add: option.map_comp comp_def aged_mono algebra_simps del: advance_loop.simps)
qed

lemma gains_zero:
  assumes "wf_dict bs" "\<And>k b. map_of bs k = Some b \<Longrightarrow> gain a R b = 0"
  shows "gains a R bs = 0"
proof -
  have "map (\<lambda>p. gain a R (snd p)) bs = map (\<lambda>p. 0) bs"
    using assms wf_dict_mem [OF assms(1)] by (intro map_cong) auto
  then show ?thesis by (simp only: gains_def sum_list_0)
qed

lemma advance_effect:
  assumes inv: "ledger_inv L" and n: "1 \<le> n"
  shows "lg_round (snd (advance C n L)) = lg_round L + n"
    and "map_of (lg_branches (snd (advance C n L))) k
        = map_option (aged (lg_round L + n)) (map_of (lg_branches L) k)"
    and "dict_get (lg_balances (snd (advance C n L))) a 0
      = dict_get (lg_balances L) a 0 + gains a (lg_round L + n) (lg_branches L)"
proof -
  define m where "m = nat n - 1"
  have m: "nat n = Suc m" "n = int (Suc m)" using n by (simp_all add: m_def)
  let ?L = "snd (advance C n L)"
  from advance_loop_effect [OF inv, of m "lg_round L + n" C "[]" a] n m
  have eff: "lg_round ?L = lg_round L + n"
    "\<And>k. map_of (lg_branches ?L) k = map_option (aged (lg_round L + n)) (map_of (lg_branches L) k)"
    "dict_get (lg_balances ?L) a 0 + gains a (lg_round L + n) (lg_branches ?L)
      = dict_get (lg_balances L) a 0 + gains a (lg_round L + n) (lg_branches L)"
    by (simp_all add: advance_def)
  have "gains a (lg_round L + n) (lg_branches ?L) = 0"
    using eff(2) ledger_invD(3) [OF advance_inv [OF inv], of C n]
    by (intro gains_zero) (auto simp: gain_aged)
  with eff show "lg_round ?L = lg_round L + n"
    "map_of (lg_branches ?L) k = map_option (aged (lg_round L + n)) (map_of (lg_branches L) k)"
    "dict_get (lg_balances ?L) a 0 = dict_get (lg_balances L) a 0 + gains a (lg_round L + n) (lg_branches L)"
    by simp_all
qed

text \<open>The list of changed branches that the loops carry has no influence on the ledger.\<close>

lemma sweep_state: "ledger_inv L \<Longrightarrow> snd (sweep C ks ch L) = snd (sweep C ks ch' L)"
proof (induction ks arbitrary: ch ch' L)
  case Nil
  then show ?case by simp
next
  case (Cons k ks)
  then show ?case
    using age_inv [OF Cons.prems, of k _ C]
    by (auto split: option.splits prod.splits sum.splits)
qed

lemma tick_state:
  assumes "ledger_inv L"
  obtains x x' L' where "tick C ch L = (Inr x, L')" "tick C ch' L = (Inr x', L')" "ledger_inv L'"
  using tick_inv [OF assms, of C ch] tick_inv [OF assms, of C ch']
    sweep_state [OF next_round_inv [OF assms], of C "keys (lg_branches L)" ch ch'] that
  by (cases "tick C ch L"; cases "tick C ch' L") (auto simp: tick_def Let_def)

lemma advance_loop_state:
  "ledger_inv L \<Longrightarrow> snd (advance_loop C n ch L) = snd (advance_loop C n ch' L)"
proof (induction n arbitrary: ch ch' L)
  case 0
  then show ?case by simp
next
  case (Suc n)
  obtain x x' L' where "tick C ch L = (Inr x, L')" "tick C ch' L = (Inr x', L')" "ledger_inv L'"
    by (rule tick_state [OF Suc.prems])
  with Suc.IH [of L' x x'] show ?case by simp
qed

lemma advance_loop_add:
  "ledger_inv L \<Longrightarrow> snd (advance_loop C (m + n) ch L) = snd (advance_loop C n ch' (snd (advance_loop C m ch L)))"
proof (induction m arbitrary: ch L)
  case 0
  then show ?case by (simp add: advance_loop_state)
next
  case (Suc m)
  obtain x x' L' where "tick C ch L = (Inr x, L')" "ledger_inv L'"
    by (rule tick_state [OF Suc.prems, of C ch ch'])
  with Suc.IH [of L' x] show ?case by simp
qed

section \<open>Properties\<close>

text \<open>C13. Closed form of a block of rounds: \<open>advance\<close> by \<open>n\<close> rounds adds \<open>n\<close> to the
  round, replaces every branch by its aged form at the new round (expired exactly when its deadline has
  come, final exactly when three rounds have passed since its commit, untouched otherwise), and gives
  every account what it received minus what it paid through the branches that became final.\<close>

theorem ledger_advance_effect:
  assumes "ledger_inv L" "1 \<le> n"
  shows "lg_round (snd (advance C n L)) = lg_round L + n
    \<and> map_of (lg_branches (snd (advance C n L))) k
        = map_option (aged (lg_round L + n)) (map_of (lg_branches L) k)
    \<and> dict_get (lg_balances (snd (advance C n L))) a 0
        = dict_get (lg_balances L) a 0 + gains a (lg_round L + n) (lg_branches L)"
  using advance_effect(1,2) [OF assms, of C] advance_effect(3) [OF assms, of C a] by simp

text \<open>Rounds compose: advancing by \<open>m\<close> and then by \<open>n\<close> rounds gives the same ledger, block
  hashes and histories included, as advancing by \<open>m + n\<close> rounds in one call.\<close>

theorem ledger_advance_split:
  assumes "ledger_inv L" "1 \<le> m" "1 \<le> n"
  shows "snd (advance C (m + n) L) = snd (advance C n (snd (advance C m L)))"
  using advance_loop_add [OF assms(1), of C "nat m" "nat n" "[]" "[]"] assms(2,3)
  by (simp add: advance_def nat_add_distrib)

text \<open>Three-round finality of a commitment: once a branch is committed, after \<open>n\<close> further
  rounds it is final if \<open>n\<close> is at least three and still committed otherwise. It cannot expire,
  whatever its deadline was.\<close>

theorem ledger_commit_final_after_three:
  assumes inv: "ledger_inv L" and com: "commit C k s payload L = (Inr b, L')" and n: "1 \<le> n"
  shows "map_of (lg_branches (snd (advance C n L'))) k
    = Some (if 3 \<le> n then b\<lparr>br_state := FINAL\<rparr> else b)"
proof (cases rule: commit_cases [of C k s payload L])
  case (rejected m)
  with com show ?thesis by simp
next
  case (accepted b0 b' d)
  have "ledger_inv L'" using commit_inv [OF inv, of C k s payload] com by simp
  from advance_effect(2) [OF this n, of C k] accepted com show ?thesis
    by (auto simp: aged_def set_branch_def)
qed

theorem ledger_advance_effect_witness:
  "lg_round (snd (advance sample_crypto 5 offered_ledger)) = lg_round offered_ledger + 5
    \<and> map_of (lg_branches (snd (advance sample_crypto 5 offered_ledger))) sample_id
        = map_option (aged (lg_round offered_ledger + 5)) (map_of (lg_branches offered_ledger) sample_id)
    \<and> dict_get (lg_balances (snd (advance sample_crypto 5 offered_ledger))) ''bob'' 0
        = dict_get (lg_balances offered_ledger) ''bob'' 0
            + gains ''bob'' (lg_round offered_ledger + 5) (lg_branches offered_ledger)"
  by (rule ledger_advance_effect [OF offered_inv]) simp

theorem ledger_advance_split_witness:
  "snd (advance sample_crypto (2 + 3) offered_ledger)
     = snd (advance sample_crypto 3 (snd (advance sample_crypto 2 offered_ledger)))"
  by (rule ledger_advance_split [OF offered_inv]) simp_all

definition accepted_ledger :: ledger where
  "accepted_ledger = snd (apply_method sample_crypto (Accept sample_id ''bob'') offered_ledger)"

theorem ledger_commit_final_after_three_witness:
  "\<exists>b L'. commit sample_crypto sample_id ''alice'' JNull accepted_ledger = (Inr b, L')
     \<and> map_of (lg_branches (snd (advance sample_crypto 3 L'))) sample_id = Some (b\<lparr>br_state := FINAL\<rparr>)"
proof -
  have inv: "ledger_inv accepted_ledger"
    unfolding accepted_ledger_def by (rule apply_method_inv [OF offered_inv])
  have "is_ok (fst (commit sample_crypto sample_id ''alice'' JNull accepted_ledger))" by code_simp
  then obtain b L' where com: "commit sample_crypto sample_id ''alice'' JNull accepted_ledger = (Inr b, L')"
    by (metis is_ok_iff prod.collapse)
  from ledger_commit_final_after_three [OF inv com, of 3] com show ?thesis by auto
qed

end
