(* ===== verification/Ledger_Equiv.thy ===== *)
theory Ledger_Equiv
  imports Ledger_Restore Ledger_Rounds
begin

text \<open>
  A ledger restored from a snapshot has its tables in another order. Every method gives the same
  result on both and leaves ledgers that again differ in the order of the tables only, so a replica
  that works on restored copies stays in step with a leader that works on the original.
\<close>

section \<open>Equality up to the order of tables\<close>

definition same_ledger :: "ledger \<Rightarrow> ledger \<Rightarrow> bool" where
  "same_ledger L M =
     (map_option canonical_genesis (lg_genesis L) = map_option canonical_genesis (lg_genesis M)
      \<and> lg_round L = lg_round M \<and> lg_branches L = lg_branches M \<and> lg_finalized L = lg_finalized M
      \<and> lg_height L = lg_height M \<and> lg_digest L = lg_digest M
      \<and> map_of (lg_balances L) = map_of (lg_balances M)
      \<and> map_of (lg_locked L) = map_of (lg_locked M)
      \<and> map_of (lg_history L) = map_of (lg_history M))"

text \<open>Two outcomes of an operation: the same result, and ledgers that are the same again.\<close>

definition same_outcome :: "'a result \<times> ledger \<Rightarrow> 'a result \<times> ledger \<Rightarrow> bool" where
  "same_outcome r r' = (fst r = fst r' \<and> same_ledger (snd r) (snd r'))"

lemma same_ledger_refl: "same_ledger L L"
  by (simp add: same_ledger_def)

lemma same_ledger_sym: "same_ledger L M \<Longrightarrow> same_ledger M L"
  by (simp add: same_ledger_def)

lemma same_ledger_trans: "same_ledger L M \<Longrightarrow> same_ledger M N \<Longrightarrow> same_ledger L N"
  by (simp add: same_ledger_def)

lemma same_outcome_cases:
  assumes "same_outcome r r'"
  obtains x L M where "r = (x, L)" "r' = (x, M)" "same_ledger L M"
  using assms by (cases r; cases r') (auto simp: same_outcome_def)

lemma canonical_genesis_idem: "canonical_genesis (canonical_genesis g) = canonical_genesis g"
  by (simp add: canonical_genesis_def)

lemma same_ledger_canonical: "ledger_inv L \<Longrightarrow> same_ledger L (canonical_ledger L)"
  by (cases "lg_genesis L")
    (simp_all add: same_ledger_def canonical_ledger_def canonical_genesis_idem ledger_invD)

text \<open>Sorted tables are determined by their lookups.\<close>

lemma sort_key_lookup:
  fixes d e :: "('k::linorder, 'v) dict"
  assumes "wf_dict d" "wf_dict e" "map_of d = map_of e"
  shows "sort_key fst d = sort_key fst e"
proof -
  have "set (sort_key fst d) = set (sort_key fst e)"
    using assms by (simp add: map_of_inject_set wf_dict_def)
  moreover have "sorted (map fst (sort_key fst d))" "sorted (map fst (sort_key fst e))" by simp_all
  moreover have "distinct (map fst (sort_key fst d))" "distinct (map fst (sort_key fst e))"
    using wf_sort_key assms(1,2) unfolding wf_dict_def by blast+
  ultimately show ?thesis
    by (intro map_sorted_distinct_set_unique [of fst]) (auto simp: inj_on_def wf_dict_def dest: eq_key_imp_eq_value)
qed

lemma same_ledger_snapshot:
  assumes "same_ledger L M" "ledger_inv L" "ledger_inv M"
  shows "ledger_snapshot L = ledger_snapshot M" "canonical_ledger L = canonical_ledger M"
proof -
  have eq: "sorted_dict (lg_balances L) = sorted_dict (lg_balances M)"
    "sorted_dict (lg_locked L) = sorted_dict (lg_locked M)"
    "sort_key fst (lg_history L) = sort_key fst (lg_history M)"
    using assms(1) ledger_invD(1,2,4) [OF assms(2)] ledger_invD(1,2,4) [OF assms(3)]
    by (auto simp: same_ledger_def sorted_dict_def intro!: sort_key_lookup)
  with assms(1) show canon: "canonical_ledger L = canonical_ledger M"
    by (simp add: canonical_ledger_def same_ledger_def)
  show "ledger_snapshot L = ledger_snapshot M"
    using canonical_ledger_snapshot [of L] canonical_ledger_snapshot [of M] canon by simp
qed

lemma is_reserved_canonical: "is_reserved (canonical_ledger L) a = is_reserved L a"
  by (simp add: is_reserved_def canonical_ledger_def canonical_genesis_fields split: option.splits)

lemma canonical_ledger_fields:
  "lg_branches (canonical_ledger L) = lg_branches L" "lg_round (canonical_ledger L) = lg_round L"
  "lg_history (canonical_ledger L) = sort_key fst (lg_history L)"
  by (simp_all add: canonical_ledger_def)

lemma same_ledger_canonical_inv:
  assumes inv: "ledger_inv L" shows "ledger_inv (canonical_ledger L)"
proof (rule ledger_invI)
  show "wf_branch (canonical_ledger L) k b" if "map_of (lg_branches (canonical_ledger L)) k = Some b" for k b
    using that ledger_invD(9) [OF inv, of k b] ledger_invD(4) [OF inv]
    by (auto simp: wf_branch_def canonical_ledger_fields is_reserved_canonical)
  show "0 \<le> available (canonical_ledger L) a" for a
    using ledger_invD(7) [OF inv, of a] ledger_invD(1,2) [OF inv] by (simp add: available_def canonical_ledger_def)
qed (use ledger_invD [OF inv] in \<open>auto simp: canonical_ledger_def\<close>)

section \<open>Every method respects it\<close>

lemma same_ledger_get:
  "same_ledger L M \<Longrightarrow> dict_get (lg_balances L) a v = dict_get (lg_balances M) a v"
  "same_ledger L M \<Longrightarrow> dict_get (lg_locked L) a v = dict_get (lg_locked M) a v"
  "same_ledger L M \<Longrightarrow> dict_has (lg_balances L) a = dict_has (lg_balances M) a"
  "same_ledger L M \<Longrightarrow> map_of (lg_locked L) a = map_of (lg_locked M) a"
  "same_ledger L M \<Longrightarrow> map_of (lg_balances L) a = map_of (lg_balances M) a"
  "same_ledger L M \<Longrightarrow> lg_branches L = lg_branches M"
  "same_ledger L M \<Longrightarrow> lg_round L = lg_round M"
  "same_ledger L M \<Longrightarrow> lg_height L = lg_height M"
  "same_ledger L M \<Longrightarrow> lg_digest L = lg_digest M"
  by (simp_all add: same_ledger_def dict_get_def dict_has_def)

lemma same_ledger_reserved: "same_ledger L M \<Longrightarrow> is_reserved L a = is_reserved M a"
  using canonical_genesis_fields(1)
  by (cases "lg_genesis L"; cases "lg_genesis M") (auto simp: same_ledger_def is_reserved_def, metis+)

lemma same_ledger_available: "same_ledger L M \<Longrightarrow> available L a = available M a"
  by (simp add: available_def same_ledger_get)

lemma same_set_branch: "same_ledger L M \<Longrightarrow> same_ledger (set_branch k b L) (set_branch k b M)"
  by (simp add: same_ledger_def set_branch_def)

lemma same_find: "same_ledger L M \<Longrightarrow> find_branch k ss L = find_branch k ss M"
  by (simp add: find_branch_def same_ledger_get)

lemma same_live: "same_ledger L M \<Longrightarrow> ensure_live b L = ensure_live b M"
  by (simp add: ensure_live_def same_ledger_get)

lemma same_unlock: "same_ledger L M \<Longrightarrow> same_outcome (unlock b L) (unlock b M)"
  by (auto simp: same_outcome_def unlock_def same_ledger_get(4) [of L M] same_ledger_def split: option.splits)

lemma same_append: "same_ledger L M \<Longrightarrow> same_ledger (append_block d L) (append_block d M)"
  by (simp add: same_ledger_def append_block_def)

lemma same_offer: "same_ledger L M \<Longrightarrow> same_outcome (offer C s r v ttl L) (offer C s r v ttl M)"
proof -
  assume same: "same_ledger L M"
  have "branch_id_json L s r v = branch_id_json M s r v" "new_branch L k s r v ttl = new_branch M k s r v ttl" for k
    using same by (simp_all add: branch_id_json_def new_branch_def same_ledger_get)
  moreover have "same_ledger (set_branch k b L\<lparr>lg_locked := AList.update s x (lg_locked (set_branch k b L))\<rparr>)
      (set_branch k b M\<lparr>lg_locked := AList.update s x (lg_locked (set_branch k b M))\<rparr>)" for k b x
    using same by (simp add: same_ledger_def set_branch_def)
  ultimately show ?thesis
    using same same_ledger_get(2) [OF same_set_branch [OF same]]
    by (auto simp: offer_def same_outcome_def same_ledger_reserved same_ledger_get(3) same_ledger_available Let_def
        split: sum.splits)
qed

lemma same_accept: "same_ledger L M \<Longrightarrow> same_outcome (accept k r L) (accept k r M)"
  by (auto simp: accept_def same_outcome_def same_find same_live same_ledger_get(7) Let_def same_set_branch
      split: sum.splits)

lemma same_commit: "same_ledger L M \<Longrightarrow> same_outcome (commit C k s p L) (commit C k s p M)"
  by (auto simp: commit_def same_outcome_def same_find same_live same_ledger_get(7) Let_def same_set_branch
      split: sum.splits)

lemma same_cancel:
  assumes same: "same_ledger L M" shows "same_outcome (cancel k a L) (cancel k a M)"
proof (cases "find_branch k [OFFERED, ACCEPTED] M")
  case (Inl e)
  with same show ?thesis by (simp add: cancel_def same_find [OF same] same_outcome_def)
next
  case (Inr b)
  obtain x L1 M1 where "unlock (b\<lparr>br_state := CANCELLED\<rparr>) (set_branch k (b\<lparr>br_state := CANCELLED\<rparr>) L) = (x, L1)"
    "unlock (b\<lparr>br_state := CANCELLED\<rparr>) (set_branch k (b\<lparr>br_state := CANCELLED\<rparr>) M) = (x, M1)" "same_ledger L1 M1"
    by (rule same_outcome_cases [OF same_unlock [OF same_set_branch [OF same]]])
  with Inr same show ?thesis
    by (cases x) (simp_all add: cancel_def same_find [OF same] same_outcome_def Let_def)
qed

lemma same_register: "same_ledger L M \<Longrightarrow> same_outcome (register_account C a L) (register_account C a M)"
  by (auto simp: register_account_def same_outcome_def Let_def same_ledger_def append_block_def dict_has_def
      split: sum.splits)

lemma same_finalize: "same_ledger L M \<Longrightarrow> same_outcome (finalize C k b L) (finalize C k b M)"
proof -
  assume same: "same_ledger L M"
  have moved: "same_ledger
      (L\<lparr>lg_balances := AList.update r (dict_get (AList.update s x (lg_balances L)) r 0 + v) (AList.update s x (lg_balances L))\<rparr>)
      (M\<lparr>lg_balances := AList.update r (dict_get (AList.update s x (lg_balances M)) r 0 + v) (AList.update s x (lg_balances M))\<rparr>)"
    for r s x v using same by (simp add: same_ledger_def dict_get_def)
  show ?thesis
  proof (cases "map_of (lg_balances M) (br_sender b)")
    case None
    with same show ?thesis by (simp add: finalize_def same_outcome_def same_ledger_get(5))
  next
    case (Some x)
    from same_unlock [OF moved, of b] obtain y L2 M2 where
      "unlock b (L\<lparr>lg_balances := AList.update (br_receiver b) (dict_get (AList.update (br_sender b) (x - br_value b) (lg_balances L)) (br_receiver b) 0 + br_value b) (AList.update (br_sender b) (x - br_value b) (lg_balances L))\<rparr>) = (y, L2)"
      "unlock b (M\<lparr>lg_balances := AList.update (br_receiver b) (dict_get (AList.update (br_sender b) (x - br_value b) (lg_balances M)) (br_receiver b) 0 + br_value b) (AList.update (br_sender b) (x - br_value b) (lg_balances M))\<rparr>) = (y, M2)"
      "same_ledger L2 M2"
      by (rule same_outcome_cases)
    with same Some show ?thesis
      by (cases y) (auto simp: finalize_def Let_def same_outcome_def same_ledger_get(5) [of L M]
          same_ledger_def append_block_def set_branch_def split: sum.splits)
  qed
qed

lemma same_age: "same_ledger L M \<Longrightarrow> same_outcome (age_branch C k b L) (age_branch C k b M)"
proof -
  assume same: "same_ledger L M"
  obtain x L1 M1 where u: "unlock (b\<lparr>br_state := EXPIRED\<rparr>) (set_branch k (b\<lparr>br_state := EXPIRED\<rparr>) L) = (x, L1)"
    "unlock (b\<lparr>br_state := EXPIRED\<rparr>) (set_branch k (b\<lparr>br_state := EXPIRED\<rparr>) M) = (x, M1)" "same_ledger L1 M1"
    by (rule same_outcome_cases [OF same_unlock [OF same_set_branch [OF same]]])
  obtain y L2 M2 where f: "finalize C k b L = (y, L2)" "finalize C k b M = (y, M2)" "same_ledger L2 M2"
    by (rule same_outcome_cases [OF same_finalize [OF same]])
  show ?thesis
    using same u f by (cases x; cases y)
      (auto simp: age_branch_def same_outcome_def Let_def same_ledger_get(7) split: option.splits)
qed

lemma same_sweep: "same_ledger L M \<Longrightarrow> same_outcome (sweep C ks ch L) (sweep C ks ch M)"
proof (induction ks arbitrary: ch L M)
  case Nil
  then show ?case by (simp add: same_outcome_def)
next
  case (Cons k ks)
  show ?case
  proof (cases "map_of (lg_branches M) k")
    case None
    with Cons same_ledger_get(6) [OF Cons.prems] show ?thesis by simp
  next
    case (Some b)
    obtain x L1 M1 where age: "age_branch C k b L = (x, L1)" "age_branch C k b M = (x, M1)" "same_ledger L1 M1"
      by (rule same_outcome_cases [OF same_age [OF Cons.prems]])
    have L: "map_of (lg_branches L) k = Some b" using Some same_ledger_get(6) [OF Cons.prems] by simp
    show ?thesis
    proof (cases x)
      case (Inl e)
      then show ?thesis using age L Some by (simp add: same_outcome_def)
    next
      case (Inr c)
      then show ?thesis using age(1,2) L Some Cons.IH [OF age(3)] by (cases c) simp_all
    qed
  qed
qed

lemma same_tick: "same_ledger L M \<Longrightarrow> same_outcome (tick C ch L) (tick C ch M)"
proof -
  assume same: "same_ledger L M"
  then have "same_ledger (L\<lparr>lg_round := lg_round L + 1\<rparr>) (M\<lparr>lg_round := lg_round M + 1\<rparr>)"
    by (simp add: same_ledger_def)
  from same_sweep [OF this, of C "keys (lg_branches L)" ch] same_ledger_get(6) [OF same] show ?thesis
    by (simp add: tick_def)
qed

lemma same_advance_loop: "same_ledger L M \<Longrightarrow> same_outcome (advance_loop C n ch L) (advance_loop C n ch M)"
proof (induction n arbitrary: ch L M)
  case 0
  then show ?case by (simp add: same_outcome_def)
next
  case (Suc n)
  obtain x L1 M1 where "tick C ch L = (x, L1)" "tick C ch M = (x, M1)" "same_ledger L1 M1"
    by (rule same_outcome_cases [OF same_tick [OF Suc.prems]])
  with Suc.IH [of L1 M1] show ?case by (cases x) (simp_all add: same_outcome_def)
qed

lemma same_advance: "same_ledger L M \<Longrightarrow> same_outcome (advance C n L) (advance C n M)"
  using same_advance_loop [of L M C "nat n" "[]"] by (simp add: advance_def same_outcome_def)

lemma same_map_op: "same_outcome r r' \<Longrightarrow> same_outcome (map_op f r) (map_op f r')"
  by (simp add: same_outcome_def map_op_def)

lemmas same_methods = same_offer same_accept same_commit same_cancel same_advance same_register

lemma same_apply: "same_ledger L M \<Longrightarrow> same_outcome (apply_method C m L) (apply_method C m M)"
  by (cases m) (simp_all del: map_op_simps add: same_map_op same_methods)

lemma same_run: "same_ledger L M \<Longrightarrow> same_ledger (run_ops (apply_method C) ms L) (run_ops (apply_method C) ms M)"
  using same_apply by (induction ms arbitrary: L M) (auto simp: same_outcome_def)

text \<open>A restored ledger stays in step: take any run \<open>ms\<close> from a valid genesis file (as in the
  snapshot round trip) and restore its snapshot into a ledger \<open>M\<close>. After any further calls \<open>ns\<close> on
  both, every method \<open>m\<close> returns the same value or raises the same exception on the two ledgers, and
  their snapshots are identical.\<close>

theorem ledger_restored_in_step:
  assumes "ledger_init C None (Some g) = Inr L" "wf_genesis g" "no_collision C ms L"
    and "list_all (\<lambda>m. \<not> pays_reserve (Some g) m) ms"
    and "from_snapshot C (ledger_snapshot (run_ops (apply_method C) ms L)) None = Inr M"
  shows "fst (apply_method C m (run_ops (apply_method C) ns M))
      = fst (apply_method C m (run_ops (apply_method C) (ms @ ns) L))
    \<and> ledger_snapshot (run_ops (apply_method C) ns M)
      = ledger_snapshot (run_ops (apply_method C) (ms @ ns) L)"
proof -
  let ?R = "run_ops (apply_method C) ms L"
  note start = init_genesis_kept [OF assms(1,2)]
  have inv: "ledger_inv ?R" by (rule ledger.run_inv [OF start(1)])
  have "locks_exact ?R" by (rule run_locks [OF start(1) assms(3) start(2)])
  moreover have "genesis_kept C ?R"
    using assms(4) start(4) by (intro run_genesis [OF start(1,3)]) simp
  ultimately have M: "M = canonical_ledger ?R"
    using from_snapshot_canonical [of ?R C None] inv assms(5) by simp
  have invM: "ledger_inv M" unfolding M by (rule same_ledger_canonical_inv [OF inv])
  have same: "same_ledger (run_ops (apply_method C) ns M) (run_ops (apply_method C) ns ?R)"
    unfolding M by (rule same_run [OF same_ledger_sym [OF same_ledger_canonical [OF inv]]])
  from same_ledger_snapshot(1) [OF same ledger.run_inv [OF invM] ledger.run_inv [OF inv]]
    same_apply [OF same, of C m]
  show ?thesis by (simp add: same_outcome_def run_ops_append)
qed

theorem ledger_restored_in_step_witness:
  "fst (apply_method sample_crypto (Cancel ''x'' ''alice'') (run_ops (apply_method sample_crypto) [Advance 1] (canonical_ledger reserve_ledger)))
     = fst (apply_method sample_crypto (Cancel ''x'' ''alice'') (run_ops (apply_method sample_crypto) ([] @ [Advance 1]) reserve_ledger))
   \<and> ledger_snapshot (run_ops (apply_method sample_crypto) [Advance 1] (canonical_ledger reserve_ledger))
     = ledger_snapshot (run_ops (apply_method sample_crypto) ([] @ [Advance 1]) reserve_ledger)"
proof (rule ledger_restored_in_step [OF reserve_init wf_sample_genesis])
  show "from_snapshot sample_crypto (ledger_snapshot (run_ops (apply_method sample_crypto) [] reserve_ledger)) None
      = Inr (canonical_ledger reserve_ledger)" by code_simp
qed simp_all

end
