(* ===== verification/Signatures.thy ===== *)
theory Signatures
  imports Json_Encoding
begin

text \<open>
  What the authenticated components share: signatures over canonical JSON, what a signature binds,
  and replay protection by strictly increasing nonces. \<open>replay_guard\<close> is the contract of every
  component that accepts a signed message at most once; \<open>Request_Auth\<close>, \<open>Replication\<close> and
  \<open>Node_Replica\<close> provide it.
\<close>

section \<open>Fields of signed objects\<close>

text \<open>Objects with the same sorted form have the same fields, up to the order of keys inside them.\<close>

lemma sorted_obj_lookup:
  assumes "sort_keys (JObj kvs) = sort_keys (JObj kvs')" "wf_dict kvs" "wf_dict kvs'"
  shows "map_option sort_keys (map_of kvs k) = map_option sort_keys (map_of kvs' k)"
proof -
  let ?h = "\<lambda>(k, v). (k, sort_keys v)"
  have dist: "distinct (map fst (map ?h xs))" if "wf_dict xs" for xs :: "(string \<times> json) list"
    using that by (simp add: wf_dict_def comp_def case_prod_beta)
  have "sort_key fst (map ?h kvs) = sort_key fst (map ?h kvs')"
    using assms(1) by simp
  then have "set (map ?h kvs) = set (map ?h kvs')" by (metis set_sort)
  then have "map_of (map ?h kvs) = map_of (map ?h kvs')"
    using dist [OF assms(2)] dist [OF assms(3)] by (simp add: map_of_inject_set)
  then show ?thesis by (simp add: map_of_map fun_eq_iff)
qed

lemma sort_keys_scalars [simp]:
  "sort_keys v = JStr s \<longleftrightarrow> v = JStr s" "sort_keys v = JInt i \<longleftrightarrow> v = JInt i"
  "JStr s = sort_keys v \<longleftrightarrow> v = JStr s" "JInt i = sort_keys v \<longleftrightarrow> v = JInt i"
  by (cases v; auto)+

lemma canonical_json_Inr: "canonical_json v = Inr b \<longleftrightarrow> \<not> has_nonfinite v \<and> b = render (sort_keys v)"
  by (auto simp: canonical_json_def)

lemma hmac_json_Inr: "hmac_json C k v = Inr s \<longleftrightarrow> \<not> has_nonfinite v \<and> s = hmac_sha256 C k (render (sort_keys v))"
  by (auto simp: hmac_json_def bindR_Inr_iff canonical_json_Inr)

text \<open>Two payloads under one signature: the same value, or an explicit HMAC collision.\<close>

definition hmac_collision :: "crypto \<Rightarrow> string \<Rightarrow> json \<Rightarrow> json \<Rightarrow> bool" where
  "hmac_collision C k v w =
     (render (sort_keys v) \<noteq> render (sort_keys w)
      \<and> hmac_sha256 C k (render (sort_keys v)) = hmac_sha256 C k (render (sort_keys w)))"

lemma hmac_json_binds:
  assumes "hmac_json C k v = Inr s" "hmac_json C k w = Inr s" "wf_floats v" "wf_floats w"
    "\<not> hmac_collision C k v w"
  shows "sort_keys v = sort_keys w"
  using assms render_inj [OF wf_floats_sort_keys wf_floats_sort_keys, of v w]
  by (auto simp: hmac_json_Inr hmac_collision_def)

text \<open>
  \<open>hexdigest()\<close> returns ASCII text: documented behaviour of \<open>hashlib\<close>, needed because
  \<open>hmac.compare_digest\<close> raises on other strings.
\<close>

definition hex_digests :: "crypto \<Rightarrow> bool" where
  "hex_digests C = ((\<forall>k m. is_ascii (hmac_sha256 C k m)) \<and> (\<forall>m. is_ascii (sha256 C m)))"

fun strip7 :: "char \<Rightarrow> char" where
  "strip7 (Char b0 b1 b2 b3 b4 b5 b6 b7) = Char b0 b1 b2 b3 b4 b5 b6 False"

definition ascii_crypto :: crypto where
  "ascii_crypto = \<lparr>sha256 = (\<lambda>m. map strip7 (rev m)), hmac_sha256 = (\<lambda>k m. map strip7 (rev m @ rev k))\<rparr>"

lemma strip7_ascii: "of_char (strip7 c) < (128 :: nat)"
  by (cases c) (simp add: of_char_def split: if_split)

lemma hex_ascii_crypto: "hex_digests ascii_crypto"
  using strip7_ascii by (auto simp: hex_digests_def ascii_crypto_def is_ascii_def list_all_iff)

section \<open>Replay protection\<close>

text \<open>
  \<open>step m\<close> handles a message and answers with an exception or a result; every message has an
  owner and a nonce, and the state remembers the last nonce accepted from each owner.
\<close>

locale replay_guard =
  fixes step :: "'m \<Rightarrow> 's \<Rightarrow> (error + 'a) \<times> 's"
    and owner :: "'m \<Rightarrow> 'k" and nonce :: "'m \<Rightarrow> int"
    and last :: "'s \<Rightarrow> 'k \<Rightarrow> int"
  assumes accept_fresh: "fst (step m s) = Inr x \<Longrightarrow> last s (owner m) < nonce m"
    and accept_last: "fst (step m s) = Inr x \<Longrightarrow> last (snd (step m s)) = (last s)(owner m := nonce m)"
    and reject_last: "fst (step m s) = Inl e \<Longrightarrow> last (snd (step m s)) = last s"
begin

lemma step_mono: "last s k \<le> last (snd (step m s)) k"
  by (cases "fst (step m s)") (auto simp: reject_last accept_last dest: accept_fresh)

lemma run_mono: "last s k \<le> last (run_ops step ms s) k"
proof (induction ms arbitrary: s)
  case (Cons m ms)
  from Cons [of "snd (step m s)"] step_mono [of s k m] show ?case by simp
qed simp

text \<open>The nonces accepted from one owner in a run are strictly increasing and above the last one.\<close>

lemma run_increasing:
  "sorted_wrt (<) (last s k # map nonce (filter (\<lambda>m. owner m = k) (accepted step ms s)))"
proof (induction ms arbitrary: s)
  case Nil
  then show ?case by simp
next
  case (Cons m ms)
  show ?case
  proof (cases "fst (step m s)")
    case (Inl e)
    with Cons [of "snd (step m s)"] reject_last [of m s] show ?thesis by simp
  next
    case (Inr x)
    with Cons [of "snd (step m s)"] accept_last [OF Inr] accept_fresh [OF Inr] show ?thesis
      by (fastforce intro: less_trans)
  qed
qed

lemma accepted_once: "distinct (accepted step ms s)"
proof (induction ms arbitrary: s)
  case Nil
  then show ?case by simp
next
  case (Cons m ms)
  show ?case
  proof (cases "fst (step m s)")
    case (Inl e)
    with Cons show ?thesis by simp
  next
    case (Inr x)
    have "m \<notin> set (accepted step ms (snd (step m s)))"
    proof
      assume "m \<in> set (accepted step ms (snd (step m s)))"
      then have "nonce m \<in> set (map nonce (filter (\<lambda>m'. owner m' = owner m) (accepted step ms (snd (step m s)))))"
        by simp
      with run_increasing [of "snd (step m s)" "owner m" ms] have "last (snd (step m s)) (owner m) < nonce m"
        by auto
      then show False using accept_last [OF Inr] by simp
    qed
    with Inr Cons show ?thesis by simp
  qed
qed

lemma replayed_rejected:
  assumes "fst (step m s) = Inr x"
  shows "\<not> is_ok (fst (step m (run_ops step ms (snd (step m s)))))"
proof
  let ?s = "run_ops step ms (snd (step m s))"
  assume "is_ok (fst (step m ?s))"
  then obtain y where "fst (step m ?s) = Inr y" by (auto simp: is_ok_iff)
  from accept_fresh [OF this] have "last ?s (owner m) < nonce m" .
  moreover have "nonce m \<le> last ?s (owner m)"
    using run_mono [of "snd (step m s)" "owner m" ms] accept_last [OF assms] by simp
  ultimately show False by simp
qed

end

end
