(* ===== verification/Certificates.thy ===== *)
theory Certificates
  imports Signatures
begin

text \<open>
  The local certificate authority of \<open>splitchain/identity.py\<close>: certificates bind a node, its key and
  its roles for a window of rounds under an HMAC of the authority.
\<close>

record certificate =
  ct_node :: string
  ct_key :: string
  ct_roles :: "string list"
  ct_from :: int
  ct_until :: int
  ct_issuer :: string
  ct_signature :: string

record authority =
  ca_issuer :: string
  ca_secret :: string

definition certificate_json :: "string \<Rightarrow> string \<Rightarrow> string \<Rightarrow> string list \<Rightarrow> int \<Rightarrow> int \<Rightarrow> json" where
  "certificate_json issuer node key roles valid_from valid_until = JObj
     [(''issuer'', JStr issuer), (''node_id'', JStr node), (''public_key'', JStr key),
      (''roles'', JList (map JStr roles)), (''valid_from'', JInt valid_from), (''valid_until'', JInt valid_until)]"

definition certificate_payload :: "certificate \<Rightarrow> json" where
  "certificate_payload c =
     certificate_json (ct_issuer c) (ct_node c) (ct_key c) (ct_roles c) (ct_from c) (ct_until c)"

definition ca_issue :: "crypto \<Rightarrow> authority \<Rightarrow> string \<Rightarrow> string \<Rightarrow> string list \<Rightarrow> int \<Rightarrow> int \<Rightarrow> certificate result" where
  "ca_issue C A node key roles valid_from valid_until =
     (if valid_until \<le> valid_from \<or> roles = [] then Inl (ProtocolError ''invalid certificate bounds or roles'')
      else bindR (hmac_json C (ca_secret A) (certificate_json (ca_issuer A) node key roles valid_from valid_until))
        (\<lambda>s. Inr \<lparr>ct_node = node, ct_key = key, ct_roles = roles, ct_from = valid_from,
           ct_until = valid_until, ct_issuer = ca_issuer A, ct_signature = s\<rparr>))"

text \<open>The comparison of the signatures comes last: an earlier test that fails returns \<open>False\<close>.\<close>

definition ca_verify :: "crypto \<Rightarrow> authority \<Rightarrow> certificate \<Rightarrow> int \<Rightarrow> string \<Rightarrow> bool result" where
  "ca_verify C A c current_round role =
     bindR (hmac_json C (ca_secret A) (certificate_payload c)) (\<lambda>expected.
       if ct_issuer c = ca_issuer A \<and> ct_from c \<le> current_round \<and> current_round < ct_until c
          \<and> role \<in> set (ct_roles c)
       then compare_digest expected (ct_signature c) else Inr False)"

lemma certificate_finite [simp]: "\<not> has_nonfinite (certificate_payload c)"
  "\<not> has_nonfinite (certificate_json i n k r f u)"
  by (auto simp: certificate_payload_def certificate_json_def list_ex_iff)

lemma ca_verify_True:
  "ca_verify C A c r role = Inr True \<Longrightarrow>
     ct_issuer c = ca_issuer A \<and> ct_from c \<le> r \<and> r < ct_until c \<and> role \<in> set (ct_roles c)
     \<and> hmac_json C (ca_secret A) (certificate_payload c) = Inr (ct_signature c)"
  by (auto simp: ca_verify_def bindR_Inr_iff compare_digest_def split: if_splits)

lemma ca_issue_verifies:
  assumes "ca_issue C A node key roles f u = Inr c" "hex_digests C"
  shows "ca_verify C A c r role = Inr (f \<le> r \<and> r < u \<and> role \<in> set roles)"
proof -
  from assms(1) obtain s where c: "c = \<lparr>ct_node = node, ct_key = key, ct_roles = roles, ct_from = f,
      ct_until = u, ct_issuer = ca_issuer A, ct_signature = s\<rparr>"
    "hmac_json C (ca_secret A) (certificate_payload c) = Inr s"
    by (auto simp: ca_issue_def bindR_Inr_iff certificate_payload_def split: if_splits)
  moreover have "is_ascii s" using c(2) assms(2) by (auto simp: hmac_json_Inr hex_digests_def)
  ultimately show ?thesis by (auto simp: ca_verify_def compare_digest_def)
qed

lemma ca_issue_node: "ca_issue C A node key roles f u = Inr c \<Longrightarrow> ct_node c = node"
  by (force simp: ca_issue_def bindR_Inr_iff split: if_splits)

text \<open>Issued certificates verify in their window and for their roles, and nowhere else: the answer
  of \<open>verify\<close> on a certificate the authority issued is exactly the window and role test.\<close>

theorem certificate_issue_verify:
  assumes "ca_issue C A node key roles f u = Inr c" "hex_digests C"
  shows "ca_verify C A c r role = Inr (f \<le> r \<and> r < u \<and> role \<in> set roles)"
  by (rule ca_issue_verifies [OF assms])

text \<open>A certificate cannot be altered: a certificate that verifies with the signature of another one
  that the same authority issued agrees with it in node, key, roles and window, or the two payloads are
  an explicit HMAC collision.\<close>

theorem certificate_unforgeable:
  assumes "ca_issue C A node key roles f u = Inr c" "ca_verify C A c' r role = Inr True"
    and "ct_signature c' = ct_signature c"
    and "\<not> hmac_collision C (ca_secret A) (certificate_payload c') (certificate_payload c)"
  shows "c' = c"
proof -
  from assms(1) have c: "hmac_json C (ca_secret A) (certificate_payload c) = Inr (ct_signature c)"
    by (auto simp: ca_issue_def bindR_Inr_iff certificate_payload_def split: if_splits)
  have wf: "wf_floats (certificate_payload d)" for d
    by (auto simp: certificate_payload_def certificate_json_def)
  have eq: "sort_keys (certificate_payload c') = sort_keys (certificate_payload c)"
    using hmac_json_binds [OF _ _ wf wf assms(4)] ca_verify_True [OF assms(2)] c assms(3) by simp
  note field = sorted_obj_lookup [OF eq [unfolded certificate_payload_def certificate_json_def]]
  have roles: "map JStr (ct_roles c') = map JStr (ct_roles c)"
    using field [of "''roles''"] by (simp add: wf_dict_def comp_def)
  then have "ct_roles c' = ct_roles c" by (simp add: inj_map_eq_map inj_def)
  moreover have "ct_node c' = ct_node c" "ct_key c' = ct_key c" "ct_from c' = ct_from c"
    "ct_until c' = ct_until c" "ct_issuer c' = ct_issuer c"
    using field [of "''node_id''"] field [of "''public_key''"] field [of "''valid_from''"]
      field [of "''valid_until''"] field [of "''issuer''"] by (simp_all add: wf_dict_def)
  ultimately show ?thesis using assms(3) by simp
qed

section \<open>A concrete authority\<close>

definition sample_ca :: authority where
  "sample_ca = \<lparr>ca_issuer = ''lab'', ca_secret = ''ca-key''\<rparr>"

definition sample_cert :: "string \<Rightarrow> certificate" where
  "sample_cert node = projr (ca_issue ascii_crypto sample_ca node ''pk'' [''observer''] 0 10)"

lemma sample_cert_issued: "ca_issue ascii_crypto sample_ca node ''pk'' [''observer''] 0 10 = Inr (sample_cert node)"
proof -
  have "\<exists>c. ca_issue ascii_crypto sample_ca node ''pk'' [''observer''] 0 10 = Inr c"
    by (simp add: ca_issue_def hmac_json_def canonical_json_def)
  then show ?thesis by (auto simp: sample_cert_def)
qed

theorem certificate_issue_verify_witness:
  "ca_verify ascii_crypto sample_ca (sample_cert ''n1'') 10 ''observer''
     = Inr ((0::int) \<le> 10 \<and> (10::int) < 10 \<and> ''observer'' \<in> set [''observer''])"
  by (rule certificate_issue_verify [OF sample_cert_issued hex_ascii_crypto])

theorem certificate_unforgeable_witness: "sample_cert ''n1'' = sample_cert ''n1''"
proof (rule certificate_unforgeable [OF sample_cert_issued])
  show "ca_verify ascii_crypto sample_ca (sample_cert ''n1'') 3 ''observer'' = Inr True"
    using ca_issue_verifies [OF sample_cert_issued hex_ascii_crypto, of "''n1''" 3 "''observer''"] by simp
qed (simp_all add: hmac_collision_def)

end
