(* ===== verification/Membership.thy ===== *)
theory Membership
  imports Canonical_Json
begin

text \<open>
  Validator membership and joint quorums (\<open>splitchain/membership.py\<close>), and the quorum contract
  that membership, finality and failover share: a threshold of two thirds of a finite set of members.
\<close>

section \<open>Quorum systems\<close>

locale quorum_system =
  fixes members :: "'v set" and threshold :: nat
  assumes members_finite: "finite members"
    and two_thirds: "2 * card members \<le> 3 * threshold"
begin

text \<open>Two quorums share at least a third of the members.\<close>

lemma quorum_overlap:
  assumes "threshold \<le> card (A \<inter> members)" "threshold \<le> card (B \<inter> members)"
  shows "card members \<le> 3 * card (A \<inter> B \<inter> members)"
proof -
  have "card (A \<inter> members) + card (B \<inter> members)
      = card ((A \<inter> members) \<union> (B \<inter> members)) + card ((A \<inter> members) \<inter> (B \<inter> members))"
    using members_finite by (intro card_Un_Int) auto
  moreover have "card ((A \<inter> members) \<union> (B \<inter> members)) \<le> card members"
    using members_finite by (intro card_mono) auto
  moreover have "(A \<inter> members) \<inter> (B \<inter> members) = A \<inter> B \<inter> members" by blast
  ultimately show ?thesis using assms two_thirds by simp
qed

lemma quorums_meet:
  assumes "threshold \<le> card (A \<inter> members)" "threshold \<le> card (B \<inter> members)" "members \<noteq> {}"
  shows "A \<inter> B \<inter> members \<noteq> {}"
proof
  assume "A \<inter> B \<inter> members = {}"
  with quorum_overlap [OF assms(1,2)] members_finite assms(3) show False by simp
qed

text \<open>With fewer than a third of the members faulty, two quorums share a member that is not.\<close>

lemma honest_witness:
  assumes "threshold \<le> card (A \<inter> members)" "threshold \<le> card (B \<inter> members)"
    and "3 * card (faulty \<inter> members) < card members"
  shows "\<exists>v \<in> A \<inter> B \<inter> members. v \<notin> faulty"
proof (rule ccontr)
  assume "\<not> ?thesis"
  then have "A \<inter> B \<inter> members \<subseteq> faulty \<inter> members" by blast
  then have "card (A \<inter> B \<inter> members) \<le> card (faulty \<inter> members)"
    using members_finite by (intro card_mono) auto
  with quorum_overlap [OF assms(1,2)] assms(3) show False by simp
qed

end

section \<open>Membership\<close>

record membership =
  mb_epoch :: int
  mb_validators :: "string list"

text \<open>The dataclass constructor with its \<open>__post_init__\<close>.\<close>

definition membership_make :: "int \<Rightarrow> string list \<Rightarrow> membership result" where
  "membership_make epoch validators =
     (if epoch < 0 \<or> length validators < 3 \<or> length (remdups validators) \<noteq> length validators
         \<or> list_ex (\<lambda>name. name = []) validators
      then Inl (ProtocolError ''invalid validator membership'')
      else Inr \<lparr>mb_epoch = epoch, mb_validators = validators\<rparr>)"

definition mb_quorum :: "membership \<Rightarrow> nat" where
  "mb_quorum M = (2 * length (mb_validators M) + 2) div 3"

definition membership_digest :: "crypto \<Rightarrow> membership \<Rightarrow> string result" where
  "membership_digest C M = protocol_digest C ''splitchain/membership/v1''
     (JObj [(''epoch'', JInt (mb_epoch M)), (''validators'', JList (map JStr (mb_validators M)))])"

text \<open>\<open>voters\<close> is a Python set, held as a list of its elements.\<close>

definition mb_approves :: "membership \<Rightarrow> string list \<Rightarrow> bool" where
  "mb_approves M voters = (mb_quorum M \<le> card (set voters \<inter> set (mb_validators M)))"

record joint_membership =
  jm_previous :: membership
  jm_candidate :: membership

definition joint_make :: "membership \<Rightarrow> membership \<Rightarrow> joint_membership result" where
  "joint_make previous candidate =
     (if mb_epoch candidate \<noteq> mb_epoch previous + 1
         \<or> \<not> set (mb_validators previous) \<subseteq> set (mb_validators candidate)
      then Inl (ProtocolError ''invalid validator transition'')
      else Inr \<lparr>jm_previous = previous, jm_candidate = candidate\<rparr>)"

definition joint_approves :: "joint_membership \<Rightarrow> string list \<Rightarrow> bool" where
  "joint_approves J voters = (mb_approves (jm_previous J) voters \<and> mb_approves (jm_candidate J) voters)"

definition wf_membership :: "membership \<Rightarrow> bool" where
  "wf_membership M = (0 \<le> mb_epoch M \<and> 3 \<le> length (mb_validators M) \<and> distinct (mb_validators M)
     \<and> [] \<notin> set (mb_validators M))"

lemma membership_make_wf: "membership_make e vs = Inr M \<Longrightarrow> wf_membership M"
  by (auto simp: membership_make_def wf_membership_def list_ex_iff remdups_id_iff_distinct split: if_splits)

lemma quorum_two_thirds: "2 * length vs \<le> 3 * ((2 * length vs + 2) div 3)"
  by presburger

interpretation mb: quorum_system "set (mb_validators M)" "mb_quorum M" for M
proof
  show "2 * card (set (mb_validators M)) \<le> 3 * mb_quorum M"
    using card_length [of "mb_validators M"] quorum_two_thirds [of "mb_validators M"]
    unfolding mb_quorum_def by linarith
qed simp

lemma wf_membership_nonempty: "wf_membership M \<Longrightarrow> mb_validators M \<noteq> []"
  by (auto simp: wf_membership_def)

text \<open>Two quorums of one epoch share more than the faulty: if fewer than a third of the validators
  of a valid membership are faulty, any two sets of voters that it approves have a correct validator in
  common.\<close>

theorem membership_quorums_honest:
  assumes "membership_make e vs = Inr M" "mb_approves M A" "mb_approves M B"
    and "3 * card (faulty \<inter> set (mb_validators M)) < length (mb_validators M)"
  shows "\<exists>v \<in> set A \<inter> set B \<inter> set (mb_validators M). v \<notin> faulty"
proof -
  have "card (set (mb_validators M)) = length (mb_validators M)"
    using membership_make_wf [OF assms(1)] by (simp add: wf_membership_def distinct_card)
  then show ?thesis
    using mb.honest_witness [of M "set A" "set B" faulty] assms(2-4) by (simp add: mb_approves_def)
qed

text \<open>No split across a transition: what a joint membership approves shares a validator with
  everything the old epoch alone approves and with everything the new epoch alone approves, so during a
  transition neither epoch can decide without the other.\<close>

theorem joint_transition_no_split:
  assumes "membership_make e vs = Inr M" "membership_make e' vs' = Inr N" "joint_make M N = Inr J"
    and "joint_approves J A" "mb_approves M B \<or> mb_approves N B"
  shows "mb_epoch N = mb_epoch M + 1 \<and> set A \<inter> set B \<inter> set (mb_validators N) \<noteq> {}"
proof -
  from assms(3) have J: "J = \<lparr>jm_previous = M, jm_candidate = N\<rparr>" "mb_epoch N = mb_epoch M + 1"
    "set (mb_validators M) \<subseteq> set (mb_validators N)"
    by (auto simp: joint_make_def split: if_splits)
  from assms(4) J have A: "mb_approves M A" "mb_approves N A" by (auto simp: joint_approves_def)
  have ne: "set (mb_validators M) \<noteq> {}" "set (mb_validators N) \<noteq> {}"
    using wf_membership_nonempty membership_make_wf assms(1,2) by auto
  from assms(5) have "set A \<inter> set B \<inter> set (mb_validators M) \<noteq> {} \<or> set A \<inter> set B \<inter> set (mb_validators N) \<noteq> {}"
    using mb.quorums_meet [of M "set A" "set B"] mb.quorums_meet [of N "set A" "set B"] A ne
    by (auto simp: mb_approves_def)
  with J show ?thesis by blast
qed

definition sample_epoch :: "int \<Rightarrow> string list \<Rightarrow> membership" where
  "sample_epoch e vs = \<lparr>mb_epoch = e, mb_validators = vs\<rparr>"

theorem membership_quorums_honest_witness:
  "\<exists>v \<in> set [''a'', ''b'', ''c''] \<inter> set [''b'', ''c'', ''d''] \<inter> set (mb_validators (sample_epoch 0 [''a'', ''b'', ''c'', ''d''])).
     v \<notin> {''b''}"
proof (rule membership_quorums_honest)
  show "membership_make 0 [''a'', ''b'', ''c'', ''d''] = Inr (sample_epoch 0 [''a'', ''b'', ''c'', ''d''])" by code_simp
  show "mb_approves (sample_epoch 0 [''a'', ''b'', ''c'', ''d'']) [''a'', ''b'', ''c'']" by code_simp
  show "mb_approves (sample_epoch 0 [''a'', ''b'', ''c'', ''d'']) [''b'', ''c'', ''d'']" by code_simp
  show "3 * card ({''b''} \<inter> set (mb_validators (sample_epoch 0 [''a'', ''b'', ''c'', ''d''])))
      < length (mb_validators (sample_epoch 0 [''a'', ''b'', ''c'', ''d'']))" by (simp add: sample_epoch_def)
qed

theorem joint_transition_no_split_witness:
  "mb_epoch (sample_epoch 1 [''a'', ''b'', ''c'', ''d'']) = mb_epoch (sample_epoch 0 [''a'', ''b'', ''c'']) + 1
   \<and> set [''a'', ''b'', ''d''] \<inter> set [''b'', ''c''] \<inter> set (mb_validators (sample_epoch 1 [''a'', ''b'', ''c'', ''d''])) \<noteq> {}"
proof (rule joint_transition_no_split)
  show "membership_make 0 [''a'', ''b'', ''c''] = Inr (sample_epoch 0 [''a'', ''b'', ''c''])" by code_simp
  show "membership_make 1 [''a'', ''b'', ''c'', ''d''] = Inr (sample_epoch 1 [''a'', ''b'', ''c'', ''d''])" by code_simp
  show "joint_make (sample_epoch 0 [''a'', ''b'', ''c'']) (sample_epoch 1 [''a'', ''b'', ''c'', ''d''])
      = Inr \<lparr>jm_previous = sample_epoch 0 [''a'', ''b'', ''c''], jm_candidate = sample_epoch 1 [''a'', ''b'', ''c'', ''d'']\<rparr>"
    by code_simp
  show "joint_approves \<lparr>jm_previous = sample_epoch 0 [''a'', ''b'', ''c''], jm_candidate = sample_epoch 1 [''a'', ''b'', ''c'', ''d'']\<rparr>
      [''a'', ''b'', ''d'']" by code_simp
  show "mb_approves (sample_epoch 0 [''a'', ''b'', ''c'']) [''b'', ''c'']
      \<or> mb_approves (sample_epoch 1 [''a'', ''b'', ''c'', ''d'']) [''b'', ''c'']" by code_simp
qed

end
