(* ===== verification/Finality.thy ===== *)
theory Finality
  imports Certificates Membership
begin

text \<open>
  The certified three-round finality model of \<open>splitchain/finality.py\<close>: observers sign votes, a round
  is closed by a quorum of two thirds, three rounds finalise the candidate.
\<close>

section \<open>Votes\<close>

datatype finality_role = PRIMARY | SECONDARY | TERTIARY

fun role_value :: "finality_role \<Rightarrow> string" where
  "role_value PRIMARY = ''primary''"
| "role_value SECONDARY = ''secondary''"
| "role_value TERTIARY = ''tertiary''"

record finality_vote =
  fv_observer :: string
  fv_role :: finality_role
  fv_branch :: string
  fv_candidate :: string
  fv_round :: int
  fv_signature :: string

definition fv_json :: "string \<Rightarrow> finality_role \<Rightarrow> string \<Rightarrow> string \<Rightarrow> int \<Rightarrow> json" where
  "fv_json observer role branch candidate round = JObj
     [(''branch_id'', JStr branch), (''candidate_digest'', JStr candidate), (''observer'', JStr observer),
      (''role'', JStr (role_value role)), (''round'', JInt round)]"

definition fv_unsigned :: "finality_vote \<Rightarrow> json" where
  "fv_unsigned v = fv_json (fv_observer v) (fv_role v) (fv_branch v) (fv_candidate v) (fv_round v)"

record finality_signer =
  fs_certificate :: certificate
  fs_role :: finality_role
  fs_key :: string

definition fs_vote :: "crypto \<Rightarrow> finality_signer \<Rightarrow> string \<Rightarrow> string \<Rightarrow> int \<Rightarrow> finality_vote result" where
  "fs_vote C S branch candidate round =
     bindR (hmac_json C (fs_key S) (fv_json (ct_node (fs_certificate S)) (fs_role S) branch candidate round)) (\<lambda>s.
       Inr \<lparr>fv_observer = ct_node (fs_certificate S), fv_role = fs_role S, fv_branch = branch,
         fv_candidate = candidate, fv_round = round, fv_signature = s\<rparr>)"

section \<open>The state machine\<close>

text \<open>The set \<open>quarantined\<close> is held as a list without repetitions.\<close>

record finality =
  fn_authority :: authority
  fn_branch :: string
  fn_candidate :: string
  fn_observers :: "(string, finality_role) dict"
  fn_round :: int
  fn_votes :: "(int, (string, finality_vote) dict) dict"
  fn_quarantined :: "string list"
  fn_final :: bool

definition FN_ROUNDS :: int where
  "FN_ROUNDS = 3"

definition finality_init ::
    "authority \<Rightarrow> string \<Rightarrow> string \<Rightarrow> (string, finality_role) dict \<Rightarrow> finality result" where
  "finality_init A branch candidate observers =
     (if length observers < 3 \<or> length (remdups (map snd observers)) < 3
      then Inl (ProtocolError ''finality requires Primary, Secondary, and Tertiary observers'')
      else Inr \<lparr>fn_authority = A, fn_branch = branch, fn_candidate = candidate, fn_observers = observers,
        fn_round = 1, fn_votes = [(1, []), (2, []), (3, [])], fn_quarantined = [], fn_final = False\<rparr>)"

definition fn_quorum :: "finality \<Rightarrow> nat" where
  "fn_quorum F = (2 * length (fn_observers F) + 2) div 3"

definition round_votes :: "finality \<Rightarrow> int \<Rightarrow> (string, finality_vote) dict" where
  "round_votes F r = (case map_of (fn_votes F) r of None \<Rightarrow> [] | Some vs \<Rightarrow> vs)"

definition quarantine :: "string \<Rightarrow> finality \<Rightarrow> finality" where
  "quarantine observer F = F\<lparr>fn_quarantined := List.insert observer (fn_quarantined F)\<rparr>"

text \<open>The last part of \<open>acknowledge\<close>: the vote is stored and a quorum closes the round.\<close>

definition store_vote :: "finality_vote \<Rightarrow> finality \<Rightarrow> finality" where
  "store_vote v F =
     (let votes = AList.update (fv_observer v) v (round_votes F (fv_round v));
          F1 = F\<lparr>fn_votes := AList.update (fv_round v) votes (fn_votes F)\<rparr>
      in if length votes \<ge> fn_quorum F
         then if fv_round v = FN_ROUNDS then F1\<lparr>fn_final := True\<rparr> else F1\<lparr>fn_round := fn_round F1 + 1\<rparr>
         else F1)"

type_synonym ballot = "finality_vote \<times> certificate \<times> string"

text \<open>The signature test of \<open>acknowledge\<close>.\<close>

definition vote_signed :: "crypto \<Rightarrow> finality_vote \<Rightarrow> string \<Rightarrow> bool result" where
  "vote_signed C v key =
     bindR (hmac_json C key (fv_unsigned v)) (\<lambda>expected. compare_digest expected (fv_signature v))"

definition acknowledge :: "crypto \<Rightarrow> ballot \<Rightarrow> (finality, bool) operation" where
  "acknowledge C ballot F = (case ballot of (v, certificate, key) \<Rightarrow>
     if fn_final F then (Inl (ProtocolError ''candidate is already final''), F)
     else if fv_round v \<noteq> fn_round F
       then (Inl (ProtocolError ''vote is not for the current finality round''), F)
     else if fv_branch v \<noteq> fn_branch F then (Inl (ProtocolError ''vote is for a different branch''), F)
     else if fv_observer v \<noteq> ct_node certificate
       then (Inl (ProtocolError ''vote observer does not match certificate''), F)
     else if map_of (fn_observers F) (fv_observer v) \<noteq> Some (fv_role v)
       then (Inl (ProtocolError ''observer is not assigned to this finality role''), F)
     else if fv_candidate v \<noteq> fn_candidate F
       then (Inl (ProtocolError ''conflicting candidate vote''), quarantine (fv_observer v) F)
     else (case ca_verify C (fn_authority F) certificate (fv_round v) ''observer'' of
         Inl e \<Rightarrow> (Inl e, F)
       | Inr False \<Rightarrow> (Inl (ProtocolError ''observer certificate is invalid''), F)
       | Inr True \<Rightarrow>
          (case vote_signed C v key of
             Inl e \<Rightarrow> (Inl e, F)
           | Inr False \<Rightarrow> (Inl (ProtocolError ''invalid finality vote signature''), F)
           | Inr True \<Rightarrow>
              (case map_of (fn_votes F) (fv_round v) of
                 None \<Rightarrow> (Inl KeyError, F)
               | Some votes \<Rightarrow>
                  (case map_of votes (fv_observer v) of
                     Some existing \<Rightarrow>
                       if existing = v then (Inr (fn_final F), F)
                       else (Inl (ProtocolError ''observer equivocated in the same round''),
                             quarantine (fv_observer v) F)
                   | None \<Rightarrow> (Inr (fn_final (store_vote v F)), store_vote v F))))))"

section \<open>Invariant\<close>

text \<open>
  Every stored vote is one for the candidate by the observer it is stored under, in its assigned role;
  closed rounds have a quorum, later rounds are empty, and the candidate is final exactly when the third
  round has a quorum.
\<close>

definition vote_ok :: "finality \<Rightarrow> int \<Rightarrow> string \<Rightarrow> finality_vote \<Rightarrow> bool" where
  "vote_ok F r observer v =
     (fv_observer v = observer \<and> fv_round v = r \<and> fv_branch v = fn_branch F \<and> fv_candidate v = fn_candidate F
      \<and> map_of (fn_observers F) observer = Some (fv_role v))"

definition finality_inv :: "finality \<Rightarrow> bool" where
  "finality_inv F =
     (3 \<le> length (fn_observers F) \<and> fn_round F \<in> {1, 2, 3}
      \<and> (\<forall>r \<in> {1, 2, 3}. map_of (fn_votes F) r = Some (round_votes F r))
      \<and> (\<forall>r \<in> {1, 2, 3}. wf_dict (round_votes F r) \<and> (\<forall>(ob, v) \<in> set (round_votes F r). vote_ok F r ob v))
      \<and> (\<forall>r \<in> {1, 2, 3}. r < fn_round F \<longrightarrow> fn_quorum F \<le> length (round_votes F r))
      \<and> (\<forall>r \<in> {1, 2, 3}. fn_round F < r \<longrightarrow> round_votes F r = [])
      \<and> (if fn_final F then fn_round F = 3 \<and> fn_quorum F \<le> length (round_votes F 3)
         else length (round_votes F (fn_round F)) < fn_quorum F))"

lemma finality_invD:
  assumes "finality_inv F"
  shows "r \<in> {1, 2, 3} \<Longrightarrow> wf_dict (round_votes F r)"
    "r \<in> {1, 2, 3} \<Longrightarrow> \<forall>(ob, w) \<in> set (round_votes F r). vote_ok F r ob w"
    "r \<in> {1, 2, 3} \<Longrightarrow> map_of (fn_votes F) r = Some (round_votes F r)"
    "\<forall>r \<in> {1, 2, 3}. r < fn_round F \<longrightarrow> fn_quorum F \<le> length (round_votes F r)"
    "\<forall>r \<in> {1, 2, 3}. fn_round F < r \<longrightarrow> round_votes F r = []"
    "fn_round F \<in> {1, 2, 3}" "3 \<le> length (fn_observers F)"
    "fn_final F \<Longrightarrow> fn_round F = 3 \<and> fn_quorum F \<le> length (round_votes F 3)"
    "\<not> fn_final F \<Longrightarrow> length (round_votes F (fn_round F)) < fn_quorum F"
  using assms unfolding finality_inv_def by meson+

lemma fn_quorum_pos: "3 \<le> length (fn_observers F) \<Longrightarrow> 0 < fn_quorum F"
  by (simp add: fn_quorum_def)

lemma finality_init_inv: "finality_init A b c obs = Inr F \<Longrightarrow> finality_inv F"
  using fn_quorum_pos [of F]
  by (auto simp: finality_init_def finality_inv_def round_votes_def split: if_splits)

text \<open>The outcomes of \<open>acknowledge\<close>.\<close>

lemma acknowledge_cases:
  assumes "acknowledge C (v, cert, key) F = (x, F')"
  obtains (unchanged) e where "x = Inl e" "F' = F"
  | (quarantined) m where "x = Inl (ProtocolError m)" "F' = quarantine (fv_observer v) F"
      "map_of (fn_observers F) (fv_observer v) \<noteq> None"
  | (repeated) "x = Inr False" "F' = F" "\<not> fn_final F"
  | (stored) "x = Inr (fn_final F')" "F' = store_vote v F" "\<not> fn_final F" "fv_round v = fn_round F"
      "vote_ok F (fn_round F) (fv_observer v) v" "map_of (round_votes F (fn_round F)) (fv_observer v) = None"
      "fv_observer v = ct_node cert"
      "ca_verify C (fn_authority F) cert (fn_round F) ''observer'' = Inr True" "vote_signed C v key = Inr True"
proof -
  let ?guard = "\<not> fn_final F \<and> fv_round v = fn_round F \<and> fv_branch v = fn_branch F \<and> fv_observer v = ct_node cert
    \<and> map_of (fn_observers F) (fv_observer v) = Some (fv_role v)"
  show thesis
  proof (cases ?guard)
    case False
    then have "\<exists>e. x = Inl e \<and> F' = F" using assms by (auto simp: acknowledge_def split: if_split_asm)
    with unchanged show thesis by blast
  next
    case guard: True
    then have g: "\<not> fn_final F" "fv_round v = fn_round F" "fv_branch v = fn_branch F" "ct_node cert = fv_observer v"
      "map_of (fn_observers F) (fv_observer v) = Some (fv_role v)"
      by auto
    show thesis
    proof (cases "fv_candidate v = fn_candidate F")
      case False
      with guard assms have "x = Inl (ProtocolError ''conflicting candidate vote'')" "F' = quarantine (fv_observer v) F"
        by (auto simp: acknowledge_def)
      with guard show thesis by (intro quarantined) auto
    next
      case cand: True
      let ?tail = "(case map_of (fn_votes F) (fv_round v) of
                 None \<Rightarrow> (Inl KeyError, F)
               | Some votes \<Rightarrow>
                  (case map_of votes (fv_observer v) of
                     Some existing \<Rightarrow>
                       if existing = v then (Inr (fn_final F), F)
                       else (Inl (ProtocolError ''observer equivocated in the same round''),
                             quarantine (fv_observer v) F)
                   | None \<Rightarrow> (Inr (fn_final (store_vote v F)), store_vote v F)))"
      show thesis
      proof (cases "ca_verify C (fn_authority F) cert (fv_round v) ''observer'' = Inr True \<and> vote_signed C v key = Inr True")
        case False
        obtain ca vs where cavs: "ca_verify C (fn_authority F) cert (fn_round F) ''observer'' = ca"
          "vote_signed C v key = vs" by simp
        from assms cand have "(case ca of Inl e \<Rightarrow> (Inl e, F)
             | Inr False \<Rightarrow> (Inl (ProtocolError ''observer certificate is invalid''), F)
             | Inr True \<Rightarrow> (case vs of Inl e \<Rightarrow> (Inl e, F)
                 | Inr False \<Rightarrow> (Inl (ProtocolError ''invalid finality vote signature''), F)
                 | Inr True \<Rightarrow> ?tail)) = (x, F')"
          unfolding cavs [symmetric] by (simp add: acknowledge_def g)
        with False have "\<exists>e. x = Inl e \<and> F' = F"
          unfolding g(2) cavs by (cases ca; cases vs) (auto split: bool.split_asm)
        with unchanged show thesis by blast
      next
        case signed: True
        then have tail: "?tail = (x, F')" using assms cand by (simp add: acknowledge_def g)
        show thesis
        proof (cases "map_of (fn_votes F) (fv_round v)")
          case None
          with tail unchanged show thesis by auto
        next
          case votes: (Some votes)
          show thesis
          proof (cases "map_of votes (fv_observer v)")
            case None
            with tail votes guard cand signed show thesis
              by (intro stored) (auto simp: vote_ok_def round_votes_def g)
          next
            case (Some existing)
            with tail votes guard repeated quarantined show thesis by (cases "existing = v") auto
          qed
        qed
      qed
    qed
  qed
qed

lemma quarantine_fields:
  "fn_observers (quarantine ob F) = fn_observers F" "fn_round (quarantine ob F) = fn_round F"
  "fn_votes (quarantine ob F) = fn_votes F" "fn_final (quarantine ob F) = fn_final F"
  "round_votes (quarantine ob F) = round_votes F" "fn_quorum (quarantine ob F) = fn_quorum F"
  "vote_ok (quarantine ob F) = vote_ok F" "fn_candidate (quarantine ob F) = fn_candidate F"
  by (simp_all add: quarantine_def round_votes_def fn_quorum_def vote_ok_def fun_eq_iff)

lemma quarantine_inv: "finality_inv F \<Longrightarrow> finality_inv (quarantine ob F)"
  unfolding finality_inv_def quarantine_fields .

lemma round_votes_update:
  "round_votes (F\<lparr>fn_votes := AList.update r vs (fn_votes F)\<rparr>) r' = (if r' = r then vs else round_votes F r')"
  by (simp add: round_votes_def)

lemma update_length: "map_of d k = None \<Longrightarrow> length (AList.update k v d) = Suc (length d)"
  by (induction d) auto

lemma update_entries: "(a, b) \<in> set (AList.update k v d) \<Longrightarrow> (a, b) = (k, v) \<or> (a, b) \<in> set d"
  by (induction d) (auto split: if_splits)

text \<open>The components of the state after a vote is stored.\<close>

lemma store_vote_fields:
  "fn_observers (store_vote v F) = fn_observers F" "fn_branch (store_vote v F) = fn_branch F"
  "fn_candidate (store_vote v F) = fn_candidate F" "fn_authority (store_vote v F) = fn_authority F"
  "fn_votes (store_vote v F) = AList.update (fv_round v) (AList.update (fv_observer v) v (round_votes F (fv_round v))) (fn_votes F)"
  "fn_quarantined (store_vote v F) = fn_quarantined F"
  by (simp_all add: store_vote_def Let_def)

lemma store_vote_votes:
  "round_votes (store_vote v F) r =
     (if r = fv_round v then AList.update (fv_observer v) v (round_votes F r) else round_votes F r)"
  by (simp add: round_votes_def store_vote_fields(5))

lemma store_vote_round:
  "fn_quorum (store_vote v F) = fn_quorum F"
  "fn_round (store_vote v F) =
     (if fn_quorum F \<le> length (round_votes (store_vote v F) (fv_round v)) \<and> fv_round v \<noteq> 3
      then fn_round F + 1 else fn_round F)"
  "fn_final (store_vote v F) =
     (fn_final F \<or> fn_quorum F \<le> length (round_votes (store_vote v F) (fv_round v)) \<and> fv_round v = 3)"
  by (simp_all add: store_vote_votes) (simp_all add: store_vote_def Let_def fn_quorum_def FN_ROUNDS_def)

lemma update_keys_set: "fst ` set (AList.update k v d) = insert k (fst ` set d)"
  by (induction d) (auto split: if_splits)

lemma store_vote_inv:
  assumes inv: "finality_inv F" and v: "\<not> fn_final F" "fv_round v = fn_round F"
    "vote_ok F (fn_round F) (fv_observer v) v" "map_of (round_votes F (fn_round F)) (fv_observer v) = None"
  shows "finality_inv (store_vote v F)"
proof -
  let ?F = "store_vote v F"
  have ok: "vote_ok ?F r ob w = vote_ok F r ob w" for r ob w
    by (simp add: vote_ok_def store_vote_fields)
  have len: "length (round_votes ?F (fn_round F)) = Suc (length (round_votes F (fn_round F)))"
    using v(4) by (simp add: store_vote_votes v(2) update_length)
  have entries: "\<forall>(ob, w) \<in> set (round_votes ?F r). vote_ok ?F r ob w" "wf_dict (round_votes ?F r)"
    "map_of (fn_votes ?F) r = Some (round_votes ?F r)" if "r \<in> {1, 2, 3}" for r
  proof -
    note F = finality_invD(1-3) [OF inv that]
    show "\<forall>(ob, w) \<in> set (round_votes ?F r). vote_ok ?F r ob w"
      using F(2) v(2,3) by (auto simp: store_vote_votes ok dest: update_entries)
    show "wf_dict (round_votes ?F r)" using F(1) by (cases "r = fv_round v") (auto simp: store_vote_votes)
    show "map_of (fn_votes ?F) r = Some (round_votes ?F r)"
      using F(3) by (simp add: store_vote_fields(5) store_vote_votes)
  qed
  have other: "round_votes ?F r = round_votes F r" if "r \<noteq> fn_round F" for r
    using that v(2) by (simp add: store_vote_votes)
  have closed: "\<forall>r \<in> {1, 2, 3}. r < fn_round F \<longrightarrow> fn_quorum F \<le> length (round_votes F r)"
    and empty: "\<forall>r \<in> {1, 2, 3}. fn_round F < r \<longrightarrow> round_votes F r = []"
    and rng: "fn_round F \<in> {1, 2, 3}" and n: "3 \<le> length (fn_observers F)"
    using finality_invD(4-7) [OF inv] by blast+
  have q: "0 < fn_quorum F" by (rule fn_quorum_pos [OF n])
  show ?thesis
  proof (cases "fn_quorum F \<le> length (round_votes ?F (fn_round F))")
    case False
    then have st: "fn_round ?F = fn_round F" "\<not> fn_final ?F"
      using v by (simp_all add: store_vote_round)
    have "\<forall>r \<in> {1, 2, 3}. r < fn_round ?F \<longrightarrow> fn_quorum ?F \<le> length (round_votes ?F r)"
      "\<forall>r \<in> {1, 2, 3}. fn_round ?F < r \<longrightarrow> round_votes ?F r = []"
      using closed empty other st by (auto simp: store_vote_round(1))
    with False st entries rng n show ?thesis
      by (simp add: finality_inv_def store_vote_round(1) store_vote_fields(1))
  next
    case True
    show ?thesis
    proof (cases "fn_round F = 3")
      case three: True
      with True v have st: "fn_round ?F = 3" "fn_final ?F" by (simp_all add: store_vote_round)
      have "\<forall>r \<in> {1, 2, 3}. r < fn_round ?F \<longrightarrow> fn_quorum ?F \<le> length (round_votes ?F r)"
        "\<forall>r \<in> {1, 2, 3}. fn_round ?F < r \<longrightarrow> round_votes ?F r = []"
        using closed empty other st three by (auto simp: store_vote_round(1))
      with True three st entries rng n show ?thesis
        by (simp add: finality_inv_def store_vote_round(1) store_vote_fields(1))
    next
      case False
      with True v have st: "fn_round ?F = fn_round F + 1" "\<not> fn_final ?F" by (simp_all add: store_vote_round)
      from False rng have next_round: "fn_round ?F \<in> {1, 2, 3}" using st by auto
      have "round_votes F (fn_round F + 1) = []" using empty next_round st by auto
      then have "round_votes ?F (fn_round ?F) = []" using other [of "fn_round F + 1"] st by simp
      moreover have "\<forall>r \<in> {1, 2, 3}. r < fn_round ?F \<longrightarrow> fn_quorum ?F \<le> length (round_votes ?F r)"
      proof (intro ballI impI)
        fix r assume r: "r \<in> {1, 2, 3 :: int}" "r < fn_round ?F"
        then have "r < fn_round F \<or> r = fn_round F" using st by auto
        then show "fn_quorum ?F \<le> length (round_votes ?F r)"
          using closed other [of r] r(1) True by (auto simp: store_vote_round(1))
      qed
      moreover have "\<forall>r \<in> {1, 2, 3}. fn_round ?F < r \<longrightarrow> round_votes ?F r = []"
        using empty other st by auto
      ultimately show ?thesis
        using st entries next_round n q by (simp add: finality_inv_def store_vote_round(1) store_vote_fields(1))
    qed
  qed
qed

lemma acknowledge_inv: "finality_inv F \<Longrightarrow> finality_inv (snd (acknowledge C ballot F))"
proof -
  assume inv: "finality_inv F"
  obtain v cert key x F' where eq: "ballot = (v, cert, key)" "acknowledge C (v, cert, key) F = (x, F')"
    by (cases ballot; cases "acknowledge C ballot F") auto
  from eq(2) show ?thesis
    by (cases rule: acknowledge_cases) (use eq inv in \<open>auto intro: quarantine_inv store_vote_inv\<close>)
qed

interpretation finality: invariant_machine "acknowledge C" finality_inv for C
  by unfold_locales (rule acknowledge_inv)

section \<open>Evidence\<close>

text \<open>The observers whose votes are stored for a round.\<close>

definition round_observers :: "finality \<Rightarrow> int \<Rightarrow> string set" where
  "round_observers F r = fst ` set (round_votes F r)"

lemma acknowledge_frame:
  "fn_observers (snd (acknowledge C b F)) = fn_observers F \<and> fn_candidate (snd (acknowledge C b F)) = fn_candidate F
   \<and> fn_branch (snd (acknowledge C b F)) = fn_branch F"
proof -
  obtain v cert key x F' where eq: "b = (v, cert, key)" "acknowledge C (v, cert, key) F = (x, F')"
    by (cases b; cases "acknowledge C b F") auto
  from eq(2) show ?thesis
    by (cases rule: acknowledge_cases) (use eq in \<open>auto simp: quarantine_def store_vote_fields\<close>)
qed

lemma run_frame:
  "fn_observers (run_ops (acknowledge C) bs F) = fn_observers F \<and> fn_candidate (run_ops (acknowledge C) bs F) = fn_candidate F
   \<and> fn_branch (run_ops (acknowledge C) bs F) = fn_branch F"
  using acknowledge_frame by (induction bs arbitrary: F) auto

text \<open>Every stored vote was submitted, by an observer with a valid certificate, and signed with the key given.\<close>

definition ballot_valid :: "crypto \<Rightarrow> finality \<Rightarrow> ballot \<Rightarrow> bool" where
  "ballot_valid C F ballot = (case ballot of (v, cert, key) \<Rightarrow>
     fv_observer v = ct_node cert \<and> ca_verify C (fn_authority F) cert (fv_round v) ''observer'' = Inr True
     \<and> vote_signed C v key = Inr True)"

definition evidence :: "crypto \<Rightarrow> ballot list \<Rightarrow> finality \<Rightarrow> bool" where
  "evidence C bs F =
     (\<forall>r. \<forall>(ob, v) \<in> set (round_votes F r). \<exists>cert key. (v, cert, key) \<in> set bs \<and> ballot_valid C F (v, cert, key))"

lemma evidence_mono: "evidence C bs F \<Longrightarrow> set bs \<subseteq> set bs' \<Longrightarrow> evidence C bs' F"
  unfolding evidence_def by fast

lemma acknowledge_evidence:
  assumes "evidence C bs F" shows "evidence C (b # bs) (snd (acknowledge C b F))"
proof -
  obtain v cert key x F' where eq: "b = (v, cert, key)" "acknowledge C (v, cert, key) F = (x, F')"
    by (cases b; cases "acknowledge C b F") auto
  from eq(2) show ?thesis
  proof (cases rule: acknowledge_cases)
    case (quarantined m)
    have "ballot_valid C (quarantine (fv_observer v) F) = ballot_valid C F"
      by (simp add: fun_eq_iff ballot_valid_def quarantine_def)
    then have "evidence C bs (quarantine (fv_observer v) F) = evidence C bs F"
      by (simp add: evidence_def quarantine_fields)
    with assms quarantined eq evidence_mono [of C bs _ "b # bs"] show ?thesis by auto
  next
    case stored
    have same: "ballot_valid C (store_vote v F) = ballot_valid C F"
      by (simp add: fun_eq_iff ballot_valid_def store_vote_fields)
    have new: "ballot_valid C F (v, cert, key)"
      using stored by (simp add: ballot_valid_def)
    have "\<exists>cert' key'. (w, cert', key') \<in> set (b # bs) \<and> ballot_valid C F (w, cert', key')"
      if "(ob, w) \<in> set (round_votes (store_vote v F) r)" for ob w r
    proof -
      from that have "w = v \<or> (ob, w) \<in> set (round_votes F r)"
        by (auto simp: store_vote_votes split: if_splits dest: update_entries)
      with assms new eq(1) show ?thesis unfolding evidence_def by fastforce
    qed
    then have "evidence C (b # bs) (store_vote v F)" unfolding evidence_def same by blast
    with eq stored show ?thesis by simp
  qed (use assms eq evidence_mono [of C bs F "b # bs"] in auto)
qed

lemma run_evidence: "evidence C bs F \<Longrightarrow> evidence C (rev cs @ bs) (run_ops (acknowledge C) cs F)"
proof (induction cs arbitrary: bs F)
  case (Cons c cs)
  from Cons.IH [OF acknowledge_evidence [OF Cons.prems]] show ?case by simp
qed simp

section \<open>Quorums of observers\<close>

interpretation fn: quorum_system "set (keys (fn_observers F))" "fn_quorum F" for F
proof
  show "2 * card (set (keys (fn_observers F))) \<le> 3 * fn_quorum F"
    using card_length [of "keys (fn_observers F)"] quorum_two_thirds [of "keys (fn_observers F)"]
    by (simp add: fn_quorum_def keys_def)
qed simp

lemma map_of_in_keys: "map_of d k = Some v \<Longrightarrow> k \<in> set (keys d)"
  by (force simp: keys_def dest: map_of_SomeD)

lemma round_observers_quorum:
  assumes inv: "finality_inv F" and fin: "fn_final F" and r: "r \<in> {1, 2, 3}"
  shows "round_observers F r \<subseteq> set (keys (fn_observers F))" "fn_quorum F \<le> card (round_observers F r)"
proof -
  have "fn_quorum F \<le> length (round_votes F r)"
    using finality_invD(8) [OF inv fin] finality_invD(4) [OF inv] r by auto
  then show "fn_quorum F \<le> card (round_observers F r)"
    using finality_invD(1) [OF inv r] distinct_card [of "map fst (round_votes F r)"]
    by (simp add: round_observers_def wf_dict_def)
  show "round_observers F r \<subseteq> set (keys (fn_observers F))"
  proof
    fix ob assume "ob \<in> round_observers F r"
    then obtain v where "(ob, v) \<in> set (round_votes F r)" by (auto simp: round_observers_def)
    with finality_invD(2) [OF inv r] have "map_of (fn_observers F) ob = Some (fv_role v)"
      by (auto simp: vote_ok_def)
    then show "ob \<in> set (keys (fn_observers F))" by (rule map_of_in_keys)
  qed
qed

lemma init_evidence: "finality_init A b c obs = Inr F \<Longrightarrow> evidence C [] F"
  by (auto simp: finality_init_def evidence_def round_votes_def split: if_splits option.splits)

lemma finality_init_fields:
  "finality_init A b c obs = Inr F \<Longrightarrow> fn_observers F = obs \<and> fn_candidate F = c \<and> fn_branch F = b \<and> fn_authority F = A"
  by (auto simp: finality_init_def split: if_splits)

text \<open>Who voted for the candidate in a round of a finalised run: at least a quorum of the observers, each
  with a valid ballot among those submitted.\<close>

definition voted :: "crypto \<Rightarrow> finality \<Rightarrow> ballot list \<Rightarrow> int \<Rightarrow> string \<Rightarrow> bool" where
  "voted C F bs r ob = (\<exists>v cert key. (v, cert, key) \<in> set bs \<and> ballot_valid C F (v, cert, key)
     \<and> fv_observer v = ob \<and> fv_round v = r \<and> fv_branch v = fn_branch F \<and> fv_candidate v = fn_candidate F)"

lemma final_voted:
  assumes "finality_init A b c obs = Inr F0" "F = run_ops (acknowledge C) bs F0" "r \<in> {1, 2, 3}"
    "ob \<in> round_observers F r"
  shows "voted C F bs r ob"
proof -
  have inv: "finality_inv F" unfolding assms(2) by (rule finality.run_inv [OF finality_init_inv [OF assms(1)]])
  from run_evidence [OF init_evidence [OF assms(1)], of C bs] have ev: "evidence C (rev bs) F"
    by (simp add: assms(2))
  from assms(4) obtain v where v: "(ob, v) \<in> set (round_votes F r)" by (auto simp: round_observers_def)
  from ev v obtain cert key where "(v, cert, key) \<in> set (rev bs)" "ballot_valid C F (v, cert, key)"
    unfolding evidence_def by blast
  moreover have "vote_ok F r ob v" using finality_invD(2) [OF inv assms(3)] v by blast
  ultimately show ?thesis unfolding voted_def vote_ok_def by auto
qed

lemma finality_certified_lemma:
  assumes "finality_init A b c obs = Inr F0" "F = run_ops (acknowledge C) bs F0" "fn_final F" "r \<in> {1, 2, 3}"
  shows "\<exists>V. V \<subseteq> set (keys obs) \<and> (2 * length obs + 2) div 3 \<le> card V \<and> (\<forall>ob \<in> V. voted C F bs r ob)"
proof -
  have inv: "finality_inv F" unfolding assms(2) by (rule finality.run_inv [OF finality_init_inv [OF assms(1)]])
  have obs: "fn_observers F = obs"
    using run_frame [of C bs F0] finality_init_fields [OF assms(1)] assms(2) by simp
  show ?thesis
    using round_observers_quorum [OF inv assms(3,4)] final_voted [OF assms(1,2,4)] obs
    by (intro exI [of _ "round_observers F r"]) (auto simp: fn_quorum_def)
qed

section \<open>Progress\<close>

definition good_ballot :: "crypto \<Rightarrow> finality \<Rightarrow> int \<Rightarrow> ballot \<Rightarrow> bool" where
  "good_ballot C F r ballot =
     (ballot_valid C F ballot \<and> vote_ok F r (fv_observer (fst ballot)) (fst ballot))"

lemma good_ballot_stored:
  assumes inv: "finality_inv F" and F: "\<not> fn_final F" "fn_round F = r" and b: "good_ballot C F r b"
    and new: "fv_observer (fst b) \<notin> round_observers F r"
  shows "snd (acknowledge C b F) = store_vote (fst b) F"
proof -
  obtain v cert key where eq: "b = (v, cert, key)" by (cases b) auto
  have r: "r \<in> {1, 2, 3}" using finality_invD(6) [OF inv] F by simp
  have "map_of (round_votes F r) (fv_observer v) = None"
    using new eq by (auto simp: round_observers_def map_of_eq_None_iff)
  moreover have "ct_node cert = fv_observer v" "ca_verify C (fn_authority F) cert r ''observer'' = Inr True"
    "vote_signed C v key = Inr True" "fv_round v = r" "fv_branch v = fn_branch F"
    "fv_candidate v = fn_candidate F" "map_of (fn_observers F) (fv_observer v) = Some (fv_role v)"
    using b eq by (auto simp: good_ballot_def ballot_valid_def vote_ok_def)
  ultimately show ?thesis
    using F eq finality_invD(3) [OF inv r] by (simp add: acknowledge_def)
qed

lemma good_ballot_cong:
  "good_ballot C (store_vote v F) r b = good_ballot C F r b"
  by (simp add: good_ballot_def ballot_valid_def vote_ok_def store_vote_fields)

lemma round_progress:
  assumes "finality_inv F" "\<not> fn_final F" "fn_round F = r" "\<forall>b \<in> set bs. good_ballot C F r b"
    "distinct (map (\<lambda>b. fv_observer (fst b)) bs)"
    "\<forall>b \<in> set bs. fv_observer (fst b) \<notin> round_observers F r"
    "length (round_votes F r) + length bs = fn_quorum F"
  shows "finality_inv (run_ops (acknowledge C) bs F)
    \<and> (\<forall>b r'. good_ballot C (run_ops (acknowledge C) bs F) r' b = good_ballot C F r' b)
    \<and> fn_quorum (run_ops (acknowledge C) bs F) = fn_quorum F
    \<and> (\<forall>r'. r' \<noteq> r \<longrightarrow> round_votes (run_ops (acknowledge C) bs F) r' = round_votes F r')
    \<and> (if r = 3 then fn_final (run_ops (acknowledge C) bs F)
       else \<not> fn_final (run_ops (acknowledge C) bs F) \<and> fn_round (run_ops (acknowledge C) bs F) = r + 1)"
  using assms
proof (induction bs arbitrary: F)
  case Nil
  from finality_invD(9) [OF Nil(1,2)] Nil show ?case by simp
next
  case (Cons b bs)
  let ?v = "fst b" and ?F = "store_vote (fst b) F"
  have step: "snd (acknowledge C b F) = ?F"
    using Cons.prems by (intro good_ballot_stored [of F r C b]) simp_all
  have v: "fv_round ?v = r" using Cons.prems(4) by (simp add: good_ballot_def vote_ok_def)
  have none: "map_of (round_votes F r) (fv_observer ?v) = None"
    using Cons.prems(6) by (auto simp: round_observers_def map_of_eq_None_iff)
  have inv: "finality_inv ?F"
    using Cons.prems none v by (intro store_vote_inv) (simp_all add: good_ballot_def)
  have len: "length (round_votes ?F r) = Suc (length (round_votes F r))"
    using none v by (simp add: store_vote_votes update_length)
  have obs: "round_observers ?F r = insert (fv_observer ?v) (round_observers F r)"
    using v update_keys_set [of "fv_observer ?v" ?v "round_votes F r"]
    by (simp add: round_observers_def store_vote_votes)
  show ?case
  proof (cases bs)
    case Nil
    with Cons.prems(2,3,7) len v step inv show ?thesis
      by (auto simp: store_vote_round store_vote_votes good_ballot_cong)
  next
    case (Cons c cs)
    with Cons.prems(7) len have short: "length (round_votes ?F r) < fn_quorum F" by simp
    with Cons.prems(2,3) v have st: "\<not> fn_final ?F" "fn_round ?F = r" "fn_quorum ?F = fn_quorum F"
      by (simp_all add: store_vote_round)
    have "length (round_votes ?F r) + length bs = fn_quorum ?F" using Cons.prems(7) len st(3) by simp
    moreover have "\<forall>b \<in> set bs. fv_observer (fst b) \<notin> round_observers ?F r"
      using Cons.prems(5,6) by (simp add: obs) (metis image_eqI)
    ultimately show ?thesis
      using Cons.IH [OF inv st(1,2)] Cons.prems(4,5) st(3) step v by (simp add: good_ballot_cong store_vote_votes)
  qed
qed

lemma finality_init_start:
  assumes "finality_init A b c obs = Inr F"
  shows "finality_inv F" "\<not> fn_final F" "fn_round F = 1" "round_votes F r = []" "fn_quarantined F = []"
  using finality_init_inv [OF assms] assms
  by (auto simp: finality_init_def round_votes_def split: if_splits)

lemma quorum_final:
  assumes start: "finality_inv F" "\<not> fn_final F" "fn_round F = 1" "\<And>r. round_votes F r = []"
    and "\<forall>x \<in> set bs1. good_ballot C F 1 x" "\<forall>x \<in> set bs2. good_ballot C F 2 x" "\<forall>x \<in> set bs3. good_ballot C F 3 x"
    and "distinct (map (\<lambda>x. fv_observer (fst x)) bs1)" "distinct (map (\<lambda>x. fv_observer (fst x)) bs2)"
      "distinct (map (\<lambda>x. fv_observer (fst x)) bs3)"
    and "length bs1 = fn_quorum F" "length bs2 = fn_quorum F" "length bs3 = fn_quorum F"
  shows "fn_final (run_ops (acknowledge C) (bs1 @ bs2 @ bs3) F)"
proof -
  let ?F1 = "run_ops (acknowledge C) bs1 F"
  let ?F2 = "run_ops (acknowledge C) bs2 ?F1"
  have p1: "finality_inv ?F1" "\<And>b r. good_ballot C ?F1 r b = good_ballot C F r b" "fn_quorum ?F1 = fn_quorum F"
    "round_votes ?F1 2 = []" "round_votes ?F1 3 = []" "\<not> fn_final ?F1" "fn_round ?F1 = 2"
    using round_progress [OF start(1-3) assms(5,8)] assms(11) start(4)
    by (simp_all add: round_observers_def del: split_paired_All)
  have p2: "finality_inv ?F2" "\<And>b r. good_ballot C ?F2 r b = good_ballot C F r b" "fn_quorum ?F2 = fn_quorum F"
    "round_votes ?F2 3 = []" "\<not> fn_final ?F2" "fn_round ?F2 = 3"
    using round_progress [OF p1(1,6,7), of bs2 C] assms(6,9,12) p1
    by (simp_all add: round_observers_def del: split_paired_All)
  have "fn_final (run_ops (acknowledge C) bs3 ?F2)"
    using round_progress [OF p2(1,5,6), of bs3 C] assms(7,10,13) p2 by (simp add: round_observers_def)
  then show ?thesis by (simp add: run_ops_append)
qed

text \<open>A vote made by an assigned observer's signer, with a certificate of the authority, is good.\<close>

lemma signed_ballot_good:
  assumes "ca_issue C (fn_authority F) node pk roles f u = Inr (fs_certificate S)" "hex_digests C"
    and "fs_vote C S (fn_branch F) (fn_candidate F) r = Inr v"
    and "f \<le> r" "r < u" "''observer'' \<in> set roles" "map_of (fn_observers F) node = Some (fs_role S)"
  shows "good_ballot C F r (v, fs_certificate S, fs_key S)"
proof -
  have node: "ct_node (fs_certificate S) = node" by (rule ca_issue_node [OF assms(1)])
  from assms(3) obtain s where v: "v = \<lparr>fv_observer = ct_node (fs_certificate S), fv_role = fs_role S,
      fv_branch = fn_branch F, fv_candidate = fn_candidate F, fv_round = r, fv_signature = s\<rparr>"
    and s: "hmac_json C (fs_key S) (fv_unsigned v) = Inr s"
    by (auto simp: fs_vote_def bindR_Inr_iff fv_unsigned_def)
  have "is_ascii s" using s assms(2) by (auto simp: hmac_json_Inr hex_digests_def)
  then have "vote_signed C v (fs_key S) = Inr True"
    using s v by (simp add: vote_signed_def compare_digest_def)
  with v node ca_issue_verifies [OF assms(1,2), of r "''observer''"] assms(4-7) show ?thesis
    by (simp add: good_ballot_def ballot_valid_def vote_ok_def)
qed

lemma signed_vote_exists: "\<exists>v. fs_vote C S b c r = Inr v"
  by (simp add: fs_vote_def hmac_json_def canonical_json_def fv_json_def)

lemma quarantined_mono: "set (fn_quarantined F) \<subseteq> set (fn_quarantined (run_ops (acknowledge C) bs F))"
proof (induction bs arbitrary: F)
  case (Cons b bs)
  obtain v cert key x F' where eq: "b = (v, cert, key)" "acknowledge C (v, cert, key) F = (x, F')"
    by (cases b; cases "acknowledge C b F") auto
  from eq(2) have "set (fn_quarantined F) \<subseteq> set (fn_quarantined F')"
    by (cases rule: acknowledge_cases) (auto simp: quarantine_def store_vote_fields)
  with Cons.IH [of F'] eq show ?case by auto
qed simp

section \<open>Properties\<close>

text \<open>Finality is certified: when the machine calls a candidate final, then for each of the three
  rounds at least two thirds of the assigned observers have submitted a vote for exactly this candidate,
  branch and round, with a certificate of the authority that is valid in the round and a valid signature.\<close>

theorem finality_certified:
  assumes "finality_init A b c obs = Inr F0" "F = run_ops (acknowledge C) bs F0" "fn_final F" "r \<in> {1, 2, 3}"
  shows "\<exists>V. V \<subseteq> set (keys obs) \<and> (2 * length obs + 2) div 3 \<le> card V \<and> (\<forall>ob \<in> V. voted C F bs r ob)"
  by (rule finality_certified_lemma [OF assms])


text \<open>C32. A quorum finalises: three blocks of valid ballots of a quorum of distinct observers, one block
  for each round in order, always lead to finality, whichever observers form each quorum.\<close>

theorem finality_quorum_finalises:
  assumes "finality_init A b c obs = Inr F"
    and "\<forall>x \<in> set bs1. good_ballot C F 1 x" "\<forall>x \<in> set bs2. good_ballot C F 2 x" "\<forall>x \<in> set bs3. good_ballot C F 3 x"
    and "distinct (map (\<lambda>x. fv_observer (fst x)) bs1)" "distinct (map (\<lambda>x. fv_observer (fst x)) bs2)"
      "distinct (map (\<lambda>x. fv_observer (fst x)) bs3)"
    and "length bs1 = fn_quorum F" "length bs2 = fn_quorum F" "length bs3 = fn_quorum F"
  shows "fn_final (run_ops (acknowledge C) (bs1 @ bs2 @ bs3) F)"
  by (rule quorum_final [OF finality_init_start(1-4) [OF assms(1)] assms(2-10)])

text \<open>Quarantine needs no proof: a message that names an assigned observer, its role, the current
  round and another candidate puts that observer into quarantine, although neither its certificate nor
  its signature has been checked. Anyone can have an honest observer quarantined.\<close>

theorem finality_quarantine_unauthenticated:
  assumes "\<not> fn_final F" "fv_round v = fn_round F" "fv_branch v = fn_branch F"
    and "map_of (fn_observers F) (fv_observer v) = Some (fv_role v)" "fv_candidate v \<noteq> fn_candidate F"
    and "ct_node cert = fv_observer v"
  shows "fv_observer v \<in> set (fn_quarantined (snd (acknowledge C (v, cert, key) F)))"
  using assms by (simp add: acknowledge_def quarantine_def)

text \<open>Quarantine has no effect on the count: after an observer has voted for another candidate and
  has been quarantined, three quorums still finalise the candidate when the quarantined observer is
  needed in each of them.\<close>

theorem finality_quarantined_votes_count:
  assumes "finality_init A b c obs = Inr F"
    and "fv_round v = 1" "fv_branch v = b" "map_of obs (fv_observer v) = Some (fv_role v)" "fv_candidate v \<noteq> c"
      "ct_node cert = fv_observer v"
    and "\<forall>x \<in> set bs1. good_ballot C F 1 x" "\<forall>x \<in> set bs2. good_ballot C F 2 x" "\<forall>x \<in> set bs3. good_ballot C F 3 x"
    and "distinct (map (\<lambda>x. fv_observer (fst x)) bs1)" "distinct (map (\<lambda>x. fv_observer (fst x)) bs2)"
      "distinct (map (\<lambda>x. fv_observer (fst x)) bs3)"
    and "length bs1 = fn_quorum F" "length bs2 = fn_quorum F" "length bs3 = fn_quorum F"
  shows "fn_final (run_ops (acknowledge C) ((v, cert, key) # bs1 @ bs2 @ bs3) F)
    \<and> fv_observer v \<in> set (fn_quarantined (run_ops (acknowledge C) ((v, cert, key) # bs1 @ bs2 @ bs3) F))"
proof -
  note start = finality_init_start [OF assms(1)]
  let ?Q = "quarantine (fv_observer v) F"
  have step: "snd (acknowledge C (v, cert, key) F) = ?Q"
    using assms(2-6) start finality_init_fields [OF assms(1)] by (simp add: acknowledge_def)
  have good: "good_ballot C ?Q r x = good_ballot C F r x" for r x
    by (simp add: good_ballot_def ballot_valid_def quarantine_fields) (simp add: quarantine_def)
  have "fn_final (run_ops (acknowledge C) (bs1 @ bs2 @ bs3) ?Q)"
    using assms(7-15) start quarantine_inv [OF start(1)]
    by (intro quorum_final) (simp_all add: good quarantine_fields)
  moreover have "fv_observer v \<in> set (fn_quarantined (run_ops (acknowledge C) (bs1 @ bs2 @ bs3) ?Q))"
    using quarantined_mono [of ?Q C "bs1 @ bs2 @ bs3"] by (auto simp: quarantine_def)
  ultimately show ?thesis using step by simp
qed

section \<open>A concrete run\<close>

text \<open>Three observers, one for each role; the first and the third one vote in every round.\<close>

definition sample_observers :: "(string, finality_role) dict" where
  "sample_observers = [(''n1'', PRIMARY), (''n2'', SECONDARY), (''n3'', TERTIARY)]"

definition sample_finality :: "string \<Rightarrow> finality" where
  "sample_finality candidate = projr (finality_init sample_ca ''b'' candidate sample_observers)"

definition sample_ballot :: "string \<Rightarrow> finality_role \<Rightarrow> string \<Rightarrow> int \<Rightarrow> ballot" where
  "sample_ballot node role candidate round =
     (projr (fs_vote ascii_crypto \<lparr>fs_certificate = sample_cert node, fs_role = role, fs_key = node\<rparr> ''b'' candidate round),
      sample_cert node, node)"

definition sample_block :: "string \<Rightarrow> int \<Rightarrow> ballot list" where
  "sample_block candidate r = [sample_ballot ''n1'' PRIMARY candidate r, sample_ballot ''n3'' TERTIARY candidate r]"

lemma sample_finality_init: "finality_init sample_ca ''b'' c sample_observers = Inr (sample_finality c)"
  by (simp add: sample_finality_def finality_init_def sample_observers_def)

lemma sample_finality_fields:
  "fn_observers (sample_finality c) = sample_observers" "fn_candidate (sample_finality c) = c"
  "fn_branch (sample_finality c) = ''b''" "fn_authority (sample_finality c) = sample_ca" "fn_quorum (sample_finality c) = 2"
  using finality_init_fields [OF sample_finality_init [of c]] by (simp_all add: fn_quorum_def sample_observers_def)

lemma sample_ballot_good:
  assumes "map_of sample_observers node = Some role" "0 \<le> r" "r < 10"
  shows "good_ballot ascii_crypto (sample_finality c) r (sample_ballot node role c r)"
proof -
  let ?S = "\<lparr>fs_certificate = sample_cert node, fs_role = role, fs_key = node\<rparr>"
  obtain v where v: "fs_vote ascii_crypto ?S ''b'' c r = Inr v" using signed_vote_exists by blast
  have "good_ballot ascii_crypto (sample_finality c) r (v, fs_certificate ?S, fs_key ?S)"
    by (rule signed_ballot_good [where pk = "''pk''" and roles = "[''observer'']" and f = 0 and u = 10])
      (use assms v in \<open>simp_all add: sample_finality_fields sample_cert_issued hex_ascii_crypto\<close>)
  with v show ?thesis by (simp add: sample_ballot_def)
qed

lemma sample_ballot_observer: "fv_observer (fst (sample_ballot node role c r)) = node"
proof -
  have "ct_node (sample_cert node) = node" by (rule ca_issue_node [OF sample_cert_issued])
  then show ?thesis
    using signed_vote_exists [of ascii_crypto _ "''b''" c r]
    by (auto simp: sample_ballot_def fs_vote_def bindR_Inr_iff hmac_json_def canonical_json_def fv_json_def)
qed

lemma sample_block_good:
  "r \<in> {1, 2, 3} \<Longrightarrow> \<forall>x \<in> set (sample_block c r). good_ballot ascii_crypto (sample_finality c) r x"
  "distinct (map (\<lambda>x. fv_observer (fst x)) (sample_block c r))" "length (sample_block c r) = 2"
  by (auto simp: sample_block_def sample_ballot_observer sample_observers_def intro!: sample_ballot_good)

definition sample_ballots :: "string \<Rightarrow> ballot list" where
  "sample_ballots c = sample_block c 1 @ sample_block c 2 @ sample_block c 3"

lemma sample_final: "fn_final (run_ops (acknowledge ascii_crypto) (sample_ballots c) (sample_finality c))"
  unfolding sample_ballots_def
  by (rule quorum_final [OF finality_init_start(1-4) [OF sample_finality_init]])
    (simp_all add: sample_block_good sample_finality_fields del: split_paired_All)

theorem finality_certified_witness:
  "\<exists>V. V \<subseteq> set (keys sample_observers) \<and> (2 * length sample_observers + 2) div 3 \<le> card V
    \<and> V \<subseteq> {ob. voted ascii_crypto (run_ops (acknowledge ascii_crypto) (sample_ballots ''x'') (sample_finality ''x'')) (sample_ballots ''x'') 2 ob}"
  using finality_certified [OF sample_finality_init refl sample_final, of 2 "''x''"] by blast


theorem finality_quorum_finalises_witness:
  "fn_final (run_ops (acknowledge ascii_crypto) (sample_block ''x'' 1 @ sample_block ''x'' 2 @ sample_block ''x'' 3) (sample_finality ''x''))"
  by (rule finality_quorum_finalises [OF sample_finality_init])
    (simp_all add: sample_block_good sample_finality_fields del: split_paired_All)

definition forged_vote :: finality_vote where
  "forged_vote = \<lparr>fv_observer = ''n1'', fv_role = PRIMARY, fv_branch = ''b'', fv_candidate = ''y'', fv_round = 1,
     fv_signature = ''forged''\<rparr>"

definition forged_cert :: certificate where
  "forged_cert = \<lparr>ct_node = ''n1'', ct_key = [], ct_roles = [], ct_from = 0, ct_until = 0, ct_issuer = [], ct_signature = []\<rparr>"

theorem finality_quarantine_unauthenticated_witness:
  "fv_observer forged_vote \<in> set (fn_quarantined (snd (acknowledge ascii_crypto (forged_vote, forged_cert, ''wrong key'') (sample_finality ''x''))))"
  using finality_init_start(2,3) [OF sample_finality_init [of "''x''"]]
  by (intro finality_quarantine_unauthenticated)
    (simp_all add: forged_vote_def forged_cert_def sample_finality_fields sample_observers_def)

theorem finality_quarantined_votes_count_witness:
  "fn_final (run_ops (acknowledge ascii_crypto)
      ((forged_vote, forged_cert, ''wrong key'') # sample_block ''x'' 1 @ sample_block ''x'' 2 @ sample_block ''x'' 3) (sample_finality ''x''))
    \<and> fv_observer forged_vote \<in> set (fn_quarantined (run_ops (acknowledge ascii_crypto)
      ((forged_vote, forged_cert, ''wrong key'') # sample_block ''x'' 1 @ sample_block ''x'' 2 @ sample_block ''x'' 3) (sample_finality ''x'')))"
  by (rule finality_quarantined_votes_count [OF sample_finality_init])
    (simp_all add: sample_block_good sample_finality_fields forged_vote_def forged_cert_def sample_observers_def del: split_paired_All)

end
