(* ===== verification/Request_Auth.thy ===== *)
theory Request_Auth
  imports Signatures Genesis
begin

text \<open>
  \<open>RequestAuthenticator\<close> of \<open>splitchain/auth.py\<close>: signed client requests with one shared secret
  and one last nonce per actor.
\<close>

section \<open>State and operations\<close>

record authenticator =
  au_secrets :: "(string, string) dict"
  au_nonces :: "(string, int) dict"

definition authenticator_init :: "(string, string) dict \<Rightarrow> authenticator" where
  "authenticator_init secrets = \<lparr>au_secrets = secrets, au_nonces = []\<rparr>"

text \<open>\<open>request.get(k)\<close> and \<open>request.get(k, default)\<close>.\<close>

definition get_or :: "json \<Rightarrow> string \<Rightarrow> json \<Rightarrow> json" where
  "get_or v k d = (case obj_get v k of None \<Rightarrow> d | Some x \<Rightarrow> x)"

lemma wf_floats_get: "wf_floats v \<Longrightarrow> wf_floats d \<Longrightarrow> wf_floats (get_or v k d)"
  by (cases v) (fastforce simp: get_or_def obj_get_def split: option.splits dest: map_of_SomeD)+

definition auth_message :: "json \<Rightarrow> string \<Rightarrow> int \<Rightarrow> json" where
  "auth_message request actor nonce = JObj
     [(''actor'', JStr actor), (''id'', get_or request ''id'' JNull),
      (''method'', get_or request ''method'' JNull), (''nonce'', JInt nonce),
      (''params'', get_or request ''params'' (JObj []))]"

definition auth_sign :: "crypto \<Rightarrow> json \<Rightarrow> string \<Rightarrow> int \<Rightarrow> string \<Rightarrow> json result" where
  "auth_sign C request actor nonce secret =
     bindR (hmac_json C secret (auth_message request actor nonce)) (\<lambda>s.
       Inr (JObj [(''actor'', JStr actor), (''nonce'', JInt nonce), (''signature'', JStr s)]))"

definition bad_auth :: error where
  "bad_auth = ProtocolError ''invalid request authentication''"

text \<open>
  The three conversions of the \<open>try\<close> block: a missing key is \<open>bad_auth\<close>; a value of another
  JSON type goes through \<open>str\<close> or \<open>int\<close>, which is outside the model.
\<close>

definition auth_field :: "json \<Rightarrow> string \<Rightarrow> json result" where
  "auth_field auth k = (case obj_get auth k of None \<Rightarrow> Inl bad_auth | Some v \<Rightarrow> Inr v)"

definition auth_str :: "json \<Rightarrow> string \<Rightarrow> string result" where
  "auth_str auth k = bindR (auth_field auth k) (\<lambda>v. case v of JStr s \<Rightarrow> Inr s | _ \<Rightarrow> Inl Unmodelled)"

definition auth_int :: "json \<Rightarrow> string \<Rightarrow> int result" where
  "auth_int auth k = bindR (auth_field auth k) (\<lambda>v. case v of JInt i \<Rightarrow> Inr i | _ \<Rightarrow> Inl Unmodelled)"

definition auth_claim :: "authenticator \<Rightarrow> json \<Rightarrow> (string \<times> int \<times> string \<times> string) result" where
  "auth_claim A request =
     (let auth = get_or request ''auth'' JNull in
      if obj_fields auth = None then Inl (ProtocolError ''authenticated request required'')
      else
        bindR (auth_str auth ''actor'') (\<lambda>actor.
        bindR (auth_int auth ''nonce'') (\<lambda>nonce.
        bindR (auth_str auth ''signature'') (\<lambda>signature.
        (case map_of (au_secrets A) actor of
           None \<Rightarrow> Inl bad_auth
         | Some secret \<Rightarrow> Inr (actor, nonce, signature, secret))))))"

definition auth_verify :: "crypto \<Rightarrow> json \<Rightarrow> bool \<Rightarrow> (authenticator, string) operation" where
  "auth_verify C request do_record A =
     (case auth_claim A request of
        Inl e \<Rightarrow> (Inl e, A)
      | Inr (actor, nonce, signature, secret) \<Rightarrow>
          (case bindR (hmac_json C secret (auth_message request actor nonce))
                  (\<lambda>expected. compare_digest expected signature) of
             Inl e \<Rightarrow> (Inl e, A)
           | Inr False \<Rightarrow> (Inl bad_auth, A)
           | Inr True \<Rightarrow>
               if nonce \<le> dict_get (au_nonces A) actor (- 1) then (Inl bad_auth, A)
               else if do_record then (Inr actor, A\<lparr>au_nonces := AList.update actor nonce (au_nonces A)\<rparr>)
               else (Inr actor, A)))"

definition auth_snapshot :: "authenticator \<Rightarrow> (string, int) dict" where
  "auth_snapshot A = sorted_dict (au_nonces A)"

definition auth_restore :: "(string, int) dict \<Rightarrow> (authenticator, unit) operation" where
  "auth_restore nonces A =
     (if list_ex (\<lambda>(a, n). n < 0) nonces then (Inl (ProtocolError ''invalid replay state''), A)
      else (Inr (), A\<lparr>au_nonces := nonces\<rparr>))"

definition auth_add_actor :: "string \<Rightarrow> string \<Rightarrow> (authenticator, unit) operation" where
  "auth_add_actor actor secret A =
     (if map_of (au_secrets A) actor \<noteq> None \<and> map_of (au_secrets A) actor \<noteq> Some secret
      then (Inl (ProtocolError ''existing credential cannot be replaced''), A)
      else (Inr (), A\<lparr>au_secrets := AList.update actor secret (au_secrets A)\<rparr>))"

definition auth_knows :: "string \<Rightarrow> authenticator \<Rightarrow> bool" where
  "auth_knows actor A = dict_has (au_secrets A) actor"

section \<open>What a verified request is\<close>

text \<open>The actor and the nonce that a request names.\<close>

definition request_actor :: "json \<Rightarrow> string" where
  "request_actor request =
     (case auth_str (get_or request ''auth'' JNull) ''actor'' of Inl _ \<Rightarrow> [] | Inr a \<Rightarrow> a)"

definition request_nonce :: "json \<Rightarrow> int" where
  "request_nonce request =
     (case auth_int (get_or request ''auth'' JNull) ''nonce'' of Inl _ \<Rightarrow> 0 | Inr n \<Rightarrow> n)"

lemma auth_claim_Inr:
  assumes "auth_claim A request = Inr (actor, nonce, signature, secret)"
  shows "actor = request_actor request" "nonce = request_nonce request"
    "map_of (au_secrets A) actor = Some secret"
    "auth_str (get_or request ''auth'' JNull) ''signature'' = Inr signature"
  using assms
  by (auto simp: auth_claim_def Let_def bindR_Inr_iff request_actor_def request_nonce_def
      split: if_splits option.splits)

lemma auth_verify_Inr:
  assumes "fst (auth_verify C request do_record A) = Inr actor"
  obtains secret signature where "actor = request_actor request"
    "map_of (au_secrets A) actor = Some secret"
    "auth_str (get_or request ''auth'' JNull) ''signature'' = Inr signature"
    "hmac_json C secret (auth_message request actor (request_nonce request)) = Inr signature"
    "dict_get (au_nonces A) actor (- 1) < request_nonce request"
    "snd (auth_verify C request do_record A) =
       (if do_record then A\<lparr>au_nonces := AList.update actor (request_nonce request) (au_nonces A)\<rparr> else A)"
proof -
  from assms obtain a n sg sec where claim: "auth_claim A request = Inr (a, n, sg, sec)"
    by (auto simp: auth_verify_def split: sum.splits)
  from assms claim have chk: "bindR (hmac_json C sec (auth_message request a n))
      (\<lambda>expected. compare_digest expected sg) = Inr True"
    and n: "dict_get (au_nonces A) a (- 1) < n" "actor = a"
    by (auto simp: auth_verify_def split: sum.splits bool.splits if_splits)
  from chk have mac: "hmac_json C sec (auth_message request a n) = Inr sg"
    by (auto simp: bindR_Inr_iff compare_digest_def split: if_splits)
  from claim chk n auth_claim_Inr [OF claim] mac show thesis
    by (intro that [of sec sg]) (auto simp: auth_verify_def)
qed

lemma auth_verify_Inl: "fst (auth_verify C request do_record A) = Inl e \<Longrightarrow> snd (auth_verify C request do_record A) = A"
  by (auto simp: auth_verify_def split: sum.splits bool.splits prod.splits if_splits)

definition last_nonce :: "authenticator \<Rightarrow> string \<Rightarrow> int" where
  "last_nonce A actor = dict_get (au_nonces A) actor (- 1)"

interpretation auth: replay_guard "\<lambda>request. auth_verify C request True" request_actor request_nonce last_nonce for C
proof
  fix m s x assume "fst (auth_verify C m True s) = Inr x"
  then show "last_nonce s (request_actor m) < request_nonce m"
    "last_nonce (snd (auth_verify C m True s)) = (last_nonce s)(request_actor m := request_nonce m)"
    by (auto elim!: auth_verify_Inr simp: last_nonce_def fun_eq_iff)
next
  fix m s e assume "fst (auth_verify C m True s) = Inl e"
  from auth_verify_Inl [OF this] show "last_nonce (snd (auth_verify C m True s)) = last_nonce s" by simp
qed

section \<open>Properties\<close>

text \<open>C39. Replay protection: once a request has been accepted, it is rejected for ever, whatever
  requests of whatever actors are verified in between; and in any run no request is accepted twice.\<close>

theorem auth_no_replay:
  assumes "fst (auth_verify C request True A) = Inr actor"
  shows "\<not> is_ok (fst (auth_verify C request True
      (run_ops (\<lambda>r. auth_verify C r True) requests (snd (auth_verify C request True A)))))
    \<and> distinct (accepted (\<lambda>r. auth_verify C r True) requests A)"
  using auth.replayed_rejected [OF assms] auth.accepted_once by blast

text \<open>A client that knows the secret is served: the envelope that \<open>sign\<close> produces is accepted
  for the request it was made for, as the actor it names, exactly when its nonce is above the last one
  recorded for that actor (hexadecimal digests being ASCII text).\<close>

theorem auth_signed_request_accepted:
  assumes "auth_sign C (JObj kvs) actor nonce secret = Inr auth" "hex_digests C"
    and "map_of (au_secrets A) actor = Some secret"
    and "map_of kvs ''auth'' = Some auth"
  shows "fst (auth_verify C (JObj kvs) True A)
    = (if last_nonce A actor < nonce then Inr actor else Inl bad_auth)"
proof -
  from assms(1) obtain s where s: "hmac_json C secret (auth_message (JObj kvs) actor nonce) = Inr s"
    "auth = JObj [(''actor'', JStr actor), (''nonce'', JInt nonce), (''signature'', JStr s)]"
    by (auto simp: auth_sign_def bindR_Inr_iff)
  have "is_ascii s" using s(1) assms(2) by (auto simp: hmac_json_Inr hex_digests_def)
  moreover have "auth_claim A (JObj kvs) = Inr (actor, nonce, s, secret)"
    using assms(3,4) s(2)
    by (simp add: auth_claim_def get_or_def obj_get_def obj_fields_def auth_str_def auth_int_def auth_field_def)
  ultimately show ?thesis
    using s(1) by (simp add: auth_verify_def compare_digest_def last_nonce_def)
qed

text \<open>A signature authorises one request: if two requests are accepted under one secret with the
  same signature, they name the same actor and nonce and agree in \<open>id\<close>, \<open>method\<close> and \<open>params\<close> (up
  to key order), or they are an explicit HMAC collision. Moving a signature to another actor, method or
  parameter is rejected.\<close>

theorem auth_signature_binds_request:
  assumes "fst (auth_verify C r True A) = Inr a" "fst (auth_verify C r' True B) = Inr a'"
    and "map_of (au_secrets A) a = Some secret" "map_of (au_secrets B) a' = Some secret"
    and "auth_str (get_or r ''auth'' JNull) ''signature'' = auth_str (get_or r' ''auth'' JNull) ''signature''"
    and "wf_floats r" "wf_floats r'"
    and "\<not> hmac_collision C secret (auth_message r a (request_nonce r)) (auth_message r' a' (request_nonce r'))"
  shows "a = a' \<and> request_nonce r = request_nonce r'
    \<and> same_json (get_or r ''id'' JNull) (get_or r' ''id'' JNull)
    \<and> same_json (get_or r ''method'' JNull) (get_or r' ''method'' JNull)
    \<and> same_json (get_or r ''params'' (JObj [])) (get_or r' ''params'' (JObj []))"
proof -
  have wf: "wf_floats (auth_message v x n)" if "wf_floats v" for v x n
    using wf_floats_get [OF that] by (simp add: auth_message_def)
  from assms(1,3) obtain s where s: "hmac_json C secret (auth_message r a (request_nonce r)) = Inr s"
    "auth_str (get_or r ''auth'' JNull) ''signature'' = Inr s"
    by (auto elim: auth_verify_Inr)
  from assms(2,4) obtain s' where s': "hmac_json C secret (auth_message r' a' (request_nonce r')) = Inr s'"
    "auth_str (get_or r' ''auth'' JNull) ''signature'' = Inr s'"
    by (auto elim: auth_verify_Inr)
  have "s' = s" using s(2) s'(2) assms(5) by simp
  with s(1) s'(1) have eq: "sort_keys (auth_message r a (request_nonce r)) = sort_keys (auth_message r' a' (request_nonce r'))"
    using hmac_json_binds [OF _ _ wf wf assms(8)] assms(6,7) by blast
  note field = sorted_obj_lookup [OF eq [unfolded auth_message_def]]
  from field [of "''actor''"] field [of "''nonce''"] field [of "''id''"] field [of "''method''"] field [of "''params''"]
  show ?thesis by (auto simp: wf_dict_def intro: sort_keys_same_json)
qed

text \<open>Replay state survives a restart: restoring the saved nonces into a fresh authenticator
  succeeds and gives every actor the last nonce it had.\<close>

theorem auth_restart:
  assumes "wf_dict (au_nonces A)" "\<forall>(a, n) \<in> set (au_nonces A). 0 \<le> n"
  shows "fst (auth_restore (auth_snapshot A) B) = Inr ()
    \<and> last_nonce (snd (auth_restore (auth_snapshot A) B)) = last_nonce A"
  using assms by (auto simp: auth_restore_def auth_snapshot_def list_ex_iff last_nonce_def fun_eq_iff dict_get_def)

section \<open>A concrete request\<close>

definition sample_request :: json where
  "sample_request = JObj
     [(''method'', JStr ''offer''), (''id'', JInt 7),
      (''auth'', projr (auth_sign ascii_crypto (JObj [(''method'', JStr ''offer''), (''id'', JInt 7)]) ''alice'' 0 ''key''))]"

definition sample_auth :: authenticator where
  "sample_auth = authenticator_init [(''alice'', ''key'')]"

lemma sample_request_accepted: "fst (auth_verify ascii_crypto sample_request True sample_auth) = Inr ''alice''"
  by code_simp

theorem auth_no_replay_witness:
  "\<not> is_ok (fst (auth_verify ascii_crypto sample_request True
      (run_ops (\<lambda>r. auth_verify ascii_crypto r True) [sample_request]
        (snd (auth_verify ascii_crypto sample_request True sample_auth)))))
    \<and> distinct (accepted (\<lambda>r. auth_verify ascii_crypto r True) [sample_request] sample_auth)"
  by (rule auth_no_replay [OF sample_request_accepted])

theorem auth_signed_request_accepted_witness:
  "\<exists>auth. auth_sign ascii_crypto (JObj [(''method'', JStr ''offer''), (''auth'', auth)]) ''alice'' 0 ''key'' = Inr auth
     \<and> fst (auth_verify ascii_crypto (JObj [(''method'', JStr ''offer''), (''auth'', auth)]) True sample_auth) = Inr ''alice''"
proof -
  define auth where "auth = projr (auth_sign ascii_crypto (JObj [(''method'', JStr ''offer'')]) ''alice'' 0 ''key'')"
  have msg: "auth_message (JObj [(''method'', JStr ''offer''), (''auth'', auth)]) ''alice'' 0
      = auth_message (JObj [(''method'', JStr ''offer'')]) ''alice'' 0"
    by (simp add: auth_message_def get_or_def obj_get_def)
  have "auth_sign ascii_crypto (JObj [(''method'', JStr ''offer'')]) ''alice'' 0 ''key'' = Inr auth"
    unfolding auth_def by code_simp
  then have s: "auth_sign ascii_crypto (JObj [(''method'', JStr ''offer''), (''auth'', auth)]) ''alice'' 0 ''key'' = Inr auth"
    by (simp add: auth_sign_def msg)
  have "fst (auth_verify ascii_crypto (JObj [(''method'', JStr ''offer''), (''auth'', auth)]) True sample_auth)
      = (if last_nonce sample_auth ''alice'' < 0 then Inr ''alice'' else Inl bad_auth)"
    by (rule auth_signed_request_accepted [OF s hex_ascii_crypto]) (simp_all add: sample_auth_def authenticator_init_def)
  with s show ?thesis by (auto simp: last_nonce_def sample_auth_def authenticator_init_def)
qed

theorem auth_signature_binds_request_witness:
  "''alice'' = ''alice'' \<and> request_nonce sample_request = request_nonce sample_request
    \<and> same_json (get_or sample_request ''id'' JNull) (get_or sample_request ''id'' JNull)
    \<and> same_json (get_or sample_request ''method'' JNull) (get_or sample_request ''method'' JNull)
    \<and> same_json (get_or sample_request ''params'' (JObj [])) (get_or sample_request ''params'' (JObj []))"
proof (rule auth_signature_binds_request [OF sample_request_accepted sample_request_accepted])
  show "map_of (au_secrets sample_auth) ''alice'' = Some ''key''" by code_simp
  then show "map_of (au_secrets sample_auth) ''alice'' = Some ''key''" .
  show "wf_floats sample_request" by code_simp
  then show "wf_floats sample_request" .
qed (simp_all add: hmac_collision_def)

theorem auth_restart_witness:
  "fst (auth_restore (auth_snapshot (sample_auth\<lparr>au_nonces := [(''bob'', 4), (''alice'', 2)]\<rparr>)) sample_auth) = Inr ()
    \<and> last_nonce (snd (auth_restore (auth_snapshot (sample_auth\<lparr>au_nonces := [(''bob'', 4), (''alice'', 2)]\<rparr>)) sample_auth))
      = last_nonce (sample_auth\<lparr>au_nonces := [(''bob'', 4), (''alice'', 2)]\<rparr>)"
  by (rule auth_restart) (simp_all add: wf_dict_def)

end
