(* ===== verification/Node_Keys.thy ===== *)
theory Node_Keys
  imports Signatures Genesis
begin

text \<open>
  Per-node Ed25519 identities (\<open>splitchain/node_identity.py\<close>) and the base64 text form of their
  signatures. The Ed25519 primitives belong to the package \<open>cryptography\<close> and are parameters.
\<close>

section \<open>Base64\<close>

definition b64_alphabet :: string where
  "b64_alphabet = ''ABCDEFGHIJKLMNOPQRSTUVWXYZabcdefghijklmnopqrstuvwxyz0123456789+/''"

definition b64_char :: "nat \<Rightarrow> char" where
  "b64_char n = b64_alphabet ! n"

definition b64_val :: "char \<Rightarrow> nat option" where
  "b64_val c = index_of c b64_alphabet"

definition b64_group :: "nat \<Rightarrow> string" where
  "b64_group n = map b64_char [n div 262144, n div 4096 mod 64, n div 64 mod 64, n mod 64]"

definition byte :: "char \<Rightarrow> nat" where
  "byte c = of_char c"

text \<open>\<open>base64.b64encode\<close>, and \<open>base64.b64decode(..., validate=True)\<close>, which is \<open>None\<close> on an error.\<close>

fun b64encode :: "string \<Rightarrow> string" where
  "b64encode [] = []"
| "b64encode [a] = take 2 (b64_group (byte a * 65536)) @ ''==''"
| "b64encode [a, b] = take 3 (b64_group (byte a * 65536 + byte b * 256)) @ ''=''"
| "b64encode (a # b # c # s) = b64_group (byte a * 65536 + byte b * 256 + byte c) @ b64encode s"

definition bytes3 :: "nat \<Rightarrow> string" where
  "bytes3 n = map char_of [n div 65536, n div 256 mod 256, n mod 256]"

fun b64decode :: "string \<Rightarrow> string option" where
  "b64decode [] = Some []"
| "b64decode [w, x, y, z] =
     (case (b64_val w, b64_val x, b64_val y, b64_val z) of
        (Some p, Some q, Some r, Some t) \<Rightarrow> Some (bytes3 (p * 262144 + q * 4096 + r * 64 + t))
      | (Some p, Some q, Some r, None) \<Rightarrow>
          if z = CHR ''='' then Some (take 2 (bytes3 (p * 262144 + q * 4096 + r * 64))) else None
      | (Some p, Some q, None, None) \<Rightarrow>
          if y = CHR ''='' \<and> z = CHR ''='' then Some (take 1 (bytes3 (p * 262144 + q * 4096))) else None
      | _ \<Rightarrow> None)"
| "b64decode (w # x # y # z # s) =
     (case (b64_val w, b64_val x, b64_val y, b64_val z, b64decode s) of
        (Some p, Some q, Some r, Some t, Some bs) \<Rightarrow> Some (bytes3 (p * 262144 + q * 4096 + r * 64 + t) @ bs)
      | _ \<Rightarrow> None)"
| "b64decode s = None"

lemma b64_val_char: "n < 64 \<Longrightarrow> b64_val (b64_char n) = Some n"
proof -
  have "list_all (\<lambda>n. b64_val (b64_char n) = Some n) [0..<64]" by code_simp
  then show "n < 64 \<Longrightarrow> ?thesis" by (simp add: list_all_iff)
qed

lemma b64_val_pad: "b64_val (CHR ''='') = None"
  by code_simp

lemma byte_less: "byte c < 256"
  by (cases c) (simp add: byte_def of_char_def split: if_split)

lemma char_of_byte [simp]: "char_of (byte c) = c"
  by (simp add: byte_def)

lemma sextets: "n div 262144 * 262144 + n div 4096 mod 64 * 4096 + n div 64 mod 64 * 64 + n mod 64 = (n :: nat)"
proof -
  have "n div 64 = n div 64 div 64 * 64 + n div 64 mod 64" "n div 4096 = n div 4096 div 64 * 64 + n div 4096 mod 64"
    "n = n div 64 * 64 + n mod 64" by simp_all
  moreover have "n div 64 div 64 = n div 4096" "n div 4096 div 64 = n div 262144"
    by (simp_all flip: div_mult2_eq)
  ultimately show ?thesis by linarith
qed

lemma bytes3_of: "a < 256 \<Longrightarrow> b < 256 \<Longrightarrow> c < 256 \<Longrightarrow>
  bytes3 (a * 65536 + b * 256 + c) = [char_of a, char_of b, char_of (c :: nat)]"
proof -
  assume lt: "a < 256" "b < 256" "c < 256"
  have 1: "(a * 65536 + b * 256 + c) div 256 = a * 256 + b"
    using lt(3) div_mult_self3 [of 256 c "a * 256 + b"] by (simp add: algebra_simps)
  then have "(a * 65536 + b * 256 + c) div 65536 = a"
    using lt(2) div_mult2_eq [of "a * 65536 + b * 256 + c" 256 256] by simp
  moreover have "(a * 256 + b) mod 256 = b" using lt(2) by simp
  moreover have "(a * 65536 + b * 256 + c) mod 256 = c"
    using lt(3) mod_mult_self3 [of "a * 256 + b" 256 c] by (simp add: algebra_simps)
  ultimately show ?thesis using 1 by (simp add: bytes3_def)
qed

lemma b64_group_vals:
  "n < 16777216 \<Longrightarrow> b64_group n = [w, x, y, z] \<Longrightarrow>
     b64_val w = Some (n div 262144) \<and> b64_val x = Some (n div 4096 mod 64)
     \<and> b64_val y = Some (n div 64 mod 64) \<and> b64_val z = Some (n mod 64)"
  by (auto simp: b64_group_def less_mult_imp_div_less intro!: b64_val_char)

lemma b64_group_ex: obtains w x y z where "b64_group n = [w, x, y, z]"
  by (simp add: b64_group_def)

lemma b64decode_encode: "b64decode (b64encode s) = Some s"
proof (induction s rule: b64encode.induct)
  case 1
  then show ?case by simp
next
  case (2 a)
  let ?n = "byte a * 65536"
  obtain w x y z where g: "b64_group ?n = [w, x, y, z]" by (rule b64_group_ex)
  have lt: "?n < 16777216" using byte_less [of a] by simp
  have "?n mod 64 = 0" "?n div 64 mod 64 = 0" by (simp_all add: mod_mult_eq [symmetric])
  with sextets [of ?n] have "?n div 262144 * 262144 + ?n div 4096 mod 64 * 4096 = ?n" by simp
  with b64_group_vals [OF lt g] bytes3_of [of "byte a" 0 0] byte_less [of a] g show ?case
    by (simp add: b64_val_pad)
next
  case (3 a b)
  let ?n = "byte a * 65536 + byte b * 256"
  obtain w x y z where g: "b64_group ?n = [w, x, y, z]" by (rule b64_group_ex)
  have lt: "?n < 16777216" using byte_less [of a] byte_less [of b] by simp
  have "?n mod 64 = 0" by presburger
  with sextets [of ?n] have "?n div 262144 * 262144 + ?n div 4096 mod 64 * 4096 + ?n div 64 mod 64 * 64 = ?n" by simp
  with b64_group_vals [OF lt g] bytes3_of [of "byte a" "byte b" 0] byte_less [of a] byte_less [of b] g show ?case
    by (simp add: b64_val_pad)
next
  case (4 a b c s)
  let ?n = "byte a * 65536 + byte b * 256 + byte c"
  obtain w x y z where g: "b64_group ?n = [w, x, y, z]" by (rule b64_group_ex)
  have lt: "?n < 16777216" using byte_less [of a] byte_less [of b] byte_less [of c] by simp
  note vals = b64_group_vals [OF lt g]
  have bytes: "bytes3 ?n = [a, b, c]"
    using bytes3_of [of "byte a" "byte b" "byte c"] byte_less by simp
  show ?case
  proof (cases "b64encode s")
    case Nil
    with "4.IH" have "s = []" by simp
    with vals g bytes sextets [of ?n] show ?thesis by simp
  next
    case (Cons d ds)
    with vals g bytes sextets [of ?n] "4.IH" show ?thesis by simp
  qed
qed

section \<open>Keyrings\<close>

text \<open>
  The Ed25519 operations: the public key of a private key, the signature of a message, and the test of a
  signature. Keys and signatures are byte strings.
\<close>

record ed25519 =
  ed_public :: "string \<Rightarrow> string"
  ed_sign :: "string \<Rightarrow> string \<Rightarrow> string"
  ed_verify :: "string \<Rightarrow> string \<Rightarrow> string \<Rightarrow> bool"

text \<open>The documented behaviour the code relies on: a genuine signature verifies.\<close>

definition ed25519_correct :: "ed25519 \<Rightarrow> bool" where
  "ed25519_correct E = (\<forall>k m. ed_verify E (ed_public E k) (ed_sign E k m) m)"

definition ROLE_ORDER :: "string list" where
  "ROLE_ORDER = [''primary'', ''secondary'', ''tertiary'']"

record keyring =
  kr_role :: string
  kr_private :: string
  kr_public :: "(string, string) dict"

definition keyring_make :: "ed25519 \<Rightarrow> string \<Rightarrow> string \<Rightarrow> (string, string) dict \<Rightarrow> keyring result" where
  "keyring_make E role private publics =
     (if role \<notin> set ROLE_ORDER \<or> set (keys publics) \<noteq> set ROLE_ORDER
      then Inl (ProtocolError ''node identity requires all three ordered roles'')
      else if map_of publics role \<noteq> Some (ed_public E private)
      then Inl (ProtocolError ''node private key does not match its registered public key'')
      else Inr \<lparr>kr_role = role, kr_private = private, kr_public = publics\<rparr>)"

definition keyring_sign :: "ed25519 \<Rightarrow> keyring \<Rightarrow> string \<Rightarrow> string \<Rightarrow> string result" where
  "keyring_sign E K role payload =
     (if role \<noteq> kr_role K then Inl (ProtocolError ''node cannot sign for another role'')
      else Inr (b64encode (ed_sign E (kr_private K) payload)))"

definition keyring_verify :: "ed25519 \<Rightarrow> keyring \<Rightarrow> string \<Rightarrow> string \<Rightarrow> string \<Rightarrow> bool" where
  "keyring_verify E K role payload signature =
     (case map_of (kr_public K) role of
        None \<Rightarrow> False
      | Some public \<Rightarrow>
          (case b64decode signature of None \<Rightarrow> False | Some raw \<Rightarrow> ed_verify E public raw payload))"

lemma keyring_make_Inr:
  "keyring_make E role private publics = Inr K \<Longrightarrow>
     K = \<lparr>kr_role = role, kr_private = private, kr_public = publics\<rparr>
     \<and> map_of publics role = Some (ed_public E private) \<and> role \<in> set ROLE_ORDER"
  by (auto simp: keyring_make_def split: if_splits)

lemma keyring_sign_verifies:
  assumes "keyring_make E role private publics = Inr K" "ed25519_correct E"
    and "keyring_sign E K role payload = Inr s" "map_of (kr_public L) role = map_of publics role"
  shows "keyring_verify E L role payload s"
  using assms keyring_make_Inr [OF assms(1)]
  by (auto simp: keyring_sign_def keyring_verify_def b64decode_encode ed25519_correct_def split: if_splits)

text \<open>Signatures travel: what one node signs in its own role is accepted by every node whose registry
  lists the same public key for that role (base64 text included), and a node cannot sign in the name of
  another role.\<close>

theorem keyring_signature_accepted:
  assumes "keyring_make E role private publics = Inr K" "ed25519_correct E"
    and "map_of (kr_public L) role = map_of publics role"
  shows "(\<exists>s. keyring_sign E K role payload = Inr s \<and> keyring_verify E L role payload s)
    \<and> (\<forall>role'. role' \<noteq> role \<longrightarrow> (\<exists>e. keyring_sign E K role' payload = Inl e))"
proof -
  have K: "kr_role K = role" using keyring_make_Inr [OF assms(1)] by simp
  then obtain s where s: "keyring_sign E K role payload = Inr s" by (simp add: keyring_sign_def)
  with keyring_sign_verifies [OF assms(1,2) s assms(3)] K show ?thesis by (auto simp: keyring_sign_def)
qed

text \<open>Stand-ins for the primitives, for the witnesses: the signature is the key and the message.\<close>

definition sample_ed :: ed25519 where
  "sample_ed = \<lparr>ed_public = id, ed_sign = (\<lambda>k m. k @ m), ed_verify = (\<lambda>p s m. s = p @ m)\<rparr>"

lemma sample_ed_correct: "ed25519_correct sample_ed"
  by (simp add: ed25519_correct_def sample_ed_def)

definition sample_publics :: "(string, string) dict" where
  "sample_publics = [(''primary'', ''p''), (''secondary'', ''s''), (''tertiary'', ''t'')]"

definition sample_keyring :: "string \<Rightarrow> string \<Rightarrow> keyring" where
  "sample_keyring role private = \<lparr>kr_role = role, kr_private = private, kr_public = sample_publics\<rparr>"

lemma sample_keyring_made:
  "keyring_make sample_ed ''primary'' ''p'' sample_publics = Inr (sample_keyring ''primary'' ''p'')"
  by code_simp

theorem keyring_signature_accepted_witness:
  "\<exists>s. keyring_sign sample_ed (sample_keyring ''primary'' ''p'') ''primary'' ''hello'' = Inr s
      \<and> keyring_verify sample_ed (sample_keyring ''secondary'' ''s'') ''primary'' ''hello'' s"
  using keyring_signature_accepted [OF sample_keyring_made sample_ed_correct, of "sample_keyring ''secondary'' ''s''"]
  by (simp add: sample_keyring_def)

end
