(* ===== verification/Replication.thy ===== *)
theory Replication
  imports Request_Auth Node_Keys
begin

text \<open>
  Authenticated mutation envelopes (\<open>ReplicationAuthenticator\<close> of \<open>splitchain/replication.py\<close>): the
  leader signs each mutation with the next nonce, a replica accepts only the expected leader and a
  nonce above the last one.
\<close>

section \<open>Signing schemes\<close>

datatype replication_auth = SharedSecret string | NodeKeys keyring

definition replication_init :: "string option \<Rightarrow> keyring option \<Rightarrow> replication_auth result" where
  "replication_init secret keyring =
     (case (secret, keyring) of
        (Some s, None) \<Rightarrow>
          if py_len s < 32
          then Inl (ProtocolError ''cluster replication secret must contain at least 32 characters'')
          else Inr (SharedSecret s)
      | (None, Some k) \<Rightarrow> Inr (NodeKeys k)
      | _ \<Rightarrow> Inl (ProtocolError ''choose one replication identity scheme''))"

definition replication_payload :: "string \<Rightarrow> int \<Rightarrow> json \<Rightarrow> json" where
  "replication_payload leader nonce mutation = JObj
     [(''leader'', JStr leader), (''mutation'', mutation), (''nonce'', JInt nonce)]"

definition replication_sign ::
    "crypto \<Rightarrow> ed25519 \<Rightarrow> replication_auth \<Rightarrow> string \<Rightarrow> int \<Rightarrow> json \<Rightarrow> json result" where
  "replication_sign C E R leader nonce mutation =
     (if nonce < 1 then Inl (ProtocolError ''replication nonce must be positive'')
      else bindR (canonical_json (replication_payload leader nonce mutation)) (\<lambda>body.
        bindR (case R of SharedSecret s \<Rightarrow> Inr (hmac_sha256 C s body)
               | NodeKeys k \<Rightarrow> keyring_sign E k leader body) (\<lambda>signature.
        Inr (JObj [(''leader'', JStr leader), (''mutation'', mutation), (''nonce'', JInt nonce),
                   (''signature'', JStr signature)]))))"

definition replicated_methods :: "string list" where
  "replicated_methods = [''offer'', ''accept'', ''commit'', ''cancel'', ''advance'', ''account.register'']"

definition bad_envelope :: error where
  "bad_envelope = ProtocolError ''invalid replication envelope''"

text \<open>The conversions of the \<open>try\<close> block; other JSON types go through \<open>str\<close> and \<open>int\<close>, outside the model.\<close>

definition envelope_str :: "json \<Rightarrow> string \<Rightarrow> string result" where
  "envelope_str v k =
     (case obj_get v k of None \<Rightarrow> Inl bad_envelope | Some (JStr s) \<Rightarrow> Inr s | _ \<Rightarrow> Inl Unmodelled)"

definition envelope_int :: "json \<Rightarrow> string \<Rightarrow> int result" where
  "envelope_int v k =
     (case obj_get v k of None \<Rightarrow> Inl bad_envelope | Some (JInt i) \<Rightarrow> Inr i | _ \<Rightarrow> Inl Unmodelled)"

definition envelope_json :: "json \<Rightarrow> string \<Rightarrow> json result" where
  "envelope_json v k = (case obj_get v k of None \<Rightarrow> Inl bad_envelope | Some x \<Rightarrow> Inr x)"

definition envelope_signed ::
    "crypto \<Rightarrow> ed25519 \<Rightarrow> replication_auth \<Rightarrow> string \<Rightarrow> int \<Rightarrow> json \<Rightarrow> string \<Rightarrow> bool result" where
  "envelope_signed C E R leader nonce mutation signature =
     bindR (canonical_json (replication_payload leader nonce mutation)) (\<lambda>body.
       case R of
         SharedSecret s \<Rightarrow> compare_digest (hmac_sha256 C s body) signature
       | NodeKeys k \<Rightarrow> Inr (keyring_verify E k leader body signature))"

definition replication_verify ::
    "crypto \<Rightarrow> ed25519 \<Rightarrow> replication_auth \<Rightarrow> json \<Rightarrow> int \<Rightarrow> string \<Rightarrow> (string \<times> int \<times> json) result" where
  "replication_verify C E R envelope prev expected_leader =
     bindR (envelope_str envelope ''leader'') (\<lambda>leader.
     bindR (envelope_int envelope ''nonce'') (\<lambda>nonce.
     bindR (envelope_json envelope ''mutation'') (\<lambda>mutation.
     bindR (envelope_str envelope ''signature'') (\<lambda>signature.
     bindR (envelope_signed C E R leader nonce mutation signature) (\<lambda>valid.
       if leader \<noteq> expected_leader \<or> nonce \<le> prev \<or> \<not> valid
       then Inl (ProtocolError ''invalid or replayed replication envelope'')
       else if obj_fields mutation = None
            \<or> get_or mutation ''method'' JNull \<notin> set (map JStr replicated_methods)
       then Inl (ProtocolError ''replication envelope contains an invalid mutation'')
       else Inr (leader, nonce, mutation))))))"

lemma replication_verify_Inr:
  assumes "replication_verify C E R env prev expected = Inr (leader, nonce, mutation)"
  obtains signature where "leader = expected" "prev < nonce"
    "envelope_str env ''leader'' = Inr leader" "envelope_int env ''nonce'' = Inr nonce"
    "envelope_json env ''mutation'' = Inr mutation" "envelope_str env ''signature'' = Inr signature"
    "envelope_signed C E R leader nonce mutation signature = Inr True"
    "get_or mutation ''method'' JNull \<in> set (map JStr replicated_methods)"
  using assms by (auto simp: replication_verify_def bindR_Inr_iff split: if_splits)

section \<open>The log of accepted envelopes\<close>

text \<open>
  A replica threads the last nonce through its envelopes, as the loop of \<open>ReferenceNode.__init__\<close> does:
  \<open>_, last_nonce, _ = self.replication.verify(envelope, last_nonce, expected)\<close>.
\<close>

definition replication_step ::
    "crypto \<Rightarrow> ed25519 \<Rightarrow> replication_auth \<Rightarrow> string \<Rightarrow> json \<Rightarrow> (int, json) operation" where
  "replication_step C E R expected env prev =
     (case replication_verify C E R env prev expected of
        Inl e \<Rightarrow> (Inl e, prev)
      | Inr (leader, nonce, mutation) \<Rightarrow> (Inr mutation, nonce))"

definition envelope_nonce :: "json \<Rightarrow> int" where
  "envelope_nonce env = (case envelope_int env ''nonce'' of Inl _ \<Rightarrow> 0 | Inr n \<Rightarrow> n)"

lemma replication_step_Inr:
  assumes "fst (replication_step C E R expected env prev) = Inr mutation"
  shows "replication_verify C E R env prev expected = Inr (expected, envelope_nonce env, mutation)"
    "prev < envelope_nonce env" "snd (replication_step C E R expected env prev) = envelope_nonce env"
proof -
  from assms obtain leader nonce where v: "replication_verify C E R env prev expected = Inr (leader, nonce, mutation)"
    by (auto simp: replication_step_def split: sum.splits)
  then obtain s where "leader = expected" "prev < nonce" "envelope_int env ''nonce'' = Inr nonce"
    by (rule replication_verify_Inr) auto
  with v show "replication_verify C E R env prev expected = Inr (expected, envelope_nonce env, mutation)"
    "prev < envelope_nonce env" "snd (replication_step C E R expected env prev) = envelope_nonce env"
    by (simp_all add: envelope_nonce_def replication_step_def)
qed

interpretation replication: replay_guard "replication_step C E R expected" "\<lambda>env. ()" envelope_nonce "\<lambda>prev k. prev"
  for C E R expected
proof
  fix m s x assume "fst (replication_step C E R expected m s) = Inr x"
  then show "s < envelope_nonce m"
    "(\<lambda>k. snd (replication_step C E R expected m s)) = (\<lambda>k. s)(() := envelope_nonce m)"
    by (auto simp: replication_step_Inr fun_eq_iff)
next
  fix m s e assume "fst (replication_step C E R expected m s) = Inl e"
  then show "(\<lambda>k. snd (replication_step C E R expected m s)) = (\<lambda>k. s)"
    by (auto simp: replication_step_def split: sum.splits)
qed

section \<open>Properties\<close>

text \<open>The other end of the connection shares the secret, or registers the signer's public key.\<close>

fun same_scheme :: "ed25519 \<Rightarrow> replication_auth \<Rightarrow> replication_auth \<Rightarrow> string \<Rightarrow> bool" where
  "same_scheme E (SharedSecret s) (SharedSecret s') leader = (s = s')"
| "same_scheme E (NodeKeys k) (NodeKeys k') leader =
     (map_of (kr_public k') leader = Some (ed_public E (kr_private k)))"
| "same_scheme E _ _ leader = False"

lemma signed_envelope_valid:
  assumes "replication_sign C E R leader nonce mutation = Inr env" "hex_digests C" "ed25519_correct E"
    "same_scheme E R R' leader"
  obtains s where "env = JObj [(''leader'', JStr leader), (''mutation'', mutation), (''nonce'', JInt nonce), (''signature'', JStr s)]"
    "envelope_signed C E R' leader nonce mutation s = Inr True"
proof -
  from assms(1) obtain body s where s: "canonical_json (replication_payload leader nonce mutation) = Inr body"
    "(case R of SharedSecret s \<Rightarrow> Inr (hmac_sha256 C s body) | NodeKeys k \<Rightarrow> keyring_sign E k leader body) = Inr s"
    "env = JObj [(''leader'', JStr leader), (''mutation'', mutation), (''nonce'', JInt nonce), (''signature'', JStr s)]"
    by (auto simp: replication_sign_def bindR_Inr_iff split: if_splits)
  have "envelope_signed C E R' leader nonce mutation s = Inr True"
  proof (cases R)
    case (SharedSecret k)
    with s assms(2,4) show ?thesis
      by (cases R') (auto simp: envelope_signed_def compare_digest_def hex_digests_def)
  next
    case (NodeKeys k)
    with s(1,2) assms(3,4) show ?thesis
      by (cases R') (auto simp: envelope_signed_def keyring_sign_def keyring_verify_def b64decode_encode ed25519_correct_def split: if_splits)
  qed
  with s(3) that show thesis by blast
qed

text \<open>The leader's envelopes arrive: what a leader signs with a positive nonce for one of the six
  replicated methods is accepted by a replica that expects this leader and shares its key material,
  exactly when the nonce is above the replica's last one; the mutation comes out unchanged.\<close>

theorem replication_sign_verify:
  assumes "replication_sign C E R leader nonce (JObj kvs) = Inr env" "hex_digests C" "ed25519_correct E"
    and "same_scheme E R R' leader" "get_or (JObj kvs) ''method'' JNull \<in> set (map JStr replicated_methods)"
  shows "replication_verify C E R' env prev leader
    = (if prev < nonce then Inr (leader, nonce, JObj kvs)
       else Inl (ProtocolError ''invalid or replayed replication envelope''))"
proof -
  obtain s where "env = JObj [(''leader'', JStr leader), (''mutation'', JObj kvs), (''nonce'', JInt nonce), (''signature'', JStr s)]"
    "envelope_signed C E R' leader nonce (JObj kvs) s = Inr True"
    by (rule signed_envelope_valid [OF assms(1-4)])
  with assms(5) show ?thesis
    by (simp add: replication_verify_def envelope_str_def envelope_int_def envelope_json_def obj_get_def obj_fields_def)
qed

text \<open>No envelope is applied twice: in any stream of envelopes, valid or not, the accepted ones are
  pairwise different and their nonces strictly increase, so a captured envelope that was accepted once is
  rejected for ever.\<close>

theorem replication_no_replay:
  "sorted_wrt (<) (prev # map envelope_nonce (accepted (replication_step C E R leader) envs prev))
    \<and> distinct (accepted (replication_step C E R leader) envs prev)"
  using replication.run_increasing [of prev "()" C E R leader envs]
    replication.accepted_once [of C E R leader envs prev] by simp

text \<open>Under a shared secret an envelope cannot be altered: two accepted envelopes with the same signature
  carry the same leader, nonce and mutation, up to key order, unless their payloads are an HMAC collision.\<close>

theorem replication_signature_binds:
  assumes "replication_verify C E (SharedSecret k) env n l = Inr (leader, nonce, mutation)"
    and "replication_verify C E (SharedSecret k) env' n' l' = Inr (leader', nonce', mutation')"
    and "envelope_str env ''signature'' = envelope_str env' ''signature''"
    and "wf_floats mutation" "wf_floats mutation'"
    and "\<not> hmac_collision C k (replication_payload leader nonce mutation) (replication_payload leader' nonce' mutation')"
  shows "leader = leader' \<and> nonce = nonce' \<and> same_json mutation mutation'"
proof -
  from assms(1) obtain s where s: "envelope_str env ''signature'' = Inr s"
    "envelope_signed C E (SharedSecret k) leader nonce mutation s = Inr True"
    by (rule replication_verify_Inr)
  from assms(2) obtain s' where s': "envelope_str env' ''signature'' = Inr s'"
    "envelope_signed C E (SharedSecret k) leader' nonce' mutation' s' = Inr True"
    by (rule replication_verify_Inr)
  have mac: "hmac_json C k (replication_payload leader nonce mutation) = Inr s"
    "hmac_json C k (replication_payload leader' nonce' mutation') = Inr s'"
    using s(2) s'(2) by (auto simp: envelope_signed_def bindR_Inr_iff compare_digest_def hmac_json_def split: if_splits)
  have "wf_floats (replication_payload leader nonce mutation)" "wf_floats (replication_payload leader' nonce' mutation')"
    using assms(4,5) by (simp_all add: replication_payload_def)
  moreover have "s' = s" using s(1) s'(1) assms(3) by simp
  ultimately have eq: "sort_keys (replication_payload leader nonce mutation) = sort_keys (replication_payload leader' nonce' mutation')"
    using hmac_json_binds [OF mac(1) _ _ _ assms(6)] mac(2) by simp
  note field = sorted_obj_lookup [OF eq [unfolded replication_payload_def]]
  from field [of "''leader''"] field [of "''nonce''"] field [of "''mutation''"] show ?thesis
    by (auto simp: wf_dict_def intro: sort_keys_same_json)
qed

section \<open>A concrete envelope\<close>

definition sample_mutation :: json where
  "sample_mutation = JObj [(''method'', JStr ''advance'')]"

definition sample_secret :: replication_auth where
  "sample_secret = SharedSecret ''0123456789abcdef0123456789abcdef''"

definition sample_envelope :: "int \<Rightarrow> json" where
  "sample_envelope n = projr (replication_sign ascii_crypto sample_ed sample_secret ''primary'' n sample_mutation)"

lemma sample_envelope_signed:
  "replication_sign ascii_crypto sample_ed sample_secret ''primary'' 1 (JObj [(''method'', JStr ''advance'')]) = Inr (sample_envelope 1)"
  by code_simp

lemma sample_envelope_accepted:
  "replication_verify ascii_crypto sample_ed sample_secret (sample_envelope 1) 0 ''primary'' = Inr (''primary'', 1, sample_mutation)"
  by code_simp

theorem replication_sign_verify_witness:
  "replication_verify ascii_crypto sample_ed sample_secret (sample_envelope 1) 0 ''primary''
     = Inr (''primary'', 1, JObj [(''method'', JStr ''advance'')])"
proof -
  have "same_scheme sample_ed sample_secret sample_secret ''primary''" by (simp add: sample_secret_def)
  moreover have "get_or (JObj [(''method'', JStr ''advance'')]) ''method'' JNull \<in> set (map JStr replicated_methods)"
    by code_simp
  ultimately show ?thesis
    using replication_sign_verify [OF sample_envelope_signed hex_ascii_crypto sample_ed_correct, of sample_secret 0] by simp
qed

theorem replication_signature_binds_witness:
  "''primary'' = ''primary'' \<and> (1::int) = 1 \<and> same_json sample_mutation sample_mutation"
proof (rule replication_signature_binds)
  show "replication_verify ascii_crypto sample_ed (SharedSecret ''0123456789abcdef0123456789abcdef'') (sample_envelope 1) 0 ''primary''
      = Inr (''primary'', 1, sample_mutation)"
    using sample_envelope_accepted by (simp add: sample_secret_def)
  then show "replication_verify ascii_crypto sample_ed (SharedSecret ''0123456789abcdef0123456789abcdef'') (sample_envelope 1) 0 ''primary''
      = Inr (''primary'', 1, sample_mutation)" .
qed (simp_all add: hmac_collision_def sample_mutation_def)

end
