(* ===== verification/Recovery.thy ===== *)
theory Recovery
  imports Finality
begin

text \<open>
  Failure claims and role takeover (\<open>splitchain/recovery.py\<close>): observers sign claims against the
  holder of the active role, a quorum of them opens a challenge, the accused may answer with a
  counterproof while the window is open, and only afterwards the next role takes over.
\<close>

section \<open>Claims and counterproofs\<close>

datatype failure_kind = NO_REVEAL | INVALID_REVEAL | INVALID_BLOCK | EQUIVOCATION | CENSORSHIP | MERGE_FRAUD

fun kind_value :: "failure_kind \<Rightarrow> string" where
  "kind_value NO_REVEAL = ''no_reveal''"
| "kind_value INVALID_REVEAL = ''invalid_reveal''"
| "kind_value INVALID_BLOCK = ''invalid_block''"
| "kind_value EQUIVOCATION = ''equivocation''"
| "kind_value CENSORSHIP = ''censorship''"
| "kind_value MERGE_FRAUD = ''merge_fraud''"

record failure_claim =
  cl_reporter :: string
  cl_role :: finality_role
  cl_branch :: string
  cl_round :: int
  cl_kind :: failure_kind
  cl_evidence :: string
  cl_signature :: string

record counterproof =
  cp_actor :: string
  cp_role :: finality_role
  cp_branch :: string
  cp_round :: int
  cp_evidence :: string
  cp_signature :: string

definition claim_json :: "finality_role \<Rightarrow> string \<Rightarrow> string \<Rightarrow> failure_kind \<Rightarrow> int \<Rightarrow> string \<Rightarrow> json" where
  "claim_json role branch dig fault round reporter = JObj
     [(''accused_role'', JStr (role_value role)), (''branch_id'', JStr branch), (''evidence_digest'', JStr dig),
      (''kind'', JStr (kind_value fault)), (''protocol_round'', JInt round), (''reporter'', JStr reporter)]"

definition claim_unsigned :: "failure_claim \<Rightarrow> json" where
  "claim_unsigned c = claim_json (cl_role c) (cl_branch c) (cl_evidence c) (cl_kind c) (cl_round c) (cl_reporter c)"

definition proof_json :: "finality_role \<Rightarrow> string \<Rightarrow> string \<Rightarrow> string \<Rightarrow> int \<Rightarrow> json" where
  "proof_json role actor branch dig round = JObj
     [(''accused_role'', JStr (role_value role)), (''actor'', JStr actor), (''branch_id'', JStr branch),
      (''evidence_digest'', JStr dig), (''protocol_round'', JInt round)]"

definition proof_unsigned :: "counterproof \<Rightarrow> json" where
  "proof_unsigned p = proof_json (cp_role p) (cp_actor p) (cp_branch p) (cp_evidence p) (cp_round p)"

record recovery_signer =
  rs_certificate :: certificate
  rs_key :: string

definition rs_claim ::
    "crypto \<Rightarrow> recovery_signer \<Rightarrow> finality_role \<Rightarrow> string \<Rightarrow> int \<Rightarrow> failure_kind \<Rightarrow> string \<Rightarrow> failure_claim result" where
  "rs_claim C S role branch round fault dig =
     bindR (hmac_json C (rs_key S) (claim_json role branch dig fault round (ct_node (rs_certificate S)))) (\<lambda>s.
       Inr \<lparr>cl_reporter = ct_node (rs_certificate S), cl_role = role, cl_branch = branch, cl_round = round,
         cl_kind = fault, cl_evidence = dig, cl_signature = s\<rparr>)"

definition rs_counterproof ::
    "crypto \<Rightarrow> recovery_signer \<Rightarrow> finality_role \<Rightarrow> string \<Rightarrow> int \<Rightarrow> string \<Rightarrow> counterproof result" where
  "rs_counterproof C S role branch round dig =
     bindR (hmac_json C (rs_key S) (proof_json role (ct_node (rs_certificate S)) branch dig round)) (\<lambda>s.
       Inr \<lparr>cp_actor = ct_node (rs_certificate S), cp_role = role, cp_branch = branch, cp_round = round,
         cp_evidence = dig, cp_signature = s\<rparr>)"

section \<open>The coordinator\<close>

definition RC_ROLES :: "finality_role list" where
  "RC_ROLES = [PRIMARY, SECONDARY, TERTIARY]"

text \<open>The set \<open>quarantined\<close> is held as a list without repetitions.\<close>

record recovery =
  rc_authority :: authority
  rc_branch :: string
  rc_nodes :: "(finality_role, string) dict"
  rc_observers :: int
  rc_window :: int
  rc_active :: finality_role
  rc_claims :: "(string, failure_claim) dict"
  rc_deadline :: "int option"
  rc_round :: "int option"
  rc_quarantined :: "string list"
  rc_disputed :: "(string \<times> int \<times> string) list"
  rc_aborted :: bool

definition recovery_init ::
    "authority \<Rightarrow> string \<Rightarrow> (finality_role, string) dict \<Rightarrow> int \<Rightarrow> int \<Rightarrow> recovery result" where
  "recovery_init A branch nodes observers window =
     (if observers < 3 \<or> window < 1
      then Inl (ProtocolError ''recovery requires three observers and a positive window'')
      else if set (keys nodes) \<noteq> set RC_ROLES
      then Inl (ProtocolError ''recovery requires all ordered finality roles'')
      else Inr \<lparr>rc_authority = A, rc_branch = branch, rc_nodes = nodes, rc_observers = observers,
        rc_window = window, rc_active = PRIMARY, rc_claims = [], rc_deadline = None, rc_round = None,
        rc_quarantined = [], rc_disputed = [], rc_aborted = False\<rparr>)"

definition rc_quorum :: "recovery \<Rightarrow> int" where
  "rc_quorum R = (2 * rc_observers R + 2) div 3"

text \<open>\<open>_verify\<close>; the message is given by its unsigned payload and its signature.\<close>

definition recovery_verify ::
    "crypto \<Rightarrow> authority \<Rightarrow> certificate \<Rightarrow> string \<Rightarrow> int \<Rightarrow> json \<Rightarrow> string \<Rightarrow> string \<Rightarrow> unit result" where
  "recovery_verify C A certificate actor current_round unsigned signature key =
     (if ct_node certificate \<noteq> actor then Inl (ProtocolError ''proof actor does not match certificate'')
      else bindR (ca_verify C A certificate current_round ''observer'') (\<lambda>valid.
        if \<not> valid then Inl (ProtocolError ''proof certificate is invalid'')
        else bindR (hmac_json C key unsigned) (\<lambda>expected.
          bindR (compare_digest expected signature) (\<lambda>ok.
            if ok then Inr () else Inl (ProtocolError ''invalid failure-proof signature'')))))"

definition submit_claim ::
    "crypto \<Rightarrow> failure_claim \<Rightarrow> certificate \<Rightarrow> string \<Rightarrow> (recovery, bool) operation" where
  "submit_claim C c certificate key R =
     (if rc_aborted R \<or> rc_deadline R \<noteq> None
      then (Inl (ProtocolError ''recovery is not accepting failure claims''), R)
      else if cl_branch c \<noteq> rc_branch R \<or> cl_role c \<noteq> rc_active R
      then (Inl (ProtocolError ''failure claim targets the wrong branch or role''), R)
      else (case recovery_verify C (rc_authority R) certificate (cl_reporter c) (cl_round c)
              (claim_unsigned c) (cl_signature c) key of
          Inl e \<Rightarrow> (Inl e, R)
        | Inr _ \<Rightarrow>
            (case map_of (rc_claims R) (cl_reporter c) of
               Some existing \<Rightarrow>
                 if existing = c then (Inr False, R)
                 else (Inl (ProtocolError ''reporter submitted conflicting failure evidence''),
                       R\<lparr>rc_quarantined := List.insert (cl_reporter c) (rc_quarantined R)\<rparr>)
             | None \<Rightarrow>
                 if rc_claims R \<noteq> [] \<and> cl_round c \<noteq> cl_round (snd (hd (rc_claims R)))
                 then (Inl (ProtocolError ''failure claims are from different protocol rounds''), R)
                 else
                   let R1 = R\<lparr>rc_claims := AList.update (cl_reporter c) c (rc_claims R)\<rparr>
                   in if int (length (rc_claims R1)) \<ge> rc_quorum R1
                      then (Inr True, R1\<lparr>rc_round := Some (cl_round c),
                              rc_deadline := Some (cl_round c + rc_window R1)\<rparr>)
                      else (Inr False, R1))))"

definition submit_counterproof ::
    "crypto \<Rightarrow> counterproof \<Rightarrow> certificate \<Rightarrow> string \<Rightarrow> int \<Rightarrow> (recovery, unit) operation" where
  "submit_counterproof C p certificate key current_round R =
     (case (rc_deadline R, rc_round R) of
        (Some deadline, Some round) \<Rightarrow>
          if current_round > deadline then (Inl (ProtocolError ''counterproof window is closed''), R)
          else (case map_of (rc_nodes R) (rc_active R) of
              None \<Rightarrow> (Inl KeyError, R)
            | Some expected \<Rightarrow>
                if cp_actor p \<noteq> expected \<or> cp_role p \<noteq> rc_active R
                then (Inl (ProtocolError ''counterproof is not from the accused role holder''), R)
                else if cp_branch p \<noteq> rc_branch R \<or> cp_round p \<noteq> round
                then (Inl (ProtocolError ''counterproof targets the wrong branch or round''), R)
                else (case recovery_verify C (rc_authority R) certificate (cp_actor p) current_round
                        (proof_unsigned p) (cp_signature p) key of
                    Inl e \<Rightarrow> (Inl e, R)
                  | Inr _ \<Rightarrow> (Inr (), R\<lparr>
                      rc_disputed := rc_disputed R @ [(role_value (rc_active R), round, cp_evidence p)],
                      rc_claims := [], rc_deadline := None, rc_round := None\<rparr>)))
      | _ \<Rightarrow> (Inl (ProtocolError ''no failure challenge is pending''), R))"

definition recovery_advance :: "int \<Rightarrow> (recovery, finality_role option) operation" where
  "recovery_advance current_round R =
     (case rc_deadline R of
        None \<Rightarrow> (Inl (ProtocolError ''no proof-gated takeover is pending''), R)
      | Some deadline \<Rightarrow>
          if current_round \<le> deadline then (Inl (ProtocolError ''counterproof window remains open''), R)
          else (case index_of (rc_active R) RC_ROLES of
              None \<Rightarrow> (Inl (ValueError ''tuple.index''), R)
            | Some i \<Rightarrow>
                let R1 = R\<lparr>rc_claims := [], rc_deadline := None, rc_round := None\<rparr>
                in if i + 1 = length RC_ROLES then (Inr None, R1\<lparr>rc_aborted := True\<rparr>)
                   else (Inr (Some (RC_ROLES ! (i + 1))), R1\<lparr>rc_active := RC_ROLES ! (i + 1)\<rparr>)))"

section \<open>The coordinator as a machine\<close>

datatype recovery_op =
    ClaimOp failure_claim certificate string
  | ProofOp counterproof certificate string int
  | TakeoverOp int

datatype recovery_answer = Claimed bool | Countered | TakenOver "finality_role option"

fun recovery_step :: "crypto \<Rightarrow> recovery_op \<Rightarrow> (recovery, recovery_answer) operation" where
  "recovery_step C (ClaimOp c certificate key) R = map_op Claimed (submit_claim C c certificate key R)"
| "recovery_step C (ProofOp p certificate key n) R = map_op (\<lambda>_. Countered) (submit_counterproof C p certificate key n R)"
| "recovery_step C (TakeoverOp n) R = map_op TakenOver (recovery_advance n R)"

text \<open>A claim that counts: from a certified observer, against the active role of the branch, signed.\<close>

definition claim_certified :: "crypto \<Rightarrow> recovery \<Rightarrow> string \<Rightarrow> failure_claim \<Rightarrow> bool" where
  "claim_certified C R k c =
     (cl_reporter c = k \<and> cl_branch c = rc_branch R \<and> cl_role c = rc_active R
      \<and> (\<exists>certificate key. ct_node certificate = k
           \<and> ca_verify C (rc_authority R) certificate (cl_round c) ''observer'' = Inr True
           \<and> hmac_json C key (claim_unsigned c) = Inr (cl_signature c)))"

definition recovery_inv :: "crypto \<Rightarrow> recovery \<Rightarrow> bool" where
  "recovery_inv C R =
     (wf_dict (rc_claims R) \<and> (\<forall>(k, c) \<in> set (rc_claims R). claim_certified C R k c)
      \<and> (\<forall>(k, c) \<in> set (rc_claims R). cl_round c = cl_round (snd (hd (rc_claims R))))
      \<and> (case rc_deadline R of
           None \<Rightarrow> rc_round R = None
         | Some d \<Rightarrow> rc_claims R \<noteq> [] \<and> rc_quorum R \<le> int (length (rc_claims R)) \<and> \<not> rc_aborted R
             \<and> (\<exists>r. rc_round R = Some r \<and> d = r + rc_window R \<and> r = cl_round (snd (hd (rc_claims R))))))"

lemma recovery_verify_Inr:
  "recovery_verify C A certificate actor n u s key = Inr x \<Longrightarrow>
     ct_node certificate = actor \<and> ca_verify C A certificate n ''observer'' = Inr True \<and> hmac_json C key u = Inr s"
  by (auto simp: recovery_verify_def bindR_Inr_iff compare_digest_def split: if_splits)

lemma recovery_init_inv: "recovery_init A branch nodes obs w = Inr R \<Longrightarrow> recovery_inv C R"
  by (auto simp: recovery_init_def recovery_inv_def split: if_splits)

lemma submit_claim_Inr:
  assumes "fst (submit_claim C c certificate key R) = Inr b"
  obtains "\<not> rc_aborted R" "rc_deadline R = None" "cl_branch c = rc_branch R" "cl_role c = rc_active R"
    "recovery_verify C (rc_authority R) certificate (cl_reporter c) (cl_round c) (claim_unsigned c) (cl_signature c) key = Inr ()"
    "(\<not> b \<and> map_of (rc_claims R) (cl_reporter c) = Some c \<and> snd (submit_claim C c certificate key R) = R)
     \<or> (map_of (rc_claims R) (cl_reporter c) = None \<and> (rc_claims R \<noteq> [] \<longrightarrow> cl_round c = cl_round (snd (hd (rc_claims R))))
        \<and> (b \<longleftrightarrow> rc_quorum R \<le> int (length (rc_claims R)) + 1)
        \<and> snd (submit_claim C c certificate key R) =
            (if b then R\<lparr>rc_claims := rc_claims R @ [(cl_reporter c, c)], rc_round := Some (cl_round c),
                         rc_deadline := Some (cl_round c + rc_window R)\<rparr>
             else R\<lparr>rc_claims := rc_claims R @ [(cl_reporter c, c)]\<rparr>))"
proof -
  from assms have c: "\<not> rc_aborted R" "rc_deadline R = None" "cl_branch c = rc_branch R" "cl_role c = rc_active R"
    by (auto simp: submit_claim_def split: if_split_asm)
  from assms c have v: "recovery_verify C (rc_authority R) certificate (cl_reporter c) (cl_round c) (claim_unsigned c) (cl_signature c) key = Inr ()"
    by (simp add: submit_claim_def split: sum.split_asm)
  show thesis
  proof (cases "map_of (rc_claims R) (cl_reporter c)")
    case (Some x)
    with assms c v show ?thesis by (intro that [OF c v]) (simp add: submit_claim_def split: if_split_asm)
  next
    case None
    then have upd: "AList.update (cl_reporter c) c (rc_claims R) = rc_claims R @ [(cl_reporter c, c)]"
      by (simp add: update_new map_of_eq_None_iff)
    have same: "rc_claims R \<noteq> [] \<longrightarrow> cl_round c = cl_round (snd (hd (rc_claims R)))"
      using assms c v None by (auto simp: submit_claim_def split: if_split_asm)
    with c v None have eq: "submit_claim C c certificate key R =
       (let R1 = R\<lparr>rc_claims := rc_claims R @ [(cl_reporter c, c)]\<rparr> in
        if int (length (rc_claims R1)) \<ge> rc_quorum R1
        then (Inr True, R1\<lparr>rc_round := Some (cl_round c), rc_deadline := Some (cl_round c + rc_window R1)\<rparr>)
        else (Inr False, R1))"
      by (auto simp: submit_claim_def upd)
    have "b = (rc_quorum R \<le> int (length (rc_claims R)) + 1)"
      using assms by (auto simp: eq Let_def rc_quorum_def split: if_split_asm)
    with None same show ?thesis
      by (intro that [OF c v] disjI2) (simp add: eq Let_def rc_quorum_def)
  qed
qed

lemma submit_claim_Inl:
  "fst (submit_claim C c certificate key R) = Inl e \<Longrightarrow>
     snd (submit_claim C c certificate key R) = R
     \<or> snd (submit_claim C c certificate key R) = R\<lparr>rc_quarantined := List.insert (cl_reporter c) (rc_quarantined R)\<rparr>"
proof (cases "rc_aborted R \<or> rc_deadline R \<noteq> None \<or> cl_branch c \<noteq> rc_branch R \<or> cl_role c \<noteq> rc_active R")
  case True
  then have "snd (submit_claim C c certificate key R) = R" by (auto simp: submit_claim_def)
  then show ?thesis ..
next
  case False
  assume err: "fst (submit_claim C c certificate key R) = Inl e"
  show ?thesis
  proof (cases "recovery_verify C (rc_authority R) certificate (cl_reporter c) (cl_round c) (claim_unsigned c) (cl_signature c) key")
    case (Inl x)
    with False show ?thesis by (simp add: submit_claim_def)
  next
    case (Inr u)
    show ?thesis
    proof (cases "map_of (rc_claims R) (cl_reporter c)")
      case None
      with False Inr err show ?thesis by (simp add: submit_claim_def Let_def split: if_split_asm)
    next
      case (Some x)
      with False Inr err show ?thesis by (simp add: submit_claim_def)
    qed
  qed
qed

lemma submit_counterproof_Inr:
  assumes "fst (submit_counterproof C p certificate key n R) = Inr x"
  obtains d r where "rc_deadline R = Some d" "rc_round R = Some r" "n \<le> d"
    "map_of (rc_nodes R) (rc_active R) = Some (cp_actor p)" "cp_role p = rc_active R" "cp_branch p = rc_branch R" "cp_round p = r"
    "recovery_verify C (rc_authority R) certificate (cp_actor p) n (proof_unsigned p) (cp_signature p) key = Inr ()"
    "snd (submit_counterproof C p certificate key n R) = R\<lparr>
       rc_disputed := rc_disputed R @ [(role_value (rc_active R), r, cp_evidence p)],
       rc_claims := [], rc_deadline := None, rc_round := None\<rparr>"
  using assms
  by (auto simp: submit_counterproof_def split: if_split_asm sum.split_asm option.split_asm)

lemma submit_counterproof_Inl:
  "fst (submit_counterproof C p certificate key n R) = Inl e \<Longrightarrow> snd (submit_counterproof C p certificate key n R) = R"
  by (auto simp: submit_counterproof_def split: if_splits sum.splits option.splits)

lemma role_index: "index_of r RC_ROLES = Some (case r of PRIMARY \<Rightarrow> 0 | SECONDARY \<Rightarrow> 1 | TERTIARY \<Rightarrow> 2)"
  by (cases r) (simp_all add: RC_ROLES_def)

lemma recovery_advance_Inr:
  assumes "fst (recovery_advance n R) = Inr x"
  obtains d where "rc_deadline R = Some d" "d < n"
    "(rc_active R = TERTIARY \<and> x = None
       \<and> snd (recovery_advance n R) = R\<lparr>rc_claims := [], rc_deadline := None, rc_round := None, rc_aborted := True\<rparr>)
     \<or> (\<exists>r. x = Some r \<and> (rc_active R = PRIMARY \<and> r = SECONDARY \<or> rc_active R = SECONDARY \<and> r = TERTIARY)
       \<and> snd (recovery_advance n R) = R\<lparr>rc_claims := [], rc_deadline := None, rc_round := None, rc_active := r\<rparr>)"
proof -
  from assms obtain d where d: "rc_deadline R = Some d" "d < n"
    by (auto simp: recovery_advance_def split: option.splits if_splits)
  show thesis
    by (rule that [OF d], cases "rc_active R")
      (use assms d in \<open>simp_all add: recovery_advance_def role_index Let_def RC_ROLES_def\<close>)
qed

lemma recovery_advance_Inl: "fst (recovery_advance n R) = Inl e \<Longrightarrow> snd (recovery_advance n R) = R"
  by (auto simp: recovery_advance_def Let_def split: option.splits if_splits)

section \<open>Invariant\<close>

lemma claim_certified_frame:
  "rc_branch S = rc_branch R \<Longrightarrow> rc_active S = rc_active R \<Longrightarrow> rc_authority S = rc_authority R \<Longrightarrow>
     claim_certified C S k c = claim_certified C R k c"
  by (simp add: claim_certified_def)

lemma submit_claim_inv:
  assumes "recovery_inv C R"
  shows "recovery_inv C (snd (submit_claim C c certificate key R))"
proof (cases "fst (submit_claim C c certificate key R)")
  case (Inl e)
  from submit_claim_Inl [OF this] assms show ?thesis
    by (auto simp: recovery_inv_def claim_certified_def rc_quorum_def split: option.splits)
next
  case (Inr b)
  then show ?thesis
  proof (rule submit_claim_Inr)
    let ?S = "snd (submit_claim C c certificate key R)"
    assume c: "\<not> rc_aborted R" "rc_deadline R = None" "cl_branch c = rc_branch R" "cl_role c = rc_active R"
      "recovery_verify C (rc_authority R) certificate (cl_reporter c) (cl_round c) (claim_unsigned c) (cl_signature c) key = Inr ()"
    assume "(\<not> b \<and> map_of (rc_claims R) (cl_reporter c) = Some c \<and> ?S = R)
     \<or> (map_of (rc_claims R) (cl_reporter c) = None \<and> (rc_claims R \<noteq> [] \<longrightarrow> cl_round c = cl_round (snd (hd (rc_claims R))))
        \<and> (b \<longleftrightarrow> rc_quorum R \<le> int (length (rc_claims R)) + 1)
        \<and> ?S = (if b then R\<lparr>rc_claims := rc_claims R @ [(cl_reporter c, c)], rc_round := Some (cl_round c),
                         rc_deadline := Some (cl_round c + rc_window R)\<rparr>
             else R\<lparr>rc_claims := rc_claims R @ [(cl_reporter c, c)]\<rparr>))"
    then show ?thesis
    proof
      assume "\<not> b \<and> map_of (rc_claims R) (cl_reporter c) = Some c \<and> ?S = R"
      with assms show ?thesis by simp
    next
      assume new: "map_of (rc_claims R) (cl_reporter c) = None \<and> (rc_claims R \<noteq> [] \<longrightarrow> cl_round c = cl_round (snd (hd (rc_claims R))))
        \<and> (b \<longleftrightarrow> rc_quorum R \<le> int (length (rc_claims R)) + 1)
        \<and> ?S = (if b then R\<lparr>rc_claims := rc_claims R @ [(cl_reporter c, c)], rc_round := Some (cl_round c),
                         rc_deadline := Some (cl_round c + rc_window R)\<rparr>
             else R\<lparr>rc_claims := rc_claims R @ [(cl_reporter c, c)]\<rparr>)"
      have cert: "claim_certified C R (cl_reporter c) c"
        using c(3,4) recovery_verify_Inr [OF c(5)] by (auto simp: claim_certified_def)
      let ?cs = "rc_claims R @ [(cl_reporter c, c)]"
      have hd: "cl_round (snd (hd ?cs)) = cl_round c"
        using new by (cases "rc_claims R") auto
      have same: "\<forall>(k, x) \<in> set (rc_claims R). cl_round x = cl_round c"
      proof (cases "rc_claims R = []")
        case False
        with new have "cl_round (snd (hd (rc_claims R))) = cl_round c" by simp
        moreover have "\<forall>(k, x) \<in> set (rc_claims R). cl_round x = cl_round (snd (hd (rc_claims R)))"
          using assms unfolding recovery_inv_def by blast
        ultimately show ?thesis by simp
      qed simp
      have wf: "wf_dict ?cs" using assms new by (auto simp: recovery_inv_def wf_dict_def map_of_eq_None_iff)
      have certs: "\<forall>(k, x) \<in> set ?cs. claim_certified C R k x" using assms cert by (auto simp: recovery_inv_def)
      have rr: "rc_round R = None" using assms c(2) by (simp add: recovery_inv_def)
      have S: "rc_claims ?S = ?cs" "rc_deadline ?S = (if b then Some (cl_round c + rc_window R) else None)"
        "rc_round ?S = (if b then Some (cl_round c) else None)" "rc_aborted ?S = rc_aborted R" "rc_window ?S = rc_window R"
        "rc_quorum ?S = rc_quorum R"
        using new rr c(2) by (simp_all add: rc_quorum_def)
      have frame: "claim_certified C ?S k x = claim_certified C R k x" for k x
        by (rule claim_certified_frame) (use new in simp_all)
      have rounds: "\<forall>(k, x) \<in> set ?cs. cl_round x = cl_round c" using same by auto
      have gate: "case (if b then Some (cl_round c + rc_window R) else None) of
          None \<Rightarrow> (if b then Some (cl_round c) else None) = None
        | Some d \<Rightarrow> ?cs \<noteq> [] \<and> rc_quorum R \<le> int (length ?cs) \<and> \<not> rc_aborted R
            \<and> (\<exists>r. (if b then Some (cl_round c) else None) = Some r \<and> d = r + rc_window R \<and> r = cl_round c)"
        using new c(1) by (cases b) simp_all
      from wf certs rounds gate show ?thesis
        unfolding recovery_inv_def S hd frame by (intro conjI)
    qed
  qed
qed

lemma recovery_inv_cleared: "rc_claims R = [] \<Longrightarrow> rc_deadline R = None \<Longrightarrow> rc_round R = None \<Longrightarrow> recovery_inv C R"
  by (simp add: recovery_inv_def)

lemma submit_counterproof_inv:
  assumes "recovery_inv C R"
  shows "recovery_inv C (snd (submit_counterproof C p certificate key n R))"
proof (cases "fst (submit_counterproof C p certificate key n R)")
  case (Inl e)
  from submit_counterproof_Inl [OF this] assms show ?thesis by simp
next
  case (Inr x)
  then show ?thesis by (rule submit_counterproof_Inr) (simp add: recovery_inv_cleared)
qed

lemma recovery_advance_inv:
  assumes "recovery_inv C R"
  shows "recovery_inv C (snd (recovery_advance n R))"
proof (cases "fst (recovery_advance n R)")
  case (Inl e)
  from recovery_advance_Inl [OF this] assms show ?thesis by simp
next
  case (Inr x)
  then show ?thesis by (rule recovery_advance_Inr) (auto intro!: recovery_inv_cleared)
qed

interpretation recovery: invariant_machine "recovery_step C" "recovery_inv C" for C
proof
  show "recovery_inv C R \<Longrightarrow> recovery_inv C (snd (recovery_step C x R))" for x R
    by (cases x) (simp_all add: submit_claim_inv submit_counterproof_inv recovery_advance_inv)
qed

section \<open>Properties\<close>

definition recovery_config :: "recovery \<Rightarrow> authority \<times> string \<times> (finality_role, string) dict \<times> int \<times> int" where
  "recovery_config R = (rc_authority R, rc_branch R, rc_nodes R, rc_observers R, rc_window R)"

lemma submit_claim_frame:
  "recovery_config (snd (submit_claim C c certificate key R)) = recovery_config R"
  "rc_active (snd (submit_claim C c certificate key R)) = rc_active R"
  "rc_aborted (snd (submit_claim C c certificate key R)) = rc_aborted R"
  by (cases "fst (submit_claim C c certificate key R)";
      auto simp: recovery_config_def dest!: submit_claim_Inl elim!: submit_claim_Inr split: if_split_asm)+

lemma submit_counterproof_frame:
  "recovery_config (snd (submit_counterproof C p certificate key n R)) = recovery_config R"
  "rc_active (snd (submit_counterproof C p certificate key n R)) = rc_active R"
  "rc_aborted (snd (submit_counterproof C p certificate key n R)) = rc_aborted R"
  by (cases "fst (submit_counterproof C p certificate key n R)";
      auto simp: recovery_config_def dest!: submit_counterproof_Inl elim!: submit_counterproof_Inr)+

lemma recovery_advance_frame: "recovery_config (snd (recovery_advance n R)) = recovery_config R"
  by (cases "fst (recovery_advance n R)")
    (auto simp: recovery_config_def dest!: recovery_advance_Inl elim!: recovery_advance_Inr)

lemma recovery_step_config: "recovery_config (snd (recovery_step C x R)) = recovery_config R"
  by (cases x) (simp_all add: submit_claim_frame submit_counterproof_frame recovery_advance_frame)

lemma recovery_run_config: "recovery_config (run_ops (recovery_step C) ops R) = recovery_config R"
  by (induction ops arbitrary: R) (simp_all add: recovery_step_config)

lemma recovery_quorum_config: "recovery_config R = recovery_config S \<Longrightarrow> rc_quorum R = rc_quorum S"
  by (simp add: recovery_config_def rc_quorum_def)


lemma few_ops_no_deadline:
  "rc_deadline R = None \<Longrightarrow> int (length (rc_claims R)) + int (length ops) < rc_quorum R \<Longrightarrow>
     rc_deadline (run_ops (recovery_step C) ops R) = None"
proof (induction ops arbitrary: R)
  case (Cons x ops)
  let ?S = "snd (recovery_step C x R)"
  have "rc_deadline ?S = None \<and> length (rc_claims ?S) \<le> length (rc_claims R) + 1"
  proof (cases x)
    case (ClaimOp c certificate key)
    show ?thesis
    proof (cases "fst (submit_claim C c certificate key R)")
      case (Inl e)
      from submit_claim_Inl [OF this] ClaimOp Cons.prems show ?thesis by auto
    next
      case (Inr b)
      then show ?thesis
        by (rule submit_claim_Inr) (use ClaimOp Cons.prems in \<open>auto split: if_split_asm\<close>)
    qed
  next
    case (ProofOp p certificate key n)
    with Cons.prems(1) show ?thesis by (simp add: submit_counterproof_def)
  next
    case (TakeoverOp n)
    with Cons.prems(1) show ?thesis by (simp add: recovery_advance_def)
  qed
  moreover have "rc_quorum ?S = rc_quorum R" by (rule recovery_quorum_config) (rule recovery_step_config)
  ultimately show ?case using Cons.prems(2) by (simp add: Cons.IH)
qed simp

text \<open>A counterproof stops the takeover: only the holder of the accused role can give it, in the window and
  with an observer certificate that is valid now; it is recorded, the active role stays, and no takeover
  succeeds before at least a whole new quorum of further messages.\<close>

theorem recovery_counterproof_resets:
  assumes "fst (submit_counterproof C p certificate key current R) = Inr ()"
    and "R' = snd (submit_counterproof C p certificate key current R)"
    and "int (length ops) < rc_quorum R"
  shows "map_of (rc_nodes R) (rc_active R) = Some (cp_actor p) \<and> rc_active R' = rc_active R
    \<and> ca_verify C (rc_authority R) certificate current ''observer'' = Inr True
    \<and> (\<exists>d r. rc_deadline R = Some d \<and> current \<le> d \<and> rc_round R = Some r
         \<and> rc_disputed R' = rc_disputed R @ [(role_value (rc_active R), r, cp_evidence p)])
    \<and> fst (recovery_advance n (run_ops (recovery_step C) ops R')) = Inl (ProtocolError ''no proof-gated takeover is pending'')"
  using assms(1)
proof (rule submit_counterproof_Inr)
  fix d r
  assume p: "rc_deadline R = Some d" "rc_round R = Some r" "current \<le> d" "map_of (rc_nodes R) (rc_active R) = Some (cp_actor p)"
    and v: "recovery_verify C (rc_authority R) certificate (cp_actor p) current (proof_unsigned p) (cp_signature p) key = Inr ()"
    and eq: "snd (submit_counterproof C p certificate key current R) = R\<lparr>
       rc_disputed := rc_disputed R @ [(role_value (rc_active R), r, cp_evidence p)],
       rc_claims := [], rc_deadline := None, rc_round := None\<rparr>"
  have R': "rc_deadline R' = None" "rc_claims R' = []" "rc_quorum R' = rc_quorum R"
    by (simp_all add: assms(2) eq rc_quorum_def)
  then have "rc_deadline (run_ops (recovery_step C) ops R') = None"
    using assms(3) by (intro few_ops_no_deadline) simp_all
  with p recovery_verify_Inr [OF v] show ?thesis by (simp add: assms(2) eq recovery_advance_def)
qed

text \<open>What is left of the chain of roles: the takeovers that can still happen.\<close>

definition takeovers_left :: "recovery \<Rightarrow> nat" where
  "takeovers_left R = (if rc_aborted R then 0 else case rc_active R of PRIMARY \<Rightarrow> 3 | SECONDARY \<Rightarrow> 2 | TERTIARY \<Rightarrow> 1)"

fun is_takeover :: "recovery_op \<Rightarrow> bool" where
  "is_takeover (TakeoverOp n) = True"
| "is_takeover x = False"

lemma recovery_run_takeovers:
  "recovery_inv C R \<Longrightarrow>
     length (filter is_takeover (accepted (recovery_step C) ops R)) + takeovers_left (run_ops (recovery_step C) ops R)
       = takeovers_left R"
proof (induction ops arbitrary: R)
  case (Cons x ops)
  let ?S = "snd (recovery_step C x R)"
  have "takeovers_left R = takeovers_left ?S + (if is_takeover x \<and> is_ok (fst (recovery_step C x R)) then 1 else 0)"
  proof (cases x)
    case (TakeoverOp n)
    show ?thesis
    proof (cases "fst (recovery_advance n R)")
      case (Inl e)
      with recovery_advance_Inl [OF Inl] TakeoverOp show ?thesis by (simp add: is_ok_def map_op_def)
    next
      case (Inr r)
      then show ?thesis
      proof (rule recovery_advance_Inr)
        fix d assume "rc_deadline R = Some d"
        with Cons.prems have "\<not> rc_aborted R" by (simp add: recovery_inv_def)
        moreover assume "(rc_active R = TERTIARY \<and> r = None
           \<and> snd (recovery_advance n R) = R\<lparr>rc_claims := [], rc_deadline := None, rc_round := None, rc_aborted := True\<rparr>)
         \<or> (\<exists>q. r = Some q \<and> (rc_active R = PRIMARY \<and> q = SECONDARY \<or> rc_active R = SECONDARY \<and> q = TERTIARY)
           \<and> snd (recovery_advance n R) = R\<lparr>rc_claims := [], rc_deadline := None, rc_round := None, rc_active := q\<rparr>)"
        ultimately show ?thesis using TakeoverOp Inr by (auto simp: takeovers_left_def is_ok_def map_op_def)
      qed
    qed
  qed (simp_all add: takeovers_left_def submit_claim_frame submit_counterproof_frame)
  moreover have "recovery_inv C ?S" by (rule recovery.step_inv [OF Cons.prems])
  ultimately show ?case using Cons.IH [of ?S] by (auto split: if_splits)
qed simp

text \<open>Recovery ends: in any run at most three takeovers succeed, the third aborts recovery, and an aborted
  coordinator takes no claim any more.\<close>

theorem recovery_takeovers_bounded:
  assumes "recovery_init A branch nodes observers window = Inr R0" "R = run_ops (recovery_step C) ops R0"
  shows "length (filter is_takeover (accepted (recovery_step C) ops R0)) \<le> 3
    \<and> (length (filter is_takeover (accepted (recovery_step C) ops R0)) = 3 \<longleftrightarrow> rc_aborted R)
    \<and> (rc_aborted R \<longrightarrow> \<not> is_ok (fst (submit_claim C c certificate key R)))"
proof -
  have "takeovers_left R0 = 3" using assms(1) by (auto simp: recovery_init_def takeovers_left_def split: if_splits)
  with recovery_run_takeovers [OF recovery_init_inv [OF assms(1)], of C ops] assms(2)
  have "length (filter is_takeover (accepted (recovery_step C) ops R0)) + takeovers_left R = 3" by simp
  moreover have "takeovers_left R = 0 \<longleftrightarrow> rc_aborted R" by (simp add: takeovers_left_def split: finality_role.splits)
  moreover have "rc_aborted R \<Longrightarrow> \<not> is_ok (fst (submit_claim C c certificate key R))" by (simp add: submit_claim_def)
  ultimately show ?thesis by auto
qed

section \<open>A concrete takeover\<close>

lemma recovery_verify_ok:
  assumes "ct_node certificate = actor" "ca_verify C A certificate n ''observer'' = Inr True" "hmac_json C key u = Inr s" "hex_digests C"
  shows "recovery_verify C A certificate actor n u s key = Inr ()"
proof -
  have "is_ascii s" using assms(3,4) by (auto simp: hmac_json_Inr hex_digests_def)
  with assms show ?thesis by (simp add: recovery_verify_def compare_digest_def)
qed

definition sample_claim :: "string \<Rightarrow> failure_claim" where
  "sample_claim node = projr (rs_claim ascii_crypto \<lparr>rs_certificate = sample_cert node, rs_key = node\<rparr> PRIMARY ''b'' 4 NO_REVEAL ''d'')"

definition sample_proof :: counterproof where
  "sample_proof = projr (rs_counterproof ascii_crypto \<lparr>rs_certificate = sample_cert ''n1'', rs_key = ''n1''\<rparr> PRIMARY ''b'' 4 ''d'')"

definition sample_nodes :: "(finality_role, string) dict" where
  "sample_nodes = [(PRIMARY, ''n1''), (SECONDARY, ''n2''), (TERTIARY, ''n3'')]"

definition sample_recovery :: recovery where
  "sample_recovery = projr (recovery_init sample_ca ''b'' sample_nodes 3 3)"

definition sample_claims :: "recovery_op list" where
  "sample_claims = map (\<lambda>n. ClaimOp (sample_claim n) (sample_cert n) n) [''n2'', ''n3'']"

lemma sample_recovery_init: "recovery_init sample_ca ''b'' sample_nodes 3 3 = Inr sample_recovery"
  by code_simp

lemma sample_node: "ct_node (sample_cert n) = n"
  by (rule ca_issue_node [OF sample_cert_issued])

lemma sample_cert_valid: "0 \<le> r \<Longrightarrow> r < 10 \<Longrightarrow> ca_verify ascii_crypto sample_ca (sample_cert n) r ''observer'' = Inr True"
  using ca_issue_verifies [OF sample_cert_issued hex_ascii_crypto, of n r "''observer''"] by simp

lemma sample_claim_fields:
  "cl_reporter (sample_claim n) = n" "cl_role (sample_claim n) = PRIMARY" "cl_branch (sample_claim n) = ''b''"
  "cl_round (sample_claim n) = 4"
  "hmac_json ascii_crypto n (claim_unsigned (sample_claim n)) = Inr (cl_signature (sample_claim n))"
  by (simp_all add: sample_claim_def rs_claim_def hmac_json_def canonical_json_def claim_json_def claim_unsigned_def sample_node)

lemma sample_proof_fields:
  "cp_actor sample_proof = ''n1''" "cp_role sample_proof = PRIMARY" "cp_branch sample_proof = ''b''" "cp_round sample_proof = 4"
  "hmac_json ascii_crypto ''n1'' (proof_unsigned sample_proof) = Inr (cp_signature sample_proof)"
  by (simp_all add: sample_proof_def rs_counterproof_def hmac_json_def canonical_json_def proof_json_def proof_unsigned_def sample_node)

lemma sample_claim_verifies:
  "recovery_verify ascii_crypto sample_ca (sample_cert n) n 4 (claim_unsigned (sample_claim n)) (cl_signature (sample_claim n)) n = Inr ()"
  by (rule recovery_verify_ok) (simp_all add: sample_node sample_cert_valid sample_claim_fields hex_ascii_crypto)

lemma sample_recovery_fields:
  "rc_authority sample_recovery = sample_ca" "rc_branch sample_recovery = ''b''" "rc_active sample_recovery = PRIMARY"
  "rc_claims sample_recovery = []" "rc_deadline sample_recovery = None" "\<not> rc_aborted sample_recovery"
  "rc_window sample_recovery = 3" "rc_observers sample_recovery = 3" "rc_nodes sample_recovery = sample_nodes"
  by code_simp+

lemma sample_challenge:
  "run_ops (recovery_step ascii_crypto) sample_claims sample_recovery = sample_recovery\<lparr>
     rc_claims := [(''n2'', sample_claim ''n2''), (''n3'', sample_claim ''n3'')], rc_round := Some 4, rc_deadline := Some 7\<rparr>"
  by (simp add: sample_claims_def submit_claim_def sample_recovery_fields sample_claim_fields sample_claim_verifies rc_quorum_def Let_def)


theorem recovery_counterproof_resets_witness:
  "fst (recovery_advance 8 (snd (submit_counterproof ascii_crypto sample_proof (sample_cert ''n1'') ''n1'' 6
     (run_ops (recovery_step ascii_crypto) sample_claims sample_recovery)))) = Inl (ProtocolError ''no proof-gated takeover is pending'')"
proof -
  let ?R = "run_ops (recovery_step ascii_crypto) sample_claims sample_recovery"
  have "recovery_verify ascii_crypto sample_ca (sample_cert ''n1'') ''n1'' 6 (proof_unsigned sample_proof) (cp_signature sample_proof) ''n1'' = Inr ()"
    by (rule recovery_verify_ok) (simp_all add: sample_node sample_cert_valid sample_proof_fields hex_ascii_crypto)
  then have "fst (submit_counterproof ascii_crypto sample_proof (sample_cert ''n1'') ''n1'' 6 ?R) = Inr ()" "0 < rc_quorum ?R"
    by (simp_all add: sample_challenge submit_counterproof_def sample_recovery_fields sample_proof_fields sample_nodes_def rc_quorum_def)
  from recovery_counterproof_resets [OF this(1) refl, of "[]" 8] this(2) show ?thesis by simp
qed

theorem recovery_takeovers_bounded_witness:
  "length (filter is_takeover (accepted (recovery_step ascii_crypto) (sample_claims @ [TakeoverOp 8]) sample_recovery)) \<le> 3"
  using recovery_takeovers_bounded [OF sample_recovery_init refl] by blast

end
