(* ===== verification/Gossip.thy ===== *)
theory Gossip
  imports Certificates
begin

text \<open>
  Branch-scoped signed gossip between nodes (\<open>splitchain/network.py\<close>). The nodes refer to each other,
  so the network is a store: a node is an address, \<open>peers\<close> maps node identifiers to addresses, and
  \<open>broadcast\<close> runs \<open>receive\<close> on the peers one after another.
\<close>

record gossip_message =
  gm_sender :: string
  gm_branch :: string
  gm_sequence :: int
  gm_kind :: string
  gm_payload :: json
  gm_signature :: string

definition gm_json :: "string \<Rightarrow> string \<Rightarrow> json \<Rightarrow> string \<Rightarrow> int \<Rightarrow> json" where
  "gm_json branch topic payload sender sequence = JObj
     [(''branch_id'', JStr branch), (''kind'', JStr topic), (''payload'', payload), (''sender'', JStr sender),
      (''sequence'', JInt sequence)]"

definition gm_unsigned :: "gossip_message \<Rightarrow> json" where
  "gm_unsigned m = gm_json (gm_branch m) (gm_kind m) (gm_payload m) (gm_sender m) (gm_sequence m)"

type_synonym scope = "string \<times> string"

record gossip_node =
  gn_certificate :: certificate
  gn_key :: string
  gn_authority :: authority
  gn_peers :: "(string, nat) dict"
  gn_received :: "gossip_message list"
  gn_incoming :: "(scope, int) dict"
  gn_outgoing :: "(string, int) dict"

type_synonym network = "nat \<Rightarrow> gossip_node"

definition gossip_init :: "certificate \<Rightarrow> string \<Rightarrow> authority \<Rightarrow> gossip_node" where
  "gossip_init certificate key A = \<lparr>gn_certificate = certificate, gn_key = key, gn_authority = A,
     gn_peers = [], gn_received = [], gn_incoming = [], gn_outgoing = []\<rparr>"

definition gn_id :: "gossip_node \<Rightarrow> string" where
  "gn_id N = ct_node (gn_certificate N)"

definition gossip_connect :: "nat \<Rightarrow> nat \<Rightarrow> (network, unit) operation" where
  "gossip_connect a peer W =
     (if gn_id (W peer) = gn_id (W a) then (Inl (ProtocolError ''node cannot peer with itself''), W)
      else (Inr (), W(a := (W a)\<lparr>gn_peers := AList.update (gn_id (W peer)) peer (gn_peers (W a))\<rparr>)))"

definition gossip_create :: "crypto \<Rightarrow> string \<Rightarrow> string \<Rightarrow> json \<Rightarrow> (gossip_node, gossip_message) operation" where
  "gossip_create C branch topic payload N =
     (if branch = [] then (Inl (ProtocolError ''branch-scoped message requires branch id''), N)
      else
        let sequence = dict_get (gn_outgoing N) branch 0 + 1
        in (case hmac_json C (gn_key N) (gm_json branch topic payload (gn_id N) sequence) of
              Inl e \<Rightarrow> (Inl e, N)
            | Inr s \<Rightarrow>
                (Inr \<lparr>gm_sender = gn_id N, gm_branch = branch, gm_sequence = sequence, gm_kind = topic,
                    gm_payload = payload, gm_signature = s\<rparr>,
                 N\<lparr>gn_outgoing := AList.update branch sequence (gn_outgoing N)\<rparr>)))"

definition message_scope :: "gossip_message \<Rightarrow> scope" where
  "message_scope m = (gm_sender m, gm_branch m)"

text \<open>The tests of \<open>receive\<close> before the sequence number.\<close>

definition message_authentic ::
    "crypto \<Rightarrow> gossip_message \<Rightarrow> certificate \<Rightarrow> string \<Rightarrow> int \<Rightarrow> gossip_node \<Rightarrow> unit result" where
  "message_authentic C m certificate key current_round N =
     (if gm_sender m \<noteq> ct_node certificate
      then Inl (ProtocolError ''message sender does not match certificate'')
      else bindR (ca_verify C (gn_authority N) certificate current_round ''writer'') (\<lambda>valid.
        if \<not> valid then Inl (ProtocolError ''sender certificate is not valid for writer role'')
        else bindR (hmac_json C key (gm_unsigned m)) (\<lambda>expected.
          bindR (compare_digest expected (gm_signature m)) (\<lambda>ok.
            if ok then Inr () else Inl (ProtocolError ''invalid gossip signature'')))))"

definition gossip_receive ::
    "crypto \<Rightarrow> gossip_message \<Rightarrow> certificate \<Rightarrow> string \<Rightarrow> int \<Rightarrow> (gossip_node, unit) operation" where
  "gossip_receive C m certificate key current_round N =
     (case message_authentic C m certificate key current_round N of
        Inl e \<Rightarrow> (Inl e, N)
      | Inr _ \<Rightarrow>
          if gm_sequence m \<le> dict_get (gn_incoming N) (message_scope m) 0
          then (Inl (ProtocolError ''stale or duplicate gossip sequence''), N)
          else (Inr (), N\<lparr>gn_incoming := AList.update (message_scope m) (gm_sequence m) (gn_incoming N),
                          gn_received := gn_received N @ [m]\<rparr>))"

text \<open>The loop of \<open>broadcast\<close>: an exception of a peer ends it, what was delivered before stays.\<close>

primrec deliver ::
    "crypto \<Rightarrow> gossip_message \<Rightarrow> certificate \<Rightarrow> string \<Rightarrow> int \<Rightarrow> nat list \<Rightarrow> int \<Rightarrow> (network, int) operation" where
  "deliver C m certificate key current_round [] delivered W = (Inr delivered, W)"
| "deliver C m certificate key current_round (p # ps) delivered W =
     (case gossip_receive C m certificate key current_round (W p) of
        (Inl e, N) \<Rightarrow> (Inl e, W(p := N))
      | (Inr _, N) \<Rightarrow> deliver C m certificate key current_round ps (delivered + 1) (W(p := N)))"

definition gossip_broadcast :: "crypto \<Rightarrow> nat \<Rightarrow> gossip_message \<Rightarrow> int \<Rightarrow> (network, int) operation" where
  "gossip_broadcast C a m current_round W =
     deliver C m (gn_certificate (W a)) (gn_key (W a)) current_round (map snd (gn_peers (W a))) 0 W"

section \<open>Reception\<close>

text \<open>A delivery: the message with the certificate, the key and the round it is checked with.\<close>

type_synonym delivery = "gossip_message \<times> certificate \<times> string \<times> int"

definition receive_step :: "crypto \<Rightarrow> delivery \<Rightarrow> (gossip_node, unit) operation" where
  "receive_step C d N = (case d of (m, certificate, key, current_round) \<Rightarrow> gossip_receive C m certificate key current_round N)"

lemma gossip_receive_Inr:
  assumes "fst (gossip_receive C m certificate key n N) = Inr x"
  shows "message_authentic C m certificate key n N = Inr ()" "dict_get (gn_incoming N) (message_scope m) 0 < gm_sequence m"
    "snd (gossip_receive C m certificate key n N) = N\<lparr>gn_incoming := AList.update (message_scope m) (gm_sequence m) (gn_incoming N),
       gn_received := gn_received N @ [m]\<rparr>"
  using assms by (auto simp: gossip_receive_def split: sum.splits if_splits)

lemma gossip_receive_Inl: "fst (gossip_receive C m certificate key n N) = Inl e \<Longrightarrow> snd (gossip_receive C m certificate key n N) = N"
  by (auto simp: gossip_receive_def split: sum.splits if_splits)

lemma message_authentic_Inr:
  "message_authentic C m certificate key n N = Inr x \<Longrightarrow>
     gm_sender m = ct_node certificate \<and> ca_verify C (gn_authority N) certificate n ''writer'' = Inr True
     \<and> hmac_json C key (gm_unsigned m) = Inr (gm_signature m)"
  by (auto simp: message_authentic_def bindR_Inr_iff compare_digest_def split: if_splits)

interpretation gossip: replay_guard "receive_step C" "\<lambda>d. message_scope (fst d)" "\<lambda>d. gm_sequence (fst d)"
    "\<lambda>N k. dict_get (gn_incoming N) k 0" for C
proof
  fix d N x assume "fst (receive_step C d N) = Inr x"
  then show "dict_get (gn_incoming N) (message_scope (fst d)) 0 < gm_sequence (fst d)"
    "(\<lambda>k. dict_get (gn_incoming (snd (receive_step C d N))) k 0)
       = (\<lambda>k. dict_get (gn_incoming N) k 0)(message_scope (fst d) := gm_sequence (fst d))"
    by (auto simp: receive_step_def gossip_receive_Inr fun_eq_iff split: prod.splits)
next
  fix d N e assume "fst (receive_step C d N) = Inl e"
  then show "(\<lambda>k. dict_get (gn_incoming (snd (receive_step C d N))) k 0) = (\<lambda>k. dict_get (gn_incoming N) k 0)"
    by (auto simp: receive_step_def gossip_receive_Inl split: prod.splits)
qed

lemma received_accepted:
  "gn_received (run_ops (receive_step C) ds N) = gn_received N @ map fst (accepted (receive_step C) ds N)"
proof (induction ds arbitrary: N)
  case (Cons d ds)
  show ?case
  proof (cases "fst (receive_step C d N)")
    case (Inl e)
    then have "snd (receive_step C d N) = N"
      by (auto simp: receive_step_def gossip_receive_Inl split: prod.splits)
    with Cons Inl show ?thesis by simp
  next
    case (Inr x)
    then have "gn_received (snd (receive_step C d N)) = gn_received N @ [fst d]"
      by (auto simp: receive_step_def gossip_receive_Inr split: prod.splits)
    with Cons Inr show ?thesis by simp
  qed
qed simp

section \<open>Properties\<close>

text \<open>A node reads every branch of every sender in order and once: whatever messages arrive, genuine,
  forged, repeated or reordered, the sequence numbers it stores for one sender and branch strictly
  increase, so no message is stored twice; and the branches do not disturb each other: whether the next
  message is stored depends on its authenticity and on its own sender and branch alone.\<close>

theorem gossip_in_order:
  assumes "N = run_ops (receive_step C) ds (gossip_init certificate key A)"
  shows "sorted_wrt (<) (0 # map gm_sequence (filter (\<lambda>m. message_scope m = k) (gn_received N)))
    \<and> is_ok (fst (gossip_receive C m c w n N)) =
       (message_authentic C m c w n (gossip_init certificate key A) = Inr ()
        \<and> list_all (\<lambda>m'. message_scope m' = message_scope m \<longrightarrow> gm_sequence m' < gm_sequence m) (gn_received N)
        \<and> 0 < gm_sequence m)"
proof -
  let ?N0 = "gossip_init certificate key A"
  have inc: "sorted_wrt (<) (0 # map gm_sequence (filter (\<lambda>m. message_scope m = k) (gn_received N)))" for k
    using gossip.run_increasing [of ?N0 k C ds] received_accepted [of C ds ?N0] assms
    by (simp add: gossip_init_def filter_map comp_def)
  have authority: "gn_authority (run_ops (receive_step C) ds M) = gn_authority M" for M
  proof (induction ds arbitrary: M)
    case (Cons d ds)
    have "gn_authority (snd (receive_step C d M)) = gn_authority M"
      by (cases d) (simp add: receive_step_def gossip_receive_def split: sum.split)
    with Cons show ?case by simp
  qed simp
  have last: "dict_get (gn_incoming (run_ops (receive_step C) ds M)) k 0
      = (if filter (\<lambda>m. message_scope m = k) (map fst (accepted (receive_step C) ds M)) = [] then dict_get (gn_incoming M) k 0
         else gm_sequence (List.last (filter (\<lambda>m. message_scope m = k) (map fst (accepted (receive_step C) ds M)))))" for k M
  proof (induction ds arbitrary: M)
    case (Cons d ds)
    show ?case
    proof (cases "fst (receive_step C d M)")
      case (Inl e)
      then have "snd (receive_step C d M) = M"
        by (auto simp: receive_step_def gossip_receive_Inl split: prod.splits)
      with Cons Inl show ?thesis by simp
    next
      case (Inr x)
      from fun_cong [OF gossip.accept_last [OF this], of k] have "dict_get (gn_incoming (snd (receive_step C d M))) k 0
          = (if k = message_scope (fst d) then gm_sequence (fst d) else dict_get (gn_incoming M) k 0)"
        by (simp only: fun_upd_apply)
      with Cons Inr show ?thesis by auto
    qed
  qed simp
  let ?k = "message_scope m" and ?ms = "filter (\<lambda>m'. message_scope m' = message_scope m) (gn_received N)"
  have "dict_get (gn_incoming N) ?k 0 = (if ?ms = [] then 0 else gm_sequence (List.last ?ms))"
    using last [of ?N0 ?k] received_accepted [of C ds ?N0] assms by (simp add: gossip_init_def)
  moreover have "gm_sequence x \<le> gm_sequence (List.last ?ms)" if "x \<in> set ?ms" for x
  proof -
    have "sorted (map gm_sequence ?ms)"
      using inc [of ?k] by (simp add: sorted_wrt_mono_rel strict_sorted_imp_sorted)
    then show ?thesis using that by (cases ?ms rule: rev_cases) (auto simp: sorted_append)
  qed
  ultimately have "dict_get (gn_incoming N) ?k 0 < gm_sequence m \<longleftrightarrow>
      0 < gm_sequence m \<and> (\<forall>x \<in> set ?ms. gm_sequence x < gm_sequence m)"
    using inc [of ?k] last_in_set [of ?ms] by (cases "?ms = []") (fastforce dest: order.strict_trans1)+
  moreover have "message_authentic C m c w n N = message_authentic C m c w n ?N0"
    using authority [of ?N0] assms by (simp add: message_authentic_def)
  ultimately have "is_ok (fst (gossip_receive C m c w n N)) =
       (message_authentic C m c w n ?N0 = Inr ()
        \<and> list_all (\<lambda>m'. message_scope m' = message_scope m \<longrightarrow> gm_sequence m' < gm_sequence m) (gn_received N)
        \<and> 0 < gm_sequence m)"
    by (auto simp: gossip_receive_def list_all_iff is_ok_def split: sum.splits)
  with inc show ?thesis by blast
qed

text \<open>The peers that take a message: up to the first one that raises.\<close>

definition takers :: "crypto \<Rightarrow> gossip_message \<Rightarrow> certificate \<Rightarrow> string \<Rightarrow> int \<Rightarrow> network \<Rightarrow> nat list \<Rightarrow> nat list" where
  "takers C m certificate key n W ps = takeWhile (\<lambda>p. is_ok (fst (gossip_receive C m certificate key n (W p)))) ps"

lemma deliver_takers:
  "distinct ps \<Longrightarrow>
     snd (deliver C m certificate key n ps d W) =
       (\<lambda>p. if p \<in> set (takers C m certificate key n W ps) then snd (gossip_receive C m certificate key n (W p)) else W p)
     \<and> fst (deliver C m certificate key n ps d W) =
       (if takers C m certificate key n W ps = ps then Inr (d + int (length ps))
        else case fst (gossip_receive C m certificate key n (W (ps ! length (takers C m certificate key n W ps)))) of
          Inl e \<Rightarrow> Inl e | Inr _ \<Rightarrow> Inr 0)"
proof (induction ps arbitrary: d W)
  case Nil
  then show ?case by (simp add: takers_def)
next
  case (Cons p ps)
  let ?r = "gossip_receive C m certificate key n (W p)"
  show ?case
  proof (cases "fst ?r")
    case (Inl e)
    with gossip_receive_Inl [OF Inl] show ?thesis
      by (cases ?r) (simp add: takers_def fun_eq_iff)
  next
    case (Inr x)
    let ?W = "W(p := snd ?r)" and ?T = "takers C m certificate key n W ps"
    have T: "takers C m certificate key n ?W ps = ?T"
      unfolding takers_def by (rule takeWhile_cong) (use Cons.prems in auto)
    have p: "p \<notin> set ?T" "takers C m certificate key n W (p # ps) = p # ?T"
      using Cons.prems Inr by (auto simp: takers_def dest: set_takeWhileD)
    have step: "deliver C m certificate key n (p # ps) d W = deliver C m certificate key n ps (d + 1) ?W"
      using Inr by (cases ?r) simp
    have IH: "snd (deliver C m certificate key n ps (d + 1) ?W) =
          (\<lambda>q. if q \<in> set ?T then snd (gossip_receive C m certificate key n (?W q)) else ?W q)"
        "fst (deliver C m certificate key n ps (d + 1) ?W) =
          (if ?T = ps then Inr (d + 1 + int (length ps))
           else case fst (gossip_receive C m certificate key n (?W (ps ! length ?T))) of Inl e \<Rightarrow> Inl e | Inr _ \<Rightarrow> Inr 0)"
      using Cons.IH [of "d + 1" ?W] Cons.prems by (simp_all only: T distinct.simps)
    have "?W (ps ! length ?T) = W (ps ! length ?T)" if "?T \<noteq> ps"
    proof -
      have "length ?T < length ps"
        using that length_takeWhile_le [of _ ps] takeWhile_eq_take [of _ ps]
        by (metis le_neq_implies_less takers_def take_all_iff order_refl)
      with Cons.prems have "ps ! length ?T \<noteq> p" by auto
      then show ?thesis by simp
    qed
    with IH(2) p(2) have "fst (deliver C m certificate key n ps (d + 1) ?W) =
       (if takers C m certificate key n W (p # ps) = p # ps then Inr (d + int (length (p # ps)))
        else case fst (gossip_receive C m certificate key n (W ((p # ps) ! length (takers C m certificate key n W (p # ps))))) of
          Inl e \<Rightarrow> Inl e | Inr _ \<Rightarrow> Inr 0)"
      by simp
    moreover have "snd (deliver C m certificate key n ps (d + 1) ?W) = (\<lambda>q. if q \<in> set (takers C m certificate key n W (p # ps))
        then snd (gossip_receive C m certificate key n (W q)) else W q)"
      unfolding IH(1) p(2) using p(1) by (auto simp: fun_eq_iff)
    ultimately show ?thesis unfolding step by blast
  qed
qed

text \<open>Broadcast delivers to the peers in their order up to the first one that refuses: exactly those store
  the message, every other node of the network is left as it was, and the answer is the number of peers
  or the exception of the one that refused.\<close>

theorem gossip_broadcast_effect:
  assumes "ps = map snd (gn_peers (W a))" "distinct ps"
    and "good = takers C m (gn_certificate (W a)) (gn_key (W a)) n W ps"
  shows "snd (gossip_broadcast C a m n W) =
      (\<lambda>p. if p \<in> set good then (W p)\<lparr>gn_incoming := AList.update (message_scope m) (gm_sequence m) (gn_incoming (W p)),
                                     gn_received := gn_received (W p) @ [m]\<rparr> else W p)
    \<and> (good = ps \<longrightarrow> fst (gossip_broadcast C a m n W) = Inr (int (length ps)))
    \<and> (good \<noteq> ps \<longrightarrow> (\<exists>e. fst (gossip_receive C m (gn_certificate (W a)) (gn_key (W a)) n (W (ps ! length good))) = Inl e
          \<and> fst (gossip_broadcast C a m n W) = Inl e))"
proof -
  let ?R = "\<lambda>p. gossip_receive C m (gn_certificate (W a)) (gn_key (W a)) n (W p)"
  note d = deliver_takers [OF assms(2), of C m "gn_certificate (W a)" "gn_key (W a)" n 0 W, folded assms(3)]
  have stored: "snd (?R p) = (W p)\<lparr>gn_incoming := AList.update (message_scope m) (gm_sequence m) (gn_incoming (W p)),
      gn_received := gn_received (W p) @ [m]\<rparr>" if "p \<in> set good" for p
    using that set_takeWhileD [of p "\<lambda>p. is_ok (fst (?R p))" ps] gossip_receive_Inr(3)
    by (auto simp: assms(3) takers_def is_ok_iff)
  have "\<not> is_ok (fst (?R (ps ! length good)))" if "good \<noteq> ps"
  proof -
    have len: "length good < length ps"
      using that length_takeWhile_le [of _ ps] takeWhile_eq_take [of _ ps] assms(3)
      by (metis le_neq_implies_less takers_def take_all_iff order_refl)
    then show ?thesis unfolding assms(3) takers_def by (rule nth_length_takeWhile)
  qed
  then have "good \<noteq> ps \<Longrightarrow> \<exists>e. fst (?R (ps ! length good)) = Inl e" by (auto simp: is_ok_def split: sum.splits)
  with d stored assms(1) show ?thesis by (auto simp: gossip_broadcast_def fun_eq_iff)
qed

text \<open>Created messages arrive: a message made by \<open>create\<close> and broadcast at once is stored by every
  peer that trusts the writer certificate of the sender in this round and has seen nothing later than
  what the sender sent on this branch before; \<open>broadcast\<close> answers with the number of peers.\<close>

theorem gossip_created_delivered:
  assumes "fst (gossip_create C branch topic payload (W a)) = Inr m" "hex_digests C"
    and "W' = W(a := snd (gossip_create C branch topic payload (W a)))"
    and "ps = map snd (gn_peers (W a))" "distinct ps" "a \<notin> set ps"
    and "\<forall>p \<in> set ps. ca_verify C (gn_authority (W p)) (gn_certificate (W a)) n ''writer'' = Inr True
        \<and> dict_get (gn_incoming (W p)) (gn_id (W a), branch) 0 \<le> dict_get (gn_outgoing (W a)) branch 0"
  shows "fst (gossip_broadcast C a m n W') = Inr (int (length ps))
    \<and> list_all (\<lambda>p. gn_received (snd (gossip_broadcast C a m n W') p) = gn_received (W p) @ [m]) ps"
proof -
  from assms(1) have m: "gm_sender m = gn_id (W a)" "gm_branch m = branch" "gm_sequence m = dict_get (gn_outgoing (W a)) branch 0 + 1"
    "hmac_json C (gn_key (W a)) (gm_unsigned m) = Inr (gm_signature m)"
    by (auto simp: gossip_create_def Let_def gm_unsigned_def split: if_splits sum.splits)
  have W': "gn_certificate (W' a) = gn_certificate (W a)" "gn_key (W' a) = gn_key (W a)" "map snd (gn_peers (W' a)) = ps"
    "\<And>p. p \<in> set ps \<Longrightarrow> W' p = W p"
    using assms(3,4,6) by (auto simp: gossip_create_def Let_def split: sum.split)
  have "is_ascii (gm_signature m)" using m(4) assms(2) by (auto simp: hmac_json_Inr hex_digests_def)
  then have "message_authentic C m (gn_certificate (W a)) (gn_key (W a)) n (W p) = Inr ()" if "p \<in> set ps" for p
    using that m assms(7) by (simp add: message_authentic_def gn_id_def compare_digest_def)
  then have ok: "is_ok (fst (gossip_receive C m (gn_certificate (W a)) (gn_key (W a)) n (W p)))"
      "gn_received (snd (gossip_receive C m (gn_certificate (W a)) (gn_key (W a)) n (W p))) = gn_received (W p) @ [m]"
    if "p \<in> set ps" for p
    using that m assms(7) by (auto simp: gossip_receive_def message_scope_def not_le)
  have "takers C m (gn_certificate (W a)) (gn_key (W a)) n W' ps = ps"
    unfolding takers_def by (rule takeWhile_eq_all_conv [THEN iffD2]) (use ok(1) W'(4) in auto)
  with deliver_takers [OF assms(5), of C m "gn_certificate (W a)" "gn_key (W a)" n 0 W'] W' ok(2) show ?thesis
    by (simp add: gossip_broadcast_def list_all_iff)
qed

section \<open>A concrete network\<close>

definition writer_cert :: "string \<Rightarrow> certificate" where
  "writer_cert node = projr (ca_issue ascii_crypto sample_ca node ''pk'' [''writer''] 0 10)"

lemma writer_cert_issued: "ca_issue ascii_crypto sample_ca node ''pk'' [''writer''] 0 10 = Inr (writer_cert node)"
proof -
  have "\<exists>c. ca_issue ascii_crypto sample_ca node ''pk'' [''writer''] 0 10 = Inr c"
    by (simp add: ca_issue_def hmac_json_def canonical_json_def)
  then show ?thesis by (auto simp: writer_cert_def)
qed

definition sample_network :: network where
  "sample_network = (\<lambda>a. gossip_init (writer_cert (if a = 0 then ''n0'' else ''n1'')) ''key'' sample_ca)
     (0 := (gossip_init (writer_cert ''n0'') ''key'' sample_ca)\<lparr>gn_peers := [(''n1'', 1)]\<rparr>)"

theorem gossip_in_order_witness:
  "sorted_wrt (<) (0 # map gm_sequence (filter (\<lambda>m. message_scope m = (''n0'', ''b''))
     (gn_received (run_ops (receive_step ascii_crypto) [] (gossip_init (writer_cert ''n1'') ''key'' sample_ca)))))"
  using gossip_in_order [OF refl] by blast

definition sample_message :: gossip_message where
  "sample_message = \<lparr>gm_sender = ''n0'', gm_branch = ''b'', gm_sequence = 1, gm_kind = ''block'', gm_payload = JObj [],
     gm_signature = ''00''\<rparr>"

lemma sample_expired:
  "gossip_receive ascii_crypto sample_message (writer_cert ''n0'') ''key'' 11 (sample_network 1)
     = (Inl (ProtocolError ''sender certificate is not valid for writer role''), sample_network 1)"
proof -
  have "ct_node (writer_cert ''n0'') = ''n0''" by (rule ca_issue_node [OF writer_cert_issued])
  then show ?thesis
    using ca_issue_verifies [OF writer_cert_issued hex_ascii_crypto, of "''n0''" 11 "''writer''"]
    by (simp add: gossip_receive_def message_authentic_def sample_message_def sample_network_def gossip_init_def)
qed

theorem gossip_broadcast_effect_witness:
  "fst (gossip_broadcast ascii_crypto 0 sample_message 11 sample_network)
     = Inl (ProtocolError ''sender certificate is not valid for writer role'')
   \<and> snd (gossip_broadcast ascii_crypto 0 sample_message 11 sample_network) = sample_network"
proof -
  have W: "gn_certificate (sample_network 0) = writer_cert ''n0''" "gn_key (sample_network 0) = ''key''"
    "[1] = map snd (gn_peers (sample_network 0))"
    by (simp_all add: sample_network_def gossip_init_def)
  have "takers ascii_crypto sample_message (gn_certificate (sample_network 0)) (gn_key (sample_network 0)) 11 sample_network [1] = []"
    by (simp add: takers_def W sample_expired [unfolded One_nat_def])
  with gossip_broadcast_effect [where W = sample_network and a = 0 and ps = "[1]" and C = ascii_crypto and m = sample_message
      and n = 11, OF W(3) _ refl] W(1,2) show ?thesis
    by (auto simp: sample_expired [unfolded One_nat_def])
qed

theorem gossip_created_delivered_witness:
  "\<exists>m. fst (gossip_broadcast ascii_crypto 0 m 3
      (sample_network(0 := snd (gossip_create ascii_crypto ''b'' ''block'' (JObj []) (sample_network 0))))) = Inr 1"
proof -
  have "\<exists>m. fst (gossip_create ascii_crypto ''b'' ''block'' (JObj []) (sample_network 0)) = Inr m"
    by (simp add: gossip_create_def hmac_json_def canonical_json_def gm_json_def Let_def)
  then obtain m where m: "fst (gossip_create ascii_crypto ''b'' ''block'' (JObj []) (sample_network 0)) = Inr m" ..
  from gossip_created_delivered [where W = sample_network and a = 0 and n = 3 and ps = "[1]", OF m hex_ascii_crypto refl]
  have "fst (gossip_broadcast ascii_crypto 0 m 3
      (sample_network(0 := snd (gossip_create ascii_crypto ''b'' ''block'' (JObj []) (sample_network 0))))) = Inr 1"
    using ca_issue_verifies [OF writer_cert_issued hex_ascii_crypto, of "''n0''" 3 "''writer''"]
    by (simp add: sample_network_def gossip_init_def)
  then show ?thesis by (rule exI [of _ m])
qed

end
