(* ===== verification/Transport.thy ===== *)
theory Transport
  imports Signatures
begin

text \<open>
  The mutual-authentication policy of \<open>splitchain/transport.py\<close>: which roles may call which method,
  and the registry that binds certificate fingerprints to identities. The TLS contexts and the reading
  of the files belong to the \<open>ssl\<close> library and to the operating system.
\<close>

definition ALLOWED_PEER_ROLES :: "string list" where
  "ALLOWED_PEER_ROLES = [''primary'', ''secondary'', ''tertiary'', ''overlord'', ''client'']"

record peer_identity =
  pi_node :: string
  pi_certificate :: string
  pi_roles :: "string list"

definition node_roles :: "string list" where
  "node_roles = [''primary'', ''secondary'', ''tertiary'']"

definition METHOD_ROLES :: "(string, string list) dict" where
  "METHOD_ROLES =
     [(''status'', ALLOWED_PEER_ROLES), (''ecosystem.demo'', ALLOWED_PEER_ROLES),
      (''cluster.status'', ALLOWED_PEER_ROLES), (''cluster.leadership'', ALLOWED_PEER_ROLES),
      (''cluster.heartbeat'', node_roles), (''cluster.timeout_vote'', node_roles),
      (''cluster.certificate'', node_roles), (''replica.prepare'', node_roles),
      (''replica.commit'', node_roles), (''replica.abort'', node_roles),
      (''replica.position'', node_roles), (''replica.history'', node_roles),
      (''cluster.sync'', [''primary'', ''overlord'']), (''offer'', [''client'']), (''accept'', [''client'']),
      (''commit'', [''client'']), (''cancel'', [''client'']), (''advance'', node_roles @ [''overlord'']),
      (''account.register'', [''overlord''])]"

text \<open>
  \<open>authorize\<close>; the method is the JSON value of the request: a missing, \<open>null\<close> or other falsy one is
  looked up as the empty string, a list or an object cannot be a key (\<open>TypeError\<close>).
\<close>

definition method_key :: "json \<Rightarrow> string option result" where
  "method_key v =
     (case v of JStr s \<Rightarrow> Inr (Some s)
      | JList (x # xs) \<Rightarrow> Inl TypeError
      | JObj (x # xs) \<Rightarrow> Inl TypeError
      | _ \<Rightarrow> Inr None)"

definition peer_authorize :: "peer_identity \<Rightarrow> json \<Rightarrow> unit result" where
  "peer_authorize p v =
     bindR (method_key v) (\<lambda>k.
       let permitted = (case k of None \<Rightarrow> [] | Some s \<Rightarrow> dict_get METHOD_ROLES s []) in
       if list_ex (\<lambda>r. r \<in> set (pi_roles p)) permitted then Inr ()
       else Inl (ProtocolError ''peer is not authorized for method''))"

text \<open>What a client may call.\<close>

definition client_methods :: "string list" where
  "client_methods = [''status'', ''ecosystem.demo'', ''cluster.status'', ''cluster.leadership'',
     ''offer'', ''accept'', ''commit'', ''cancel'']"

section \<open>The registry\<close>

definition ascii_lower :: "string \<Rightarrow> string" where
  "ascii_lower s = map (\<lambda>c. if 65 \<le> (of_char c :: nat) \<and> (of_char c :: nat) \<le> 90 then char_of ((of_char c :: nat) + 32) else c) s"

definition is_hex :: "char \<Rightarrow> bool" where
  "is_hex c = (c \<in> set ''0123456789abcdef'')"

text \<open>
  The loop of the constructor: the registry so far and the node identifiers seen. A fingerprint is text
  with ASCII digits and letters when it passes, so lower case is the ASCII one.
\<close>

fun register_peers :: "peer_identity list \<Rightarrow> (string, peer_identity) dict \<Rightarrow> string list \<Rightarrow> (string, peer_identity) dict result" where
  "register_peers [] prints nodes = Inr prints"
| "register_peers (p # ps) prints nodes =
     (let f = ascii_lower (pi_certificate p) in
      if length f \<noteq> 64 \<or> \<not> list_all is_hex f
      then Inl (ProtocolError ''peer certificate fingerprint must be sha256 hex'')
      else if pi_node p = [] \<or> pi_node p \<in> set nodes \<or> dict_has prints f
      then Inl (ProtocolError ''peer certificate registry contains a duplicate identity'')
      else if pi_roles p = [] \<or> \<not> set (pi_roles p) \<subseteq> set ALLOWED_PEER_ROLES
      then Inl (ProtocolError ''peer certificate registry contains an invalid role'')
      else register_peers ps
        (AList.update f \<lparr>pi_node = pi_node p, pi_certificate = f, pi_roles = sort (remdups (pi_roles p))\<rparr> prints)
        (List.insert (pi_node p) nodes))"

type_synonym peer_registry = "(string, peer_identity) dict"

definition registry_make :: "peer_identity list \<Rightarrow> peer_registry result" where
  "registry_make peers =
     (if peers = [] then Inl (ProtocolError ''peer certificate registry cannot be empty'')
      else register_peers peers [] [])"

definition verify_der :: "crypto \<Rightarrow> peer_registry \<Rightarrow> string option \<Rightarrow> peer_identity result" where
  "verify_der C reg der =
     (case der of
        None \<Rightarrow> Inl (ProtocolError ''peer did not present a TLS certificate'')
      | Some [] \<Rightarrow> Inl (ProtocolError ''peer did not present a TLS certificate'')
      | Some d \<Rightarrow>
          (case map_of reg (sha256 C d) of
             None \<Rightarrow> Inl (ProtocolError ''peer TLS certificate is not authorized'')
           | Some p \<Rightarrow> Inr p))"

definition has_node_role :: "peer_registry \<Rightarrow> string \<Rightarrow> string \<Rightarrow> bool" where
  "has_node_role reg node role = list_ex (\<lambda>(f, p). pi_node p = node \<and> pi_roles p = [role]) reg"

section \<open>Properties\<close>

definition registry_ok :: "peer_registry \<Rightarrow> string list \<Rightarrow> bool" where
  "registry_ok reg nodes =
     (wf_dict reg \<and> distinct (map (pi_node \<circ> snd) reg) \<and> set (map (pi_node \<circ> snd) reg) = set nodes
      \<and> (\<forall>(f, p) \<in> set reg. pi_certificate p = f \<and> length f = 64 \<and> list_all is_hex f
           \<and> pi_roles p \<noteq> [] \<and> set (pi_roles p) \<subseteq> set ALLOWED_PEER_ROLES \<and> distinct (pi_roles p)))"

lemma register_peers_ok:
  "register_peers ps reg nodes = Inr reg' \<Longrightarrow> registry_ok reg nodes \<Longrightarrow> \<exists>nodes'. registry_ok reg' nodes'"
proof (induction ps reg nodes rule: register_peers.induct)
  case (2 p ps prints nodes)
  let ?f = "ascii_lower (pi_certificate p)"
  let ?p = "\<lparr>pi_node = pi_node p, pi_certificate = ?f, pi_roles = sort (remdups (pi_roles p))\<rparr>"
  from "2.prems"(1) have c: "length ?f = 64" "list_all is_hex ?f" "pi_node p \<noteq> []" "pi_node p \<notin> set nodes" "\<not> dict_has prints ?f"
    "pi_roles p \<noteq> []" "set (pi_roles p) \<subseteq> set ALLOWED_PEER_ROLES"
    "register_peers ps (AList.update ?f ?p prints) (List.insert (pi_node p) nodes) = Inr reg'"
    by (auto simp: Let_def split: if_splits)
  have upd: "AList.update ?f ?p prints = prints @ [(?f, ?p)]"
    using c(5) by (intro update_new) (simp add: dict_has_iff)
  have "sort (remdups (pi_roles p)) \<noteq> []" using c(6) by (metis set_empty set_sort set_remdups)
  then have "registry_ok (AList.update ?f ?p prints) (List.insert (pi_node p) nodes)"
    using "2.prems"(2) c unfolding upd
    by (auto simp: registry_ok_def wf_dict_def dict_has_iff)
  with "2.IH" c show ?case by (simp add: Let_def)
qed auto

text \<open>The registry is what it promises: the identity that a TLS certificate gets is the one registered
  under its SHA-256 fingerprint, no node name and no fingerprint occurs twice, and every role is one of
  the five that exist; whoever presents no certificate or an unknown one is refused.\<close>

theorem registry_binds:
  assumes "registry_make peers = Inr reg"
  shows "distinct (keys reg) \<and> distinct (map (pi_node \<circ> snd) reg)
    \<and> list_all (\<lambda>(f, p). pi_certificate p = f \<and> pi_roles p \<noteq> [] \<and> set (pi_roles p) \<subseteq> set ALLOWED_PEER_ROLES) reg
    \<and> (verify_der C reg der = Inr p \<longleftrightarrow>
        (\<exists>d. der = Some d \<and> d \<noteq> [] \<and> (sha256 C d, p) \<in> set reg))"
proof -
  from assms obtain nodes where ok: "registry_ok reg nodes"
    using register_peers_ok [of peers "[]" "[]" reg]
    by (auto simp: registry_make_def registry_ok_def split: if_splits)
  then have "wf_dict reg" by (simp add: registry_ok_def)
  then have "verify_der C reg der = Inr p \<longleftrightarrow> (\<exists>d. der = Some d \<and> d \<noteq> [] \<and> (sha256 C d, p) \<in> set reg)"
    by (auto simp: verify_der_def wf_dict_mem split: option.splits list.splits)
  with ok show ?thesis by (auto simp: registry_ok_def wf_dict_def keys_def list_all_iff)
qed


section \<open>A concrete registry\<close>

definition sample_peers :: "peer_identity list" where
  "sample_peers = [\<lparr>pi_node = ''primary'', pi_certificate = replicate 64 (CHR ''A''), pi_roles = [''primary'']\<rparr>,
     \<lparr>pi_node = ''app'', pi_certificate = replicate 64 (CHR ''0''), pi_roles = [''client'', ''client'']\<rparr>]"

theorem registry_binds_witness:
  "\<exists>reg. registry_make sample_peers = Inr reg \<and> distinct (keys reg)"
proof -
  have "is_ok (registry_make sample_peers)" by code_simp
  then obtain reg where "registry_make sample_peers = Inr reg" by (auto simp: is_ok_iff)
  with registry_binds [OF this] show ?thesis by auto
qed


end
