(* ===== verification/Failover.thy ===== *)
theory Failover
  imports Replication Ledger_Snapshot Membership
begin

text \<open>
  Term-based leadership with quorum-certified failover (\<open>splitchain/failover.py\<close>): timeout votes,
  leadership certificates, the state of one node, and its snapshots.
\<close>

section \<open>Votes, certificates, authority\<close>

record failure_vote =
  fl_voter :: string
  fl_term :: int
  fl_accused :: string
  fl_candidate :: string
  fl_tick :: int
  fl_nonce :: int
  fl_signature :: string

definition fl_unsigned_fields :: "failure_vote \<Rightarrow> (string \<times> json) list" where
  "fl_unsigned_fields v =
     [(''voter'', JStr (fl_voter v)), (''term'', JInt (fl_term v)), (''accused'', JStr (fl_accused v)),
      (''candidate'', JStr (fl_candidate v)), (''observed_tick'', JInt (fl_tick v)),
      (''committed_nonce'', JInt (fl_nonce v))]"

definition fl_unsigned :: "failure_vote \<Rightarrow> json" where
  "fl_unsigned v = JObj (fl_unsigned_fields v)"

definition fl_public :: "failure_vote \<Rightarrow> json" where
  "fl_public v = JObj (fl_unsigned_fields v @ [(''signature'', JStr (fl_signature v))])"

record leadership_certificate =
  lc_term :: int
  lc_leader :: string
  lc_nonce :: int
  lc_votes :: "failure_vote list"
  lc_digest :: string

definition lc_voters :: "leadership_certificate \<Rightarrow> string list" where
  "lc_voters c = map fl_voter (lc_votes c)"

definition lc_public :: "leadership_certificate \<Rightarrow> json" where
  "lc_public c = JObj
     [(''term'', JInt (lc_term c)), (''leader'', JStr (lc_leader c)), (''committed_nonce'', JInt (lc_nonce c)),
      (''votes'', JList (map fl_public (lc_votes c))), (''digest'', JStr (lc_digest c))]"

text \<open>The payload that the digest of a certificate covers.\<close>

definition lc_payload :: "int \<Rightarrow> string \<Rightarrow> int \<Rightarrow> failure_vote list \<Rightarrow> json" where
  "lc_payload nonce leader term votes = JObj
     [(''committed_nonce'', JInt nonce), (''leader'', JStr leader), (''term'', JInt term),
      (''votes'', JList (map fl_public votes))]"

definition json_sha256 :: "crypto \<Rightarrow> json \<Rightarrow> string result" where
  "json_sha256 C v = bindR (canonical_json v) (\<lambda>body. Inr (sha256 C body))"

datatype failover_auth = VoteKeys "(string, string) dict" | VoteKeyring keyring

definition failover_init :: "(string, string) dict option \<Rightarrow> keyring option \<Rightarrow> failover_auth result" where
  "failover_init node_keys keyring =
     (case (node_keys, keyring) of
        (Some ks, None) \<Rightarrow>
          if set (keys ks) \<noteq> set ROLE_ORDER \<or> list_ex (\<lambda>(n, k). py_len k < 32) ks
          then Inl (ProtocolError ''failover requires a strong key for every ordered role'')
          else Inr (VoteKeys ks)
      | (None, Some k) \<Rightarrow> Inr (VoteKeyring k)
      | _ \<Rightarrow> Inl (ProtocolError ''choose one failover identity scheme''))"

definition failover_sign :: "crypto \<Rightarrow> ed25519 \<Rightarrow> failover_auth \<Rightarrow> string \<Rightarrow> json \<Rightarrow> string result" where
  "failover_sign C E A role payload =
     (case A of
        VoteKeyring k \<Rightarrow> bindR (canonical_json payload) (\<lambda>body. keyring_sign E k role body)
      | VoteKeys ks \<Rightarrow>
          (case map_of ks role of
             None \<Rightarrow> Inl (ProtocolError ''unknown failover voter'')
           | Some key \<Rightarrow> hmac_json C key payload))"

definition failover_check :: "crypto \<Rightarrow> ed25519 \<Rightarrow> failover_auth \<Rightarrow> string \<Rightarrow> json \<Rightarrow> string \<Rightarrow> bool result" where
  "failover_check C E A role payload signature =
     (case A of
        VoteKeyring k \<Rightarrow> bindR (canonical_json payload) (\<lambda>body. Inr (keyring_verify E k role body signature))
      | VoteKeys ks \<Rightarrow>
          (case map_of ks role of
             None \<Rightarrow> Inr False
           | Some key \<Rightarrow>
               if key = [] then Inr False
               else bindR (hmac_json C key payload) (\<lambda>expected. compare_digest expected signature)))"

definition failover_vote ::
    "crypto \<Rightarrow> ed25519 \<Rightarrow> failover_auth \<Rightarrow> string \<Rightarrow> int \<Rightarrow> string \<Rightarrow> string \<Rightarrow> int \<Rightarrow> int \<Rightarrow> failure_vote result" where
  "failover_vote C E A voter term accused candidate beat nonce =
     (let v = \<lparr>fl_voter = voter, fl_term = term, fl_accused = accused, fl_candidate = candidate,
               fl_tick = beat, fl_nonce = nonce, fl_signature = []\<rparr>
      in bindR (failover_sign C E A voter (fl_unsigned v)) (\<lambda>s. Inr (v\<lparr>fl_signature := s\<rparr>)))"

definition vote_verify :: "crypto \<Rightarrow> ed25519 \<Rightarrow> failover_auth \<Rightarrow> failure_vote \<Rightarrow> bool result" where
  "vote_verify C E A v = failover_check C E A (fl_voter v) (fl_unsigned v) (fl_signature v)"

definition heartbeat_json :: "string \<Rightarrow> int \<Rightarrow> int \<Rightarrow> int \<Rightarrow> (string \<times> json) list" where
  "heartbeat_json leader term beat nonce =
     [(''leader'', JStr leader), (''term'', JInt term), (''tick'', JInt beat), (''nonce'', JInt nonce)]"

definition sign_heartbeat :: "crypto \<Rightarrow> ed25519 \<Rightarrow> failover_auth \<Rightarrow> string \<Rightarrow> int \<Rightarrow> int \<Rightarrow> int \<Rightarrow> json result" where
  "sign_heartbeat C E A leader term beat nonce =
     bindR (failover_sign C E A leader (JObj (heartbeat_json leader term beat nonce))) (\<lambda>s.
       Inr (JObj (heartbeat_json leader term beat nonce @ [(''signature'', JStr s)])))"

text \<open>
  \<open>verify_heartbeat\<close>: every exception of the \<open>try\<close> block is \<open>False\<close>, among them those that a
  leader or a signature of another type than text runs into.
\<close>

definition opt_str :: "json option \<Rightarrow> string option" where
  "opt_str v = (case v of Some (JStr s) \<Rightarrow> Some s | _ \<Rightarrow> None)"

definition verify_heartbeat :: "crypto \<Rightarrow> ed25519 \<Rightarrow> failover_auth \<Rightarrow> json \<Rightarrow> bool" where
  "verify_heartbeat C E A env =
     (case (opt_str (obj_get env ''leader''), opt_str (obj_get env ''signature'')) of
        (Some leader, Some s) \<Rightarrow>
          list_all (\<lambda>k. obj_get env k \<noteq> None) [''term'', ''tick'', ''nonce'']
          \<and> failover_check C E A leader
              (JObj (map (\<lambda>k. (k, the (obj_get env k))) [''leader'', ''term'', ''tick'', ''nonce''])) s = Inr True
      | _ \<Rightarrow> False)"

section \<open>The state of one node\<close>

record leadership =
  ls_authority :: failover_auth
  ls_timeout :: int
  ls_term :: int
  ls_leader :: string
  ls_heartbeat :: int
  ls_nonce :: int
  ls_votes :: "(string, failure_vote) dict"
  ls_certs :: "leadership_certificate list"

definition LS_QUORUM :: nat where
  "LS_QUORUM = 2"

definition leadership_init :: "failover_auth \<Rightarrow> int \<Rightarrow> leadership result" where
  "leadership_init A timeout =
     (if timeout < 2 then Inl (ProtocolError ''leadership timeout must be at least two ticks'')
      else Inr \<lparr>ls_authority = A, ls_timeout = timeout, ls_term = 0, ls_leader = ''primary'',
        ls_heartbeat = 0, ls_nonce = 0, ls_votes = [], ls_certs = []\<rparr>)"

text \<open>\<open>_successor\<close>; a leader outside \<open>ROLE_ORDER\<close> is a \<open>ValueError\<close> of \<open>index\<close>.\<close>

definition successor :: "leadership \<Rightarrow> string result" where
  "successor L =
     (case index_of (ls_leader L) ROLE_ORDER of
        None \<Rightarrow> Inl (ValueError ''tuple.index'')
      | Some i \<Rightarrow>
          if i + 1 \<ge> length ROLE_ORDER then Inl (ProtocolError ''all ordered leaders are exhausted'')
          else Inr (ROLE_ORDER ! (i + 1)))"

definition heartbeat :: "string \<Rightarrow> int \<Rightarrow> int \<Rightarrow> int \<Rightarrow> (leadership, unit) operation" where
  "heartbeat leader term beat nonce L =
     (if leader \<noteq> ls_leader L \<or> term \<noteq> ls_term L
      then (Inl (ProtocolError ''heartbeat is not from the current leader and term''), L)
      else if beat \<le> ls_heartbeat L \<or> nonce < ls_nonce L
      then (Inl (ProtocolError ''heartbeat regresses leadership state''), L)
      else (Inr (), L\<lparr>ls_heartbeat := beat, ls_nonce := nonce, ls_votes := []\<rparr>))"

text \<open>The tests of \<open>submit\<close> after the signature.\<close>

definition vote_fits :: "leadership \<Rightarrow> string \<Rightarrow> failure_vote \<Rightarrow> bool" where
  "vote_fits L candidate v =
     (fl_term v = ls_term L + 1 \<and> fl_accused v = ls_leader L \<and> fl_candidate v = candidate
      \<and> ls_timeout L \<le> fl_tick v - ls_heartbeat L \<and> fl_nonce v = ls_nonce L \<and> fl_voter v \<noteq> ls_leader L)"

text \<open>
  The end of \<open>submit\<close>, when the quorum is complete. The votes are signed in the order of the voters;
  the new heartbeat tick is the one of the first vote that was stored.
\<close>

definition certify :: "crypto \<Rightarrow> string \<Rightarrow> (leadership, leadership_certificate option) operation" where
  "certify C candidate L =
     (let votes = map snd (sorted_dict (ls_votes L)) in
      case json_sha256 C (lc_payload (ls_nonce L) candidate (ls_term L + 1) votes) of
        Inl e \<Rightarrow> (Inl e, L)
      | Inr d \<Rightarrow>
          let c = \<lparr>lc_term = ls_term L + 1, lc_leader = candidate, lc_nonce = ls_nonce L,
                   lc_votes = votes, lc_digest = d\<rparr>
          in (Inr (Some c), L\<lparr>ls_term := ls_term L + 1, ls_leader := candidate,
               ls_heartbeat := fl_tick (snd (hd (ls_votes L))), ls_votes := [],
               ls_certs := ls_certs L @ [c]\<rparr>))"

definition submit ::
    "crypto \<Rightarrow> ed25519 \<Rightarrow> failure_vote \<Rightarrow> (leadership, leadership_certificate option) operation" where
  "submit C E v L =
     (case successor L of
        Inl e \<Rightarrow> (Inl e, L)
      | Inr candidate \<Rightarrow>
          (case vote_verify C E (ls_authority L) v of
             Inl e \<Rightarrow> (Inl e, L)
           | Inr valid \<Rightarrow>
               if \<not> valid \<or> \<not> vote_fits L candidate v
               then (Inl (ProtocolError ''invalid failover vote''), L)
               else (case map_of (ls_votes L) (fl_voter v) of
                   Some existing \<Rightarrow>
                     if existing = v then (Inr None, L)
                     else (Inl (ProtocolError ''failover voter equivocated''), L)
                 | None \<Rightarrow>
                     if ls_votes L \<noteq> [] \<and> fl_tick v \<noteq> fl_tick (snd (hd (ls_votes L)))
                     then (Inl (ProtocolError ''failover votes do not describe the same timeout''), L)
                     else
                       let L1 = L\<lparr>ls_votes := AList.update (fl_voter v) v (ls_votes L)\<rparr>
                       in if length (ls_votes L1) < LS_QUORUM then (Inr None, L1)
                          else certify C candidate L1)))"

section \<open>Snapshots\<close>

definition leadership_snapshot :: "leadership \<Rightarrow> json" where
  "leadership_snapshot L = JObj
     [(''schema'', JStr ''splitchain-leadership/v1''), (''timeout_ticks'', JInt (ls_timeout L)),
      (''term'', JInt (ls_term L)), (''leader'', JStr (ls_leader L)),
      (''last_heartbeat_tick'', JInt (ls_heartbeat L)), (''committed_nonce'', JInt (ls_nonce L)),
      (''certificates'', JList (map lc_public (ls_certs L)))]"

definition bad_leadership :: error where
  "bad_leadership = ProtocolError ''invalid leadership snapshot''"

definition lfield :: "json \<Rightarrow> string \<Rightarrow> json result" where
  "lfield v k = (case obj_get v k of None \<Rightarrow> Inl bad_leadership | Some x \<Rightarrow> Inr x)"

definition vote_fields :: "string list" where
  "vote_fields = [''voter'', ''term'', ''accused'', ''candidate'', ''observed_tick'', ''committed_nonce'', ''signature'']"

text \<open>\<open>FailureVote(**vote)\<close>: exactly the seven fields, in the types the signer writes.\<close>

definition read_vote :: "json \<Rightarrow> failure_vote result" where
  "read_vote v =
     bindR (as_items v) (\<lambda>kvs.
     if set (map fst kvs) \<noteq> set vote_fields then Inl bad_leadership
     else
       bindR (bindR (lfield v ''voter'') as_str) (\<lambda>voter.
       bindR (bindR (lfield v ''term'') as_int) (\<lambda>term.
       bindR (bindR (lfield v ''accused'') as_str) (\<lambda>accused.
       bindR (bindR (lfield v ''candidate'') as_str) (\<lambda>candidate.
       bindR (bindR (lfield v ''observed_tick'') as_int) (\<lambda>beat.
       bindR (bindR (lfield v ''committed_nonce'') as_int) (\<lambda>nonce.
       bindR (bindR (lfield v ''signature'') as_str) (\<lambda>s.
         Inr \<lparr>fl_voter = voter, fl_term = term, fl_accused = accused, fl_candidate = candidate,
           fl_tick = beat, fl_nonce = nonce, fl_signature = s\<rparr>))))))))"

definition read_certificate :: "json \<Rightarrow> leadership_certificate result" where
  "read_certificate v =
     bindR (bindR (lfield v ''term'') as_int) (\<lambda>term.
     bindR (bindR (lfield v ''leader'') as_str) (\<lambda>leader.
     bindR (bindR (lfield v ''committed_nonce'') as_int) (\<lambda>nonce.
     bindR (bindR (lfield v ''votes'') as_list) (\<lambda>raws.
     bindR (mapR read_vote raws) (\<lambda>votes.
     bindR (bindR (lfield v ''digest'') as_str) (\<lambda>d.
       Inr \<lparr>lc_term = term, lc_leader = leader, lc_nonce = nonce, lc_votes = votes, lc_digest = d\<rparr>))))))"

text \<open>The conjunction over the votes of one certificate, from left to right.\<close>

primrec votes_check ::
    "crypto \<Rightarrow> ed25519 \<Rightarrow> failover_auth \<Rightarrow> int \<Rightarrow> leadership_certificate \<Rightarrow> string \<Rightarrow> int \<Rightarrow> int \<Rightarrow> failure_vote list \<Rightarrow> bool result" where
  "votes_check C E A timeout c accused beat previous [] = Inr True"
| "votes_check C E A timeout c accused beat previous (v # vs) =
     bindR (vote_verify C E A v) (\<lambda>valid.
       if valid \<and> fl_term v = lc_term c \<and> fl_accused v = accused \<and> fl_candidate v = lc_leader c
          \<and> fl_voter v \<noteq> fl_accused v \<and> fl_nonce v = lc_nonce c \<and> fl_tick v = beat
          \<and> timeout \<le> fl_tick v - previous
       then votes_check C E A timeout c accused beat previous vs else Inr False)"

definition certificate_check ::
    "crypto \<Rightarrow> ed25519 \<Rightarrow> failover_auth \<Rightarrow> int \<Rightarrow> nat \<Rightarrow> int \<Rightarrow> int \<Rightarrow> leadership_certificate \<Rightarrow> bool result" where
  "certificate_check C E A timeout n previous_tick previous_nonce c =
     bindR (json_sha256 C (lc_payload (lc_nonce c) (lc_leader c) (lc_term c) (lc_votes c))) (\<lambda>digest.
       if lc_term c \<noteq> int n \<or> lc_leader c \<noteq> ROLE_ORDER ! n \<or> length (lc_votes c) < LS_QUORUM
          \<or> length (remdups (lc_voters c)) \<noteq> length (lc_votes c) \<or> lc_nonce c < previous_nonce
       then Inr False
       else bindR (votes_check C E A timeout c (ROLE_ORDER ! (n - 1)) (fl_tick (hd (lc_votes c))) previous_tick (lc_votes c))
         (\<lambda>ok. Inr (ok \<and> digest = lc_digest c)))"

text \<open>The loop over the certificates: the last certified tick and nonce.\<close>

primrec history_check ::
    "crypto \<Rightarrow> ed25519 \<Rightarrow> failover_auth \<Rightarrow> int \<Rightarrow> nat \<Rightarrow> int \<Rightarrow> int \<Rightarrow> leadership_certificate list \<Rightarrow> (int \<times> int) result" where
  "history_check C E A timeout n beat nonce [] = Inr (beat, nonce)"
| "history_check C E A timeout n beat nonce (c # cs) =
     bindR (certificate_check C E A timeout n beat nonce c) (\<lambda>ok.
       if ok then history_check C E A timeout (n + 1) (fl_tick (hd (lc_votes c))) (lc_nonce c) cs
       else Inl (ProtocolError ''invalid leadership certificate history''))"

definition leadership_check :: "crypto \<Rightarrow> ed25519 \<Rightarrow> leadership \<Rightarrow> leadership result" where
  "leadership_check C E L =
     (if ls_leader L \<notin> set ROLE_ORDER \<or> ls_term L \<noteq> int (length (ls_certs L)) \<or> ls_term L < 0
         \<or> ls_term L \<ge> int (length ROLE_ORDER) \<or> ls_heartbeat L < 0 \<or> ls_nonce L < 0
      then Inl (ProtocolError ''leadership snapshot violates term history'')
      else bindR (history_check C E (ls_authority L) (ls_timeout L) 1 0 0 (ls_certs L)) (\<lambda>(beat, nonce).
        if ROLE_ORDER ! length (ls_certs L) \<noteq> ls_leader L
        then Inl (ProtocolError ''leadership certificate does not match current leader'')
        else if ls_heartbeat L < beat \<or> ls_nonce L < nonce
        then Inl (ProtocolError ''leadership snapshot regresses certified state'')
        else Inr L))"

definition leadership_restore :: "crypto \<Rightarrow> ed25519 \<Rightarrow> failover_auth \<Rightarrow> json \<Rightarrow> leadership result" where
  "leadership_restore C E A raw =
     (if obj_fields raw = None then Inl Unmodelled
      else if obj_get raw ''schema'' \<noteq> Some (JStr ''splitchain-leadership/v1'')
      then Inl (ProtocolError ''unsupported leadership snapshot'')
      else
        bindR (bindR (lfield raw ''timeout_ticks'') as_int) (\<lambda>timeout.
        if timeout < 2 then Inl bad_leadership
        else
          bindR (bindR (lfield raw ''term'') as_int) (\<lambda>term.
          bindR (bindR (lfield raw ''leader'') as_str) (\<lambda>leader.
          bindR (bindR (lfield raw ''last_heartbeat_tick'') as_int) (\<lambda>beat.
          bindR (bindR (lfield raw ''committed_nonce'') as_int) (\<lambda>nonce.
          bindR (bindR (lfield raw ''certificates'') as_list) (\<lambda>raws.
          bindR (mapR read_certificate raws) (\<lambda>certs.
            leadership_check C E \<lparr>ls_authority = A, ls_timeout = timeout, ls_term = term, ls_leader = leader,
              ls_heartbeat = beat, ls_nonce = nonce, ls_votes = [], ls_certs = certs\<rparr>))))))))"

text \<open>
  \<open>accept_certificate\<close>: a peer's certificate is verified by restoring the own snapshot with the
  certificate appended. The edits of the snapshot dictionary are the updates of the record here.
\<close>

definition accept_certificate ::
    "crypto \<Rightarrow> ed25519 \<Rightarrow> leadership_certificate \<Rightarrow> (leadership, unit) operation" where
  "accept_certificate C E c L =
     (if c \<in> set (ls_certs L) then
        if c = List.last (ls_certs L) then (Inr (), L)
        else (Inl (ProtocolError ''stale leadership certificate''), L)
      else if lc_term c \<noteq> ls_term L + 1
      then (Inl (ProtocolError ''leadership certificate is not the next term''), L)
      else (case successor L of
          Inl e \<Rightarrow> (Inl e, L)
        | Inr candidate \<Rightarrow>
            if lc_leader c \<noteq> candidate
            then (Inl (ProtocolError ''leadership certificate is not the next term''), L)
            else if lc_nonce c \<noteq> ls_nonce L
            then (Inl (ProtocolError ''leadership certificate does not match local committed position''), L)
            else if lc_votes c = [] then (Inl (ProtocolError ''leadership certificate has no timeout votes''), L)
            else (case leadership_restore C E (ls_authority L) (leadership_snapshot
                (L\<lparr>ls_term := lc_term c, ls_leader := lc_leader c, ls_heartbeat := fl_tick (hd (lc_votes c)),
                   ls_certs := ls_certs L @ [c]\<rparr>)) of
                Inl e \<Rightarrow> (Inl e, L)
              | Inr verified \<Rightarrow>
                  (Inr (), L\<lparr>ls_term := ls_term verified, ls_leader := ls_leader verified,
                     ls_heartbeat := ls_heartbeat verified, ls_votes := [], ls_certs := ls_certs L @ [c]\<rparr>))))"

end
