(* ===== verification/Failover_Safety.thy ===== *)
theory Failover_Safety
  imports Failover "HOL-Library.Multiset"
begin

text \<open>
  Safety of the leadership state: the leader is a function of the term, every change of leader carries a
  quorum of verified timeout votes, what one node certifies its peers accept, and every reachable state
  survives a restart.
\<close>

section \<open>Snapshots are read back\<close>

lemma read_vote_public: "read_vote (fl_public v) = Inr v"
  by (simp add: read_vote_def fl_public_def fl_unsigned_fields_def vote_fields_def lfield_def obj_get_def insert_commute)

lemma read_votes_public: "mapR read_vote (map fl_public vs) = Inr vs"
  by (induction vs) (simp_all add: read_vote_public)

lemma read_certificate_public: "read_certificate (lc_public c) = Inr c"
  by (simp add: read_certificate_def lc_public_def lfield_def obj_get_def read_votes_public)

lemma read_certificates_public: "mapR read_certificate (map lc_public cs) = Inr cs"
  by (induction cs) (simp_all add: read_certificate_public)

lemma leadership_restore_snapshot:
  "2 \<le> ls_timeout L \<Longrightarrow>
     leadership_restore C E A (leadership_snapshot L) = leadership_check C E (L\<lparr>ls_authority := A, ls_votes := []\<rparr>)"
  by (cases L)
    (simp add: leadership_restore_def leadership_snapshot_def lfield_def obj_get_def obj_fields_def read_certificates_public)

section \<open>The invariant\<close>

definition certified :: "crypto \<Rightarrow> ed25519 \<Rightarrow> leadership \<Rightarrow> bool" where
  "certified C E L =
     (ls_term L = int (length (ls_certs L)) \<and> length (ls_certs L) < 3 \<and> ls_leader L = ROLE_ORDER ! length (ls_certs L)
      \<and> 0 \<le> ls_heartbeat L \<and> 0 \<le> ls_nonce L
      \<and> (\<exists>t n. history_check C E (ls_authority L) (ls_timeout L) 1 0 0 (ls_certs L) = Inr (t, n)
           \<and> t \<le> ls_heartbeat L \<and> n \<le> ls_nonce L))"

lemma role_order_facts:
  "length ROLE_ORDER = 3" "distinct ROLE_ORDER" "n < 3 \<Longrightarrow> ROLE_ORDER ! n \<in> set ROLE_ORDER"
  by (simp_all add: ROLE_ORDER_def) (auto simp: nth_Cons' numeral_3_eq_3 less_Suc_eq)

lemma leadership_check_Inr: "leadership_check C E L = Inr M \<longleftrightarrow> M = L \<and> certified C E L"
proof -
  have role: "n < 3 \<Longrightarrow> ROLE_ORDER ! n \<in> set ROLE_ORDER" for n by (rule role_order_facts)
  show ?thesis
    using role [of "length (ls_certs L)"]
    by (cases "history_check C E (ls_authority L) (ls_timeout L) 1 0 0 (ls_certs L)")
      (auto simp: leadership_check_def certified_def role_order_facts(1) not_less split: if_split_asm)
qed

text \<open>A pending vote: verified and about the present term.\<close>

definition votes_pending :: "crypto \<Rightarrow> ed25519 \<Rightarrow> leadership \<Rightarrow> bool" where
  "votes_pending C E L =
     (length (ls_votes L) < LS_QUORUM
      \<and> (\<forall>(k, v) \<in> set (ls_votes L). fl_voter v = k \<and> vote_verify C E (ls_authority L) v = Inr True
           \<and> (\<exists>c. successor L = Inr c \<and> vote_fits L c v)))"

definition leadership_inv :: "crypto \<Rightarrow> ed25519 \<Rightarrow> leadership \<Rightarrow> bool" where
  "leadership_inv C E L = (2 \<le> ls_timeout L \<and> certified C E L \<and> votes_pending C E L)"

lemma leadership_init_inv: "leadership_init A timeout = Inr L \<Longrightarrow> leadership_inv C E L"
  by (auto simp: leadership_init_def leadership_inv_def certified_def votes_pending_def LS_QUORUM_def ROLE_ORDER_def
      split: if_splits)

lemma successor_next:
  "n < 2 \<Longrightarrow> ls_leader L = ROLE_ORDER ! n \<Longrightarrow> successor L = Inr (ROLE_ORDER ! (n + 1))"
  "ls_leader L = ROLE_ORDER ! 2 \<Longrightarrow> successor L = Inl (ProtocolError ''all ordered leaders are exhausted'')"
  by (auto simp: successor_def ROLE_ORDER_def less_2_cases_iff)

lemma certified_successor:
  assumes "certified C E L" "successor L = Inr c"
  shows "length (ls_certs L) < 2" "c = ROLE_ORDER ! (length (ls_certs L) + 1)"
proof -
  from assms(1) have n: "length (ls_certs L) < 3" "ls_leader L = ROLE_ORDER ! length (ls_certs L)"
    by (auto simp: certified_def)
  show lt: "length (ls_certs L) < 2"
  proof (rule ccontr)
    assume "\<not> length (ls_certs L) < 2"
    with n have "ls_leader L = ROLE_ORDER ! 2" by (metis less_antisym numeral_3_eq_3 numeral_2_eq_2)
    from successor_next(2) [OF this] assms(2) show False by simp
  qed
  from successor_next(1) [OF lt n(2)] assms(2) show "c = ROLE_ORDER ! (length (ls_certs L) + 1)" by simp
qed

lemma history_check_snoc:
  "history_check C E A timeout n t m (cs @ [c]) =
     bindR (history_check C E A timeout n t m cs) (\<lambda>(t', m').
       bindR (certificate_check C E A timeout (n + length cs) t' m' c) (\<lambda>ok.
         if ok then Inr (fl_tick (hd (lc_votes c)), lc_nonce c)
         else Inl (ProtocolError ''invalid leadership certificate history'')))"
proof (induction cs arbitrary: n t m)
  case Nil
  then show ?case
    by (cases "certificate_check C E A timeout n t m c") auto
next
  case (Cons d cs)
  then show ?case by (cases "certificate_check C E A timeout n t m d") auto
qed

lemma votes_check_all:
  "\<forall>v \<in> set vs. vote_verify C E A v = Inr True \<and> fl_term v = lc_term c \<and> fl_accused v = accused
      \<and> fl_candidate v = lc_leader c \<and> fl_voter v \<noteq> accused \<and> fl_nonce v = lc_nonce c \<and> fl_tick v = t
      \<and> timeout \<le> fl_tick v - prev
   \<Longrightarrow> votes_check C E A timeout c accused t prev vs = Inr True"
  by (induction vs) auto

lemma votes_check_True:
  "votes_check C E A timeout c accused t prev vs = Inr True \<Longrightarrow>
     \<forall>v \<in> set vs. vote_verify C E A v = Inr True \<and> fl_term v = lc_term c \<and> fl_accused v = accused
      \<and> fl_candidate v = lc_leader c \<and> fl_voter v \<noteq> accused \<and> fl_nonce v = lc_nonce c \<and> fl_tick v = t
      \<and> timeout \<le> fl_tick v - prev"
proof (induction vs)
  case (Cons v vs)
  then obtain b where b: "vote_verify C E A v = Inr b" by (cases "vote_verify C E A v") auto
  with Cons show ?case by (auto split: if_split_asm)
qed simp

lemma fl_public_finite [simp]: "\<not> has_nonfinite (fl_public v)"
  by (simp add: fl_public_def fl_unsigned_fields_def)

lemma json_sha256_payload: "json_sha256 C (lc_payload n l t vs) = Inr (sha256 C (render (sort_keys (lc_payload n l t vs))))"
  by (simp add: json_sha256_def canonical_json_def lc_payload_def list_ex_iff)

text \<open>A certificate made of verified, fitting votes passes the check of its place in the history.\<close>

lemma certificate_check_ok:
  assumes "lc_term c = int n" "lc_leader c = ROLE_ORDER ! n" "LS_QUORUM \<le> length (lc_votes c)"
    "distinct (lc_voters c)" "m \<le> lc_nonce c"
    "lc_digest c = sha256 C (render (sort_keys (lc_payload (lc_nonce c) (lc_leader c) (lc_term c) (lc_votes c))))"
    "\<forall>v \<in> set (lc_votes c). vote_verify C E A v = Inr True \<and> fl_term v = lc_term c \<and> fl_accused v = ROLE_ORDER ! (n - 1)
      \<and> fl_candidate v = lc_leader c \<and> fl_voter v \<noteq> ROLE_ORDER ! (n - 1) \<and> fl_nonce v = lc_nonce c
      \<and> fl_tick v = fl_tick (hd (lc_votes c)) \<and> timeout \<le> fl_tick v - t"
  shows "certificate_check C E A timeout n t m c = Inr True"
  using votes_check_all [OF assms(7)] assms(1-6)
  by (simp add: certificate_check_def json_sha256_payload distinct_remdups_id lc_voters_def)

lemma certificate_check_True:
  assumes "certificate_check C E A timeout n t m c = Inr True"
  shows "lc_term c = int n" "lc_leader c = ROLE_ORDER ! n" "LS_QUORUM \<le> length (lc_votes c)"
    "distinct (lc_voters c)" "m \<le> lc_nonce c"
    "\<forall>v \<in> set (lc_votes c). vote_verify C E A v = Inr True \<and> fl_term v = lc_term c \<and> fl_accused v = ROLE_ORDER ! (n - 1)
      \<and> fl_candidate v = lc_leader c \<and> fl_voter v \<noteq> ROLE_ORDER ! (n - 1) \<and> fl_nonce v = lc_nonce c
      \<and> fl_tick v = fl_tick (hd (lc_votes c)) \<and> timeout \<le> fl_tick v - t"
proof -
  let ?votes = "votes_check C E A timeout c (ROLE_ORDER ! (n - 1)) (fl_tick (hd (lc_votes c))) t (lc_votes c)"
  from assms have ok: "\<not> (lc_term c \<noteq> int n \<or> lc_leader c \<noteq> ROLE_ORDER ! n \<or> length (lc_votes c) < LS_QUORUM
          \<or> length (remdups (lc_voters c)) \<noteq> length (lc_votes c) \<or> lc_nonce c < m)"
    and "?votes = Inr True"
    by (auto simp: certificate_check_def json_sha256_payload bindR_Inr_iff split: if_split_asm)
  from votes_check_True [OF this(2)] show
    "\<forall>v \<in> set (lc_votes c). vote_verify C E A v = Inr True \<and> fl_term v = lc_term c \<and> fl_accused v = ROLE_ORDER ! (n - 1)
      \<and> fl_candidate v = lc_leader c \<and> fl_voter v \<noteq> ROLE_ORDER ! (n - 1) \<and> fl_nonce v = lc_nonce c
      \<and> fl_tick v = fl_tick (hd (lc_votes c)) \<and> timeout \<le> fl_tick v - t" .
  have "length (remdups (lc_voters c)) = length (lc_voters c)" using ok by (simp add: lc_voters_def)
  then show "distinct (lc_voters c)" by (metis length_remdups_eq remdups_id_iff_distinct)
  from ok show "lc_term c = int n" "lc_leader c = ROLE_ORDER ! n" "LS_QUORUM \<le> length (lc_votes c)" "m \<le> lc_nonce c"
    by simp_all
qed

section \<open>Every operation keeps the invariant\<close>

datatype lead_op = BeatOp string int int int | VoteOp failure_vote | CertOp leadership_certificate

fun lead_step :: "crypto \<Rightarrow> ed25519 \<Rightarrow> lead_op \<Rightarrow> (leadership, leadership_certificate option) operation" where
  "lead_step C E (BeatOp leader t beat n) L = map_op (\<lambda>_. None) (heartbeat leader t beat n L)"
| "lead_step C E (VoteOp v) L = submit C E v L"
| "lead_step C E (CertOp c) L = map_op (\<lambda>_. None) (accept_certificate C E c L)"

lemma heartbeat_inv:
  assumes "leadership_inv C E L"
  shows "leadership_inv C E (snd (heartbeat leader t beat n L))"
  using assms
  by (auto simp: heartbeat_def leadership_inv_def certified_def votes_pending_def LS_QUORUM_def split: sum.splits)

lemma certified_extend:
  assumes "certified C E L" "successor L = Inr candidate"
    and "certificate_check C E (ls_authority L) (ls_timeout L) (length (ls_certs L) + 1) t n c = Inr True"
    and "history_check C E (ls_authority L) (ls_timeout L) 1 0 0 (ls_certs L) = Inr (t, n)"
    and "beat = fl_tick (hd (lc_votes c))" "0 \<le> beat" "ls_nonce L = lc_nonce c"
  shows "certified C E (L\<lparr>ls_term := ls_term L + 1, ls_leader := candidate, ls_heartbeat := beat,
     ls_votes := vs, ls_certs := ls_certs L @ [c]\<rparr>)"
  using assms certified_successor [OF assms(1,2)]
  by (auto simp: certified_def history_check_snoc nth_append)

text \<open>The second vote completes the quorum: the two votes are the ones of the certificate.\<close>

lemma certify_two:
  assumes "ls_votes L = [(a, v), (b, w)]" "a = fl_voter v" "b = fl_voter w"
  obtains vs c where "mset vs = {#v, w#}" "distinct [a, b] \<longrightarrow> distinct (map fl_voter vs)" "vs \<noteq> []"
    "c = \<lparr>lc_term = ls_term L + 1, lc_leader = candidate, lc_nonce = ls_nonce L, lc_votes = vs,
       lc_digest = sha256 C (render (sort_keys (lc_payload (ls_nonce L) candidate (ls_term L + 1) vs)))\<rparr>"
    "certify C candidate L = (Inr (Some c), L\<lparr>ls_term := ls_term L + 1, ls_leader := candidate,
       ls_heartbeat := fl_tick v, ls_votes := [], ls_certs := ls_certs L @ [c]\<rparr>)"
proof -
  define vs where "vs = map snd (sorted_dict (ls_votes L))"
  have m: "mset vs = {#v, w#}" unfolding vs_def sorted_dict_def using assms(1) by (simp flip: mset_map)
  have "mset (map fl_voter vs) = mset [a, b]" using m assms(2,3) by simp
  then have d: "distinct [a, b] \<longrightarrow> distinct (map fl_voter vs)" by (metis mset_eq_imp_distinct_iff)
  from m have ne: "vs \<noteq> []" by auto
  have eq: "map snd (sorted_dict [(a, v), (b, w)]) = vs" unfolding vs_def assms(1) ..
  show thesis
    by (rule that [OF m d ne refl]) (simp add: certify_def json_sha256_payload eq assms(1) Let_def)
qed


text \<open>What an accepted vote does: nothing, if it is pending already; it is kept, or it certifies.\<close>

lemma submit_Inr:
  assumes "leadership_inv C E L" "fst (submit C E v L) = Inr r"
  obtains candidate where "successor L = Inr candidate" "vote_verify C E (ls_authority L) v = Inr True"
    "vote_fits L candidate v"
    "(r = None \<and> snd (submit C E v L) = L \<and> ls_votes L = [(fl_voter v, v)])
     \<or> (r = None \<and> snd (submit C E v L) = L\<lparr>ls_votes := [(fl_voter v, v)]\<rparr> \<and> ls_votes L = [])
     \<or> (\<exists>w. ls_votes L = [(fl_voter w, w)] \<and> fl_voter w \<noteq> fl_voter v \<and> fl_tick w = fl_tick v
          \<and> submit C E v L = certify C candidate (L\<lparr>ls_votes := [(fl_voter w, w), (fl_voter v, v)]\<rparr>))"
proof -
  from assms(2) obtain candidate where c: "successor L = Inr candidate" "vote_verify C E (ls_authority L) v = Inr True"
    "vote_fits L candidate v"
    by (auto simp: submit_def split: sum.splits if_splits)
  from assms(1) have "length (ls_votes L) < 2" "\<forall>(k, w) \<in> set (ls_votes L). fl_voter w = k"
    by (auto simp: leadership_inv_def votes_pending_def LS_QUORUM_def)
  then consider "ls_votes L = []" | w where "ls_votes L = [(fl_voter w, w)]"
    by (cases "ls_votes L") (auto simp: less_Suc_eq)
  then show thesis
  proof cases
    case 1
    with c assms(2) show ?thesis by (intro that [OF c]) (simp add: submit_def LS_QUORUM_def Let_def)
  next
    case 2
    show ?thesis
    proof (cases "fl_voter w = fl_voter v")
      case True
      with 2 c assms(2) show ?thesis
        by (intro that [OF c] disjI1) (cases "w = v"; simp add: submit_def)
    next
      case False
      with 2 c assms(2) have tick: "fl_tick w = fl_tick v"
        by (simp add: submit_def split: if_split_asm)
      with False 2 c show ?thesis
        by (intro that [OF c] disjI2 exI [of _ w]) (simp add: submit_def LS_QUORUM_def Let_def)
    qed
  qed
qed

lemma submit_Inl: "fst (submit C E v L) = Inl e \<Longrightarrow> snd (submit C E v L) = L"
  by (auto simp: submit_def certify_def json_sha256_payload Let_def split: sum.splits if_splits option.splits)

lemma submit_certificate:
  assumes "leadership_inv C E L" "fst (submit C E v L) = Inr (Some c)"
  obtains candidate where "successor L = Inr candidate" "lc_term c = ls_term L + 1" "lc_leader c = candidate"
    "lc_nonce c = ls_nonce L" "lc_votes c \<noteq> []"
    "snd (submit C E v L) = L\<lparr>ls_term := ls_term L + 1, ls_leader := candidate,
       ls_heartbeat := fl_tick (hd (lc_votes c)), ls_votes := [], ls_certs := ls_certs L @ [c]\<rparr>"
    "ls_heartbeat L \<le> fl_tick (hd (lc_votes c))"
    "\<forall>t m. t \<le> ls_heartbeat L \<longrightarrow> m \<le> ls_nonce L \<longrightarrow>
       certificate_check C E (ls_authority L) (ls_timeout L) (length (ls_certs L) + 1) t m c = Inr True"
proof -
  from assms obtain candidate w where s: "successor L = Inr candidate" "vote_verify C E (ls_authority L) v = Inr True"
    "vote_fits L candidate v" "ls_votes L = [(fl_voter w, w)]" "fl_voter w \<noteq> fl_voter v" "fl_tick w = fl_tick v"
    "submit C E v L = certify C candidate (L\<lparr>ls_votes := [(fl_voter w, w), (fl_voter v, v)]\<rparr>)"
    by (rule submit_Inr) auto
  from assms(1) s(1,4) have w: "vote_verify C E (ls_authority L) w = Inr True" "vote_fits L candidate w"
    by (auto simp: leadership_inv_def votes_pending_def)
  then have late: "ls_timeout L \<le> fl_tick w - ls_heartbeat L" by (simp add: vote_fits_def)
  let ?L = "L\<lparr>ls_votes := [(fl_voter w, w), (fl_voter v, v)]\<rparr>"
  obtain vs c' where vs: "mset vs = {#w, v#}" "distinct [fl_voter w, fl_voter v] \<longrightarrow> distinct (map fl_voter vs)" "vs \<noteq> []"
    and c': "c' = \<lparr>lc_term = ls_term ?L + 1, lc_leader = candidate, lc_nonce = ls_nonce ?L, lc_votes = vs,
       lc_digest = sha256 C (render (sort_keys (lc_payload (ls_nonce ?L) candidate (ls_term ?L + 1) vs)))\<rparr>"
    "certify C candidate ?L = (Inr (Some c'), ?L\<lparr>ls_term := ls_term ?L + 1, ls_leader := candidate,
       ls_heartbeat := fl_tick w, ls_votes := [], ls_certs := ls_certs ?L @ [c']\<rparr>)"
    by (rule certify_two [of ?L "fl_voter w" w "fl_voter v" v]) auto
  have "set vs = {w, v}" using vs(1) by (metis set_mset_mset set_mset_add_mset_insert set_mset_empty)
  then have hd: "x \<in> set vs \<Longrightarrow> fl_tick x = fl_tick w" for x using s(6) by auto
  with vs(3) have tick: "fl_tick (hd vs) = fl_tick w" by simp
  have "length vs = 2" using vs(1) by (metis size_mset size_add_mset size_empty numeral_2_eq_2)
  moreover have cc: "c' = c" using assms(2) s(7) c'(2) by simp
  moreover have crt: "certified C E L" using assms(1) by (simp add: leadership_inv_def)
  moreover note cand = certified_successor [OF crt s(1)]
  moreover have "ls_leader L = ROLE_ORDER ! length (ls_certs L)" "ls_term L = int (length (ls_certs L))" "0 \<le> ls_heartbeat L"
    using crt by (auto simp: certified_def)
  moreover have "x \<in> set vs \<Longrightarrow> vote_verify C E (ls_authority L) x = Inr True \<and> vote_fits L candidate x" for x
    using \<open>set vs = {w, v}\<close> s(2,3) w by auto
  ultimately have "certificate_check C E (ls_authority L) (ls_timeout L) (length (ls_certs L) + 1) t m c = Inr True"
    if "t \<le> ls_heartbeat L" "m \<le> ls_nonce L" for t m
    using that vs(2) s(5) tick hd c'(1) late
    by (intro certificate_check_ok) (auto simp: LS_QUORUM_def lc_voters_def vote_fits_def)
  moreover have "ls_heartbeat L \<le> fl_tick w"
    using w(2) assms(1) by (auto simp: vote_fits_def leadership_inv_def)
  ultimately show thesis
    using s(1,7) c' cc tick vs(3) by (intro that [of candidate]) auto
qed


lemma submit_inv:
  assumes "leadership_inv C E L"
  shows "leadership_inv C E (snd (submit C E v L))"
proof (cases "fst (submit C E v L)")
  case (Inl e)
  from submit_Inl [OF this] assms show ?thesis by simp
next
  case (Inr r)
  show ?thesis
  proof (cases r)
    case None
    from assms Inr show ?thesis
    proof (rule submit_Inr)
      fix candidate
      assume c: "successor L = Inr candidate" "vote_verify C E (ls_authority L) v = Inr True" "vote_fits L candidate v"
      let ?L = "L\<lparr>ls_votes := [(fl_voter v, v)]\<rparr>"
      from assms c have "leadership_inv C E ?L"
        by (simp add: leadership_inv_def certified_def votes_pending_def LS_QUORUM_def successor_def vote_fits_def cong: sum.case_cong)
      moreover assume "(r = None \<and> snd (submit C E v L) = L \<and> ls_votes L = [(fl_voter v, v)])
         \<or> (r = None \<and> snd (submit C E v L) = ?L \<and> ls_votes L = [])
         \<or> (\<exists>w. ls_votes L = [(fl_voter w, w)] \<and> fl_voter w \<noteq> fl_voter v \<and> fl_tick w = fl_tick v
              \<and> submit C E v L = certify C candidate (L\<lparr>ls_votes := [(fl_voter w, w), (fl_voter v, v)]\<rparr>))"
      moreover have "fst (certify C candidate M) \<noteq> Inr None" for M
        by (simp add: certify_def Let_def json_sha256_payload)
      ultimately show ?thesis using assms Inr None by auto
    qed
  next
    case (Some c)
    with Inr have "fst (submit C E v L) = Inr (Some c)" by simp
    with assms show ?thesis
    proof (rule submit_certificate)
      fix candidate
      assume c: "successor L = Inr candidate" "lc_nonce c = ls_nonce L"
        "snd (submit C E v L) = L\<lparr>ls_term := ls_term L + 1, ls_leader := candidate,
           ls_heartbeat := fl_tick (hd (lc_votes c)), ls_votes := [], ls_certs := ls_certs L @ [c]\<rparr>"
        "ls_heartbeat L \<le> fl_tick (hd (lc_votes c))"
        "\<forall>t m. t \<le> ls_heartbeat L \<longrightarrow> m \<le> ls_nonce L \<longrightarrow>
           certificate_check C E (ls_authority L) (ls_timeout L) (length (ls_certs L) + 1) t m c = Inr True"
      from assms have inv: "certified C E L" "2 \<le> ls_timeout L" by (auto simp: leadership_inv_def)
      then obtain t n where h: "history_check C E (ls_authority L) (ls_timeout L) 1 0 0 (ls_certs L) = Inr (t, n)"
        "t \<le> ls_heartbeat L" "n \<le> ls_nonce L" "0 \<le> ls_heartbeat L"
        by (auto simp: certified_def split: sum.splits)
      from certified_extend [OF inv(1) c(1) c(5) [rule_format, OF h(2,3)] h(1) refl, of "[]"] h(4) c(2,4) inv(2)
      show ?thesis unfolding c(3) by (simp add: leadership_inv_def votes_pending_def LS_QUORUM_def)
    qed
  qed
qed

lemma accept_certificate_Inr:
  assumes "fst (accept_certificate C E c L) = Inr ()" "c \<notin> set (ls_certs L)" "2 \<le> ls_timeout L"
  obtains candidate where "successor L = Inr candidate" "lc_leader c = candidate" "lc_term c = ls_term L + 1"
    "lc_nonce c = ls_nonce L"
    "snd (accept_certificate C E c L) = L\<lparr>ls_term := ls_term L + 1, ls_leader := candidate,
       ls_heartbeat := fl_tick (hd (lc_votes c)), ls_votes := [], ls_certs := ls_certs L @ [c]\<rparr>"
    "certified C E (snd (accept_certificate C E c L))"
proof -
  let ?M = "L\<lparr>ls_term := lc_term c, ls_leader := lc_leader c, ls_heartbeat := fl_tick (hd (lc_votes c)),
     ls_certs := ls_certs L @ [c]\<rparr>"
  from assms(3) have re: "leadership_restore C E (ls_authority L) (leadership_snapshot ?M) = leadership_check C E (?M\<lparr>ls_votes := []\<rparr>)"
    by (subst leadership_restore_snapshot) simp_all
  from assms obtain candidate verified where a: "successor L = Inr candidate" "lc_leader c = candidate" "lc_term c = ls_term L + 1"
    "lc_nonce c = ls_nonce L" "leadership_restore C E (ls_authority L) (leadership_snapshot ?M) = Inr verified"
    "snd (accept_certificate C E c L) = L\<lparr>ls_term := ls_term verified, ls_leader := ls_leader verified,
       ls_heartbeat := ls_heartbeat verified, ls_votes := [], ls_certs := ls_certs L @ [c]\<rparr>"
    by (auto simp: accept_certificate_def split: if_splits sum.splits)
  from a(5) [unfolded re] have "verified = ?M\<lparr>ls_votes := []\<rparr>" "certified C E (?M\<lparr>ls_votes := []\<rparr>)"
    by (simp_all add: leadership_check_Inr)
  with a show thesis by (intro that [of candidate]) (simp_all add: certified_def)
qed

lemma accept_certificate_Inl: "fst (accept_certificate C E c L) = Inl e \<Longrightarrow> snd (accept_certificate C E c L) = L"
  by (auto simp: accept_certificate_def split: if_splits sum.splits)

lemma accept_certificate_again: "c \<in> set (ls_certs L) \<Longrightarrow> snd (accept_certificate C E c L) = L"
  by (simp add: accept_certificate_def)

lemma accept_certificate_inv:
  assumes "leadership_inv C E L"
  shows "leadership_inv C E (snd (accept_certificate C E c L))"
proof (cases "fst (accept_certificate C E c L)")
  case (Inl e)
  from accept_certificate_Inl [OF this] assms show ?thesis by simp
next
  case (Inr u)
  show ?thesis
  proof (cases "c \<in> set (ls_certs L)")
    case True
    with assms show ?thesis by (simp add: accept_certificate_again)
  next
    case False
    from assms have "2 \<le> ls_timeout L" by (simp add: leadership_inv_def)
    with Inr False obtain candidate where "certified C E (snd (accept_certificate C E c L))"
      "snd (accept_certificate C E c L) = L\<lparr>ls_term := ls_term L + 1, ls_leader := candidate,
         ls_heartbeat := fl_tick (hd (lc_votes c)), ls_votes := [], ls_certs := ls_certs L @ [c]\<rparr>"
      by (auto elim: accept_certificate_Inr)
    with assms show ?thesis by (simp add: leadership_inv_def votes_pending_def LS_QUORUM_def)
  qed
qed

interpretation leadership: atomic_machine "lead_step C E" "leadership_inv C E" for C E
proof
  show "leadership_inv C E L \<Longrightarrow> leadership_inv C E (snd (lead_step C E x L))" for x L
    by (cases x) (simp_all add: heartbeat_inv submit_inv accept_certificate_inv)
  show "fst (lead_step C E x L) = Inl e \<Longrightarrow> snd (lead_step C E x L) = L" for x L e
    by (cases x) (auto simp: submit_Inl accept_certificate_Inl heartbeat_def split: if_splits)
qed


section \<open>Properties\<close>

text \<open>The authorities that the constructors build: every voter they know is an ordered role.\<close>

definition authority_for :: "ed25519 \<Rightarrow> failover_auth \<Rightarrow> bool" where
  "authority_for E A =
     ((\<exists>ks. failover_init (Some ks) None = Inr A)
      \<or> (\<exists>role private publics k. keyring_make E role private publics = Inr k \<and> failover_init None (Some k) = Inr A))"

lemma vote_verify_role:
  assumes "authority_for E A" "vote_verify C E A v = Inr True"
  shows "fl_voter v \<in> set ROLE_ORDER"
proof -
  have key: "map_of d k = Some x \<Longrightarrow> k \<in> set (keys d)" for d :: "(string, string) dict" and k x
    by (force simp: keys_def dest: map_of_SomeD)
  from assms(1) consider ks where "A = VoteKeys ks" "set (keys ks) = set ROLE_ORDER"
    | k where "A = VoteKeyring k" "set (keys (kr_public k)) = set ROLE_ORDER"
    by (auto simp: authority_for_def failover_init_def keyring_make_def split: if_splits)
  then show ?thesis
  proof cases
    case 1
    with assms(2) key show ?thesis
      by (auto simp: vote_verify_def failover_check_def split: option.splits)
  next
    case 2
    with assms(2) key show ?thesis
      by (auto simp: vote_verify_def failover_check_def bindR_Inr_iff keyring_verify_def split: option.splits)
  qed
qed

lemma history_check_nth:
  "history_check C E A timeout n t m cs = Inr (t', m') \<Longrightarrow> i < length cs \<Longrightarrow>
     \<exists>m0. certificate_check C E A timeout (n + i) (if i = 0 then t else fl_tick (hd (lc_votes (cs ! (i - 1))))) m0 (cs ! i) = Inr True"
proof (induction cs arbitrary: n t m i)
  case (Cons c cs)
  from Cons.prems(1) have c: "certificate_check C E A timeout n t m c = Inr True"
    "history_check C E A timeout (n + 1) (fl_tick (hd (lc_votes c))) (lc_nonce c) cs = Inr (t', m')"
    by (auto simp: bindR_Inr_iff split: if_splits)
  show ?case
  proof (cases i)
    case 0
    with c(1) show ?thesis by auto
  next
    case (Suc j)
    with Cons.IH [OF c(2), of j] Cons.prems(2) show ?thesis by (cases j) auto
  qed
qed simp

text \<open>A checked certificate is signed by both survivors: by every ordered role but the accused.\<close>

lemma certificate_unanimous:
  assumes "authority_for E A" "certificate_check C E A timeout (Suc i) t m c = Inr True" "i < 2"
  shows "set (lc_voters c) = set ROLE_ORDER - {ROLE_ORDER ! i}"
proof (rule card_subset_eq)
  note c = certificate_check_True [OF assms(2)]
  show "set (lc_voters c) \<subseteq> set ROLE_ORDER - {ROLE_ORDER ! i}"
    using c(6) vote_verify_role [OF assms(1)] by (auto simp: lc_voters_def)
  have "card (set ROLE_ORDER - {ROLE_ORDER ! i}) = 2"
    using assms(3) by (auto simp: ROLE_ORDER_def less_2_cases_iff card_insert_if)
  moreover have "2 \<le> card (set (lc_voters c))"
    using c(3,4) by (simp add: distinct_card LS_QUORUM_def) (simp add: lc_voters_def)
  moreover have "card (set (lc_voters c)) \<le> card (set ROLE_ORDER - {ROLE_ORDER ! i})"
    by (rule card_mono) (use \<open>set (lc_voters c) \<subseteq> _\<close> in auto)
  ultimately show "card (set (lc_voters c)) = card (set ROLE_ORDER - {ROLE_ORDER ! i})" by simp
qed simp

lemma certify_frame: "ls_authority (snd (certify C c L)) = ls_authority L" "ls_timeout (snd (certify C c L)) = ls_timeout L"
  by (auto simp: certify_def Let_def split: sum.splits)

lemma lead_run_frame:
  "ls_authority (run_ops (lead_step C E) ops L) = ls_authority L \<and> ls_timeout (run_ops (lead_step C E) ops L) = ls_timeout L"
proof (induction ops arbitrary: L)
  case (Cons x ops)
  have "ls_authority (snd (lead_step C E x L)) = ls_authority L \<and> ls_timeout (snd (lead_step C E x L)) = ls_timeout L"
    by (cases x) (auto simp: heartbeat_def submit_def accept_certificate_def certify_frame Let_def split: sum.splits option.splits)
  with Cons.IH show ?case by simp
qed simp

lemma leadership_reachable:
  assumes "leadership_init A timeout = Inr L0"
  shows "leadership_inv C E (run_ops (lead_step C E) ops L0)"
    "ls_authority (run_ops (lead_step C E) ops L0) = A" "ls_timeout (run_ops (lead_step C E) ops L0) = timeout"
proof -
  have "ls_authority L0 = A" "ls_timeout L0 = timeout" using assms by (auto simp: leadership_init_def split: if_splits)
  then show "ls_authority (run_ops (lead_step C E) ops L0) = A" "ls_timeout (run_ops (lead_step C E) ops L0) = timeout"
    using lead_run_frame [of C E ops L0] by simp_all
  show "leadership_inv C E (run_ops (lead_step C E) ops L0)"
    by (rule leadership.run_inv) (rule leadership_init_inv [OF assms])
qed

lemma certified_nth:
  assumes "certified C E L" "i < length (ls_certs L)"
  obtains m where "certificate_check C E (ls_authority L) (ls_timeout L) (Suc i)
    (if i = 0 then 0 else fl_tick (hd (lc_votes (ls_certs L ! (i - 1))))) m (ls_certs L ! i) = Inr True"
  using assms history_check_nth [of C E "ls_authority L" "ls_timeout L" 1 0 0 "ls_certs L"]
  by (fastforce simp: certified_def split: sum.splits)

text \<open>C11. Leadership is certified: whatever heartbeats, votes and certificates a node is given, its leader is
  the role of its term, there are at most two changes, and every change is carried by the verified votes
  of both surviving roles, who accuse the former leader and elect the next role; the timeouts of
  consecutive changes are at least \<open>timeout_ticks\<close> apart.\<close>

theorem leadership_safe:
  assumes "authority_for E A" "leadership_init A timeout = Inr L0" "L = run_ops (lead_step C E) ops L0"
  shows "ls_term L = int (length (ls_certs L)) \<and> ls_term L \<le> 2 \<and> ls_leader L = ROLE_ORDER ! nat (ls_term L)
    \<and> list_all (\<lambda>i. let c = ls_certs L ! i; prev = if i = 0 then 0 else fl_tick (hd (lc_votes (ls_certs L ! (i - 1)))) in
        set (lc_voters c) = set ROLE_ORDER - {ROLE_ORDER ! i}
        \<and> list_all (\<lambda>v. vote_verify C E A v = Inr True \<and> fl_term v = int (i + 1) \<and> fl_accused v = ROLE_ORDER ! i
             \<and> fl_candidate v = ROLE_ORDER ! (i + 1) \<and> timeout \<le> fl_tick v - prev) (lc_votes c))
      [0..<length (ls_certs L)]"
proof -
  have inv: "certified C E L" and A: "ls_authority L = A" "ls_timeout L = timeout"
    using leadership_reachable [OF assms(2), of C E ops] assms(3) by (auto simp: leadership_inv_def)
  have n: "ls_term L = int (length (ls_certs L))" "length (ls_certs L) < 3" "ls_leader L = ROLE_ORDER ! length (ls_certs L)"
    using inv by (auto simp: certified_def)
  have "set (lc_voters (ls_certs L ! i)) = set ROLE_ORDER - {ROLE_ORDER ! i}
      \<and> (\<forall>v \<in> set (lc_votes (ls_certs L ! i)). vote_verify C E A v = Inr True \<and> fl_term v = int (i + 1)
           \<and> fl_accused v = ROLE_ORDER ! i \<and> fl_candidate v = ROLE_ORDER ! (i + 1)
           \<and> timeout \<le> fl_tick v - (if i = 0 then 0 else fl_tick (hd (lc_votes (ls_certs L ! (i - 1))))))"
    if i: "i < length (ls_certs L)" for i
  proof -
    from certified_nth [OF inv i] A obtain m where
      c: "certificate_check C E A timeout (Suc i) (if i = 0 then 0 else fl_tick (hd (lc_votes (ls_certs L ! (i - 1))))) m (ls_certs L ! i) = Inr True"
      by metis
    have "i < 2" using n(2) i by simp
    with certificate_check_True [OF c] certificate_unanimous [OF assms(1) c] show ?thesis by auto
  qed
  with n show ?thesis by (auto simp: list_all_iff Let_def)
qed


text \<open>A node survives a restart: the snapshot of a reachable leadership state is accepted by
  \<open>from_snapshot\<close> under the same authority and gives the state back, pending votes apart.\<close>

theorem leadership_restart:
  assumes "leadership_init A timeout = Inr L0" "L = run_ops (lead_step C E) ops L0"
  shows "leadership_restore C E A (leadership_snapshot L) = Inr (L\<lparr>ls_votes := []\<rparr>)"
proof -
  note r = leadership_reachable [OF assms(1), of C E ops, folded assms(2)]
  from r(1) have "2 \<le> ls_timeout L" "certified C E L" by (auto simp: leadership_inv_def)
  moreover have "L\<lparr>ls_authority := A, ls_votes := []\<rparr> = L\<lparr>ls_votes := []\<rparr>" using r(2) by (cases L) simp
  moreover have "certified C E (L\<lparr>ls_votes := []\<rparr>)" using \<open>certified C E L\<close> by (simp add: certified_def)
  ultimately show ?thesis by (simp add: leadership_restore_snapshot leadership_check_Inr)
qed

lemma certified_heartbeat:
  "certified C E L \<Longrightarrow> certified C E M \<Longrightarrow> ls_authority M = ls_authority L \<Longrightarrow> ls_timeout M = ls_timeout L \<Longrightarrow>
   ls_certs M = ls_certs L \<Longrightarrow> ls_term M = ls_term L \<and> ls_leader M = ls_leader L"
  by (simp add: certified_def)

text \<open>A certificate that one node issues is accepted by every node with the same history and position.\<close>

lemma certificate_travels:
  assumes "leadership_inv C E K" "leadership_inv C E L" "ls_authority K = ls_authority L" "ls_timeout K = ls_timeout L"
    and "fst (submit C E v L) = Inr (Some c)" "L' = snd (submit C E v L)"
    and "ls_certs K = ls_certs L" "ls_nonce K = ls_nonce L"
  shows "accept_certificate C E c K = (Inr (), K\<lparr>ls_term := ls_term L', ls_leader := ls_leader L',
      ls_heartbeat := ls_heartbeat L', ls_votes := [], ls_certs := ls_certs L'\<rparr>)
    \<and> ls_leader L' = lc_leader c \<and> ls_term L' = lc_term c"
proof -
  have cK: "certified C E K" and cL: "certified C E L" and to: "2 \<le> ls_timeout K"
    using assms(1,2) by (auto simp: leadership_inv_def)
  have same: "ls_term K = ls_term L" "ls_leader K = ls_leader L"
    using certified_heartbeat [OF cL cK] assms(3,4,7) by auto
  from assms(2,5) obtain candidate where c: "successor L = Inr candidate" "lc_term c = ls_term L + 1"
    "lc_leader c = candidate" "lc_nonce c = ls_nonce L" "lc_votes c \<noteq> []"
    "snd (submit C E v L) = L\<lparr>ls_term := ls_term L + 1, ls_leader := candidate,
       ls_heartbeat := fl_tick (hd (lc_votes c)), ls_votes := [], ls_certs := ls_certs L @ [c]\<rparr>"
    "ls_heartbeat L \<le> fl_tick (hd (lc_votes c))"
    "\<forall>t m. t \<le> ls_heartbeat L \<longrightarrow> m \<le> ls_nonce L \<longrightarrow>
       certificate_check C E (ls_authority L) (ls_timeout L) (length (ls_certs L) + 1) t m c = Inr True"
    by (rule submit_certificate)
  have succ: "successor K = Inr candidate" using c(1) same(2) by (simp add: successor_def)
  have new: "c \<notin> set (ls_certs K)"
  proof
    assume "c \<in> set (ls_certs K)"
    then obtain i where i: "i < length (ls_certs L)" "c = ls_certs L ! i" using assms(7) by (auto simp: in_set_conv_nth)
    from certified_nth [OF cL i(1)] obtain t m where
      "certificate_check C E (ls_authority L) (ls_timeout L) (Suc i) t m c = Inr True" using i(2) by metis
    from certificate_check_True(1) [OF this] c(2) cL i(1) show False by (simp add: certified_def)
  qed
  let ?K = "K\<lparr>ls_term := lc_term c, ls_leader := lc_leader c, ls_heartbeat := fl_tick (hd (lc_votes c)),
     ls_certs := ls_certs K @ [c]\<rparr>"
  obtain t n where h: "history_check C E (ls_authority L) (ls_timeout L) 1 0 0 (ls_certs L) = Inr (t, n)"
    "t \<le> ls_heartbeat L" "n \<le> ls_nonce L" "0 \<le> ls_heartbeat L"
    using cL by (auto simp: certified_def split: sum.splits)
  have "certified C E (?K\<lparr>ls_votes := []\<rparr>)"
    using certified_successor [OF cL c(1)] c(2-5,7) c(8) [rule_format, OF h(2,3)] h cL cK assms(3,4,7,8)
    by (auto simp: certified_def history_check_snoc nth_append)
  then have "leadership_restore C E (ls_authority K) (leadership_snapshot ?K) = Inr (?K\<lparr>ls_votes := []\<rparr>)"
    using to by (subst leadership_restore_snapshot) (simp_all add: leadership_check_Inr)
  then show ?thesis
    using new same succ c(2-6) assms(6-8) by (simp add: accept_certificate_def)
qed

text \<open>Certificates travel: the certificate that a node issues is accepted by every peer with the same
  history of certificates, timeout and committed position, whatever the peer's own last heartbeat is (a
  fenced leader keeps advancing it), and afterwards both are in the same term under the same leader.\<close>

theorem leadership_certificate_accepted:
  assumes "leadership_init A timeout = Inr K0" "leadership_init A timeout = Inr L0"
    and "K = run_ops (lead_step C E) ops K0" "L = run_ops (lead_step C E) ops' L0"
    and "fst (submit C E v L) = Inr (Some c)" "L' = snd (submit C E v L)"
    and "ls_certs K = ls_certs L" "ls_nonce K = ls_nonce L"
  shows "accept_certificate C E c K = (Inr (), K\<lparr>ls_term := ls_term L', ls_leader := ls_leader L',
      ls_heartbeat := ls_heartbeat L', ls_votes := [], ls_certs := ls_certs L'\<rparr>)
    \<and> ls_leader L' = lc_leader c \<and> ls_term L' = lc_term c"
proof -
  note rK = leadership_reachable [OF assms(1), of C E ops, folded assms(3)]
  note rL = leadership_reachable [OF assms(2), of C E ops', folded assms(4)]
  show ?thesis by (rule certificate_travels [OF rK(1) rL(1) _ _ assms(5-8)]) (use rK(2,3) rL(2,3) in simp_all)
qed

lemma failover_vote_ok: "map_of ks role = Some key \<Longrightarrow> is_ok (failover_vote C E (VoteKeys ks) role t a c b n)"
  by (simp add: failover_vote_def failover_sign_def hmac_json_def canonical_json_def fl_unsigned_def fl_unsigned_fields_def Let_def)

lemma survivors_certify:
  assumes "failover_init (Some ks) None = Inr A" "hex_digests C" "ls_authority L = A"
    and "ls_votes L = []" "successor L = Inr candidate"
    and "ls_timeout L \<le> beat - ls_heartbeat L" "{r, s} = set ROLE_ORDER - {ls_leader L}" "r \<noteq> s"
    and "failover_vote C E A r (ls_term L + 1) (ls_leader L) candidate beat (ls_nonce L) = Inr v"
    and "failover_vote C E A s (ls_term L + 1) (ls_leader L) candidate beat (ls_nonce L) = Inr w"
  shows "\<exists>c. submit C E v L = (Inr None, L\<lparr>ls_votes := [(r, v)]\<rparr>)
    \<and> submit C E w (L\<lparr>ls_votes := [(r, v)]\<rparr>) = (Inr (Some c), L\<lparr>ls_term := ls_term L + 1,
      ls_leader := candidate, ls_heartbeat := beat, ls_votes := [], ls_certs := ls_certs L @ [c]\<rparr>)
    \<and> lc_term c = ls_term L + 1 \<and> lc_nonce c = ls_nonce L \<and> fl_tick (hd (lc_votes c)) = beat"
proof -
  from assms(1) have A: "A = VoteKeys ks" and keys: "set (keys ks) = set ROLE_ORDER" "\<forall>(n, k) \<in> set ks. 32 \<le> py_len k"
    by (auto simp: failover_init_def list_ex_iff split: if_splits)
  have verified: "vote_verify C E (ls_authority L) x = Inr True \<and> vote_fits L candidate x \<and> fl_voter x = role \<and> fl_tick x = beat"
    if x: "failover_vote C E A role (ls_term L + 1) (ls_leader L) candidate beat (ls_nonce L) = Inr x" "role \<in> {r, s}" for role x
  proof -
    from x(1) obtain sg key where s: "map_of ks role = Some key" "x = \<lparr>fl_voter = role, fl_term = ls_term L + 1,
        fl_accused = ls_leader L, fl_candidate = candidate, fl_tick = beat, fl_nonce = ls_nonce L, fl_signature = sg\<rparr>"
      "hmac_json C key (fl_unsigned (x\<lparr>fl_signature := []\<rparr>)) = Inr sg"
      by (auto simp: failover_vote_def A failover_sign_def bindR_Inr_iff split: option.splits)
    have "fl_unsigned (x\<lparr>fl_signature := []\<rparr>) = fl_unsigned x" by (simp add: fl_unsigned_def fl_unsigned_fields_def)
    with s(3) have mac: "hmac_json C key (fl_unsigned x) = Inr sg" by simp
    have "key \<noteq> []" using keys(2) map_of_SomeD [OF s(1)] by auto
    moreover have "is_ascii sg" using mac assms(2) by (auto simp: hmac_json_Inr hex_digests_def)
    ultimately have "vote_verify C E A x = Inr True"
      using s(1,2) mac by (simp add: vote_verify_def failover_check_def A compare_digest_def)
    then show ?thesis using assms(3,6,7) s(2) x(2) by (auto simp: vote_fits_def)
  qed
  have v: "vote_verify C E (ls_authority L) v = Inr True" "vote_fits L candidate v" "fl_voter v = r" "fl_tick v = beat"
    using verified [OF assms(9)] by auto
  have w: "vote_verify C E (ls_authority L) w = Inr True" "vote_fits L candidate w" "fl_voter w = s" "fl_tick w = beat"
    using verified [OF assms(10)] by auto
  let ?L = "L\<lparr>ls_votes := [(r, v)]\<rparr>" and ?M = "L\<lparr>ls_votes := [(r, v), (s, w)]\<rparr>"
  have one: "submit C E v L = (Inr None, ?L)"
    using v assms(4,5) by (simp add: submit_def LS_QUORUM_def)
  have "successor ?L = Inr candidate" "vote_fits ?L candidate w"
    using assms(5) w by (auto simp: successor_def vote_fits_def)
  then have two: "submit C E w ?L = certify C candidate ?M"
    using w v assms(8) by (simp add: submit_def LS_QUORUM_def Let_def)
  show ?thesis
  proof (rule certify_two [of ?M r v s w])
    fix vs c
    assume vs: "mset vs = {#v, w#}" "vs \<noteq> []"
      and c: "c = \<lparr>lc_term = ls_term ?M + 1, lc_leader = candidate, lc_nonce = ls_nonce ?M, lc_votes = vs,
         lc_digest = sha256 C (render (sort_keys (lc_payload (ls_nonce ?M) candidate (ls_term ?M + 1) vs)))\<rparr>"
        "certify C candidate ?M = (Inr (Some c), ?M\<lparr>ls_term := ls_term ?M + 1, ls_leader := candidate,
           ls_heartbeat := fl_tick v, ls_votes := [], ls_certs := ls_certs ?M @ [c]\<rparr>)"
    have "set vs = {v, w}" using vs(1) by (metis set_mset_mset set_mset_add_mset_insert set_mset_empty)
    then have "fl_tick (hd vs) = beat" using vs(2) v(4) w(4) hd_in_set [of vs] by auto
    with c v(4) show ?thesis by (intro exI [of _ c]) (simp add: one two)
  qed (use v w in simp_all)
qed

text \<open>Survivors can always move on: when the leader has been silent for \<open>timeout_ticks\<close>, the votes of
  the two other roles for the next role, made by \<open>vote\<close> with the keys of the authority, certify the new
  leader in either order of arrival (hexadecimal digests being ASCII text).\<close>

theorem leadership_progress:
  assumes "failover_init (Some ks) None = Inr A" "hex_digests C" "leadership_init A timeout = Inr L0"
    and "L = run_ops (lead_step C E) ops L0" "ls_votes L = []" "successor L = Inr candidate"
    and "timeout \<le> beat - ls_heartbeat L" "{r, s} = set ROLE_ORDER - {ls_leader L}" "r \<noteq> s"
    and "failover_vote C E A r (ls_term L + 1) (ls_leader L) candidate beat (ls_nonce L) = Inr v"
    and "failover_vote C E A s (ls_term L + 1) (ls_leader L) candidate beat (ls_nonce L) = Inr w"
  shows "\<exists>c. fst (submit C E v L) = Inr None \<and> fst (submit C E w (snd (submit C E v L))) = Inr (Some c)
    \<and> ls_leader (snd (submit C E w (snd (submit C E v L)))) = candidate"
proof -
  note reach = leadership_reachable [OF assms(3), of C E ops, folded assms(4)]
  have "ls_timeout L \<le> beat - ls_heartbeat L" using reach(3) assms(7) by simp
  from survivors_certify [OF assms(1,2) reach(2) assms(5,6) this assms(8-11)] show ?thesis by auto
qed

section \<open>A concrete election\<close>

definition sample_vote_keys :: "(string, string) dict" where
  "sample_vote_keys = map (\<lambda>r. (r, replicate 32 (hd r))) ROLE_ORDER"

definition sample_authority :: failover_auth where
  "sample_authority = VoteKeys sample_vote_keys"

definition sample_vote :: "string \<Rightarrow> int \<Rightarrow> failure_vote" where
  "sample_vote voter beat =
     projr (failover_vote ascii_crypto sample_ed sample_authority voter 1 ''primary'' ''secondary'' beat 0)"

definition sample_votes :: "int \<Rightarrow> lead_op list" where
  "sample_votes beat = [VoteOp (sample_vote ''secondary'' beat), VoteOp (sample_vote ''tertiary'' beat)]"

definition sample_start :: leadership where
  "sample_start = projr (leadership_init sample_authority 3)"

lemma sample_authority_made: "failover_init (Some sample_vote_keys) None = Inr sample_authority"
  by code_simp

lemma sample_authority_for: "authority_for sample_ed sample_authority"
  using sample_authority_made by (auto simp: authority_for_def)

lemma sample_start_init: "leadership_init sample_authority 3 = Inr sample_start"
  by code_simp

lemma sample_start_facts:
  "ls_votes sample_start = []" "successor sample_start = Inr ''secondary''" "ls_heartbeat sample_start = 0"
  "ls_leader sample_start = ''primary''" "ls_term sample_start = 0" "ls_nonce sample_start = 0"
  "ls_certs sample_start = []" "ls_timeout sample_start = 3" "ls_authority sample_start = sample_authority"
  by (simp_all add: sample_start_def leadership_init_def successor_def ROLE_ORDER_def)

lemma sample_vote_made:
  "failover_vote ascii_crypto sample_ed sample_authority ''secondary'' 1 ''primary'' ''secondary'' b 0 = Inr (sample_vote ''secondary'' b)"
  "failover_vote ascii_crypto sample_ed sample_authority ''tertiary'' 1 ''primary'' ''secondary'' b 0 = Inr (sample_vote ''tertiary'' b)"
proof -
  have "map_of sample_vote_keys r = Some (replicate 32 (hd r)) \<Longrightarrow>
      failover_vote ascii_crypto sample_ed sample_authority r 1 ''primary'' ''secondary'' b 0 = Inr (sample_vote r b)" for r
    using failover_vote_ok [of sample_vote_keys r _ ascii_crypto sample_ed 1 "''primary''" "''secondary''" b 0]
    by (auto simp: is_ok_iff sample_vote_def sample_authority_def)
  then show
    "failover_vote ascii_crypto sample_ed sample_authority ''secondary'' 1 ''primary'' ''secondary'' b 0 = Inr (sample_vote ''secondary'' b)"
    "failover_vote ascii_crypto sample_ed sample_authority ''tertiary'' 1 ''primary'' ''secondary'' b 0 = Inr (sample_vote ''tertiary'' b)"
    by (simp_all add: sample_vote_keys_def ROLE_ORDER_def)
qed

lemma sample_roles: "{''secondary'', ''tertiary''} = set ROLE_ORDER - {''primary''}"
  by (auto simp: ROLE_ORDER_def)

lemma sample_certified:
  assumes "3 \<le> b"
  shows "\<exists>c. submit ascii_crypto sample_ed (sample_vote ''secondary'' b) sample_start
        = (Inr None, sample_start\<lparr>ls_votes := [(''secondary'', sample_vote ''secondary'' b)]\<rparr>)
    \<and> submit ascii_crypto sample_ed (sample_vote ''tertiary'' b) (sample_start\<lparr>ls_votes := [(''secondary'', sample_vote ''secondary'' b)]\<rparr>)
        = (Inr (Some c), sample_start\<lparr>ls_term := 1, ls_leader := ''secondary'', ls_heartbeat := b, ls_votes := [], ls_certs := [c]\<rparr>)
    \<and> lc_term c = 1 \<and> lc_nonce c = 0 \<and> fl_tick (hd (lc_votes c)) = b"
  using survivors_certify [OF sample_authority_made hex_ascii_crypto, of sample_start "''secondary''" b "''secondary''" "''tertiary''"
      sample_ed "sample_vote ''secondary'' b" "sample_vote ''tertiary'' b"] assms
    sample_vote_made [of b]
  by (simp add: sample_start_facts sample_roles)

lemma sample_elected:
  assumes "3 \<le> b"
  obtains c where "ls_certs (run_ops (lead_step ascii_crypto sample_ed) (sample_votes b) sample_start) = [c]"
    "lc_term c = 1" "lc_nonce c = 0" "fl_tick (hd (lc_votes c)) = b"
  using sample_certified [OF assms] by (auto simp: sample_votes_def)

theorem leadership_safe_witness:
  "ls_leader (run_ops (lead_step ascii_crypto sample_ed) (sample_votes 5) sample_start) = ''secondary''"
proof -
  let ?L = "run_ops (lead_step ascii_crypto sample_ed) (sample_votes 5) sample_start"
  have "(3::int) \<le> 5" by simp
  then obtain c where "ls_certs ?L = [c]" "lc_term c = 1" "lc_nonce c = 0" "fl_tick (hd (lc_votes c)) = 5" by (rule sample_elected)
  then have "length (ls_certs ?L) = 1" by (simp only: list.size)
  with leadership_safe [OF sample_authority_for sample_start_init refl, of ascii_crypto "sample_votes 5"]
  show ?thesis by (simp add: ROLE_ORDER_def)
qed


theorem leadership_restart_witness:
  "leadership_restore ascii_crypto sample_ed sample_authority
     (leadership_snapshot (run_ops (lead_step ascii_crypto sample_ed) (sample_votes 5) sample_start))
   = Inr ((run_ops (lead_step ascii_crypto sample_ed) (sample_votes 5) sample_start)\<lparr>ls_votes := []\<rparr>)"
  by (rule leadership_restart [OF sample_start_init refl])

theorem leadership_certificate_accepted_witness:
  "\<exists>c. is_ok (fst (accept_certificate ascii_crypto sample_ed c sample_start))"
proof -
  let ?L = "run_ops (lead_step ascii_crypto sample_ed) [VoteOp (sample_vote ''secondary'' 5)] sample_start"
  obtain c where "fst (submit ascii_crypto sample_ed (sample_vote ''tertiary'' 5) ?L) = Inr (Some c)"
    "ls_certs ?L = []" "ls_nonce ?L = 0"
    using sample_certified [of 5] by (auto simp: sample_start_facts)
  then show ?thesis
    using leadership_certificate_accepted [OF sample_start_init sample_start_init _ refl, of sample_start ascii_crypto sample_ed "[]"
      "sample_vote ''tertiary'' 5" "[VoteOp (sample_vote ''secondary'' 5)]" c "snd (submit ascii_crypto sample_ed (sample_vote ''tertiary'' 5) ?L)"]
    by (intro exI [of _ c]) (simp add: sample_start_facts)
qed

theorem leadership_progress_witness:
  "\<exists>c. fst (submit ascii_crypto sample_ed (sample_vote ''secondary'' 5) sample_start) = Inr None
    \<and> fst (submit ascii_crypto sample_ed (sample_vote ''tertiary'' 5)
         (snd (submit ascii_crypto sample_ed (sample_vote ''secondary'' 5) sample_start))) = Inr (Some c)"
  using leadership_progress [OF sample_authority_made hex_ascii_crypto sample_start_init, of sample_start sample_ed "[]"
      "''secondary''" 5 "''secondary''" "''tertiary''" "sample_vote ''secondary'' 5" "sample_vote ''tertiary'' 5"]
    sample_vote_made [of 5]
  by (simp add: sample_start_facts sample_roles)

end
