(* ===== verification/Node_Model.thy ===== *)
theory Node_Model
  imports Failover_Safety Ledger_Equiv Transport
begin

text \<open>
  The reference node of \<open>splitchain/node.py\<close> as one state machine: its ledger, its authenticators, its
  replication log and pending envelope, its leadership and its disk, with one definition per handler.
  Handlers run under the lock of the node, so each is one step. The answers of other nodes and the clock
  are parameters of the handlers that use them.
\<close>

section \<open>State\<close>

text \<open>
  \<open>nd_registry\<close> is the content of the private file \<open>auth_secrets_path\<close> when it is configured and readable;
  \<open>nd_disk\<close> is \<open>None\<close> without a store, otherwise the document in the state file, if there is one.
\<close>

record node =
  nd_id :: string
  nd_role :: string
  nd_ledger :: ledger
  nd_auth :: "authenticator option"
  nd_registry :: "(string, json) dict option"
  nd_repl :: "replication_auth option"
  nd_nonces :: "(string, int) dict"
  nd_log :: "json list"
  nd_pending :: "json option"
  nd_leadership :: "leadership option"
  nd_disk :: "json option option"

definition MUTATING_METHODS :: "string list" where
  "MUTATING_METHODS = [''offer'', ''accept'', ''commit'', ''cancel'', ''advance'', ''account.register'']"

definition committed_position :: "node \<Rightarrow> int" where
  "committed_position N = (case map snd (nd_nonces N) of [] \<Rightarrow> 0 | x # xs \<Rightarrow> fold max xs x)"

text \<open>An empty object is falsy: it does not count as a pending envelope.\<close>

definition pending_envelope :: "node \<Rightarrow> json option" where
  "pending_envelope N = (case nd_pending N of Some (JObj []) \<Rightarrow> None | p \<Rightarrow> p)"

section \<open>The state document\<close>

definition opt_json :: "json option \<Rightarrow> json" where
  "opt_json v = (case v of None \<Rightarrow> JNull | Some x \<Rightarrow> x)"

definition node_document :: "node \<Rightarrow> json" where
  "node_document N = JObj
     [(''schema'', JStr ''splitchain-node-state/v1''), (''ledger'', ledger_snapshot (nd_ledger N)),
      (''replay_nonces'', dict_json (case nd_auth N of None \<Rightarrow> [] | Some A \<Rightarrow> auth_snapshot A)),
      (''replication_nonces'', dict_json (sorted_dict (nd_nonces N))),
      (''replication_log'', JList (nd_log N)),
      (''replication_pending'', opt_json (nd_pending N)),
      (''leadership'', case nd_leadership N of None \<Rightarrow> JNull | Some S \<Rightarrow> leadership_snapshot S)]"

definition node_save :: "node \<Rightarrow> node" where
  "node_save N = (if nd_disk N = None then N else N\<lparr>nd_disk := Some (Some (node_document N))\<rparr>)"

definition ledger_digest :: "crypto \<Rightarrow> node \<Rightarrow> string result" where
  "ledger_digest C N = json_sha256 C (ledger_snapshot (nd_ledger N))"

section \<open>Calls of ledger methods\<close>

text \<open>
  Binding of the keyword arguments: an unexpected or missing key is a \<open>TypeError\<close>. The methods check no
  types (but that of the account), so arguments of other types than the annotated ones are left out.
\<close>

definition arg_str :: "json \<Rightarrow> string \<Rightarrow> string result" where
  "arg_str params k = (case obj_get params k of Some (JStr s) \<Rightarrow> Inr s | _ \<Rightarrow> Inl Unmodelled)"

definition arg_int :: "json \<Rightarrow> string \<Rightarrow> int \<Rightarrow> int result" where
  "arg_int params k d = (case obj_get params k of None \<Rightarrow> Inr d | Some (JInt i) \<Rightarrow> Inr i | _ \<Rightarrow> Inl Unmodelled)"

definition check_args :: "string list \<Rightarrow> string list \<Rightarrow> json \<Rightarrow> unit result" where
  "check_args required optional params =
     (case params of
        JObj kvs \<Rightarrow>
          if list_all (\<lambda>k. k \<in> set (map fst kvs)) required
             \<and> list_all (\<lambda>(k, v). k \<in> set required \<union> set optional) kvs
          then Inr () else Inl TypeError
      | _ \<Rightarrow> Inl TypeError)"

definition bind_method :: "string \<Rightarrow> json \<Rightarrow> mutation result" where
  "bind_method m params =
     (if m = ''offer'' then
        bindR (check_args [''sender'', ''receiver'', ''value''] [''ttl''] params) (\<lambda>_.
        bindR (arg_str params ''sender'') (\<lambda>s. bindR (arg_str params ''receiver'') (\<lambda>r.
        if obj_get params ''value'' = None then Inl TypeError
        else bindR (arg_int params ''value'' 0) (\<lambda>v. bindR (arg_int params ''ttl'' 6) (\<lambda>t. Inr (Offer s r v t))))))
      else if m = ''accept'' then
        bindR (check_args [''branch_id'', ''receiver''] [] params) (\<lambda>_.
        bindR (arg_str params ''branch_id'') (\<lambda>b. bindR (arg_str params ''receiver'') (\<lambda>r. Inr (Accept b r))))
      else if m = ''commit'' then
        bindR (check_args [''branch_id'', ''sender'', ''payload''] [] params) (\<lambda>_.
        bindR (arg_str params ''branch_id'') (\<lambda>b. bindR (arg_str params ''sender'') (\<lambda>s.
          Inr (Commit b s (get_or params ''payload'' JNull)))))
      else if m = ''cancel'' then
        bindR (check_args [''branch_id'', ''actor''] [] params) (\<lambda>_.
        bindR (arg_str params ''branch_id'') (\<lambda>b. bindR (arg_str params ''actor'') (\<lambda>a. Inr (Cancel b a))))
      else if m = ''advance'' then
        bindR (check_args [] [''rounds''] params) (\<lambda>_. bindR (arg_int params ''rounds'' 1) (\<lambda>n. Inr (Advance n)))
      else if m = ''account.register'' then
        bindR (check_args [''account''] [] params) (\<lambda>_.
        (case obj_get params ''account'' of
           Some (JStr a) \<Rightarrow> Inr (Register a) | _ \<Rightarrow> Inl (ProtocolError ''invalid or existing account'')))
      else Inl (ProtocolError ''unknown replicated mutation''))"

definition call_ledger :: "crypto \<Rightarrow> json \<Rightarrow> json \<Rightarrow> (ledger, json) operation" where
  "call_ledger C v params L =
     (case v of
        JStr m \<Rightarrow>
          (case bind_method m params of Inl e \<Rightarrow> (Inl e, L) | Inr x \<Rightarrow> apply_method C x L)
      | _ \<Rightarrow> (Inl (ProtocolError ''unknown replicated mutation''), L))"

section \<open>The actor of a request\<close>

text \<open>A new actor of the registry file is learnt; an existing credential is never replaced.\<close>

definition learn_actor :: "json \<Rightarrow> node \<Rightarrow> node" where
  "learn_actor request N =
     (case (nd_auth N, nd_registry N, obj_get (get_or request ''auth'' JNull) ''actor'') of
        (Some A, Some file, Some (JStr actor)) \<Rightarrow>
          if auth_knows actor A then N
          else (case map_of file actor of
              Some (JStr secret) \<Rightarrow>
                if 32 \<le> py_len secret then N\<lparr>nd_auth := Some (snd (auth_add_actor actor secret A))\<rparr> else N
            | _ \<Rightarrow> N)
      | _ \<Rightarrow> N)"

definition actor_fields :: "(string, string) dict" where
  "actor_fields = [(''offer'', ''sender''), (''accept'', ''receiver''), (''commit'', ''sender''), (''cancel'', ''actor'')]"

definition actor_field :: "json \<Rightarrow> string option" where
  "actor_field v = (case v of JStr m \<Rightarrow> map_of actor_fields m | _ \<Rightarrow> None)"

text \<open>
  \<open>_verify_request_actor\<close>. The method of a request is text or \<open>null\<close> here; \<open>params.get\<close> of a value that is
  not an object is an \<open>AttributeError\<close>.
\<close>

definition verify_request_actor :: "crypto \<Rightarrow> json \<Rightarrow> json \<Rightarrow> json \<Rightarrow> bool \<Rightarrow> (node, unit) operation" where
  "verify_request_actor C request v params do_record N =
     (if v = JStr ''account.register'' \<and> nd_auth N = None
      then (Inl (ProtocolError ''account registration requires operator authentication''), N)
      else if nd_auth N = None \<or> v = JStr ''status'' then (Inr (), N)
      else
        let N1 = learn_actor request N in
        (case nd_auth N1 of
           None \<Rightarrow> (Inr (), N1)
         | Some A \<Rightarrow>
            (case auth_verify C request do_record A of
               (Inl e, A1) \<Rightarrow> (Inl e, N1\<lparr>nd_auth := Some A1\<rparr>)
             | (Inr actor, A1) \<Rightarrow>
                 let N2 = N1\<lparr>nd_auth := Some A1\<rparr> in
                 if actor_field v \<noteq> None \<and> obj_fields params = None then (Inl AttributeError, N2)
                 else if actor_field v \<noteq> None \<and> obj_get params (the (actor_field v)) \<noteq> Some (JStr actor)
                 then (Inl (ProtocolError ''authenticated actor does not match request participant''), N2)
                 else if v \<in> {JStr ''advance'', JStr ''account.register''} \<and> actor \<noteq> ''testnet_operator''
                 then (Inl (ProtocolError ''only the testnet operator can perform this action''), N2)
                 else (Inr (), N2))))"

definition mutation_request :: "json \<Rightarrow> json" where
  "mutation_request mut = JObj
     [(''id'', get_or mut ''id'' JNull), (''method'', get_or mut ''method'' JNull),
      (''params'', get_or mut ''params'' (JObj [])), (''auth'', get_or mut ''auth'' JNull)]"

text \<open>The ledger call that a mutation makes.\<close>

definition mutation_call :: "crypto \<Rightarrow> json \<Rightarrow> (ledger, json) operation" where
  "mutation_call C mut = call_ledger C (get_or mut ''method'' JNull) (get_or mut ''params'' (JObj []))"

text \<open>The check of the actor that precedes the ledger call, without recording the nonce.\<close>

definition actor_check :: "crypto \<Rightarrow> json \<Rightarrow> (node, unit) operation" where
  "actor_check C mut N =
     (if nd_auth N = None then (Inr (), N)
      else verify_request_actor C (mutation_request mut) (get_or mut ''method'' JNull) (get_or mut ''params'' (JObj [])) False N)"

definition apply_mutation :: "crypto \<Rightarrow> json \<Rightarrow> bool \<Rightarrow> (node, json) operation" where
  "apply_mutation C mut record_auth N =
     (if obj_get mut ''method'' = None then (Inl KeyError, N)
      else (case actor_check C mut N of
          (Inl e, N1) \<Rightarrow> (Inl e, N1)
        | (Inr _, N1) \<Rightarrow>
            (case mutation_call C mut (nd_ledger N1) of
               (Inl e, L) \<Rightarrow> (Inl e, N1\<lparr>nd_ledger := L\<rparr>)
             | (Inr r, L) \<Rightarrow>
                 (case nd_auth N1 of
                    None \<Rightarrow> (Inr r, N1\<lparr>nd_ledger := L\<rparr>)
                  | Some A \<Rightarrow>
                      if \<not> record_auth then (Inr r, N1\<lparr>nd_ledger := L\<rparr>)
                      else (case auth_verify C (mutation_request mut) True A of
                          (Inl e, A1) \<Rightarrow> (Inl e, N1\<lparr>nd_ledger := L, nd_auth := Some A1\<rparr>)
                        | (Inr _, A1) \<Rightarrow> (Inr r, N1\<lparr>nd_ledger := L, nd_auth := Some A1\<rparr>))))))"

text \<open>The trial of a mutation on a copy of the ledger, which is thrown away.\<close>

definition try_mutation :: "crypto \<Rightarrow> json \<Rightarrow> (node, unit) operation" where
  "try_mutation C mut N =
     (case from_snapshot C (ledger_snapshot (nd_ledger N)) None of
        Inl e \<Rightarrow> (Inl e, N)
      | Inr trial \<Rightarrow>
          (case apply_mutation C mut False (N\<lparr>nd_ledger := trial\<rparr>) of
             (Inl e, N1) \<Rightarrow> (Inl e, N1\<lparr>nd_ledger := nd_ledger N\<rparr>)
           | (Inr _, N1) \<Rightarrow> (Inr (), N1\<lparr>nd_ledger := nd_ledger N\<rparr>)))"

section \<open>Replica handlers\<close>

definition leader_of :: "node \<Rightarrow> string" where
  "leader_of N = (case nd_leadership N of None \<Rightarrow> [] | Some S \<Rightarrow> ls_leader S)"

text \<open>
  The leadership exists exactly when replication is configured and the role is an ordered one, so
  \<open>self.leadership.leader\<close> is defined where it is read.
\<close>

definition verify_replica_envelope :: "crypto \<Rightarrow> ed25519 \<Rightarrow> json \<Rightarrow> node \<Rightarrow> (string \<times> int \<times> json) result" where
  "verify_replica_envelope C E env N =
     (if nd_leadership N \<noteq> None \<and> leader_of N \<noteq> ''primary'' \<and> obj_get env ''leader'' = Some (JStr ''primary'')
      then Inl (ProtocolError ''old Primary is fenced by a leadership certificate'')
      else (case (nd_repl N, nd_leadership N) of
          (Some R, Some S) \<Rightarrow>
            if nd_role N \<notin> set ROLE_ORDER \<or> nd_role N = ls_leader S
            then Inl (ProtocolError ''node does not accept replicated mutations'')
            else replication_verify C E R env (committed_position N) (ls_leader S)
        | _ \<Rightarrow> Inl (ProtocolError ''node does not accept replicated mutations'')))"

definition replica_reply :: "node \<Rightarrow> int \<Rightarrow> string \<Rightarrow> json \<Rightarrow> json" where
  "replica_reply N nonce k v = JObj [(''node_id'', JStr (nd_id N)), (''nonce'', JInt nonce), (k, v)]"

definition prepare_replica :: "crypto \<Rightarrow> ed25519 \<Rightarrow> json \<Rightarrow> (node, json) operation" where
  "prepare_replica C E env N =
     (case verify_replica_envelope C E env N of
        Inl e \<Rightarrow> (Inl e, N)
      | Inr (_, nonce, mut) \<Rightarrow>
          (case pending_envelope N of
             Some p \<Rightarrow>
               if py_eq p env then (Inr (replica_reply N nonce ''state'' (JStr ''prepared'')), N)
               else (Inl (ProtocolError ''replica already has a different prepared mutation''), N)
           | None \<Rightarrow>
               (case try_mutation C mut N of
                  (Inl e, N1) \<Rightarrow> (Inl e, N1)
                | (Inr _, N1) \<Rightarrow>
                    (Inr (replica_reply N nonce ''state'' (JStr ''prepared'')), node_save (N1\<lparr>nd_pending := Some env\<rparr>)))))"

text \<open>What a commit adds to the state, on a replica and on the leader.\<close>

definition record_commit :: "string \<Rightarrow> int \<Rightarrow> json \<Rightarrow> node \<Rightarrow> node" where
  "record_commit leader nonce env N =
     node_save (N\<lparr>nd_nonces := AList.update leader nonce (nd_nonces N), nd_log := nd_log N @ [env],
       nd_leadership := map_option (\<lambda>S. S\<lparr>ls_nonce := nonce\<rparr>) (nd_leadership N), nd_pending := None\<rparr>)"

definition commit_replica :: "crypto \<Rightarrow> ed25519 \<Rightarrow> json \<Rightarrow> (node, json) operation" where
  "commit_replica C E env N =
     (case verify_replica_envelope C E env N of
        Inl e \<Rightarrow> (Inl e, N)
      | Inr (leader, nonce, mut) \<Rightarrow>
          if (case nd_pending N of None \<Rightarrow> True | Some p \<Rightarrow> \<not> py_eq p env)
          then (Inl (ProtocolError ''replica commit does not match its prepared mutation''), N)
          else (case apply_mutation C mut True N of
              (Inl e, N1) \<Rightarrow> (Inl e, N1)
            | (Inr r, N1) \<Rightarrow> (Inr (replica_reply N nonce ''mutation'' r), record_commit leader nonce env N1)))"

definition abort_replica :: "crypto \<Rightarrow> ed25519 \<Rightarrow> json \<Rightarrow> (node, json) operation" where
  "abort_replica C E env N =
     (case verify_replica_envelope C E env N of
        Inl e \<Rightarrow> (Inl e, N)
      | Inr (_, nonce, _) \<Rightarrow>
          if (case pending_envelope N of None \<Rightarrow> False | Some p \<Rightarrow> \<not> py_eq p env)
          then (Inl (ProtocolError ''replica abort does not match its prepared mutation''), N)
          else (Inr (replica_reply N nonce ''state'' (JStr ''aborted'')), node_save (N\<lparr>nd_pending := None\<rparr>)))"

section \<open>Leadership handlers\<close>

definition leadership_reply :: "node \<Rightarrow> leadership \<Rightarrow> json" where
  "leadership_reply N S = JObj [(''node_id'', JStr (nd_id N)), (''term'', JInt (ls_term S))]"

text \<open>The fields of a verified heartbeat exist; integers of another JSON type are left out.\<close>

definition receive_heartbeat :: "crypto \<Rightarrow> ed25519 \<Rightarrow> json \<Rightarrow> (node, json) operation" where
  "receive_heartbeat C E env N =
     (case nd_leadership N of
        None \<Rightarrow> (Inl (ProtocolError ''invalid leadership heartbeat''), N)
      | Some S \<Rightarrow>
          if \<not> verify_heartbeat C E (ls_authority S) env
          then (Inl (ProtocolError ''invalid leadership heartbeat''), N)
          else (case (obj_get env ''leader'', obj_get env ''term'', obj_get env ''tick'', obj_get env ''nonce'') of
              (Some (JStr leader), Some (JInt t), Some (JInt beat), Some (JInt nonce)) \<Rightarrow>
                if nonce \<noteq> committed_position N
                then (Inl (ProtocolError ''heartbeat position differs from local replica''), N)
                else if beat = ls_heartbeat S then (Inr (leadership_reply N S), N)
                else (case heartbeat leader t beat nonce S of
                    (Inl e, S1) \<Rightarrow> (Inl e, N\<lparr>nd_leadership := Some S1\<rparr>)
                  | (Inr _, S1) \<Rightarrow> (Inr (leadership_reply N S1), node_save (N\<lparr>nd_leadership := Some S1\<rparr>)))
            | _ \<Rightarrow> (Inl Unmodelled, N)))"

text \<open>\<open>FailureVote(**v)\<close> and the certificate constructor, inside a \<open>try\<close> that turns their errors into one.\<close>

definition guard_read :: "error \<Rightarrow> 'a result \<Rightarrow> 'a result" where
  "guard_read e r = (case r of Inl Unmodelled \<Rightarrow> Inl Unmodelled | Inl _ \<Rightarrow> Inl e | Inr x \<Rightarrow> Inr x)"

definition read_timeout_vote :: "json \<Rightarrow> (failure_vote \<times> json) result" where
  "read_timeout_vote params =
     (let bad = ProtocolError ''invalid timeout vote request'' in
      case obj_get params ''vote'' of
        None \<Rightarrow> Inl bad
      | Some v \<Rightarrow>
          if obj_fields v = None then Inl bad
          else bindR (guard_read bad (read_vote v)) (\<lambda>vote.
            (case obj_get params ''ledger_digest'' of None \<Rightarrow> Inl bad | Some d \<Rightarrow> Inr (vote, d))))"

text \<open>The role that is neither the leader nor its successor.\<close>

definition witness_role :: "string \<Rightarrow> string \<Rightarrow> string option" where
  "witness_role leader candidate = find (\<lambda>r. r \<notin> {leader, candidate}) ROLE_ORDER"

text \<open>\<open>now\<close> is \<open>int(time.time() // 2)\<close>. The lock is held; nothing is changed.\<close>

definition receive_timeout_vote :: "crypto \<Rightarrow> ed25519 \<Rightarrow> int \<Rightarrow> json \<Rightarrow> node \<Rightarrow> json result" where
  "receive_timeout_vote C E now params N =
     (case nd_leadership N of
        None \<Rightarrow> Inl (ProtocolError ''cluster leadership is not configured'')
      | Some S \<Rightarrow>
          bindR (read_timeout_vote params) (\<lambda>(v, d).
          if ls_leader S = ''tertiary'' then Inl (ProtocolError ''ordered leadership is exhausted'')
          else
            bindR (successor S) (\<lambda>candidate.
            let reject = Inl (ProtocolError ''timeout vote lacks a matching clean replica'') in
            if Some (nd_id N) \<noteq> witness_role (ls_leader S) candidate \<or> fl_voter v \<noteq> candidate then reject
            else
              bindR (vote_verify C E (ls_authority S) v) (\<lambda>valid.
              if \<not> valid \<or> fl_term v \<noteq> ls_term S + 1 \<or> fl_accused v \<noteq> ls_leader S \<or> fl_candidate v \<noteq> candidate
                 \<or> fl_tick v - ls_heartbeat S < ls_timeout S \<or> \<bar>fl_tick v - now\<bar> > 1
                 \<or> fl_nonce v \<noteq> committed_position N \<or> nd_pending N \<noteq> None
                 \<or> int (length (nd_log N)) \<noteq> committed_position N then reject
              else
                bindR (ledger_digest C N) (\<lambda>digest.
                if d \<noteq> JStr digest then reject
                else
                  bindR (failover_vote C E (ls_authority S) (nd_id N) (fl_term v) (fl_accused v) (fl_candidate v)
                    (fl_tick v) (fl_nonce v)) (\<lambda>r. Inr (fl_public r)))))))"

definition record_leadership_certificate ::
    "crypto \<Rightarrow> ed25519 \<Rightarrow> leadership_certificate \<Rightarrow> (node, unit) operation" where
  "record_leadership_certificate C E c N =
     (case nd_leadership N of
        None \<Rightarrow> (Inl (ProtocolError ''cluster leadership is not configured''), N)
      | Some S \<Rightarrow>
          if ls_certs S \<noteq> [] \<and> c = List.last (ls_certs S) then (Inr (), N)
          else if ls_nonce S \<noteq> committed_position N
          then (Inl (ProtocolError ''leadership position is behind the replica''), N)
          else (case accept_certificate C E c S of
              (Inl e, S1) \<Rightarrow> (Inl e, N\<lparr>nd_leadership := Some S1\<rparr>)
            | (Inr _, S1) \<Rightarrow> (Inr (), node_save (N\<lparr>nd_leadership := Some S1, nd_pending := None\<rparr>))))"

definition receive_certificate :: "crypto \<Rightarrow> ed25519 \<Rightarrow> json \<Rightarrow> (node, json) operation" where
  "receive_certificate C E params N =
     (case guard_read (ProtocolError ''invalid leadership certificate'') (read_certificate params) of
        Inl e \<Rightarrow> (Inl e, N)
      | Inr c \<Rightarrow>
          (case record_leadership_certificate C E c N of
             (Inl e, N1) \<Rightarrow> (Inl e, N1)
           | (Inr _, N1) \<Rightarrow>
               (case nd_leadership N1 of
                  None \<Rightarrow> (Inl AttributeError, N1)
                | Some S \<Rightarrow> (Inr (leadership_reply N1 S), N1))))"

section \<open>The leader\<close>

definition abort_uncommitted_primary :: "node \<Rightarrow> node" where
  "abort_uncommitted_primary N =
     (if pending_envelope N = None then N else node_save (N\<lparr>nd_pending := None\<rparr>))"

text \<open>
  \<open>replicate_mutation\<close>: \<open>prepared env\<close> is the number of peers that acknowledged the prepare of the envelope,
  \<open>confirmed env\<close> tells whether one of them confirmed its commit.
\<close>

definition replicate_mutation ::
    "crypto \<Rightarrow> ed25519 \<Rightarrow> (json \<Rightarrow> nat) \<Rightarrow> (json \<Rightarrow> bool) \<Rightarrow> json \<Rightarrow> (node, json) operation" where
  "replicate_mutation C E prepared confirmed mut N =
     (case nd_repl N of
        None \<Rightarrow> (Inl (ProtocolError ''cluster replication is not configured''), N)
      | Some R \<Rightarrow>
          if nd_leadership N \<noteq> None \<and> leader_of N \<noteq> nd_id N
          then (Inl (ProtocolError ''old Primary is fenced by a leadership certificate''), N)
          else (case try_mutation C mut (abort_uncommitted_primary N) of
              (Inl e, N1) \<Rightarrow> (Inl e, N1)
            | (Inr _, N1) \<Rightarrow>
                let nonce = committed_position N1 + 1 in
                (case replication_sign C E R (nd_id N1) nonce mut of
                   Inl e \<Rightarrow> (Inl e, N1)
                 | Inr env \<Rightarrow>
                     let N2 = node_save (N1\<lparr>nd_pending := Some env\<rparr>) in
                     if prepared env < 1
                     then (Inl (ProtocolError ''mutation did not receive a 2/3 cluster quorum''),
                           node_save (N2\<lparr>nd_pending := None\<rparr>))
                     else (case apply_mutation C mut True N2 of
                         (Inl e, N3) \<Rightarrow> (Inl e, N3)
                       | (Inr r, N3) \<Rightarrow>
                           let N4 = record_commit (nd_id N3) nonce env N3 in
                           if confirmed env then (Inr r, N4)
                           else (Inl (CommitUncertain ''commit outcome is uncertain''), N4)))))"

end
