(* ===== verification/Node_Safety.thy ===== *)
theory Node_Safety
  imports Node_Model
begin

text \<open>
  Safety of the reference node: the ledger is the replay of the replication log, the committed position
  only grows, a prepared mutation commits, a deposed leader stays fenced.
\<close>

section \<open>What the handlers leave alone\<close>

lemma auth_verify_fst: "fst (auth_verify C request b A) = fst (auth_verify C request b' A)"
  by (simp add: auth_verify_def split: sum.split bool.split prod.split)

lemma auth_verify_dry: "snd (auth_verify C request False A) = A"
  by (simp add: auth_verify_def split: sum.split bool.split prod.split)

lemma set_auth_same: "\<exists>A. N = N\<lparr>nd_auth := A\<rparr>"
  by (rule exI [of _ "nd_auth N"]) simp

lemma learn_actor_auth: "\<exists>A. learn_actor request N = N\<lparr>nd_auth := A\<rparr>"
  using set_auth_same [of N]
  by (auto simp: learn_actor_def simp del: node.update_convs split: option.split json.split)

lemma learn_actor_some: "nd_auth N \<noteq> None \<Longrightarrow> nd_auth (learn_actor request N) \<noteq> None"
  by (simp add: learn_actor_def split: option.split json.split)

lemma verify_request_actor_auth: "\<exists>A. snd (verify_request_actor C request v params b N) = N\<lparr>nd_auth := A\<rparr>"
proof -
  obtain A where A: "learn_actor request N = N\<lparr>nd_auth := A\<rparr>" using learn_actor_auth by blast
  show ?thesis
  proof (cases "nd_auth N = None \<or> v = JStr ''status''")
    case True
    then show ?thesis using set_auth_same [of N] by (auto simp: verify_request_actor_def)
  next
    case False
    show ?thesis
    proof (cases A)
      case None
      with False A show ?thesis by (auto simp: verify_request_actor_def)
    next
      case (Some B)
      obtain r B' where v: "auth_verify C request b B = (r, B')" by (cases "auth_verify C request b B")
      have "snd (verify_request_actor C request v params b N) = N\<lparr>nd_auth := Some B'\<rparr>"
        using False Some A v by (cases r) (auto simp: verify_request_actor_def Let_def)
      then show ?thesis by blast
    qed
  qed
qed

lemma call_ledger_inv:
  assumes "ledger_inv L"
  shows "ledger_inv (snd (call_ledger C v params L))"
    "fst (call_ledger C v params L) = Inl e \<Longrightarrow> snd (call_ledger C v params L) = L"
  using assms ledger.step_inv [OF assms] ledger.rejected_frame [OF assms]
  by (auto simp: call_ledger_def split: json.splits sum.splits)

lemma actor_check_auth: "\<exists>A. snd (actor_check C mut N) = N\<lparr>nd_auth := A\<rparr>"
  using set_auth_same [of N] verify_request_actor_auth by (cases "nd_auth N") (auto simp: actor_check_def)

text \<open>
  After a successful check with an authenticator, the request verifies against the authenticator that the
  check left behind.
\<close>

lemma actor_check_verifies:
  assumes "fst (actor_check C mut N) = Inr x" "nd_auth (snd (actor_check C mut N)) = Some A"
    and "get_or mut ''method'' JNull \<noteq> JStr ''status''"
  shows "is_ok (fst (auth_verify C (mutation_request mut) True A))"
proof -
  let ?R = "mutation_request mut" and ?v = "get_or mut ''method'' JNull" and ?p = "get_or mut ''params'' (JObj [])"
  have "nd_auth N \<noteq> None"
  proof
    assume "nd_auth N = None"
    with assms(2) show False by (simp add: actor_check_def)
  qed
  with assms have check: "fst (verify_request_actor C ?R ?v ?p False N) = Inr x"
    "nd_auth (snd (verify_request_actor C ?R ?v ?p False N)) = Some A"
    by (auto simp: actor_check_def)
  from learn_actor_some [OF \<open>nd_auth N \<noteq> None\<close>] obtain B where B: "nd_auth (learn_actor ?R N) = Some B" by auto
  obtain r B' where v: "auth_verify C ?R False B = (r, B')" by (cases "auth_verify C ?R False B")
  with auth_verify_dry [of C ?R B] have "B' = B" by simp
  with check B v \<open>nd_auth N \<noteq> None\<close> assms(3) have "is_ok r" "A = B"
    by (auto simp: verify_request_actor_def Let_def split: sum.splits if_splits)
  with v auth_verify_fst [of C ?R True B False] show ?thesis by simp
qed

text \<open>The anatomy of \<open>_apply_mutation\<close>: the check, the ledger call, and the recording of the nonce.\<close>

lemma apply_mutation_cases:
  assumes "ledger_inv (nd_ledger N)"
  obtains (error) e A where "fst (apply_mutation C mut b N) = Inl e" "snd (apply_mutation C mut b N) = N\<lparr>nd_auth := A\<rparr>"
  | (applied) r A where "fst (apply_mutation C mut b N) = Inr r" "fst (mutation_call C mut (nd_ledger N)) = Inr r"
      "snd (apply_mutation C mut b N) = N\<lparr>nd_auth := A, nd_ledger := snd (mutation_call C mut (nd_ledger N))\<rparr>"
      "fst (actor_check C mut N) = Inr ()" "obj_get mut ''method'' \<noteq> None"
proof (cases "obj_get mut ''method'' = None")
  case True
  have "N = N\<lparr>nd_auth := nd_auth N\<rparr>" by simp
  with True error [of KeyError "nd_auth N"] show thesis by (simp add: apply_mutation_def)
next
  case False
  note unfold = apply_mutation_def [of C mut b N, unfolded if_not_P [OF False]]
  obtain A where A: "snd (actor_check C mut N) = N\<lparr>nd_auth := A\<rparr>" using actor_check_auth by blast
  show thesis
  proof (cases "fst (actor_check C mut N)")
    case (Inl e)
    with A error [of e A] show thesis by (cases "actor_check C mut N") (simp add: unfold)
  next
    case (Inr u)
    with A have check: "actor_check C mut N = (Inr (), N\<lparr>nd_auth := A\<rparr>)" by (cases "actor_check C mut N") simp
    show thesis
    proof (cases "fst (mutation_call C mut (nd_ledger N))")
      case (Inl e)
      then have "snd (mutation_call C mut (nd_ledger N)) = nd_ledger N"
        unfolding mutation_call_def by (rule call_ledger_inv(2) [OF assms])
      with Inl have "mutation_call C mut (nd_ledger N) = (Inl e, nd_ledger N)" by (cases "mutation_call C mut (nd_ledger N)") simp
      with check error [of e A] show thesis by (simp add: unfold)
    next
      case (Inr r)
      then obtain L where L: "mutation_call C mut (nd_ledger N) = (Inr r, L)" by (cases "mutation_call C mut (nd_ledger N)") simp
      then have "get_or mut ''method'' JNull \<noteq> JStr ''status''"
        by (auto simp: mutation_call_def call_ledger_def bind_method_def)
      then have ok: "is_ok (fst (auth_verify C (mutation_request mut) True B))" if "A = Some B" for B
        using actor_check_verifies [of C mut N "()" B] check that by simp
      have "\<exists>A'. apply_mutation C mut b N = (Inr r, N\<lparr>nd_auth := A', nd_ledger := L\<rparr>)"
      proof (cases A)
        case None
        with check L show ?thesis by (simp add: unfold) (rule exI [of _ None], simp)
      next
        case (Some B)
        obtain y B' where "auth_verify C (mutation_request mut) True B = (Inr y, B')"
          using ok [OF Some] by (cases "auth_verify C (mutation_request mut) True B") (auto simp: is_ok_iff)
        with check L Some show ?thesis
          by (intro exI [of _ "if b then Some B' else Some B"]) (simp add: unfold)
      qed
      then obtain A' where "apply_mutation C mut b N = (Inr r, N\<lparr>nd_auth := A', nd_ledger := L\<rparr>)" ..
      with L check False applied [of r A'] show thesis by simp
    qed
  qed
qed

text \<open>Whatever happens, only the authenticator and the ledger change.\<close>

lemma apply_mutation_frame: "\<exists>A L. snd (apply_mutation C mut b N) = N\<lparr>nd_auth := A, nd_ledger := L\<rparr>"
proof -
  have same: "\<exists>B L. N\<lparr>nd_auth := A\<rparr> = N\<lparr>nd_auth := B, nd_ledger := L\<rparr>" for A
    by (intro exI [of _ A] exI [of _ "nd_ledger N"]) simp
  obtain x A where A: "actor_check C mut N = (x, N\<lparr>nd_auth := A\<rparr>)"
    using actor_check_auth by (metis surjective_pairing)
  obtain y L where L: "mutation_call C mut (nd_ledger N) = (y, L)" by (cases "mutation_call C mut (nd_ledger N)")
  show ?thesis
  proof (cases "obj_get mut ''method'' = None \<or> \<not> is_ok x \<or> \<not> is_ok y \<or> A = None \<or> \<not> b")
    case True
    then show ?thesis
      using same [of A] same [of "nd_auth N"]
      by (cases x; cases y; cases A) (auto simp: apply_mutation_def A L)
  next
    case False
    then obtain B r z B' where "A = Some B" "x = Inr ()" "y = Inr r" "auth_verify C (mutation_request mut) True B = (z, B')"
      by (cases "auth_verify C (mutation_request mut) True (the A)") (auto simp: is_ok_iff)
    with False have "snd (apply_mutation C mut b N) = N\<lparr>nd_auth := Some B', nd_ledger := L\<rparr>"
      by (cases z) (auto simp: apply_mutation_def A L)
    then show ?thesis by blast
  qed
qed

lemma try_mutation_auth: "\<exists>A. snd (try_mutation C mut N) = N\<lparr>nd_auth := A\<rparr>"
proof (cases "from_snapshot C (ledger_snapshot (nd_ledger N)) None")
  case (Inl e)
  with set_auth_same [of N] show ?thesis by (simp add: try_mutation_def)
next
  case (Inr L)
  obtain A L' where "snd (apply_mutation C mut False (N\<lparr>nd_ledger := L\<rparr>)) = N\<lparr>nd_ledger := L, nd_auth := A, nd_ledger := L'\<rparr>"
    using apply_mutation_frame by blast
  with Inr show ?thesis
    by (cases "apply_mutation C mut False (N\<lparr>nd_ledger := L\<rparr>)") (auto simp: try_mutation_def split: sum.split)
qed

section \<open>The node as a machine\<close>

datatype node_op =
    PrepareOp json
  | CommitOp json
  | AbortOp json
  | BeatMsg json
  | CertMsg json
  | LeadOp "json \<Rightarrow> nat" "json \<Rightarrow> bool" json

fun node_step :: "crypto \<Rightarrow> ed25519 \<Rightarrow> node_op \<Rightarrow> (node, json) operation" where
  "node_step C E (PrepareOp env) N = prepare_replica C E env N"
| "node_step C E (CommitOp env) N = commit_replica C E env N"
| "node_step C E (AbortOp env) N = abort_replica C E env N"
| "node_step C E (BeatMsg env) N = receive_heartbeat C E env N"
| "node_step C E (CertMsg params) N = receive_certificate C E params N"
| "node_step C E (LeadOp prepared confirmed mut) N = replicate_mutation C E prepared confirmed mut N"

definition node_inv :: "crypto \<Rightarrow> ed25519 \<Rightarrow> node \<Rightarrow> bool" where
  "node_inv C E N =
     (ledger_inv (nd_ledger N) \<and> 0 \<le> committed_position N
      \<and> (\<forall>S. nd_leadership N = Some S \<longrightarrow> leadership_inv C E S \<and> ls_nonce S = committed_position N \<and> ls_votes S = []))"

text \<open>
  What a step does to the replicated state: nothing, or it appends an envelope with a higher nonce and
  applies its mutation; the leadership keeps its certificates.
\<close>

definition log_step :: "crypto \<Rightarrow> node \<Rightarrow> node \<Rightarrow> bool" where
  "log_step C N M =
     (nd_log M = nd_log N \<and> nd_ledger M = nd_ledger N \<and> committed_position M = committed_position N
      \<or> (\<exists>env mut r. nd_log M = nd_log N @ [env] \<and> envelope_json env ''mutation'' = Inr mut
           \<and> mutation_call C mut (nd_ledger N) = (Inr r, nd_ledger M)
           \<and> committed_position N < committed_position M \<and> committed_position M = envelope_nonce env))"

definition leadership_step :: "node \<Rightarrow> node \<Rightarrow> bool" where
  "leadership_step N M =
     (nd_id M = nd_id N \<and> nd_role M = nd_role N \<and> nd_repl M = nd_repl N
      \<and> (nd_leadership N = None \<longleftrightarrow> nd_leadership M = None)
      \<and> (\<forall>S T. nd_leadership N = Some S \<longrightarrow> nd_leadership M = Some T \<longrightarrow>
           ls_authority T = ls_authority S \<and> (\<exists>cs. ls_certs T = ls_certs S @ cs)))"

lemma node_save_fields [simp]:
  "nd_log (node_save N) = nd_log N" "nd_ledger (node_save N) = nd_ledger N" "nd_nonces (node_save N) = nd_nonces N"
  "nd_leadership (node_save N) = nd_leadership N" "nd_id (node_save N) = nd_id N" "nd_role (node_save N) = nd_role N"
  "nd_repl (node_save N) = nd_repl N" "nd_pending (node_save N) = nd_pending N" "nd_auth (node_save N) = nd_auth N"
  "nd_registry (node_save N) = nd_registry N"
  by (simp_all add: node_save_def)

lemma committed_position_cong: "nd_nonces M = nd_nonces N \<Longrightarrow> committed_position M = committed_position N"
  by (simp add: committed_position_def)

lemma committed_position_Max:
  "committed_position N = (if nd_nonces N = [] then 0 else Max (snd ` set (nd_nonces N)))"
proof (cases "nd_nonces N")
  case (Cons p ps)
  have "fold max (map snd ps) (snd p) = Max (set (map snd (p # ps)))"
    by (simp only: list.map Max.set_eq_fold)
  with Cons show ?thesis by (simp add: committed_position_def image_image)
qed (simp add: committed_position_def)

text \<open>Storing a nonce above the position makes it the position.\<close>

lemma committed_position_commit:
  assumes "committed_position N < nonce" "0 \<le> committed_position N"
    and "nd_nonces M = AList.update leader nonce (nd_nonces N)"
  shows "committed_position M = nonce"
proof -
  have sub: "snd ` set (nd_nonces M) \<subseteq> insert nonce (snd ` set (nd_nonces N))"
    unfolding assms(3) using set_update_subset [of leader nonce "nd_nonces N"] by fastforce
  have "(leader, nonce) \<in> set (nd_nonces M)"
    unfolding assms(3) by (rule map_of_SomeD) simp
  then have "nonce \<in> snd ` set (nd_nonces M)" by force
  moreover have "x \<le> nonce" if "x \<in> snd ` set (nd_nonces N)" for x
    using that assms(1) Max_ge [of "snd ` set (nd_nonces N)" x] by (auto simp: committed_position_Max split: if_splits)
  then have "x \<le> nonce" if "x \<in> snd ` set (nd_nonces M)" for x
    using that subsetD [OF sub, of x] by blast
  ultimately show ?thesis by (auto simp: committed_position_Max intro!: Max_eqI)
qed

lemma leadership_inv_nonce:
  "leadership_inv C E S \<Longrightarrow> ls_nonce S \<le> n \<Longrightarrow> ls_votes S = [] \<Longrightarrow> leadership_inv C E (S\<lparr>ls_nonce := n\<rparr>)"
  by (fastforce simp: leadership_inv_def certified_def votes_pending_def)

definition good_step :: "crypto \<Rightarrow> ed25519 \<Rightarrow> node \<Rightarrow> node \<Rightarrow> bool" where
  "good_step C E N M = (log_step C N M \<and> leadership_step N M \<and> node_inv C E M)"

lemma good_step_same: "node_inv C E N \<Longrightarrow> good_step C E N N"
  by (auto simp: good_step_def log_step_def leadership_step_def)

text \<open>A step that keeps the ledger, the log, the nonces and the leadership.\<close>

lemma good_step_frame:
  assumes "node_inv C E N" "nd_ledger M = nd_ledger N" "nd_log M = nd_log N" "nd_nonces M = nd_nonces N"
    "nd_leadership M = nd_leadership N" "nd_id M = nd_id N" "nd_role M = nd_role N" "nd_repl M = nd_repl N"
  shows "good_step C E N M"
  using assms committed_position_cong [OF assms(4)]
  by (auto simp: good_step_def log_step_def leadership_step_def node_inv_def)

lemma record_commit_step:
  assumes inv: "node_inv C E N" and "committed_position N < nonce" "envelope_nonce env = nonce"
    and "envelope_json env ''mutation'' = Inr mut" "mutation_call C mut (nd_ledger N) = (Inr r, L)"
    and "nd_ledger K = L" "nd_log K = nd_log N" "nd_nonces K = nd_nonces N" "nd_leadership K = nd_leadership N"
    and "nd_id K = nd_id N" "nd_role K = nd_role N" "nd_repl K = nd_repl N"
  shows "good_step C E N (record_commit leader nonce env K)"
proof -
  let ?M = "record_commit leader nonce env K"
  have pos: "0 \<le> committed_position N" using inv by (simp add: node_inv_def)
  have p: "committed_position ?M = nonce"
    by (rule committed_position_commit [OF assms(2) pos, of _ leader]) (simp add: record_commit_def assms(8))
  have "ledger_inv L"
    using call_ledger_inv(1) [of "nd_ledger N"] inv assms(5) by (metis mutation_call_def node_inv_def snd_conv)
  moreover have "leadership_inv C E (S\<lparr>ls_nonce := nonce\<rparr>)" if "nd_leadership N = Some S" for S
    using that inv assms(2) by (intro leadership_inv_nonce) (auto simp: node_inv_def)
  ultimately have "node_inv C E ?M"
    using inv assms(2,6,9) p pos by (auto simp: node_inv_def record_commit_def)
  moreover have "log_step C N ?M"
    unfolding log_step_def using assms(2-7) p by (intro disjI2) (auto simp: record_commit_def)
  moreover have "leadership_step N ?M"
    using assms(9-12) by (auto simp: leadership_step_def record_commit_def)
  ultimately show ?thesis by (simp add: good_step_def)
qed

lemma verify_replica_envelope_Inr:
  assumes "verify_replica_envelope C E env N = Inr (leader, nonce, mut)"
  shows "committed_position N < nonce" "envelope_nonce env = nonce" "envelope_json env ''mutation'' = Inr mut"
    "leader = leader_of N" "nd_leadership N \<noteq> None" "envelope_str env ''leader'' = Inr leader"
proof -
  from assms obtain R S where R: "nd_repl N = Some R" "nd_leadership N = Some S"
    "replication_verify C E R env (committed_position N) (ls_leader S) = Inr (leader, nonce, mut)"
    by (auto simp: verify_replica_envelope_def split: if_splits option.splits)
  from R(3) show "committed_position N < nonce" "envelope_nonce env = nonce" "envelope_json env ''mutation'' = Inr mut"
    "leader = leader_of N" "envelope_str env ''leader'' = Inr leader"
    by (rule replication_verify_Inr; use R in \<open>simp add: envelope_nonce_def leader_of_def\<close>)+
  from R show "nd_leadership N \<noteq> None" by simp
qed

lemma prepare_replica_step:
  assumes "node_inv C E N"
  shows "good_step C E N (snd (prepare_replica C E env N))"
proof (cases "verify_replica_envelope C E env N")
  case (Inl e)
  with good_step_same [OF assms] show ?thesis by (simp add: prepare_replica_def)
next
  case (Inr t)
  obtain leader nonce mut where t: "t = (leader, nonce, mut)" by (cases t)
  show ?thesis
  proof (cases "pending_envelope N")
    case (Some p)
    with Inr t good_step_same [OF assms] show ?thesis by (simp add: prepare_replica_def)
  next
    case None
    obtain x A where "try_mutation C mut N = (x, N\<lparr>nd_auth := A\<rparr>)"
      using try_mutation_auth by (metis surjective_pairing)
    with Inr t None show ?thesis
      by (cases x) (auto simp: prepare_replica_def intro!: good_step_frame [OF assms])
  qed
qed

lemma commit_replica_step:
  assumes inv: "node_inv C E N"
  shows "good_step C E N (snd (commit_replica C E env N))"
proof (cases "verify_replica_envelope C E env N")
  case (Inl e)
  with good_step_same [OF assms] show ?thesis by (simp add: commit_replica_def)
next
  case (Inr t)
  obtain leader nonce mut where t: "t = (leader, nonce, mut)" by (cases t)
  note v = verify_replica_envelope_Inr [OF Inr [unfolded t]]
  show ?thesis
  proof (cases "case nd_pending N of None \<Rightarrow> True | Some p \<Rightarrow> \<not> py_eq p env")
    case True
    with Inr t good_step_same [OF assms] show ?thesis by (simp add: commit_replica_def)
  next
    case False
    have "ledger_inv (nd_ledger N)" using inv by (simp add: node_inv_def)
    then show ?thesis
    proof (rule apply_mutation_cases [of N C mut True])
      fix e A
      assume "fst (apply_mutation C mut True N) = Inl e" "snd (apply_mutation C mut True N) = N\<lparr>nd_auth := A\<rparr>"
      with Inr t False show ?thesis
        by (cases "apply_mutation C mut True N") (auto simp: commit_replica_def intro!: good_step_frame [OF assms])
    next
      fix r A
      assume r: "fst (apply_mutation C mut True N) = Inr r" "fst (mutation_call C mut (nd_ledger N)) = Inr r"
        "snd (apply_mutation C mut True N) = N\<lparr>nd_auth := A, nd_ledger := snd (mutation_call C mut (nd_ledger N))\<rparr>"
      let ?K = "N\<lparr>nd_auth := A, nd_ledger := snd (mutation_call C mut (nd_ledger N))\<rparr>"
      have "good_step C E N (record_commit leader nonce env ?K)"
        by (rule record_commit_step [OF inv v(1,2,3), of r "nd_ledger ?K"])
          (use r(2) in \<open>simp_all add: prod_eq_iff\<close>)
      moreover have "snd (commit_replica C E env N) = record_commit leader nonce env ?K"
        using Inr t False r(1,3) by (cases "apply_mutation C mut True N") (simp add: commit_replica_def)
      ultimately show ?thesis by simp
    qed
  qed
qed

lemma abort_replica_step:
  assumes "node_inv C E N"
  shows "good_step C E N (snd (abort_replica C E env N))"
  by (auto simp: abort_replica_def intro!: good_step_frame [OF assms] split: sum.split)

text \<open>A change of the leadership alone.\<close>

lemma good_step_leadership:
  assumes "node_inv C E N" "nd_leadership N = Some S" "M = node_save (N\<lparr>nd_leadership := Some T\<rparr>)
      \<or> M = node_save (N\<lparr>nd_leadership := Some T, nd_pending := None\<rparr>) \<or> M = N\<lparr>nd_leadership := Some T\<rparr>"
    and "leadership_inv C E T" "ls_nonce T = ls_nonce S" "ls_votes T = []" "ls_authority T = ls_authority S"
    and "ls_certs T = ls_certs S @ cs"
  shows "good_step C E N M"
proof -
  have M: "nd_ledger M = nd_ledger N" "nd_log M = nd_log N" "nd_nonces M = nd_nonces N" "nd_leadership M = Some T"
    "nd_id M = nd_id N" "nd_role M = nd_role N" "nd_repl M = nd_repl N"
    using assms(3) by auto
  then show ?thesis
    using assms(1,2,4-8) committed_position_cong [OF M(3)]
    by (auto simp: good_step_def log_step_def leadership_step_def node_inv_def)
qed

lemma receive_heartbeat_step:
  assumes "node_inv C E N"
  shows "good_step C E N (snd (receive_heartbeat C E env N))"
proof (cases "nd_leadership N")
  case None
  with good_step_same [OF assms] show ?thesis by (simp add: receive_heartbeat_def)
next
  case (Some S)
  from assms Some have S: "leadership_inv C E S" "ls_nonce S = committed_position N" "ls_votes S = []"
    by (auto simp: node_inv_def)
  have step: "good_step C E N (snd (case heartbeat leader t beat nonce S of
       (Inl e, S1) \<Rightarrow> (Inl e, N\<lparr>nd_leadership := Some S1\<rparr>)
     | (Inr _, S1) \<Rightarrow> (Inr (leadership_reply N S1), node_save (N\<lparr>nd_leadership := Some S1\<rparr>))))"
    if "nonce = committed_position N" for leader t beat nonce
  proof -
    obtain x T where h: "heartbeat leader t beat nonce S = (x, T)" by (cases "heartbeat leader t beat nonce S")
    have "leadership_inv C E T" using heartbeat_inv [OF S(1), of leader t beat nonce] h by simp
    moreover have "ls_nonce T = ls_nonce S" "ls_votes T = []" "ls_authority T = ls_authority S" "ls_certs T = ls_certs S"
      using h that S by (auto simp: heartbeat_def split: if_splits)
    ultimately show ?thesis
      using h by (cases x) (auto intro!: good_step_leadership [OF assms Some, where T = T and cs = "[]"])
  qed
  show ?thesis
    unfolding receive_heartbeat_def Some option.case if_not_P
    using good_step_same [OF assms] step
    by (auto split: option.split json.split)
qed

lemma record_certificate_step:
  assumes "node_inv C E N"
  shows "good_step C E N (snd (record_leadership_certificate C E c N))"
proof (cases "nd_leadership N")
  case None
  with good_step_same [OF assms] show ?thesis by (simp add: record_leadership_certificate_def)
next
  case (Some S)
  from assms Some have S: "leadership_inv C E S" "ls_nonce S = committed_position N" "ls_votes S = []"
    by (auto simp: node_inv_def)
  obtain x T where a: "accept_certificate C E c S = (x, T)" by (cases "accept_certificate C E c S")
  have T: "leadership_inv C E T" using accept_certificate_inv [OF S(1), of c] a by simp
  have "\<exists>cs. ls_nonce T = ls_nonce S \<and> ls_votes T = [] \<and> ls_authority T = ls_authority S \<and> ls_certs T = ls_certs S @ cs"
  proof (cases "c \<in> set (ls_certs S) \<or> \<not> is_ok x")
    case True
    then have "T = S" using a accept_certificate_again [of c S C E] accept_certificate_Inl [of C E c S]
      by (cases x) auto
    with S(3) show ?thesis by auto
  next
    case False
    then have "fst (accept_certificate C E c S) = Inr ()" using a by (cases x) auto
    moreover have "2 \<le> ls_timeout S" using S(1) by (simp add: leadership_inv_def)
    ultimately have "\<exists>candidate. snd (accept_certificate C E c S) = S\<lparr>ls_term := ls_term S + 1, ls_leader := candidate,
       ls_heartbeat := fl_tick (hd (lc_votes c)), ls_votes := [], ls_certs := ls_certs S @ [c]\<rparr>"
      using False by (auto elim: accept_certificate_Inr)
    with a show ?thesis by auto
  qed
  then obtain cs where cs: "ls_nonce T = ls_nonce S" "ls_votes T = []" "ls_authority T = ls_authority S" "ls_certs T = ls_certs S @ cs"
    by blast
  show ?thesis
    using a good_step_same [OF assms] good_step_leadership [OF assms Some _ T cs]
    by (cases x) (auto simp: record_leadership_certificate_def Some)
qed

lemma receive_certificate_step:
  assumes "node_inv C E N"
  shows "good_step C E N (snd (receive_certificate C E params N))"
proof (cases "guard_read (ProtocolError ''invalid leadership certificate'') (read_certificate params)")
  case (Inl e)
  with good_step_same [OF assms] show ?thesis by (simp add: receive_certificate_def)
next
  case (Inr c)
  have "snd (receive_certificate C E params N) = snd (record_leadership_certificate C E c N)"
    by (cases "record_leadership_certificate C E c N") (auto simp: receive_certificate_def Inr split: sum.split option.split)
  with record_certificate_step [OF assms] show ?thesis by simp
qed

text \<open>The leader: its steps before the quorum keep everything that \<open>same_core\<close> lists.\<close>

definition same_core :: "node \<Rightarrow> node \<Rightarrow> bool" where
  "same_core N M =
     (nd_ledger M = nd_ledger N \<and> nd_log M = nd_log N \<and> nd_nonces M = nd_nonces N \<and> nd_leadership M = nd_leadership N
      \<and> nd_id M = nd_id N \<and> nd_role M = nd_role N \<and> nd_repl M = nd_repl N)"

lemma same_core_refl: "same_core N N"
  by (simp add: same_core_def)

lemma same_core_updates:
  "same_core N M \<Longrightarrow> same_core N (node_save M)" "same_core N M \<Longrightarrow> same_core N (M\<lparr>nd_pending := p\<rparr>)"
  "same_core N M \<Longrightarrow> same_core N (M\<lparr>nd_auth := A\<rparr>)"
  by (simp_all add: same_core_def)

lemma same_core_abort: "same_core N (abort_uncommitted_primary N)"
  by (simp add: abort_uncommitted_primary_def same_core_updates same_core_refl)

lemma same_core_step: "node_inv C E N \<Longrightarrow> same_core N M \<Longrightarrow> good_step C E N M"
  unfolding same_core_def by (elim conjE, rule good_step_frame)

lemma replication_sign_fields:
  assumes "replication_sign C E R node_id nonce mut = Inr env"
  shows "envelope_nonce env = nonce" "envelope_json env ''mutation'' = Inr mut"
  using assms
  by (auto simp: replication_sign_def bindR_Inr_iff envelope_nonce_def envelope_int_def envelope_json_def
      obj_get_def obj_fields_def split: if_splits option.splits)

lemma leader_commit_step:
  assumes inv: "node_inv C E N" and core: "same_core N K" and "committed_position N < nonce"
    and "envelope_nonce env = nonce" "envelope_json env ''mutation'' = Inr mut"
  shows "good_step C E N (snd (case apply_mutation C mut True K of
            (Inl e, N3) \<Rightarrow> (Inl e, N3)
          | (Inr r, N3) \<Rightarrow>
              let N4 = record_commit (nd_id N3) nonce env N3 in if b then (Inr r, N4) else (Inl u, N4)))"
proof -
  have L: "nd_ledger K = nd_ledger N" using core by (simp add: same_core_def)
  with inv have "ledger_inv (nd_ledger K)" by (simp add: node_inv_def)
  then show ?thesis
  proof (rule apply_mutation_cases [of K C mut True])
    fix e A
    assume "fst (apply_mutation C mut True K) = Inl e" "snd (apply_mutation C mut True K) = K\<lparr>nd_auth := A\<rparr>"
    then show ?thesis
      using same_core_step [OF inv same_core_updates(3) [OF core]] by (cases "apply_mutation C mut True K") simp
  next
    fix r A
    assume r: "fst (apply_mutation C mut True K) = Inr r" "fst (mutation_call C mut (nd_ledger K)) = Inr r"
      "snd (apply_mutation C mut True K) = K\<lparr>nd_auth := A, nd_ledger := snd (mutation_call C mut (nd_ledger K))\<rparr>"
    let ?K = "K\<lparr>nd_auth := A, nd_ledger := snd (mutation_call C mut (nd_ledger K))\<rparr>"
    have "good_step C E N (record_commit (nd_id ?K) nonce env ?K)"
      by (rule record_commit_step [OF inv assms(3-5), of r "nd_ledger ?K"])
        (use r(2) core L in \<open>simp_all add: prod_eq_iff same_core_def\<close>)
    with r(1,3) show ?thesis by (cases "apply_mutation C mut True K") (simp add: Let_def)
  qed
qed

lemma replicate_mutation_step:
  assumes inv: "node_inv C E N"
  shows "good_step C E N (snd (replicate_mutation C E prepared confirmed mut N))"
proof (cases "nd_repl N = None \<or> nd_leadership N \<noteq> None \<and> leader_of N \<noteq> nd_id N")
  case True
  with good_step_same [OF inv] show ?thesis by (auto simp: replicate_mutation_def split: option.split)
next
  case False
  then obtain R where R: "nd_repl N = Some R" by auto
  let ?N0 = "abort_uncommitted_primary N"
  obtain x A where t: "try_mutation C mut ?N0 = (x, ?N0\<lparr>nd_auth := A\<rparr>)"
    using try_mutation_auth by (metis surjective_pairing)
  define N1 where "N1 = ?N0\<lparr>nd_auth := A\<rparr>"
  have core: "same_core N N1" unfolding N1_def by (intro same_core_updates same_core_abort)
  then have pos: "committed_position N1 = committed_position N"
    by (intro committed_position_cong) (simp add: same_core_def)
  note unfold = replicate_mutation_def R option.case if_not_P [OF False [unfolded de_Morgan_disj, THEN conjunct2]]
    t [folded N1_def] prod.case
  show ?thesis
  proof (cases x)
    case (Inl e)
    with same_core_step [OF inv core] show ?thesis unfolding unfold by simp
  next
    case (Inr u)
    define nonce where "nonce = committed_position N1 + 1"
    show ?thesis
    proof (cases "replication_sign C E R (nd_id N1) nonce mut")
      case (Inl e)
      with Inr same_core_step [OF inv core] show ?thesis unfolding unfold by (simp add: nonce_def)
    next
      case sign: (Inr env)
      define N2 where "N2 = node_save (N1\<lparr>nd_pending := Some env\<rparr>)"
      have core2: "same_core N N2" unfolding N2_def by (intro same_core_updates core)
      then have id: "nd_id N2 = nd_id N" by (simp add: same_core_def)
      show ?thesis
      proof (cases "prepared env < 1")
        case True
        with Inr sign same_core_step [OF inv same_core_updates(1) [OF same_core_updates(2) [OF core2]]]
        show ?thesis unfolding unfold by (simp add: nonce_def N2_def)
      next
        case prep: False
        have "committed_position N < nonce" using pos by (simp add: nonce_def)
        from leader_commit_step [OF inv core2 this replication_sign_fields [OF sign], of "confirmed env"
            "CommitUncertain ''commit outcome is uncertain''"]
        show ?thesis unfolding unfold Inr sum.case Let_def nonce_def [symmetric] sign N2_def [symmetric] if_not_P [OF prep] .
      qed
    qed
  qed
qed

text \<open>Every step is good, so the node keeps its invariant.\<close>

lemma node_step_good: "node_inv C E N \<Longrightarrow> good_step C E N (snd (node_step C E op N))"
  by (cases op)
    (simp_all add: prepare_replica_step commit_replica_step abort_replica_step receive_heartbeat_step
      receive_certificate_step replicate_mutation_step)

interpretation node: invariant_machine "node_step C E" "node_inv C E" for C E
  by unfold_locales (use node_step_good good_step_def in blast)

end
