(* ===== verification/Signed_Windows.thy ===== *)
theory Signed_Windows
  imports Signatures
begin

text \<open>
  Two contracts of the compute layer: documents under the HMAC of an authority that hold for a window of
  rounds (workload manifests and runtime attestations, both checked by recomputing the signature), and
  tokens that an object accepts at most once (attestation nonces, secret leases).
\<close>

section \<open>Documents signed for a window\<close>

text \<open>
  \<open>verify d r\<close> recomputes the signature and then tests the window and the other fields; the comparison of
  the signatures comes last, so an earlier test that fails answers \<open>False\<close>.
\<close>

definition window_verify ::
    "crypto \<Rightarrow> string \<Rightarrow> json \<Rightarrow> bool \<Rightarrow> int \<Rightarrow> int \<Rightarrow> string \<Rightarrow> int \<Rightarrow> bool result" where
  "window_verify C secret body other valid_from valid_until signature r =
     bindR (hmac_json C secret body) (\<lambda>expected.
       if other \<and> valid_from \<le> r \<and> r < valid_until then compare_digest expected signature else Inr False)"

locale signed_window =
  fixes C :: crypto and secret :: string
    and unsigned :: "'d \<Rightarrow> json" and signature :: "'d \<Rightarrow> string"
    and valid_from :: "'d \<Rightarrow> int" and valid_until :: "'d \<Rightarrow> int" and other :: "'d \<Rightarrow> bool"
    and verify :: "'d \<Rightarrow> int \<Rightarrow> bool result"
  assumes verify_window: "verify d r
      = window_verify C secret (unsigned d) (other d) (valid_from d) (valid_until d) (signature d) r"
    and unsigned_finite: "\<not> has_nonfinite (unsigned d)"
    and unsigned_floats: "wf_floats (unsigned d)"
begin

lemma verified:
  assumes "verify d r = Inr True"
  shows "other d" "valid_from d \<le> r" "r < valid_until d" "hmac_json C secret (unsigned d) = Inr (signature d)"
  using assms by (auto simp: verify_window window_verify_def bindR_Inr_iff compare_digest_def split: if_splits)

text \<open>A correctly signed document verifies exactly in its window, when its fields pass.\<close>

lemma signed_verifies:
  assumes "hmac_json C secret (unsigned d) = Inr (signature d)" "hex_digests C"
  shows "verify d r = Inr (other d \<and> valid_from d \<le> r \<and> r < valid_until d)"
proof -
  have "is_ascii (signature d)" using assms by (auto simp: hmac_json_Inr hex_digests_def)
  with assms(1) show ?thesis by (simp add: verify_window window_verify_def compare_digest_def)
qed

text \<open>A signature serves one document only.\<close>

lemma signature_binds:
  assumes "verify d r = Inr True" "verify d' r' = Inr True" "signature d = signature d'"
    "\<not> hmac_collision C secret (unsigned d) (unsigned d')"
  shows "sort_keys (unsigned d) = sort_keys (unsigned d')"
  using hmac_json_binds [OF _ _ unsigned_floats unsigned_floats assms(4)] verified(4) [OF assms(1)]
    verified(4) [OF assms(2)] assms(3) by simp

end

section \<open>Tokens that are accepted once\<close>

locale single_use =
  fixes step :: "'m \<Rightarrow> 's \<Rightarrow> (error + 'a) \<times> 's"
    and token :: "'m \<Rightarrow> 'k" and used :: "'s \<Rightarrow> 'k set"
  assumes accept_unused: "fst (step m s) = Inr x \<Longrightarrow> token m \<notin> used s"
    and accept_used: "fst (step m s) = Inr x \<Longrightarrow> token m \<in> used (snd (step m s))"
    and used_mono: "used s \<subseteq> used (snd (step m s))"
begin

lemma run_mono: "used s \<subseteq> used (run_ops step ms s)"
proof (induction ms arbitrary: s)
  case (Cons m ms)
  from used_mono [of s m] Cons [of "snd (step m s)"] show ?case by simp
qed simp

lemma accepted_unused: "m \<in> set (accepted step ms s) \<Longrightarrow> token m \<notin> used s"
proof (induction ms arbitrary: s)
  case (Cons n ms)
  then show ?case
    using used_mono [of s n] by (fastforce simp: is_ok_iff split: if_splits dest: accept_unused)
qed simp

lemma accepted_tokens: "distinct (map token (accepted step ms s))"
proof (induction ms arbitrary: s)
  case (Cons m ms)
  show ?case
  proof (cases "fst (step m s)")
    case (Inl e)
    with Cons show ?thesis by simp
  next
    case (Inr x)
    have "token m \<noteq> token n" if "n \<in> set (accepted step ms (snd (step m s)))" for n
      using accepted_unused [OF that] accept_used [OF Inr] by metis
    with Inr Cons show ?thesis by auto
  qed
qed simp

lemma used_rejected:
  assumes "fst (step m s) = Inr x" "token n = token m"
  shows "\<not> is_ok (fst (step n (run_ops step ms (snd (step m s)))))"
proof
  assume "is_ok (fst (step n (run_ops step ms (snd (step m s)))))"
  then obtain y where "fst (step n (run_ops step ms (snd (step m s)))) = Inr y" by (auto simp: is_ok_iff)
  from accept_unused [OF this] show False
    using accept_used [OF assms(1)] run_mono [of "snd (step m s)" ms] assms(2) by auto
qed

end

end
