(* ===== verification/Distops.thy ===== *)
theory Distops
  imports Signed_Windows "HOL-Library.Product_Lexorder"
begin

text \<open>
  The scheduler of \<open>splitchain/distops.py\<close>: workloads with a signed manifest are placed on the eligible
  node of the highest reputation, and the receipt states the sandbox contract. Receipts are the
  dictionaries of the source, held as JSON values (a tuple is a JSON array).
\<close>

section \<open>Workloads, nodes and manifests\<close>

datatype risk = Low | Medium | High

fun risk_name :: "risk \<Rightarrow> string" where
  "risk_name Low = ''low''"
| "risk_name Medium = ''medium''"
| "risk_name High = ''high''"

record compute_node =
  cn_id :: string
  cn_cpu :: int
  cn_memory :: int
  cn_reputation :: int
  cn_trusted :: bool
  cn_busy :: bool

record workload =
  wl_image :: string
  wl_command :: "string list"
  wl_cpu :: int
  wl_memory :: int
  wl_risk :: risk
  wl_network :: "string list"
  wl_secrets :: "string list"

definition str_array :: "string list \<Rightarrow> json" where
  "str_array xs = JList (map JStr xs)"

definition workload_public :: "workload \<Rightarrow> json" where
  "workload_public w = JObj
     [(''image'', JStr (wl_image w)), (''command'', str_array (wl_command w)), (''cpu'', JInt (wl_cpu w)),
      (''memory_mb'', JInt (wl_memory w)), (''risk'', JStr (risk_name (wl_risk w))),
      (''network_allowlist'', str_array (wl_network w)), (''secret_names'', str_array (wl_secrets w))]"

record manifest =
  mf_issuer :: string
  mf_digest :: string
  mf_from :: int
  mf_until :: int
  mf_signature :: string

definition manifest_json :: "string \<Rightarrow> string \<Rightarrow> int \<Rightarrow> int \<Rightarrow> json" where
  "manifest_json issuer digest valid_from valid_until = JObj
     [(''issuer'', JStr issuer), (''valid_from'', JInt valid_from), (''valid_until'', JInt valid_until),
      (''workload_digest'', JStr digest)]"

definition manifest_unsigned :: "manifest \<Rightarrow> json" where
  "manifest_unsigned m = manifest_json (mf_issuer m) (mf_digest m) (mf_from m) (mf_until m)"

definition manifest_dict :: "manifest \<Rightarrow> json" where
  "manifest_dict m = JObj
     [(''issuer'', JStr (mf_issuer m)), (''workload_digest'', JStr (mf_digest m)),
      (''valid_from'', JInt (mf_from m)), (''valid_until'', JInt (mf_until m)),
      (''signature'', JStr (mf_signature m))]"

record manifest_authority =
  ma_issuer :: string
  ma_secret :: string

definition workload_digest :: "crypto \<Rightarrow> workload \<Rightarrow> string result" where
  "workload_digest C w = protocol_digest C ''splitchain/distops-workload/v1'' (workload_public w)"

definition manifest_issue :: "crypto \<Rightarrow> manifest_authority \<Rightarrow> workload \<Rightarrow> int \<Rightarrow> int \<Rightarrow> manifest result" where
  "manifest_issue C A w valid_from valid_until =
     (if valid_until \<le> valid_from then Inl (ValueError ''invalid workload manifest validity window'')
      else bindR (workload_digest C w) (\<lambda>d.
        bindR (hmac_json C (ma_secret A) (manifest_json (ma_issuer A) d valid_from valid_until)) (\<lambda>s.
          Inr \<lparr>mf_issuer = ma_issuer A, mf_digest = d, mf_from = valid_from, mf_until = valid_until, mf_signature = s\<rparr>)))"

definition manifest_verify :: "crypto \<Rightarrow> manifest_authority \<Rightarrow> workload \<Rightarrow> manifest \<Rightarrow> int \<Rightarrow> bool result" where
  "manifest_verify C A w m r =
     bindR (workload_digest C w) (\<lambda>d.
     bindR (hmac_json C (ma_secret A) (manifest_unsigned m)) (\<lambda>expected.
       if mf_issuer m = ma_issuer A \<and> mf_from m \<le> r \<and> r < mf_until m \<and> mf_digest m = d
       then compare_digest expected (mf_signature m) else Inr False))"

section \<open>The scheduler\<close>

record distops =
  do_nodes :: "compute_node list"
  do_authority :: "manifest_authority option"
  do_receipts :: "json list"

definition ALLOWED_IMAGES :: "string set" where
  "ALLOWED_IMAGES = {''splitchain/echo:0.1'', ''splitchain/hash:0.1''}"

fun REPUTATION_FLOOR :: "risk \<Rightarrow> int" where
  "REPUTATION_FLOOR Low = 0"
| "REPUTATION_FLOOR Medium = 50"
| "REPUTATION_FLOOR High = 80"

definition eligible :: "workload \<Rightarrow> compute_node \<Rightarrow> bool" where
  "eligible w n =
     (\<not> cn_busy n \<and> wl_cpu w \<le> cn_cpu n \<and> wl_memory w \<le> cn_memory n
      \<and> REPUTATION_FLOOR (wl_risk w) \<le> cn_reputation n \<and> (wl_risk w = Low \<or> cn_trusted n))"

definition node_key :: "compute_node \<Rightarrow> int \<times> bool \<times> string" where
  "node_key n = (cn_reputation n, cn_trusted n, cn_id n)"

text \<open>\<open>max\<close> returns the first of the greatest; a node is named by its place in the list.\<close>

fun best_node :: "(nat \<times> compute_node) list \<Rightarrow> (nat \<times> compute_node) option" where
  "best_node [] = None"
| "best_node (p # ps) =
     (case best_node ps of
        None \<Rightarrow> Some p
      | Some q \<Rightarrow> if node_key (snd p) < node_key (snd q) then Some q else Some p)"

definition candidates :: "workload \<Rightarrow> compute_node list \<Rightarrow> (nat \<times> compute_node) list" where
  "candidates w nodes = filter (\<lambda>(i, n). eligible w n) (enumerate 0 nodes)"

definition completion_json :: "string \<Rightarrow> json \<Rightarrow> json" where
  "completion_json node w = JObj [(''node_id'', JStr node), (''workload'', w)]"

definition completion_proof :: "crypto \<Rightarrow> string \<Rightarrow> workload \<Rightarrow> string result" where
  "completion_proof C node w =
     protocol_digest C ''splitchain/distops-completion/v1'' (completion_json node (workload_public w))"

definition compute_node_json :: "compute_node \<Rightarrow> json" where
  "compute_node_json n = JObj
     [(''node_id'', JStr (cn_id n)), (''cpu'', JInt (cn_cpu n)), (''memory_mb'', JInt (cn_memory n)),
      (''reputation'', JInt (cn_reputation n)), (''trusted'', JBool (cn_trusted n)), (''busy'', JBool (cn_busy n))]"

definition network_json :: "workload \<Rightarrow> json" where
  "network_json w =
     (if wl_network w \<noteq> [] then JObj [(''mode'', JStr ''allowlist''), (''destinations'', str_array (wl_network w))]
      else JObj [(''mode'', JStr ''deny''), (''destinations'', JList [])])"

definition sandbox_json :: "workload \<Rightarrow> json" where
  "sandbox_json w = JObj
     [(''runtime'', JStr (if wl_risk w = High then ''microvm'' else ''container'')),
      (''rootless'', JBool True), (''network'', network_json w), (''filesystem'', JStr ''read-only''),
      (''privileges'', JStr ''none''), (''no_new_privileges'', JBool True), (''capabilities'', JStr ''drop-all''),
      (''seccomp'', JStr ''required''), (''host_pid_namespace'', JBool False),
      (''quotas'', JObj [(''cpu'', JInt (wl_cpu w)), (''memory_mb'', JInt (wl_memory w))]),
      (''secrets'', JObj [(''names'', str_array (wl_secrets w)), (''delivery'', JStr ''ephemeral''),
         (''persisted'', JBool False), (''values_exposed'', JBool False)])]"

text \<open>The receipt is written while the node is marked busy.\<close>

definition schedule_receipt :: "compute_node \<Rightarrow> workload \<Rightarrow> manifest option \<Rightarrow> string \<Rightarrow> json" where
  "schedule_receipt n w m proof_digest = JObj
     [(''node'', compute_node_json n), (''workload'', workload_public w),
      (''manifest'', case m of None \<Rightarrow> JNull | Some x \<Rightarrow> manifest_dict x), (''sandbox'', sandbox_json w),
      (''result_digest'', JStr proof_digest), (''completion_proof'', JStr proof_digest),
      (''status'', JStr ''completed'')]"

definition manifest_check :: "crypto \<Rightarrow> workload \<Rightarrow> manifest option \<Rightarrow> int \<Rightarrow> distops \<Rightarrow> bool result" where
  "manifest_check C w m r D =
     (case do_authority D of
        None \<Rightarrow> Inr True
      | Some A \<Rightarrow> (case m of None \<Rightarrow> Inr False | Some x \<Rightarrow> manifest_verify C A w x r))"

definition set_busy :: "nat \<Rightarrow> bool \<Rightarrow> distops \<Rightarrow> distops" where
  "set_busy i b D = D\<lparr>do_nodes := (do_nodes D)[i := (do_nodes D ! i)\<lparr>cn_busy := b\<rparr>]\<rparr>"

definition schedule :: "crypto \<Rightarrow> workload \<Rightarrow> manifest option \<Rightarrow> int \<Rightarrow> (distops, json) operation" where
  "schedule C w m r D =
     (if wl_image w \<notin> ALLOWED_IMAGES
      then (Inl (ValueError ''image is not approved by the DistOPS sandbox policy''), D)
      else if wl_cpu w < 1 \<or> wl_memory w < 64 then (Inl (ValueError ''invalid DistOPS resource quota''), D)
      else (case manifest_check C w m r D of
          Inl e \<Rightarrow> (Inl e, D)
        | Inr False \<Rightarrow> (Inl (ValueError ''signed workload manifest is missing or invalid''), D)
        | Inr True \<Rightarrow>
            (case best_node (candidates w (do_nodes D)) of
               None \<Rightarrow> (Inl (ValueError ''no eligible sandbox node''), D)
             | Some (i, n) \<Rightarrow>
                 let B = set_busy i True D in
                 (case completion_proof C (cn_id n) w of
                    Inl e \<Rightarrow> (Inl e, B)
                  | Inr p \<Rightarrow>
                      let R = schedule_receipt (do_nodes B ! i) w m p;
                          D' = set_busy i False B
                      in (Inr R, D'\<lparr>do_receipts := do_receipts D' @ [R]\<rparr>)))))"

section \<open>Lemmas\<close>

lemma str_array_simps [simp]: "\<not> has_nonfinite (str_array xs)" "wf_floats (str_array xs)"
  by (auto simp: str_array_def list_ex_iff list_all_iff)

lemma str_array_eq [simp]: "str_array xs = str_array ys \<longleftrightarrow> xs = ys"
  by (simp add: str_array_def inj_map_eq_map inj_def)

lemma workload_public_simps [simp]: "\<not> has_nonfinite (workload_public w)" "wf_floats (workload_public w)"
  by (simp_all add: workload_public_def)

lemma manifest_json_simps [simp]:
  "\<not> has_nonfinite (manifest_json i d f u)" "wf_floats (manifest_json i d f u)"
  by (simp_all add: manifest_json_def)

lemma completion_json_simps [simp]:
  "has_nonfinite (completion_json n v) \<longleftrightarrow> has_nonfinite v" "wf_floats (completion_json n v) \<longleftrightarrow> wf_floats v"
  by (simp_all add: completion_json_def)

lemma workload_digest_ok: "workload_digest C w
    = Inr (sha256 C (''splitchain/distops-workload/v1'' @ [CHR 0x00] @ render (sort_keys (workload_public w))))"
  by (simp add: workload_digest_def protocol_digest_def is_ascii_def canonical_json_def)

lemma completion_proof_ok: "completion_proof C node w
    = Inr (sha256 C (''splitchain/distops-completion/v1'' @ [CHR 0x00]
        @ render (sort_keys (completion_json node (workload_public w)))))"
  by (simp add: completion_proof_def protocol_digest_def is_ascii_def canonical_json_def)

text \<open>A manifest is the window contract for one workload.\<close>

interpretation manifests: signed_window C "ma_secret A" manifest_unsigned mf_signature mf_from mf_until
    "\<lambda>m. mf_issuer m = ma_issuer A \<and> Inr (mf_digest m) = workload_digest C w" "manifest_verify C A w"
  for C A w
proof
  fix m r
  show "manifest_verify C A w m r = window_verify C (ma_secret A) (manifest_unsigned m)
      (mf_issuer m = ma_issuer A \<and> Inr (mf_digest m) = workload_digest C w) (mf_from m) (mf_until m) (mf_signature m) r"
    by (auto simp: manifest_verify_def window_verify_def workload_digest_ok bindR_def split: sum.splits)
qed (simp_all add: manifest_unsigned_def)

lemma manifest_issued:
  assumes "manifest_issue C A w f u = Inr m"
  shows "hmac_json C (ma_secret A) (manifest_unsigned m) = Inr (mf_signature m)" "mf_issuer m = ma_issuer A"
    "workload_digest C w = Inr (mf_digest m)" "mf_from m = f" "mf_until m = u"
  using assms by (auto simp: manifest_issue_def bindR_Inr_iff manifest_unsigned_def split: if_splits)

lemma best_node_Some:
  "best_node ps = Some p \<Longrightarrow> p \<in> set ps \<and> (\<forall>q \<in> set ps. node_key (snd q) \<le> node_key (snd p))"
proof (induction ps arbitrary: p)
  case (Cons a ps)
  show ?case
  proof (cases "best_node ps")
    case None
    then have "ps = []" by (cases ps) (auto split: option.splits if_splits)
    with Cons.prems show ?thesis by simp
  next
    case (Some q)
    with Cons.IH [OF Some] Cons.prems show ?thesis by (auto split: if_splits)
  qed
qed simp

lemma best_node_None: "best_node ps = None \<longleftrightarrow> ps = []"
  by (cases ps) (auto split: option.splits if_splits)

lemma candidates_mem: "(i, n) \<in> set (candidates w nodes) \<longleftrightarrow> i < length nodes \<and> nodes ! i = n \<and> eligible w n"
  by (auto simp: candidates_def in_set_enumerate_eq)

lemma candidates_empty: "candidates w nodes = [] \<longleftrightarrow> (\<forall>n \<in> set nodes. \<not> eligible w n)"
proof
  assume "candidates w nodes = []"
  then show "\<forall>n \<in> set nodes. \<not> eligible w n"
    using candidates_mem [of _ _ w nodes] by (auto simp: in_set_conv_nth)
next
  assume none: "\<forall>n \<in> set nodes. \<not> eligible w n"
  show "candidates w nodes = []"
  proof (rule ccontr)
    assume "candidates w nodes \<noteq> []"
    then obtain i n where "(i, n) \<in> set (candidates w nodes)" by (cases "candidates w nodes") auto
    with none show False by (auto simp: candidates_mem)
  qed
qed

text \<open>What \<open>schedule\<close> does when it succeeds, and when it does.\<close>

definition scheduled_on :: "crypto \<Rightarrow> workload \<Rightarrow> manifest option \<Rightarrow> compute_node \<Rightarrow> json" where
  "scheduled_on C w m n = schedule_receipt (n\<lparr>cn_busy := True\<rparr>) w m (projr (completion_proof C (cn_id n) w))"

lemma not_busy_update: "\<not> cn_busy n \<Longrightarrow> n\<lparr>cn_busy := False\<rparr> = n"
  by (cases n) simp

lemma set_busy_twice:
  assumes "i < length (do_nodes D)" "\<not> cn_busy (do_nodes D ! i)"
  shows "set_busy i False (set_busy i True D) = D"
proof -
  have "(do_nodes D)[i := (do_nodes D ! i)\<lparr>cn_busy := False\<rparr>] = do_nodes D"
    by (simp only: not_busy_update [OF assms(2)] list_update_id)
  with assms(1) show ?thesis by (simp add: set_busy_def)
qed

lemma schedule_Inr:
  "fst (schedule C w m r D) = Inr R \<longleftrightarrow>
     wl_image w \<in> ALLOWED_IMAGES \<and> 1 \<le> wl_cpu w \<and> 64 \<le> wl_memory w \<and> manifest_check C w m r D = Inr True
     \<and> (\<exists>i n. best_node (candidates w (do_nodes D)) = Some (i, n) \<and> R = scheduled_on C w m n)"
  (is "?L \<longleftrightarrow> ?R")
proof (cases "wl_image w \<in> ALLOWED_IMAGES \<and> 1 \<le> wl_cpu w \<and> 64 \<le> wl_memory w \<and> manifest_check C w m r D = Inr True")
  case False
  then show ?thesis by (auto simp: schedule_def split: sum.splits bool.splits)
next
  case True
  then show ?thesis
  proof (cases "best_node (candidates w (do_nodes D))")
    case None
    with True show ?thesis by (simp add: schedule_def)
  next
    case (Some p)
    obtain i n where p: "p = (i, n)" by (cases p)
    with best_node_Some [OF Some] have i: "i < length (do_nodes D)" "do_nodes D ! i = n"
      by (simp_all add: candidates_mem)
    with True Some p show ?thesis
      by (auto simp: schedule_def Let_def scheduled_on_def completion_proof_ok set_busy_def)
  qed
qed

lemma schedule_state:
  "snd (schedule C w m r D) = (case fst (schedule C w m r D) of
      Inl e \<Rightarrow> D | Inr R \<Rightarrow> D\<lparr>do_receipts := do_receipts D @ [R]\<rparr>)"
proof (cases "fst (schedule C w m r D)")
  case (Inr R)
  then obtain i n where best: "best_node (candidates w (do_nodes D)) = Some (i, n)"
    and ok: "wl_image w \<in> ALLOWED_IMAGES" "1 \<le> wl_cpu w" "64 \<le> wl_memory w" "manifest_check C w m r D = Inr True"
    by (auto simp: schedule_Inr)
  from best_node_Some [OF best] have "i < length (do_nodes D)" "\<not> cn_busy (do_nodes D ! i)"
    by (auto simp: candidates_mem eligible_def)
  from set_busy_twice [OF this] Inr ok best show ?thesis
    by (simp add: schedule_def Let_def completion_proof_ok)
next
  case (Inl e)
  then show ?thesis
    by (auto simp: schedule_def Let_def completion_proof_ok split: sum.splits bool.splits option.splits if_splits)
qed

end
