(* ===== verification/Runtime.thy ===== *)
theory Runtime
  imports Distops Genesis Request_Auth Transport "HOL-Library.Sublist"
begin

text \<open>
  The container runtime of \<open>splitchain/runtime.py\<close>: attestations of the container engine, the command line
  built from a receipt, the egress gateway, one-time secret leases, and the execution that joins them. The
  process that runs the command is a parameter, \<open>runner\<close>.
\<close>

section \<open>Attestations of the engine\<close>

record runtime_attestation =
  ra_issuer :: string
  ra_engine :: string
  ra_version :: string
  ra_nonce :: string
  ra_rootless :: bool
  ra_seccomp :: bool
  ra_no_new :: bool
  ra_from :: int
  ra_until :: int
  ra_signature :: string

definition attestation_json ::
    "string \<Rightarrow> string \<Rightarrow> string \<Rightarrow> string \<Rightarrow> bool \<Rightarrow> bool \<Rightarrow> bool \<Rightarrow> int \<Rightarrow> int \<Rightarrow> json" where
  "attestation_json issuer engine version nonce rootless seccomp no_new valid_from valid_until = JObj
     [(''engine'', JStr engine), (''issuer'', JStr issuer), (''no_new_privileges'', JBool no_new),
      (''nonce'', JStr nonce), (''rootless'', JBool rootless), (''seccomp'', JBool seccomp),
      (''valid_from'', JInt valid_from), (''valid_until'', JInt valid_until), (''version'', JStr version)]"

definition attestation_unsigned :: "runtime_attestation \<Rightarrow> json" where
  "attestation_unsigned a = attestation_json (ra_issuer a) (ra_engine a) (ra_version a) (ra_nonce a)
     (ra_rootless a) (ra_seccomp a) (ra_no_new a) (ra_from a) (ra_until a)"

record runtime_authority =
  rt_issuer :: string
  rt_secret :: string

definition attestation_issue ::
    "crypto \<Rightarrow> runtime_authority \<Rightarrow> string \<Rightarrow> string \<Rightarrow> int \<Rightarrow> int \<Rightarrow> string \<Rightarrow> bool \<Rightarrow> bool \<Rightarrow> bool
     \<Rightarrow> runtime_attestation result" where
  "attestation_issue C A engine version valid_from valid_until nonce rootless seccomp no_new =
     (if valid_until \<le> valid_from \<or> nonce = [] then Inl (ProtocolError ''invalid runtime attestation window'')
      else bindR (hmac_json C (rt_secret A)
            (attestation_json (rt_issuer A) engine version nonce rootless seccomp no_new valid_from valid_until)) (\<lambda>s.
          Inr \<lparr>ra_issuer = rt_issuer A, ra_engine = engine, ra_version = version, ra_nonce = nonce,
            ra_rootless = rootless, ra_seccomp = seccomp, ra_no_new = no_new, ra_from = valid_from,
            ra_until = valid_until, ra_signature = s\<rparr>))"

definition attestation_fields :: "runtime_authority \<Rightarrow> runtime_attestation \<Rightarrow> bool" where
  "attestation_fields A a =
     (ra_issuer a = rt_issuer A \<and> ra_engine a \<in> {''docker'', ''containerd''} \<and> ra_rootless a \<and> ra_seccomp a
      \<and> ra_no_new a)"

definition attestation_verify :: "crypto \<Rightarrow> runtime_authority \<Rightarrow> runtime_attestation \<Rightarrow> int \<Rightarrow> bool result" where
  "attestation_verify C A a r =
     bindR (hmac_json C (rt_secret A) (attestation_unsigned a)) (\<lambda>expected.
       if attestation_fields A a \<and> ra_from a \<le> r \<and> r < ra_until a
       then compare_digest expected (ra_signature a) else Inr False)"

interpretation attestations: signed_window C "rt_secret A" attestation_unsigned ra_signature ra_from ra_until
    "attestation_fields A" "attestation_verify C A"
  for C A
  by unfold_locales
    (simp_all add: attestation_verify_def window_verify_def attestation_unsigned_def attestation_json_def)

section \<open>The egress gateway\<close>

record egress_gateway =
  eg_id :: string
  eg_network :: string
  eg_reputation :: int
  eg_trusted :: bool

definition CONSENSUS_NAMES :: "string list" where
  "CONSENSUS_NAMES = [''consensus'', ''validator'', ''finality'', ''overlord'', ''splitd'']"

text \<open>\<open>rpartition(":")\<close>: host and port around the last colon.\<close>

definition rpartition_colon :: "string \<Rightarrow> (string \<times> string) option" where
  "rpartition_colon s =
     (if CHR '':'' \<in> set s
      then let port = rev (takeWhile (\<lambda>c. c \<noteq> CHR '':'') (rev s)) in Some (take (length s - length port - 1) s, port)
      else None)"

definition port_digit :: "char \<Rightarrow> bool" where
  "port_digit c = (c \<in> set ''0123456789'')"

text \<open>
  A host names the consensus when a reserved name occurs in its lower case. Lower case is the ASCII one: no
  other character becomes part of a reserved name. Ports in other scripts' digits are left out.
\<close>

definition names_consensus :: "string \<Rightarrow> bool" where
  "names_consensus host = list_ex (\<lambda>name. sublist name (ascii_lower host)) CONSENSUS_NAMES"

definition check_destination :: "json \<Rightarrow> unit result" where
  "check_destination v =
     (case v of
        JStr d \<Rightarrow>
          (case rpartition_colon d of
             None \<Rightarrow> Inl (ProtocolError ''invalid egress destination'')
           | Some (host, port) \<Rightarrow>
               if host = [] \<or> port = [] then Inl (ProtocolError ''invalid egress destination'')
               else if \<not> is_ascii port then Inl Unmodelled
               else if \<not> list_all port_digit port then Inl (ProtocolError ''invalid egress destination'')
               else if names_consensus host
               then Inl (ProtocolError ''sandbox workloads cannot access consensus endpoints'')
               else Inr ())
      | _ \<Rightarrow> Inl AttributeError)"

definition egress_authorize :: "egress_gateway \<Rightarrow> json list \<Rightarrow> unit result" where
  "egress_authorize g destinations =
     (if \<not> eg_trusted g \<or> eg_reputation g < 80
      then Inl (ProtocolError ''egress gateway is not trusted and high-reputation'')
      else if destinations = [] then Inl (ProtocolError ''egress allowlist is empty'')
      else bindR (mapR check_destination destinations) (\<lambda>_. Inr ()))"

section \<open>The command line\<close>

text \<open>\<open>value.get(k, default)\<close>; another value than an object has no \<open>get\<close>.\<close>

definition pget :: "json \<Rightarrow> string \<Rightarrow> json \<Rightarrow> json result" where
  "pget v k d = (if obj_fields v = None then Inl AttributeError else Inr (get_or v k d))"

definition truthy :: "json \<Rightarrow> bool" where
  "truthy v =
     (case v of JNull \<Rightarrow> False | JBool b \<Rightarrow> b | JInt i \<Rightarrow> i \<noteq> 0 | JFloat t \<Rightarrow> t \<notin> {''0.0'', ''-0.0''}
      | JStr s \<Rightarrow> s \<noteq> [] | JList xs \<Rightarrow> xs \<noteq> [] | JObj kvs \<Rightarrow> kvs \<noteq> [])"

text \<open>\<open>int(v)\<close> and \<open>tuple(v)\<close>; the parsing of text and the splitting of text are left out.\<close>

definition py_int :: "json \<Rightarrow> int result" where
  "py_int v =
     (case v of JInt i \<Rightarrow> Inr i | JBool b \<Rightarrow> Inr (if b then 1 else 0) | JStr _ \<Rightarrow> Inl Unmodelled
      | JFloat _ \<Rightarrow> Inl Unmodelled | _ \<Rightarrow> Inl TypeError)"

definition py_tuple :: "json \<Rightarrow> json list result" where
  "py_tuple v = (case v of JList xs \<Rightarrow> Inr xs | JStr _ \<Rightarrow> Inl Unmodelled | JObj _ \<Rightarrow> Inl Unmodelled | _ \<Rightarrow> Inl TypeError)"

definition image_char :: "char \<Rightarrow> bool" where
  "image_char c = (c \<in> set ''abcdefghijklmnopqrstuvwxyz0123456789._/-'')"

text \<open>\<open>DIGEST_IMAGE.fullmatch\<close>\<close>

definition digest_image :: "string \<Rightarrow> bool" where
  "digest_image s =
     (let name = takeWhile (\<lambda>c. c \<noteq> CHR ''@'') s; rest = drop (length name) s in
      name \<noteq> [] \<and> list_all image_char name \<and> take 8 rest = ''@sha256:''
      \<and> length (drop 8 rest) = 64 \<and> list_all is_hex (drop 8 rest))"

definition argument_vector :: "json \<Rightarrow> string list option" where
  "argument_vector v =
     (case v of
        JList xs \<Rightarrow> (case str_list xs of Some args \<Rightarrow> if [] \<in> set args then None else Some args | None \<Rightarrow> None)
      | _ \<Rightarrow> None)"

definition isolation_contract :: "(string, json) dict" where
  "isolation_contract =
     [(''rootless'', JBool True), (''filesystem'', JStr ''read-only''), (''privileges'', JStr ''none''),
      (''no_new_privileges'', JBool True), (''capabilities'', JStr ''drop-all''), (''seccomp'', JStr ''required''),
      (''host_pid_namespace'', JBool False)]"

definition isolated :: "json \<Rightarrow> bool" where
  "isolated sandbox = list_all (\<lambda>(k, v). py_eq (get_or sandbox k JNull) v) isolation_contract"

definition network_name :: "json \<Rightarrow> egress_gateway option \<Rightarrow> string result" where
  "network_name network gw =
     bindR (pget network ''mode'' JNull) (\<lambda>mode.
       if mode = JStr ''deny'' then Inr ''none''
       else (case gw of
           Some g \<Rightarrow>
             if mode = JStr ''allowlist''
             then bindR (py_tuple (get_or network ''destinations'' (JList []))) (\<lambda>ds.
               bindR (egress_authorize g ds) (\<lambda>_. Inr (eg_network g)))
             else Inl (ProtocolError ''allowlist networking requires a trusted egress gateway'')
         | None \<Rightarrow> Inl (ProtocolError ''allowlist networking requires a trusted egress gateway'')))"

definition docker_argv :: "string \<Rightarrow> int \<Rightarrow> int \<Rightarrow> string \<Rightarrow> string list \<Rightarrow> string list" where
  "docker_argv network cpu memory img command =
     [''docker'', ''run'', ''--rm'', ''--read-only'', ''--network'', network, ''--pids-limit'', ''256'',
      ''--cpus'', int_str cpu, ''--memory'', int_str memory @ ''m'', ''--cap-drop'', ''ALL'',
      ''--security-opt'', ''no-new-privileges'', ''--security-opt'', ''seccomp=default'', img] @ command"

text \<open>The quotas, the network and the secrets of a sandbox that satisfies the isolation contract.\<close>

definition sandbox_argv :: "json \<Rightarrow> egress_gateway option \<Rightarrow> string \<Rightarrow> string list \<Rightarrow> string list result" where
  "sandbox_argv sandbox gw img command =
     bindR (network_name (get_or sandbox ''network'' (JObj [])) gw) (\<lambda>network.
     bindR (pget (get_or sandbox ''quotas'' (JObj [])) ''cpu'' (JInt 0)) (\<lambda>c.
     bindR (py_int c) (\<lambda>cpu.
     bindR (py_int (get_or (get_or sandbox ''quotas'' (JObj [])) ''memory_mb'' (JInt 0))) (\<lambda>memory.
     if cpu < 1 \<or> memory < 64 then Inl (ProtocolError ''runtime receipt has invalid quotas'')
     else
       bindR (pget (get_or sandbox ''secrets'' (JObj [])) ''names'' JNull) (\<lambda>names.
       if truthy names
       then Inl (ProtocolError ''secret delivery requires an external ephemeral-secret provider'')
       else Inr (docker_argv network cpu memory img command))))))"

definition build :: "json \<Rightarrow> egress_gateway option \<Rightarrow> string list result" where
  "build receipt gw =
     bindR (pget receipt ''sandbox'' (JObj [])) (\<lambda>sandbox.
     bindR (pget receipt ''workload'' (JObj [])) (\<lambda>workload.
     bindR (pget workload ''image'' (JStr [])) (\<lambda>image.
     (case image of
        JStr img \<Rightarrow>
          if \<not> digest_image img then Inl (ProtocolError ''runtime requires an immutable sha256 image reference'')
          else (case argument_vector (get_or workload ''command'' (JList [])) of
              None \<Rightarrow> Inl (ProtocolError ''runtime command must be a non-empty argument vector'')
            | Some command \<Rightarrow>
                if obj_fields sandbox = None then Inl AttributeError
                else if \<not> isolated sandbox
                then Inl (ProtocolError ''receipt does not satisfy the runtime isolation contract'')
                else sandbox_argv sandbox gw img command)
      | _ \<Rightarrow> Inl TypeError))))"

section \<open>Secret leases\<close>

record secret_lease =
  sl_id :: string
  sl_expires :: int
  sl_values :: "(string, string) dict"
  sl_consumed :: bool

text \<open>\<open>consume\<close> hands the values out and empties the lease.\<close>

definition lease_consume :: "int \<Rightarrow> (secret_lease, (string, string) dict) operation" where
  "lease_consume r l =
     (if sl_consumed l then (Inl (ProtocolError ''secret lease was already consumed''), l)
      else if sl_expires l \<le> r then (Inl (ProtocolError ''secret lease expired''), l)
      else (Inr (sl_values l), l\<lparr>sl_values := [], sl_consumed := True\<rparr>))"

definition lease_public :: "secret_lease \<Rightarrow> json" where
  "lease_public l = JObj
     [(''lease_id'', JStr (sl_id l)), (''expires_round'', JInt (sl_expires l)),
      (''secret_names'', JList (map JStr (sort (keys (sl_values l))))), (''consumed'', JBool (sl_consumed l))]"

record secret_provider =
  sp_secrets :: "(string, string) dict"
  sp_counter :: int

definition provider_init :: "(string, string) dict \<Rightarrow> secret_provider" where
  "provider_init secrets = \<lparr>sp_secrets = secrets, sp_counter = 0\<rparr>"

text \<open>The dictionary comprehension over the names; a name may occur twice.\<close>

fun collect_secrets :: "(string, string) dict \<Rightarrow> string list \<Rightarrow> (string, string) dict \<Rightarrow> (string, string) dict option" where
  "collect_secrets secrets [] d = Some d"
| "collect_secrets secrets (n # ns) d =
     (case map_of secrets n of None \<Rightarrow> None | Some v \<Rightarrow> collect_secrets secrets ns (AList.update n v d))"

definition lease_json :: "int \<Rightarrow> int \<Rightarrow> string list \<Rightarrow> json" where
  "lease_json counter expires names = JObj
     [(''counter'', JInt counter), (''expires_round'', JInt expires), (''names'', str_array names)]"

definition issue_lease :: "crypto \<Rightarrow> string list \<Rightarrow> int \<Rightarrow> int \<Rightarrow> (secret_provider, secret_lease) operation" where
  "issue_lease C names r ttl P =
     (if ttl < 1 \<or> names = [] then (Inl (ProtocolError ''invalid ephemeral secret lease request''), P)
      else (case collect_secrets (sp_secrets P) names [] of
          None \<Rightarrow> (Inl (ProtocolError ''unknown ephemeral secret''), P)
        | Some values \<Rightarrow>
            let P' = P\<lparr>sp_counter := sp_counter P + 1\<rparr> in
            (case protocol_digest C ''splitchain/distops-secret-lease/v1'' (lease_json (sp_counter P') (r + ttl) names) of
               Inl e \<Rightarrow> (Inl e, P')
             | Inr d \<Rightarrow> (Inr \<lparr>sl_id = take 20 d, sl_expires = r + ttl, sl_values = values, sl_consumed = False\<rparr>, P'))))"

section \<open>Execution\<close>

record execution_result =
  er_command :: "string list"
  er_exit :: int
  er_stdout :: string
  er_stderr :: string
  er_proof :: string

type_synonym runner = "string list \<Rightarrow> (int \<times> string \<times> string) result"

record container_runtime =
  cr_authority :: runtime_authority
  cr_runner :: "runner option"
  cr_enabled :: bool
  cr_nonces :: "string set"

definition runtime_init :: "runtime_authority \<Rightarrow> runner option \<Rightarrow> bool \<Rightarrow> container_runtime" where
  "runtime_init A run enabled = \<lparr>cr_authority = A, cr_runner = run, cr_enabled = enabled, cr_nonces = {}\<rparr>"

text \<open>\<open>value[key]\<close> on a JSON value.\<close>

definition item :: "json \<Rightarrow> string \<Rightarrow> json result" where
  "item v k = (if obj_fields v = None then Inl TypeError
     else case obj_get v k of None \<Rightarrow> Inl KeyError | Some x \<Rightarrow> Inr x)"

definition expected_completion :: "crypto \<Rightarrow> json \<Rightarrow> string result" where
  "expected_completion C receipt =
     bindR (item receipt ''node'') (\<lambda>n.
     bindR (item n ''node_id'') (\<lambda>i.
     bindR (item receipt ''workload'') (\<lambda>w.
       protocol_digest C ''splitchain/distops-completion/v1'' (JObj [(''node_id'', i), (''workload'', w)]))))"

definition runtime_result_json ::
    "crypto \<Rightarrow> runtime_attestation \<Rightarrow> string list \<Rightarrow> string \<Rightarrow> int \<Rightarrow> string \<Rightarrow> string \<Rightarrow> json" where
  "runtime_result_json C a command proof_digest code out err = JObj
     [(''attestation'', attestation_unsigned a), (''command'', str_array command),
      (''completion_proof'', JStr proof_digest), (''exit_code'', JInt code),
      (''stderr_digest'', JStr (sha256 C err)), (''stdout_digest'', JStr (sha256 C out))]"

text \<open>Everything that \<open>execute\<close> checks before it starts the command: the command and the completion proof.\<close>

definition checked_command ::
    "crypto \<Rightarrow> json \<Rightarrow> runtime_attestation \<Rightarrow> int \<Rightarrow> egress_gateway option \<Rightarrow> container_runtime
     \<Rightarrow> (string list \<times> string) result" where
  "checked_command C receipt a r gw K =
     bindR (attestation_verify C (cr_authority K) a r) (\<lambda>ok.
     if \<not> ok then Inl (ProtocolError ''runtime attestation is invalid'')
     else if ra_nonce a \<in> cr_nonces K then Inl (ProtocolError ''runtime attestation nonce was already used'')
     else
       bindR (build receipt gw) (\<lambda>command.
       bindR (expected_completion C receipt) (\<lambda>expected.
       if get_or receipt ''completion_proof'' JNull \<noteq> JStr expected
       then Inl (ProtocolError ''DistOPS completion proof does not match the receipt'')
       else if \<not> cr_enabled K \<or> cr_runner K = None then Inl (ProtocolError ''container execution is disabled'')
       else Inr (command, expected))))"

definition execute ::
    "crypto \<Rightarrow> json \<Rightarrow> runtime_attestation \<Rightarrow> int \<Rightarrow> egress_gateway option \<Rightarrow> (container_runtime, execution_result) operation" where
  "execute C receipt a r gw K =
     (case checked_command C receipt a r gw K of
        Inl e \<Rightarrow> (Inl e, K)
      | Inr (command, expected) \<Rightarrow>
          let K' = K\<lparr>cr_nonces := insert (ra_nonce a) (cr_nonces K)\<rparr> in
          (bindR (the (cr_runner K) command) (\<lambda>(code, out, err).
             bindR (protocol_digest C ''splitchain/distops-runtime-result/v1''
                     (runtime_result_json C a command expected code out err)) (\<lambda>p.
               Inr \<lparr>er_command = command, er_exit = code, er_stdout = sha256 C out, er_stderr = sha256 C err,
                    er_proof = p\<rparr>)), K'))"

end
