(* ===== verification/Compute_Safety.thy ===== *)
theory Compute_Safety
  imports Runtime
begin

text \<open>
  The properties of the compute layer: where the scheduler places a workload, which receipts the runtime
  turns into a command, what every executed command is confined to, and the use of attestations and
  secret leases at most once.
\<close>

section \<open>Placement\<close>

lemma placement:
  assumes "fst (schedule C w m r D) = Inr R"
  shows "\<exists>n p. n \<in> set (do_nodes D) \<and> eligible w n \<and> R = schedule_receipt (n\<lparr>cn_busy := True\<rparr>) w m p
      \<and> completion_proof C (cn_id n) w = Inr p
      \<and> (\<forall>n' \<in> set (do_nodes D). eligible w n' \<longrightarrow> node_key n' \<le> node_key n)"
    "wl_image w \<in> ALLOWED_IMAGES" "snd (schedule C w m r D) = D\<lparr>do_receipts := do_receipts D @ [R]\<rparr>"
    "do_authority D = Some A \<Longrightarrow> \<exists>x. m = Some x \<and> mf_issuer x = ma_issuer A \<and> mf_from x \<le> r \<and> r < mf_until x
      \<and> Inr (mf_digest x) = workload_digest C w \<and> hmac_json C (ma_secret A) (manifest_unsigned x) = Inr (mf_signature x)"
proof -
  from assms obtain i n where ok: "wl_image w \<in> ALLOWED_IMAGES" "manifest_check C w m r D = Inr True"
    and best: "best_node (candidates w (do_nodes D)) = Some (i, n)" and R: "R = scheduled_on C w m n"
    by (auto simp: schedule_Inr)
  note b = best_node_Some [OF best]
  from b have n: "n \<in> set (do_nodes D)" "eligible w n" by (auto simp: candidates_mem)
  have "node_key n' \<le> node_key n" if "n' \<in> set (do_nodes D)" "eligible w n'" for n'
  proof -
    from that(1) obtain j where "j < length (do_nodes D)" "do_nodes D ! j = n'" by (auto simp: in_set_conv_nth)
    with that(2) have "(j, n') \<in> set (candidates w (do_nodes D))" by (simp add: candidates_mem)
    with b show ?thesis by fastforce
  qed
  with n R show "\<exists>n p. n \<in> set (do_nodes D) \<and> eligible w n \<and> R = schedule_receipt (n\<lparr>cn_busy := True\<rparr>) w m p
      \<and> completion_proof C (cn_id n) w = Inr p
      \<and> (\<forall>n' \<in> set (do_nodes D). eligible w n' \<longrightarrow> node_key n' \<le> node_key n)"
    by (auto simp: scheduled_on_def completion_proof_ok)
  show "wl_image w \<in> ALLOWED_IMAGES" by (rule ok)
  show "snd (schedule C w m r D) = D\<lparr>do_receipts := do_receipts D @ [R]\<rparr>" using assms by (simp add: schedule_state)
  assume "do_authority D = Some A"
  with ok(2) obtain x where x: "m = Some x" "manifest_verify C A w x r = Inr True"
    by (auto simp: manifest_check_def split: option.splits)
  from manifests.verified [OF x(2)] x(1)
  show "\<exists>x. m = Some x \<and> mf_issuer x = ma_issuer A \<and> mf_from x \<le> r \<and> r < mf_until x
      \<and> Inr (mf_digest x) = workload_digest C w \<and> hmac_json C (ma_secret A) (manifest_unsigned x) = Inr (mf_signature x)"
    by auto
qed

text \<open>C30. Placement is safe and best: the node of a receipt was free, large enough, reputed and, above low
  risk, trusted; no eligible node ranks higher; a configured authority has signed the workload for this
  round; and the scheduler keeps its nodes and appends the receipt.\<close>

theorem distops_placement:
  assumes "fst (schedule C w m r D) = Inr R"
  shows "(\<exists>n p. n \<in> set (do_nodes D) \<and> eligible w n \<and> R = schedule_receipt (n\<lparr>cn_busy := True\<rparr>) w m p
        \<and> completion_proof C (cn_id n) w = Inr p
        \<and> (\<forall>n' \<in> set (do_nodes D). eligible w n' \<longrightarrow> node_key n' \<le> node_key n))
    \<and> wl_image w \<in> ALLOWED_IMAGES \<and> snd (schedule C w m r D) = D\<lparr>do_receipts := do_receipts D @ [R]\<rparr>
    \<and> (\<forall>A. do_authority D = Some A \<longrightarrow> (\<exists>x. m = Some x \<and> mf_issuer x = ma_issuer A \<and> mf_from x \<le> r \<and> r < mf_until x
      \<and> Inr (mf_digest x) = workload_digest C w \<and> hmac_json C (ma_secret A) (manifest_unsigned x) = Inr (mf_signature x)))"
  using placement [OF assms] by simp

lemma manifest_placed:
  assumes "manifest_issue C A w f u = Inr x" "hex_digests C" "f \<le> r" "r < u" "do_authority D = Some A"
    "wl_image w \<in> ALLOWED_IMAGES" "1 \<le> wl_cpu w" "64 \<le> wl_memory w" "n \<in> set (do_nodes D)" "eligible w n"
  shows "is_ok (fst (schedule C w (Some x) r D))"
proof -
  note x = manifest_issued [OF assms(1)]
  have "manifest_verify C A w x r = Inr True"
    using manifests.signed_verifies [OF x(1) assms(2), of w r] x assms(3,4) by simp
  moreover obtain i n' where "best_node (candidates w (do_nodes D)) = Some (i, n')"
    using assms(9,10) candidates_empty [of w "do_nodes D"] best_node_None [of "candidates w (do_nodes D)"]
    by (cases "best_node (candidates w (do_nodes D))") auto
  ultimately show ?thesis
    using assms(5-8) by (auto simp: is_ok_iff schedule_Inr manifest_check_def)
qed

text \<open>Whoever holds a manifest of the authority gets its approved workload placed within the window of the
  manifest, as soon as some node is eligible.\<close>

theorem distops_manifest_placed:
  assumes "manifest_issue C A w f u = Inr x" "hex_digests C" "f \<le> r" "r < u" "do_authority D = Some A"
    "wl_image w \<in> ALLOWED_IMAGES" "1 \<le> wl_cpu w" "64 \<le> wl_memory w" "n \<in> set (do_nodes D)" "eligible w n"
  shows "is_ok (fst (schedule C w (Some x) r D))"
  by (rule manifest_placed [OF assms])

section \<open>From receipts to commands\<close>

lemma str_list_of [simp]: "str_list (map JStr xs) = Some xs"
  by (induction xs) simp_all

lemma str_array_vector: "argument_vector (str_array xs) = (if [] \<in> set xs then None else Some xs)"
  by (simp add: argument_vector_def str_array_def)

lemma pget_obj [simp]: "pget (JObj kvs) k d = Inr (get_or (JObj kvs) k d)"
  by (simp add: pget_def obj_fields_def)

lemma get_or_obj: "get_or (JObj kvs) k d = dict_get kvs k d"
  by (simp add: get_or_def obj_get_def dict_get_def)

lemma dict_get_Cons [simp]: "dict_get ((k, v) # d) k' w = (if k = k' then v else dict_get d k' w)"
  by (simp add: dict_get_def)

lemma sandbox_isolated: "isolated (sandbox_json w)"
  by (simp add: isolated_def isolation_contract_def sandbox_json_def get_or_obj)

lemma schedule_fields:
  "get_or (schedule_receipt n w m p) ''sandbox'' d = sandbox_json w"
  "get_or (schedule_receipt n w m p) ''workload'' d = workload_public w"
  "get_or (workload_public w) ''image'' d = JStr (wl_image w)"
  "get_or (workload_public w) ''command'' d = str_array (wl_command w)"
  "get_or (sandbox_json w) ''network'' d = network_json w"
  "get_or (sandbox_json w) ''quotas'' d = JObj [(''cpu'', JInt (wl_cpu w)), (''memory_mb'', JInt (wl_memory w))]"
  "get_or (sandbox_json w) ''secrets'' d = JObj [(''names'', str_array (wl_secrets w)), (''delivery'', JStr ''ephemeral''),
     (''persisted'', JBool False), (''values_exposed'', JBool False)]"
  by (simp_all add: schedule_receipt_def workload_public_def sandbox_json_def get_or_obj)

lemma receipt_gets:
  "pget (schedule_receipt n w m p) ''sandbox'' d = Inr (sandbox_json w)"
  "pget (schedule_receipt n w m p) ''workload'' d = Inr (workload_public w)"
  "pget (workload_public w) ''image'' d = Inr (JStr (wl_image w))"
  "obj_fields (sandbox_json w) \<noteq> None"
  using schedule_fields by (simp_all add: pget_def schedule_receipt_def workload_public_def sandbox_json_def obj_fields_def)

text \<open>The network a workload gets.\<close>

definition workload_network :: "workload \<Rightarrow> egress_gateway option \<Rightarrow> string \<Rightarrow> bool" where
  "workload_network w gw network =
     (if wl_network w = [] then network = ''none''
      else (\<exists>g. gw = Some g \<and> network = eg_network g \<and> egress_authorize g (map JStr (wl_network w)) = Inr ()))"

lemma network_json_name: "network_name (network_json w) gw = Inr network \<longleftrightarrow> workload_network w gw network"
proof (cases "wl_network w = []")
  case True
  then show ?thesis by (auto simp: network_name_def network_json_def get_or_obj workload_network_def)
next
  case False
  then show ?thesis
    by (cases gw) (auto simp: network_name_def network_json_def get_or_obj workload_network_def py_tuple_def str_array_def
        bindR_Inr_iff)
qed

lemma receipt_argv:
  "build (schedule_receipt n w m p) gw = Inr argv \<longleftrightarrow>
     digest_image (wl_image w) \<and> [] \<notin> set (wl_command w) \<and> 1 \<le> wl_cpu w \<and> 64 \<le> wl_memory w \<and> wl_secrets w = []
     \<and> (\<exists>network. workload_network w gw network
          \<and> argv = docker_argv network (wl_cpu w) (wl_memory w) (wl_image w) (wl_command w))"
proof -
  have truthy: "truthy (str_array (wl_secrets w)) \<longleftrightarrow> wl_secrets w \<noteq> []"
    by (simp add: truthy_def str_array_def)
  have "build (schedule_receipt n w m p) gw = Inr argv \<longleftrightarrow>
     digest_image (wl_image w) \<and> [] \<notin> set (wl_command w)
     \<and> (\<exists>network. network_name (network_json w) gw = Inr network \<and> \<not> (wl_cpu w < 1 \<or> wl_memory w < 64)
          \<and> wl_secrets w = [] \<and> argv = docker_argv network (wl_cpu w) (wl_memory w) (wl_image w) (wl_command w))"
    by (auto simp: build_def sandbox_argv_def receipt_gets schedule_fields str_array_vector sandbox_isolated truthy bindR_Inr_iff
        get_or_obj py_int_def)
  then show ?thesis by (auto simp: network_json_name not_less)
qed

text \<open>The command that the runtime builds from a receipt of the scheduler, exactly: the receipt passes the
  isolation contract, and what remains to be satisfied is the pinned image, the argument vector, the quota,
  the absence of secrets and the egress gateway.\<close>

theorem runtime_builds_receipt:
  "build (schedule_receipt n w m p) gw = Inr argv \<longleftrightarrow>
     digest_image (wl_image w) \<and> [] \<notin> set (wl_command w) \<and> 1 \<le> wl_cpu w \<and> 64 \<le> wl_memory w \<and> wl_secrets w = []
     \<and> (\<exists>network. workload_network w gw network
          \<and> argv = docker_argv network (wl_cpu w) (wl_memory w) (wl_image w) (wl_command w))"
  by (rule receipt_argv)

lemma digest_image_at: "digest_image s \<Longrightarrow> CHR ''@'' \<in> set s"
proof (rule ccontr)
  assume "digest_image s" "CHR ''@'' \<notin> set s"
  moreover from this have "takeWhile (\<lambda>c. c \<noteq> CHR ''@'') s = s" by (auto simp: takeWhile_eq_all_conv)
  ultimately show False by (simp add: digest_image_def)
qed

text \<open>No receipt of the scheduler ever runs: the two images that its policy allows are named by tags, and
  the runtime refuses every image that is not pinned by a digest.\<close>

theorem distops_receipts_refused:
  assumes "fst (schedule C w m r D) = Inr R"
  shows "build R gw = Inl (ProtocolError ''runtime requires an immutable sha256 image reference'')"
proof -
  from assms obtain n where R: "R = scheduled_on C w m n" and img: "wl_image w \<in> ALLOWED_IMAGES"
    by (auto simp: schedule_Inr)
  then have "\<not> digest_image (wl_image w)" using digest_image_at [of "wl_image w"] by (auto simp: ALLOWED_IMAGES_def)
  with R show ?thesis by (simp add: build_def scheduled_on_def receipt_gets schedule_fields)
qed

section \<open>Executed commands\<close>

text \<open>What a command line is confined to.\<close>

definition destination_ok :: "json \<Rightarrow> bool" where
  "destination_ok v = (\<exists>d host port. v = JStr d \<and> rpartition_colon d = Some (host, port) \<and> \<not> names_consensus host)"

definition egress_ok :: "egress_gateway \<Rightarrow> bool" where
  "egress_ok g = (eg_trusted g \<and> 80 \<le> eg_reputation g)"

definition confined :: "egress_gateway option \<Rightarrow> string list \<Rightarrow> bool" where
  "confined gw argv =
     (\<exists>network cpu memory img command. argv = docker_argv network cpu memory img command \<and> digest_image img
        \<and> [] \<notin> set command \<and> 1 \<le> cpu \<and> 64 \<le> memory
        \<and> (network = ''none'' \<or> (\<exists>g ds. gw = Some g \<and> network = eg_network g \<and> egress_ok g \<and> ds \<noteq> [] \<and> list_all destination_ok ds)))"

lemma mapR_all: "mapR f xs = Inr ys \<Longrightarrow> (\<And>x y. f x = Inr y \<Longrightarrow> P x) \<Longrightarrow> list_all P xs"
  by (induction xs arbitrary: ys) (auto simp: bindR_Inr_iff)

lemma check_destination_ok: "check_destination v = Inr u \<Longrightarrow> destination_ok v"
  by (auto simp: check_destination_def destination_ok_def split: json.splits option.splits if_splits)

lemma egress_authorized:
  assumes "egress_authorize g ds = Inr u"
  shows "egress_ok g" "ds \<noteq> []" "list_all destination_ok ds"
proof -
  from assms obtain us where us: "eg_trusted g" "80 \<le> eg_reputation g" "ds \<noteq> []" "mapR check_destination ds = Inr us"
    by (auto simp: egress_authorize_def bindR_Inr_iff split: if_splits)
  then show "egress_ok g" "ds \<noteq> []" by (simp_all add: egress_ok_def)
  show "list_all destination_ok ds" by (rule mapR_all [OF us(4) check_destination_ok])
qed

lemma network_name_ok:
  assumes "network_name v gw = Inr network"
  shows "network = ''none'' \<or> (\<exists>g ds. gw = Some g \<and> network = eg_network g \<and> egress_ok g \<and> ds \<noteq> [] \<and> list_all destination_ok ds)"
  using assms egress_authorized
  by (auto simp: network_name_def bindR_Inr_iff split: if_splits option.splits) blast

lemma argument_vector_ok: "argument_vector v = Some command \<Longrightarrow> [] \<notin> set command"
  by (auto simp: argument_vector_def split: json.splits option.splits if_splits)

lemma build_Inr:
  assumes "build R gw = Inr argv"
  shows "\<exists>sandbox img v command. digest_image img \<and> argument_vector v = Some command
    \<and> isolated sandbox \<and> sandbox_argv sandbox gw img command = Inr argv"
  using assms unfolding build_def bindR_Inr_iff
proof (elim exE conjE)
  fix sandbox workload v
  assume "(case v of
      JStr img \<Rightarrow>
        if \<not> digest_image img then Inl (ProtocolError ''runtime requires an immutable sha256 image reference'')
        else (case argument_vector (get_or workload ''command'' (JList [])) of
            None \<Rightarrow> Inl (ProtocolError ''runtime command must be a non-empty argument vector'')
          | Some command \<Rightarrow>
              if obj_fields sandbox = None then Inl AttributeError
              else if \<not> isolated sandbox
              then Inl (ProtocolError ''receipt does not satisfy the runtime isolation contract'')
              else sandbox_argv sandbox gw img command)
    | _ \<Rightarrow> Inl TypeError) = Inr argv"
  then show ?thesis by (cases v) (auto split: if_split_asm option.split_asm)
qed

lemma build_confined:
  assumes "build R gw = Inr argv"
  shows "confined gw argv"
proof -
  from assms obtain sandbox img v command where b: "digest_image img" "argument_vector v = Some command"
    "sandbox_argv sandbox gw img command = Inr argv" using build_Inr by blast
  from b(3) obtain network cpu memory where n: "network_name (get_or sandbox ''network'' (JObj [])) gw = Inr network"
    "\<not> cpu < 1" "\<not> memory < 64" "argv = docker_argv network cpu memory img command"
    by (auto simp: sandbox_argv_def bindR_Inr_iff split: if_splits)
  from network_name_ok [OF n(1)] argument_vector_ok [OF b(2)] b(1) n(2-4) show ?thesis
    unfolding confined_def not_less by blast
qed

lemma checked_command_ok:
  assumes "checked_command C R a r gw K = Inr (command, expected)"
  shows "attestation_verify C (cr_authority K) a r = Inr True" "ra_nonce a \<notin> cr_nonces K" "build R gw = Inr command"
    "expected_completion C R = Inr expected" "get_or R ''completion_proof'' JNull = JStr expected"
    "cr_enabled K" "cr_runner K \<noteq> None"
  using assms by (auto simp: checked_command_def bindR_Inr_iff split: if_splits)

type_synonym execution = "json \<times> runtime_attestation \<times> int \<times> egress_gateway option"

definition runtime_step :: "crypto \<Rightarrow> execution \<Rightarrow> (container_runtime, execution_result) operation" where
  "runtime_step C = (\<lambda>(R, a, r, gw). execute C R a r gw)"

definition execution_nonce :: "execution \<Rightarrow> string" where
  "execution_nonce = (\<lambda>(R, a, r, gw). ra_nonce a)"

lemma execute_cases:
  obtains (rejected) e where "execute C R a r gw K = (Inl e, K)" "checked_command C R a r gw K = Inl e"
  | (run) command expected v where "checked_command C R a r gw K = Inr (command, expected)"
      "execute C R a r gw K = (v, K\<lparr>cr_nonces := insert (ra_nonce a) (cr_nonces K)\<rparr>)"
  by (cases "checked_command C R a r gw K") (auto simp: execute_def Let_def)

interpretation runtime: single_use "runtime_step C" execution_nonce cr_nonces for C
proof
  fix x :: execution and y and s :: container_runtime
  obtain R a r gw where x: "x = (R, a, r, gw)" by (cases x)
  show "cr_nonces s \<subseteq> cr_nonces (snd (runtime_step C x s))"
    unfolding x runtime_step_def by (cases rule: execute_cases [of C R a r gw s]) auto
  assume "fst (runtime_step C x s) = Inr y"
  then show "execution_nonce x \<notin> cr_nonces s" "execution_nonce x \<in> cr_nonces (snd (runtime_step C x s))"
    unfolding x runtime_step_def execution_nonce_def
    by (cases rule: execute_cases [of C R a r gw s]; auto dest: checked_command_ok(2))+
qed

lemma runtime_frame:
  "cr_authority (run_ops (runtime_step C) xs K) = cr_authority K \<and> cr_runner (run_ops (runtime_step C) xs K) = cr_runner K
   \<and> cr_enabled (run_ops (runtime_step C) xs K) = cr_enabled K"
proof (induction xs arbitrary: K)
  case (Cons x xs)
  obtain R a r gw where x: "x = (R, a, r, gw)" by (cases x)
  have "cr_authority (snd (runtime_step C x K)) = cr_authority K \<and> cr_runner (snd (runtime_step C x K)) = cr_runner K
      \<and> cr_enabled (snd (runtime_step C x K)) = cr_enabled K"
    unfolding x runtime_step_def by (cases rule: execute_cases [of C R a r gw K]) auto
  with Cons show ?case by simp
qed simp

lemma confinement:
  assumes "K = run_ops (runtime_step C) ops (runtime_init A run enabled)" "fst (execute C R a r gw K) = Inr x"
  shows "attestation_fields A a \<and> ra_from a \<le> r \<and> r < ra_until a
      \<and> hmac_json C (rt_secret A) (attestation_unsigned a) = Inr (ra_signature a)"
    "confined gw (er_command x)"
    "distinct (map execution_nonce (accepted (runtime_step C) (ops @ [(R, a, r, gw)]) (runtime_init A run enabled)))"
    "enabled \<and> (\<exists>f out err. run = Some f \<and> f (er_command x) = Inr (er_exit x, out, err)
      \<and> er_stdout x = sha256 C out \<and> er_stderr x = sha256 C err)"
    "\<exists>p. expected_completion C R = Inr p \<and> get_or R ''completion_proof'' JNull = JStr p"
proof -
  have frame: "cr_authority K = A" "cr_runner K = run" "cr_enabled K = enabled"
    using assms(1) runtime_frame by (simp_all add: runtime_init_def)
  from assms(2) obtain command expected where c: "checked_command C R a r gw K = Inr (command, expected)"
    by (cases rule: execute_cases [of C R a r gw K]) auto
  note ok = checked_command_ok [OF c]
  from attestations.verified [OF ok(1)]
  show "attestation_fields A a \<and> ra_from a \<le> r \<and> r < ra_until a
      \<and> hmac_json C (rt_secret A) (attestation_unsigned a) = Inr (ra_signature a)" by (simp add: frame)
  from assms(2) c obtain out err where x: "er_command x = command" "the (cr_runner K) command = Inr (er_exit x, out, err)"
    "er_stdout x = sha256 C out" "er_stderr x = sha256 C err"
    by (auto simp: execute_def Let_def bindR_Inr_iff)
  show "confined gw (er_command x)" using build_confined [OF ok(3)] x by simp
  show "distinct (map execution_nonce (accepted (runtime_step C) (ops @ [(R, a, r, gw)]) (runtime_init A run enabled)))"
    by (rule runtime.accepted_tokens)
  show "enabled \<and> (\<exists>f out err. run = Some f \<and> f (er_command x) = Inr (er_exit x, out, err)
      \<and> er_stdout x = sha256 C out \<and> er_stderr x = sha256 C err)"
    using ok(6,7) x frame by auto
  show "\<exists>p. expected_completion C R = Inr p \<and> get_or R ''completion_proof'' JNull = JStr p" using ok by blast
qed


lemma receipt_completion:
  assumes "completion_proof C (cn_id n) w = Inr p"
  shows "expected_completion C (schedule_receipt n w m p) = Inr p"
    "get_or (schedule_receipt n w m p) ''completion_proof'' JNull = JStr p"
  using assms
  by (simp_all add: expected_completion_def item_def schedule_receipt_def obj_fields_def obj_get_def compute_node_json_def
      completion_proof_def completion_json_def get_or_obj)

lemma runtime_result_ok: "is_ok (protocol_digest C ''splitchain/distops-runtime-result/v1''
    (runtime_result_json C a command p code out err))"
  by (simp add: protocol_digest_def is_ascii_def canonical_json_def runtime_result_json_def attestation_unsigned_def
      attestation_json_def)

lemma attestation_issued:
  assumes "attestation_issue C A engine version f u nonce True True True = Inr a" "engine \<in> {''docker'', ''containerd''}"
  shows "hmac_json C (rt_secret A) (attestation_unsigned a) = Inr (ra_signature a)" "attestation_fields A a"
    "ra_from a = f" "ra_until a = u" "ra_nonce a = nonce"
  using assms by (auto simp: attestation_issue_def bindR_Inr_iff attestation_unsigned_def attestation_fields_def split: if_splits)

lemma execute_receipt:
  assumes "attestation_issue C A engine version f u nonce True True True = Inr a" "engine \<in> {''docker'', ''containerd''}"
    "hex_digests C" "f \<le> r" "r < u" "nonce \<notin> cr_nonces K" "cr_authority K = A" "cr_enabled K" "cr_runner K = Some run"
    "completion_proof C (cn_id n) w = Inr p" "build (schedule_receipt n w m p) gw = Inr argv" "run argv = Inr (code, out, err)"
  shows "\<exists>x. execute C (schedule_receipt n w m p) a r gw K = (Inr x, K\<lparr>cr_nonces := insert nonce (cr_nonces K)\<rparr>)
    \<and> er_command x = argv \<and> er_exit x = code"
proof -
  note a = attestation_issued [OF assms(1,2)]
  have "attestation_verify C A a r = Inr True"
    using attestations.signed_verifies [OF a(1) assms(3), of r] a assms(4,5) by simp
  then have c: "checked_command C (schedule_receipt n w m p) a r gw K = Inr (argv, p)"
    using a assms(6-11) by (simp add: checked_command_def receipt_completion)
  obtain q where "protocol_digest C ''splitchain/distops-runtime-result/v1''
      (runtime_result_json C a argv p code out err) = Inr q"
    using runtime_result_ok [of C a argv p code out err] by (auto simp: is_ok_iff)
  with c a(5) assms(9,12) show ?thesis by (simp add: execute_def Let_def)
qed


definition option_image :: string where
  "option_image = ''-e@sha256:'' @ replicate 64 CHR ''a''"

definition option_workload :: "string \<Rightarrow> workload" where
  "option_workload img = \<lparr>wl_image = option_image, wl_command = [img], wl_cpu = 1, wl_memory = 64, wl_risk = Low,
     wl_network = [], wl_secrets = []\<rparr>"

definition edge_node :: compute_node where
  "edge_node = \<lparr>cn_id = ''n'', cn_cpu = 8, cn_memory = 8192, cn_reputation = 90, cn_trusted = True, cn_busy = False\<rparr>"

lemma option_image_digest: "digest_image option_image"
  by (simp add: digest_image_def option_image_def image_char_def is_hex_def list_all_iff)

text \<open>The pinned image can be evaded: an image that starts with a dash is read by the command line of the
  engine as an option, and the first word of the command takes the place of the image, pinned or not.\<close>

theorem runtime_option_image:
  assumes "img \<noteq> []"
  shows "build (schedule_receipt edge_node (option_workload img) None p) None
      = Inr (docker_argv ''none'' 1 64 (''-e@sha256:'' @ replicate 64 CHR ''a'') [img])"
  using assms option_image_digest unfolding receipt_argv
  by (simp add: option_workload_def workload_network_def option_image_def)

section \<open>Secret leases\<close>

interpretation leases: single_use lease_consume "\<lambda>r. ()" "\<lambda>l. if sl_consumed l then {()} else {}"
  by unfold_locales (auto simp: lease_consume_def split: if_splits)

lemma collect_secrets_get:
  "collect_secrets secrets names d = Some v \<Longrightarrow>
     map_of v n = (if n \<in> set names then map_of secrets n else map_of d n)"
  by (induction names arbitrary: d) (auto split: option.splits if_splits)

lemma lease_used_once:
  assumes "issue_lease C names r ttl P = (Inr l, P')" "t < r + ttl"
  shows "\<exists>d. lease_consume t l = (Inr d, l\<lparr>sl_values := [], sl_consumed := True\<rparr>)
      \<and> map_of d = (\<lambda>n. if n \<in> set names then map_of (sp_secrets P) n else None)"
    "\<not> is_ok (fst (lease_consume t' (run_ops lease_consume ts (snd (lease_consume t l)))))"
    "sl_values (run_ops lease_consume ts (snd (lease_consume t l))) = []"
proof -
  from assms(1) obtain vs where l: "collect_secrets (sp_secrets P) names [] = Some vs" "sl_values l = vs"
    "sl_expires l = r + ttl" "\<not> sl_consumed l"
    by (auto simp: issue_lease_def Let_def split: if_splits option.splits sum.splits)
  have d: "lease_consume t l = (Inr vs, l\<lparr>sl_values := [], sl_consumed := True\<rparr>)"
    using l(2-4) assms(2) by (simp add: lease_consume_def)
  moreover have "map_of vs = (\<lambda>n. if n \<in> set names then map_of (sp_secrets P) n else None)"
    using collect_secrets_get [OF l(1)] by (auto simp: fun_eq_iff)
  ultimately show "\<exists>d. lease_consume t l = (Inr d, l\<lparr>sl_values := [], sl_consumed := True\<rparr>)
      \<and> map_of d = (\<lambda>n. if n \<in> set names then map_of (sp_secrets P) n else None)" by blast
  show "\<not> is_ok (fst (lease_consume t' (run_ops lease_consume ts (snd (lease_consume t l)))))"
    by (rule leases.used_rejected) (simp_all add: d)
  have "sl_values (run_ops lease_consume ts k) = []" if "sl_consumed k" "sl_values k = []" for k
    using that by (induction ts) (simp_all add: lease_consume_def)
  then show "sl_values (run_ops lease_consume ts (snd (lease_consume t l))) = []" by (simp add: d)
qed

text \<open>A lease hands out exactly the requested secrets, before it expires and once: afterwards it holds no
  value and every further call is refused.\<close>

theorem secret_lease_once:
  assumes "issue_lease C names r ttl P = (Inr l, P')" "t < r + ttl"
  shows "(\<exists>d. lease_consume t l = (Inr d, l\<lparr>sl_values := [], sl_consumed := True\<rparr>)
      \<and> map_of d = (\<lambda>n. if n \<in> set names then map_of (sp_secrets P) n else None))
    \<and> \<not> is_ok (fst (lease_consume t' (run_ops lease_consume ts (snd (lease_consume t l)))))
    \<and> sl_values (run_ops lease_consume ts (snd (lease_consume t l))) = []"
  using lease_used_once [OF assms] by blast

section \<open>A concrete compute layer\<close>

definition sample_workload :: workload where
  "sample_workload = \<lparr>wl_image = ''splitchain/hash:0.1'', wl_command = [''hash''], wl_cpu = 1, wl_memory = 128,
     wl_risk = Medium, wl_network = [], wl_secrets = []\<rparr>"

definition sample_manifests :: manifest_authority where
  "sample_manifests = \<lparr>ma_issuer = ''ca'', ma_secret = ''k''\<rparr>"

definition sample_manifest :: manifest where
  "sample_manifest = projr (manifest_issue ascii_crypto sample_manifests sample_workload 0 10)"

definition sample_distops :: distops where
  "sample_distops = \<lparr>do_nodes = [edge_node], do_authority = Some sample_manifests, do_receipts = []\<rparr>"

lemma sample_manifest_issued:
  "manifest_issue ascii_crypto sample_manifests sample_workload 0 10 = Inr sample_manifest"
proof -
  have "\<exists>x. manifest_issue ascii_crypto sample_manifests sample_workload 0 10 = Inr x"
    by (simp add: manifest_issue_def workload_digest_ok hmac_json_def canonical_json_def)
  then show ?thesis by (auto simp: sample_manifest_def)
qed

lemma sample_eligible: "eligible sample_workload edge_node"
  by (simp add: eligible_def sample_workload_def edge_node_def)

lemma sample_scheduled: "schedule ascii_crypto sample_workload (Some sample_manifest) 3 sample_distops
    = (Inr (scheduled_on ascii_crypto sample_workload (Some sample_manifest) edge_node),
       sample_distops\<lparr>do_receipts := [scheduled_on ascii_crypto sample_workload (Some sample_manifest) edge_node]\<rparr>)"
proof -
  note x = manifest_issued [OF sample_manifest_issued]
  have "manifest_check ascii_crypto sample_workload (Some sample_manifest) 3 sample_distops = Inr True"
    using manifests.signed_verifies [OF x(1) hex_ascii_crypto, of sample_workload 3] x
    by (simp add: manifest_check_def sample_distops_def)
  moreover have "best_node (candidates sample_workload (do_nodes sample_distops)) = Some (0, edge_node)"
    using sample_eligible by (simp add: candidates_def sample_distops_def)
  ultimately have "fst (schedule ascii_crypto sample_workload (Some sample_manifest) 3 sample_distops)
      = Inr (scheduled_on ascii_crypto sample_workload (Some sample_manifest) edge_node)"
    unfolding schedule_Inr by (auto simp: sample_workload_def ALLOWED_IMAGES_def)
  with schedule_state [of ascii_crypto sample_workload "Some sample_manifest" 3 sample_distops] show ?thesis
    by (simp add: prod_eq_iff sample_distops_def)
qed

theorem distops_placement_witness:
  "\<exists>n p. n \<in> set [edge_node] \<and> scheduled_on ascii_crypto sample_workload (Some sample_manifest) edge_node
     = schedule_receipt (n\<lparr>cn_busy := True\<rparr>) sample_workload (Some sample_manifest) p"
proof -
  have "fst (schedule ascii_crypto sample_workload (Some sample_manifest) 3 sample_distops)
      = Inr (scheduled_on ascii_crypto sample_workload (Some sample_manifest) edge_node)"
    by (simp add: sample_scheduled)
  from distops_placement [OF this] show ?thesis by (auto simp: sample_distops_def)
qed

theorem distops_manifest_placed_witness:
  "is_ok (fst (schedule ascii_crypto sample_workload (Some sample_manifest) 9 sample_distops))"
  by (rule distops_manifest_placed [OF sample_manifest_issued hex_ascii_crypto _ _ _ _ _ _ _ sample_eligible])
    (simp_all add: sample_distops_def sample_workload_def ALLOWED_IMAGES_def)

theorem distops_receipts_refused_witness:
  "build (scheduled_on ascii_crypto sample_workload (Some sample_manifest) edge_node) None
     = Inl (ProtocolError ''runtime requires an immutable sha256 image reference'')"
  by (rule distops_receipts_refused [where C = ascii_crypto and w = sample_workload and m = "Some sample_manifest" and r = 3
        and D = sample_distops]) (simp add: sample_scheduled)

theorem runtime_option_image_witness:
  "build (schedule_receipt edge_node (option_workload ''evil'') None []) None
     = Inr (docker_argv ''none'' 1 64 (''-e@sha256:'' @ replicate 64 CHR ''a'') [''evil''])"
  by (rule runtime_option_image) simp

definition sample_engines :: runtime_authority where
  "sample_engines = \<lparr>rt_issuer = ''rt'', rt_secret = ''s''\<rparr>"

definition sample_engine :: runtime_attestation where
  "sample_engine = projr (attestation_issue ascii_crypto sample_engines ''docker'' ''27'' 0 10 ''n1'' True True True)"

definition sample_runtime :: container_runtime where
  "sample_runtime = runtime_init sample_engines (Some (\<lambda>argv. Inr (0, ''out'', []))) True"

lemma sample_engine_issued:
  "attestation_issue ascii_crypto sample_engines ''docker'' ''27'' 0 10 ''n1'' True True True = Inr sample_engine"
proof -
  have "\<exists>x. attestation_issue ascii_crypto sample_engines ''docker'' ''27'' 0 10 ''n1'' True True True = Inr x"
    by (simp add: attestation_issue_def hmac_json_def canonical_json_def attestation_json_def)
  then show ?thesis by (auto simp: sample_engine_def)
qed

definition pinned_workload :: workload where
  "pinned_workload = option_workload ''hash''"

definition pinned_receipt :: json where
  "pinned_receipt = scheduled_on ascii_crypto pinned_workload None edge_node"

lemma pinned_receipt_eq: "\<exists>p. completion_proof ascii_crypto (cn_id (edge_node\<lparr>cn_busy := True\<rparr>)) pinned_workload = Inr p
    \<and> pinned_receipt = schedule_receipt (edge_node\<lparr>cn_busy := True\<rparr>) pinned_workload None p"
  by (simp add: pinned_receipt_def scheduled_on_def completion_proof_ok)

lemma pinned_builds:
  "build (schedule_receipt n pinned_workload m p) None = Inr (docker_argv ''none'' 1 64 option_image [''hash''])"
  using option_image_digest unfolding receipt_argv
  by (simp add: pinned_workload_def option_workload_def workload_network_def)


lemma pinned_executed:
  "\<exists>x. fst (execute ascii_crypto pinned_receipt sample_engine 3 None (run_ops (runtime_step ascii_crypto) [] sample_runtime)) = Inr x"
proof -
  obtain p where p: "completion_proof ascii_crypto (cn_id (edge_node\<lparr>cn_busy := True\<rparr>)) pinned_workload = Inr p"
    "pinned_receipt = schedule_receipt (edge_node\<lparr>cn_busy := True\<rparr>) pinned_workload None p"
    using pinned_receipt_eq by blast
  have "\<exists>x. execute ascii_crypto (schedule_receipt (edge_node\<lparr>cn_busy := True\<rparr>) pinned_workload None p) sample_engine 3 None
      sample_runtime = (Inr x, sample_runtime\<lparr>cr_nonces := insert ''n1'' (cr_nonces sample_runtime)\<rparr>)
      \<and> er_command x = docker_argv ''none'' 1 64 option_image [''hash''] \<and> er_exit x = 0"
    by (rule execute_receipt [OF sample_engine_issued _ hex_ascii_crypto _ _ _ _ _ _ p(1) pinned_builds,
          where run = "\<lambda>argv. Inr (0, ''out'', [])" and out = "''out''" and err = "[]"])
      (simp_all add: sample_runtime_def runtime_init_def)
  then show ?thesis unfolding p(2) by auto
qed


definition sample_lease :: secret_lease where
  "sample_lease = projr (fst (issue_lease ascii_crypto [''db''] 4 2 (provider_init [(''db'', ''pw'')])))"

lemma sample_lease_issued: "issue_lease ascii_crypto [''db''] 4 2 (provider_init [(''db'', ''pw'')])
    = (Inr sample_lease, \<lparr>sp_secrets = [(''db'', ''pw'')], sp_counter = 1\<rparr>)"
  by (simp add: sample_lease_def issue_lease_def provider_init_def Let_def protocol_digest_def is_ascii_def canonical_json_def
      lease_json_def)

theorem secret_lease_once_witness:
  "\<exists>d. lease_consume 5 sample_lease = (Inr d, sample_lease\<lparr>sl_values := [], sl_consumed := True\<rparr>) \<and> map_of d ''db'' = Some ''pw''"
  using conjunct1 [OF secret_lease_once [OF sample_lease_issued, of 5 0 "[]"]] by (auto simp: provider_init_def)

end
