(* ===== verification/Services.thy ===== *)
theory Services
  imports Compute_Safety
begin

text \<open>
  The proof layer of \<open>splitchain/truelies.py\<close> (service events, observers that attest them under their HMAC
  keys, the two-thirds quorum and the reputation counter) and the service layer of \<open>splitchain/services.py\<close>
  that schedules a workload and has the receipt proved.
\<close>

section \<open>json.dumps with ASCII output\<close>

text \<open>
  The default writer of \<open>json.dumps\<close> escapes every character outside printable ASCII by its UTF-16 units,
  and writes \<open>NaN\<close> and the infinities.
\<close>

fun utf8_points :: "string \<Rightarrow> nat list" where
  "utf8_points [] = []"
| "utf8_points (c # s) =
     (let n = (of_char c :: nat) in
      if n < 128 then n # utf8_points s
      else (case s of
          [] \<Rightarrow> []
        | b # s1 \<Rightarrow>
            if n < 224 then (n mod 32 * 64 + of_char b mod 64) # utf8_points s1
            else (case s1 of
                [] \<Rightarrow> []
              | d # s2 \<Rightarrow>
                  if n < 240 then (n mod 16 * 4096 + of_char b mod 64 * 64 + of_char d mod 64) # utf8_points s2
                  else (case s2 of
                      [] \<Rightarrow> []
                    | e # s3 \<Rightarrow>
                        (n mod 8 * 262144 + of_char b mod 64 * 4096 + of_char d mod 64 * 64 + of_char e mod 64)
                          # utf8_points s3))))"

definition u_escape :: "nat \<Rightarrow> string" where
  "u_escape n = [CHR 0x5C, CHR ''u'', hex_char (n div 4096 mod 16), hex_char (n div 256 mod 16),
     hex_char (n div 16 mod 16), hex_char (n mod 16)]"

definition ascii_escape :: "nat \<Rightarrow> string" where
  "ascii_escape n =
     (if n = 0x22 \<or> n = 0x5C then [CHR 0x5C, char_of n]
      else if n = 0x08 then [CHR 0x5C, CHR ''b'']
      else if n = 0x0C then [CHR 0x5C, CHR ''f'']
      else if n = 0x0A then [CHR 0x5C, CHR ''n'']
      else if n = 0x0D then [CHR 0x5C, CHR ''r'']
      else if n = 0x09 then [CHR 0x5C, CHR ''t'']
      else if 0x20 \<le> n \<and> n \<le> 0x7E then [char_of n]
      else if n < 0x10000 then u_escape n
      else u_escape (0xD800 + (n - 0x10000) div 1024) @ u_escape (0xDC00 + (n - 0x10000) mod 1024))"

definition ascii_str :: "string \<Rightarrow> string" where
  "ascii_str s = CHR 0x22 # concat (map ascii_escape (utf8_points s)) @ [CHR 0x22]"

definition float_text :: "string \<Rightarrow> string" where
  "float_text t = (if t = ''nan'' then ''NaN'' else if t = ''inf'' then ''Infinity''
     else if t = ''-inf'' then ''-Infinity'' else t)"

fun dumps :: "json \<Rightarrow> string" where
  "dumps JNull = ''null''"
| "dumps (JBool b) = (if b then ''true'' else ''false'')"
| "dumps (JInt i) = int_str i"
| "dumps (JFloat t) = float_text t"
| "dumps (JStr s) = ascii_str s"
| "dumps (JList xs) = CHR ''['' # comma_join (map dumps xs) @ '']''"
| "dumps (JObj kvs) =
     CHR ''{'' # comma_join (map (\<lambda>(k, v). ascii_str k @ CHR '':'' # dumps v) kvs) @ ''}''"

section \<open>Events and observers\<close>

record service_event =
  se_id :: string
  se_service :: string
  se_actor :: string
  se_payload :: json

definition event_create :: "crypto \<Rightarrow> string \<Rightarrow> string \<Rightarrow> json \<Rightarrow> service_event" where
  "event_create C service actor payload =
     \<lparr>se_id = take 20 (sha256 C (dumps (sort_keys (JObj
        [(''service'', JStr service), (''actor'', JStr actor), (''payload'', payload)])))),
      se_service = service, se_actor = actor, se_payload = payload\<rparr>"

record observer_attestation =
  oa_observer :: string
  oa_event :: string
  oa_accepted :: bool
  oa_signature :: string

record observer =
  ob_name :: string
  ob_secret :: string

definition observer_message :: "string \<Rightarrow> string \<Rightarrow> bool \<Rightarrow> string" where
  "observer_message name event accepted_flag = name @ '':'' @ event @ '':'' @ (if accepted_flag then ''1'' else ''0'')"

definition observer_attest :: "crypto \<Rightarrow> observer \<Rightarrow> service_event \<Rightarrow> bool \<Rightarrow> observer_attestation" where
  "observer_attest C ob e b =
     \<lparr>oa_observer = ob_name ob, oa_event = se_id e, oa_accepted = b,
      oa_signature = hmac_sha256 C (ob_secret ob) (observer_message (ob_name ob) (se_id e) b)\<rparr>"

definition observer_verify :: "crypto \<Rightarrow> observer \<Rightarrow> observer_attestation \<Rightarrow> bool result" where
  "observer_verify C ob a =
     (let expected = hmac_sha256 C (ob_secret ob) (observer_message (oa_observer a) (oa_event a) (oa_accepted a)) in
      if oa_observer a = ob_name ob then compare_digest expected (oa_signature a) else Inr False)"

section \<open>The proof registry\<close>

record truelies =
  tl_observers :: "observer list"
  tl_proofs :: "(string, json) dict"
  tl_reputation :: "(string, int) dict"

definition default_observers :: "observer list" where
  "default_observers =
     [\<lparr>ob_name = ''primary'', ob_secret = ''local-primary-key''\<rparr>,
      \<lparr>ob_name = ''secondary'', ob_secret = ''local-secondary-key''\<rparr>,
      \<lparr>ob_name = ''tertiary'', ob_secret = ''local-tertiary-key''\<rparr>]"

definition truelies_init :: "observer list option \<Rightarrow> truelies result" where
  "truelies_init given =
     (let obs = (case given of None \<Rightarrow> default_observers | Some [] \<Rightarrow> default_observers | Some xs \<Rightarrow> xs) in
      if length obs < 3 then Inl (ValueError ''TrueLies requires at least three observers'')
      else Inr \<lparr>tl_observers = obs, tl_proofs = [], tl_reputation = []\<rparr>)"

definition event_json :: "service_event \<Rightarrow> json" where
  "event_json e = JObj
     [(''event_id'', JStr (se_id e)), (''service'', JStr (se_service e)), (''actor'', JStr (se_actor e)),
      (''payload'', se_payload e)]"

definition observer_attestation_json :: "observer_attestation \<Rightarrow> json" where
  "observer_attestation_json a = JObj
     [(''observer'', JStr (oa_observer a)), (''event_id'', JStr (oa_event a)), (''accepted'', JBool (oa_accepted a)),
      (''signature'', JStr (oa_signature a))]"

definition truelies_proof :: "service_event \<Rightarrow> observer_attestation list \<Rightarrow> nat \<Rightarrow> bool \<Rightarrow> json" where
  "truelies_proof e atts n q = JObj
     [(''event'', event_json e), (''attestations'', JList (map observer_attestation_json atts)),
      (''approvals'', JInt (int n)), (''quorum'', JBool q)]"

text \<open>The votes: one per observer, all positive when none are given; too few are an \<open>IndexError\<close>.\<close>

definition votes_of :: "bool list option \<Rightarrow> truelies \<Rightarrow> bool list" where
  "votes_of votes T =
     (case votes of None \<Rightarrow> replicate (length (tl_observers T)) True
      | Some [] \<Rightarrow> replicate (length (tl_observers T)) True
      | Some bs \<Rightarrow> bs)"

definition attest_all :: "crypto \<Rightarrow> service_event \<Rightarrow> bool list \<Rightarrow> truelies \<Rightarrow> observer_attestation list" where
  "attest_all C e bs T = map (\<lambda>(ob, b). observer_attest C ob e b) (zip (tl_observers T) bs)"

definition valid_attestations ::
    "crypto \<Rightarrow> observer_attestation list \<Rightarrow> truelies \<Rightarrow> observer_attestation list result" where
  "valid_attestations C atts T =
     bindR (mapR (\<lambda>(ob, a). observer_verify C ob a) (zip (tl_observers T) atts)) (\<lambda>oks.
       Inr (map snd (filter fst (zip oks atts))))"

definition prove :: "crypto \<Rightarrow> service_event \<Rightarrow> bool list option \<Rightarrow> (truelies, json) operation" where
  "prove C e votes T =
     (let bs = votes_of votes T in
      if length bs < length (tl_observers T) then (Inl IndexError, T)
      else (let atts = attest_all C e bs T in
        (case valid_attestations C atts T of
           Inl x \<Rightarrow> (Inl x, T)
         | Inr good \<Rightarrow>
             let n = length (filter oa_accepted good);
                 q = (2 * length (tl_observers T) \<le> n * 3);
                 p = truelies_proof e atts n q
             in (Inr p, T\<lparr>tl_proofs := AList.update (se_id e) p (tl_proofs T),
                  tl_reputation := AList.update (se_actor e)
                    (dict_get (tl_reputation T) (se_actor e) 0 + (if q then 1 else -1)) (tl_reputation T)\<rparr>))))"

section \<open>Services\<close>

record service_request =
  sr_id :: string
  sr_owner :: string
  sr_workload :: workload
  sr_manifest :: "manifest option"
  sr_round :: int

record services =
  sv_distops :: distops
  sv_truelies :: truelies
  sv_requests :: "(string, json) dict"

definition service_result :: "string \<Rightarrow> json \<Rightarrow> json \<Rightarrow> json" where
  "service_result i R p = JObj [(''request_id'', JStr i), (''receipt'', R), (''proof'', p)]"

definition service_event_of :: "crypto \<Rightarrow> service_request \<Rightarrow> json \<Rightarrow> service_event" where
  "service_event_of C q R = event_create C ''distops.compute'' (sr_owner q)
     (JObj [(''request_id'', JStr (sr_id q)), (''receipt'', dict_get (the (obj_fields R)) ''result_digest'' JNull)])"

text \<open>\<open>execute\<close>; the receipt stays scheduled and the proof stays recorded when the quorum fails.\<close>

definition service_execute :: "crypto \<Rightarrow> service_request \<Rightarrow> (services, json) operation" where
  "service_execute C q S =
     (let (r, D) = schedule C (sr_workload q) (sr_manifest q) (sr_round q) (sv_distops S);
          S1 = S\<lparr>sv_distops := D\<rparr> in
      (case r of
         Inl e \<Rightarrow> (Inl e, S1)
       | Inr R \<Rightarrow>
           let (v, T) = prove C (service_event_of C q R) None (sv_truelies S1);
               S2 = S1\<lparr>sv_truelies := T\<rparr> in
           (case v of
              Inl e \<Rightarrow> (Inl e, S2)
            | Inr p \<Rightarrow>
                if obj_get p ''quorum'' \<noteq> Some (JBool True)
                then (Inl (RuntimeError ''service proof failed observer quorum''), S2)
                else
                  let x = service_result (sr_id q) R p
                  in (Inr x, S2\<lparr>sv_requests := AList.update (sr_id q) x (sv_requests S2)\<rparr>))))"

section \<open>Lemmas\<close>

lemma attestation_valid:
  assumes "hex_digests C"
  shows "observer_verify C ob (observer_attest C ob e b) = Inr True"
  using assms by (simp add: observer_verify_def observer_attest_def compare_digest_def hex_digests_def)

lemma attest_all_length: "length (tl_observers T) \<le> length bs \<Longrightarrow> length (attest_all C e bs T) = length (tl_observers T)"
  by (simp add: attest_all_def)

lemma all_valid:
  assumes "hex_digests C" "length (tl_observers T) \<le> length bs"
  shows "valid_attestations C (attest_all C e bs T) T = Inr (attest_all C e bs T)"
proof -
  let ?atts = "attest_all C e bs T"
  have ok: "(\<lambda>(ob, a). observer_verify C ob a) x = Inr True" if "x \<in> set (zip (tl_observers T) ?atts)" for x
  proof -
    from that obtain i where i: "i < length (tl_observers T)" "x = (tl_observers T ! i, ?atts ! i)"
      using assms(2) by (auto simp: set_zip attest_all_length)
    with assms show ?thesis by (simp add: attest_all_def attestation_valid)
  qed
  have oks: "mapR (\<lambda>(ob, a). observer_verify C ob a) (zip (tl_observers T) ?atts)
      = Inr (map (\<lambda>_. True) (zip (tl_observers T) ?atts))"
    by (rule mapR_Inr) (rule ok)
  have zip: "map snd (filter fst (zip (replicate n True) xs)) = take n xs" for n and xs :: "observer_attestation list"
  proof (induction n arbitrary: xs)
    case (Suc n)
    then show ?case by (cases xs) simp_all
  qed simp
  have "map (\<lambda>_. True) (zip (tl_observers T) ?atts) = replicate (length (tl_observers T)) True"
    using assms(2) by (simp add: map_replicate_const attest_all_length)
  then show ?thesis
    using assms(2) by (simp add: valid_attestations_def oks zip attest_all_length)
qed

definition approvals_of :: "bool list option \<Rightarrow> truelies \<Rightarrow> nat" where
  "approvals_of votes T = length (filter id (take (length (tl_observers T)) (votes_of votes T)))"

lemma approvals_attest:
  "length (filter oa_accepted (map (\<lambda>(ob, b). observer_attest C ob e b) (zip obs bs)))
     = length (filter id (take (length obs) bs))"
proof (induction obs arbitrary: bs)
  case (Cons ob obs)
  then show ?case by (cases bs) (simp_all add: observer_attest_def)
qed simp

text \<open>The effect of \<open>prove\<close> in closed form.\<close>

lemma prove_effect:
  assumes "hex_digests C" "length (tl_observers T) \<le> length (votes_of votes T)"
  shows "prove C e votes T =
    (let q = (2 * length (tl_observers T) \<le> approvals_of votes T * 3);
         p = truelies_proof e (attest_all C e (votes_of votes T) T) (approvals_of votes T) q
     in (Inr p, T\<lparr>tl_proofs := AList.update (se_id e) p (tl_proofs T),
          tl_reputation := AList.update (se_actor e)
            (dict_get (tl_reputation T) (se_actor e) 0 + (if q then 1 else -1)) (tl_reputation T)\<rparr>))"
proof -
  have "length (filter oa_accepted (attest_all C e (votes_of votes T) T)) = approvals_of votes T"
    unfolding attest_all_def approvals_of_def by (rule approvals_attest)
  with all_valid [OF assms, of e] assms(2) show ?thesis by (simp add: prove_def Let_def)
qed

lemma truelies_proof_get [simp]:
  "obj_get (truelies_proof e atts n q) ''quorum'' = Some (JBool q)"
  "obj_get (truelies_proof e atts n q) ''approvals'' = Some (JInt (int n))"
  by (simp_all add: truelies_proof_def obj_get_def)

lemma default_approvals [simp]: "approvals_of None T = length (tl_observers T)"
  by (simp add: approvals_of_def votes_of_def)

lemma default_votes [simp]: "length (votes_of None T) = length (tl_observers T)"
  by (simp add: votes_of_def)

section \<open>Properties\<close>

text \<open>An attestation binds its observer, event and vote: two attestations that verify under one observer with
  the same signature are equal, or they are an HMAC collision.\<close>

theorem truelies_attestation_binds:
  assumes "observer_verify C ob a = Inr True" "observer_verify C ob b = Inr True" "oa_signature a = oa_signature b"
  shows "a = b \<or> (\<exists>m m'. m \<noteq> m' \<and> hmac_sha256 C (ob_secret ob) m = hmac_sha256 C (ob_secret ob) m')"
proof (rule disjCI)
  assume none: "\<not> (\<exists>m m'. m \<noteq> m' \<and> hmac_sha256 C (ob_secret ob) m = hmac_sha256 C (ob_secret ob) m')"
  have v: "oa_observer x = ob_name ob \<and> oa_signature x
      = hmac_sha256 C (ob_secret ob) (observer_message (ob_name ob) (oa_event x) (oa_accepted x))"
    if "observer_verify C ob x = Inr True" for x
    using that by (auto simp: observer_verify_def Let_def compare_digest_def split: if_splits)
  from v [OF assms(1)] v [OF assms(2)] assms(3) none
  have "observer_message (ob_name ob) (oa_event a) (oa_accepted a) = observer_message (ob_name ob) (oa_event b) (oa_accepted b)"
    by metis
  then have "oa_event a = oa_event b \<and> oa_accepted a = oa_accepted b"
    by (auto simp: observer_message_def split: if_splits)
  with v [OF assms(1)] v [OF assms(2)] assms(3) show "a = b" by simp
qed

text \<open>The proof registry decides by two thirds: the proof carries one valid attestation of every observer,
  it has a quorum exactly when at least two thirds of the votes are positive, and the actor's reputation
  moves by one in that direction, nobody else's.\<close>

theorem truelies_two_thirds:
  assumes "hex_digests C" "length (tl_observers T) = length bs" "bs \<noteq> []"
  shows "\<exists>p T'. prove C e (Some bs) T = (Inr p, T') \<and> map_of (tl_proofs T') (se_id e) = Some p
    \<and> obj_get p ''quorum'' = Some (JBool (2 * length bs \<le> 3 * length (filter id bs)))
    \<and> obj_get p ''approvals'' = Some (JInt (int (length (filter id bs))))
    \<and> (\<forall>actor. dict_get (tl_reputation T') actor 0 - dict_get (tl_reputation T) actor 0
         = (if actor \<noteq> se_actor e then 0 else if 2 * length bs \<le> 3 * length (filter id bs) then 1 else -1))"
proof -
  have bs: "votes_of (Some bs) T = bs" using assms(3) by (cases bs) (simp_all add: votes_of_def)
  have "approvals_of (Some bs) T = length (filter id bs)" using assms(2) by (simp add: approvals_of_def bs)
  with prove_effect [OF assms(1), of T "Some bs" e] assms(2) bs show ?thesis
    by (simp add: Let_def mult.commute)
qed

lemma service_effect:
  assumes "hex_digests C"
  shows "case fst (schedule C (sr_workload q) (sr_manifest q) (sr_round q) (sv_distops S)) of
      Inl e \<Rightarrow> service_execute C q S = (Inl e, S)
    | Inr R \<Rightarrow> \<exists>p S'. service_execute C q S = (Inr (service_result (sr_id q) R p), S')
        \<and> (\<exists>atts n. p = truelies_proof (service_event_of C q R) atts n True)
        \<and> map_of (sv_requests S') (sr_id q) = Some (service_result (sr_id q) R p)
        \<and> do_receipts (sv_distops S') = do_receipts (sv_distops S) @ [R]
        \<and> dict_get (tl_reputation (sv_truelies S')) (sr_owner q) 0
            = dict_get (tl_reputation (sv_truelies S)) (sr_owner q) 0 + 1"
proof -
  obtain r D where s: "schedule C (sr_workload q) (sr_manifest q) (sr_round q) (sv_distops S) = (r, D)"
    by (cases "schedule C (sr_workload q) (sr_manifest q) (sr_round q) (sv_distops S)")
  note state = schedule_state [of C "sr_workload q" "sr_manifest q" "sr_round q" "sv_distops S", unfolded s]
  show ?thesis
  proof (cases r)
    case (Inl e)
    with s state show ?thesis by (simp add: service_execute_def)
  next
    case (Inr R)
    have event: "se_actor (service_event_of C q R) = sr_owner q" by (simp add: service_event_of_def event_create_def)
    from Inr s state prove_effect [OF assms, of "sv_truelies S" None "service_event_of C q R"] show ?thesis
      by (simp add: service_execute_def Let_def event) (intro exI conjI, auto)
  qed
qed

text \<open>C21. A service never fails after scheduling: whenever the scheduler places the workload, the request ends with
  the receipt and a proof of the full quorum, both recorded, and the owner's reputation grows by one; when the
  scheduler refuses, nothing changes.\<close>

theorem service_executes:
  assumes "hex_digests C"
  shows "case fst (schedule C (sr_workload q) (sr_manifest q) (sr_round q) (sv_distops S)) of
      Inl e \<Rightarrow> service_execute C q S = (Inl e, S)
    | Inr R \<Rightarrow> \<exists>p S'. service_execute C q S = (Inr (service_result (sr_id q) R p), S')
        \<and> obj_get p ''quorum'' = Some (JBool True)
        \<and> map_of (sv_requests S') (sr_id q) = Some (service_result (sr_id q) R p)
        \<and> do_receipts (sv_distops S') = do_receipts (sv_distops S) @ [R]
        \<and> dict_get (tl_reputation (sv_truelies S')) (sr_owner q) 0
            = dict_get (tl_reputation (sv_truelies S)) (sr_owner q) 0 + 1"
proof (cases "fst (schedule C (sr_workload q) (sr_manifest q) (sr_round q) (sv_distops S))")
  case (Inl e)
  with service_effect [OF assms, of q S] show ?thesis by simp
next
  case (Inr R)
  from service_effect [OF assms, of q S, unfolded Inr sum.case] show ?thesis
    unfolding Inr sum.case by (elim exE conjE, intro exI conjI) auto
qed

section \<open>Concrete inputs\<close>

definition sample_truelies :: truelies where
  "sample_truelies = \<lparr>tl_observers = default_observers, tl_proofs = [], tl_reputation = []\<rparr>"

definition sample_event :: service_event where
  "sample_event = event_create ascii_crypto ''svc'' ''alice'' (JObj [])"

theorem truelies_two_thirds_witness:
  "\<exists>p T'. prove ascii_crypto sample_event (Some [True, False, True]) sample_truelies = (Inr p, T')
     \<and> obj_get p ''quorum'' = Some (JBool True)"
  using truelies_two_thirds [OF hex_ascii_crypto, of sample_truelies "[True, False, True]" sample_event]
  by (auto simp: sample_truelies_def default_observers_def)

theorem truelies_attestation_binds_witness:
  "observer_attest ascii_crypto \<lparr>ob_name = ''o'', ob_secret = ''k''\<rparr> sample_event True
     = observer_attest ascii_crypto \<lparr>ob_name = ''o'', ob_secret = ''k''\<rparr> sample_event True
   \<or> (\<exists>m m'. m \<noteq> m' \<and> hmac_sha256 ascii_crypto ''k'' m = hmac_sha256 ascii_crypto ''k'' m')"
  using truelies_attestation_binds [OF attestation_valid [OF hex_ascii_crypto] attestation_valid [OF hex_ascii_crypto] refl,
      of "\<lparr>ob_name = ''o'', ob_secret = ''k''\<rparr>" sample_event True] by simp

definition sample_service_request :: service_request where
  "sample_service_request = \<lparr>sr_id = ''r1'', sr_owner = ''alice'', sr_workload = sample_workload,
     sr_manifest = Some sample_manifest, sr_round = 3\<rparr>"

definition sample_services :: services where
  "sample_services = \<lparr>sv_distops = sample_distops, sv_truelies = sample_truelies, sv_requests = []\<rparr>"

theorem service_executes_witness:
  "\<exists>v S'. service_execute ascii_crypto sample_service_request sample_services = (Inr v, S')
     \<and> dict_get (tl_reputation (sv_truelies S')) ''alice'' 0 = 1"
  using service_executes [OF hex_ascii_crypto, of sample_service_request sample_services]
  by (auto simp: sample_service_request_def sample_services_def sample_scheduled sample_truelies_def)

end
