(* ===== verification/Ecosystem.thy ===== *)
theory Ecosystem
  imports Services Finality Ledger_Snapshot
begin

text \<open>
  The vertical slice of \<open>splitchain/ecosystem.py\<close>: one request goes through the scheduler, the proof layer
  and the services, its proof is committed to a branch of the ledger, three rounds of certified votes
  finalise the candidate, and the ledger advances until the payment is final.
\<close>

section \<open>The state and the demo\<close>

record ecosystem =
  es_ledger :: ledger
  es_services :: services
  es_manifests :: manifest_authority

definition demo_nodes :: "compute_node list" where
  "demo_nodes =
     [\<lparr>cn_id = ''trusted-a'', cn_cpu = 8, cn_memory = 8192, cn_reputation = 100, cn_trusted = True, cn_busy = False\<rparr>,
      \<lparr>cn_id = ''edge-b'', cn_cpu = 4, cn_memory = 4096, cn_reputation = 35, cn_trusted = False, cn_busy = False\<rparr>,
      \<lparr>cn_id = ''trusted-c'', cn_cpu = 16, cn_memory = 16384, cn_reputation = 80, cn_trusted = True, cn_busy = False\<rparr>]"

definition demo_manifests :: manifest_authority where
  "demo_manifests = \<lparr>ma_issuer = ''ecosystem-distops-ca'', ma_secret = ''local-manifest-key''\<rparr>"

definition ecosystem_init :: "crypto \<Rightarrow> ecosystem result" where
  "ecosystem_init C =
     bindR (ledger_init C (Some [(''alice'', 1000), (''bob'', 1000)]) None) (\<lambda>L.
     bindR (truelies_init None) (\<lambda>T.
       Inr \<lparr>es_ledger = L,
         es_services = \<lparr>sv_distops = \<lparr>do_nodes = demo_nodes, do_authority = Some demo_manifests, do_receipts = []\<rparr>,
           sv_truelies = T, sv_requests = []\<rparr>,
         es_manifests = demo_manifests\<rparr>))"

definition demo_workload :: workload where
  "demo_workload = \<lparr>wl_image = ''splitchain/hash:0.1'', wl_command = [''hash'', ''demo''], wl_cpu = 1,
     wl_memory = 128, wl_risk = Medium, wl_network = [], wl_secrets = []\<rparr>"

definition demo_authority :: authority where
  "demo_authority = \<lparr>ca_issuer = ''ecosystem-finality-ca'', ca_secret = ''local-demo-ca-key''\<rparr>"

definition demo_signer :: "crypto \<Rightarrow> finality_role \<Rightarrow> finality_signer result" where
  "demo_signer C role =
     bindR (ca_issue C demo_authority (role_value role) (role_value role @ ''-public'') [''observer''] 0 10) (\<lambda>c.
       Inr \<lparr>fs_certificate = c, fs_role = role, fs_key = ''local-'' @ role_value role @ ''-key''\<rparr>)"

text \<open>The votes of one round, and of several rounds; the first exception ends the demo.\<close>

fun ack_signers :: "crypto \<Rightarrow> string \<Rightarrow> string \<Rightarrow> int \<Rightarrow> finality_signer list \<Rightarrow> (finality, unit) operation" where
  "ack_signers C branch candidate r [] F = (Inr (), F)"
| "ack_signers C branch candidate r (S # Ss) F =
     (case fs_vote C S branch candidate r of
        Inl e \<Rightarrow> (Inl e, F)
      | Inr v \<Rightarrow>
          (case acknowledge C (v, fs_certificate S, fs_key S) F of
             (Inl e, F') \<Rightarrow> (Inl e, F')
           | (Inr _, F') \<Rightarrow> ack_signers C branch candidate r Ss F'))"

fun ack_rounds :: "crypto \<Rightarrow> string \<Rightarrow> string \<Rightarrow> int list \<Rightarrow> finality_signer list \<Rightarrow> (finality, unit) operation" where
  "ack_rounds C branch candidate [] Ss F = (Inr (), F)"
| "ack_rounds C branch candidate (r # rs) Ss F =
     (case ack_signers C branch candidate r Ss F of
        (Inl e, F') \<Rightarrow> (Inl e, F')
      | (Inr _, F') \<Rightarrow> ack_rounds C branch candidate rs Ss F')"

definition finality_status :: "finality \<Rightarrow> json" where
  "finality_status F = JObj
     [(''branch_id'', JStr (fn_branch F)), (''candidate_digest'', JStr (fn_candidate F)),
      (''current_round'', JInt (fn_round F)), (''finalized'', JBool (fn_final F)),
      (''quorum_size'', JInt (int (fn_quorum F))),
      (''votes'', JObj (map (\<lambda>(r, vs). (int_str r, JList (map JStr (sort (keys vs))))) (fn_votes F))),
      (''quarantined'', JList (map JStr (sort (fn_quarantined F))))]"

definition demo_finality :: "crypto \<Rightarrow> string \<Rightarrow> string \<Rightarrow> finality result" where
  "demo_finality C branch candidate =
     bindR (mapR (demo_signer C) [PRIMARY, SECONDARY, TERTIARY]) (\<lambda>signers.
     bindR (finality_init demo_authority branch candidate
         (map (\<lambda>S. (ct_node (fs_certificate S), fs_role S)) signers)) (\<lambda>F.
     (case ack_rounds C branch candidate [1, 2, 3] (take 2 signers) F of
        (Inl e, F') \<Rightarrow> Inl e
      | (Inr _, F') \<Rightarrow> Inr F')))"

definition demo_request :: "manifest \<Rightarrow> service_request" where
  "demo_request m = \<lparr>sr_id = ''demo-001'', sr_owner = ''alice'', sr_workload = demo_workload, sr_manifest = Some m,
     sr_round = 1\<rparr>"

text \<open>\<open>service["proof"]["event"]["event_id"]\<close>\<close>

definition json_at :: "string list \<Rightarrow> json \<Rightarrow> json" where
  "json_at path v = foldl (\<lambda>u k. get_or u k JNull) v path"

definition demo_result :: "json \<Rightarrow> finality \<Rightarrow> ledger \<Rightarrow> compute_node list \<Rightarrow> json" where
  "demo_result service F L nodes = JObj
     [(''application'', JObj [(''request'', JStr ''demo-001''), (''status'', JStr ''completed'')]),
      (''distops'', get_or service ''receipt'' JNull), (''truelies'', get_or service ''proof'' JNull),
      (''finality'', finality_status F), (''protocol'', ledger_snapshot L),
      (''nodes'', JList (map (JStr \<circ> cn_id) nodes))]"

text \<open>The payment of the demo: offer, accept and commit of the service proof. The branch as committed.\<close>

definition demo_payment :: "crypto \<Rightarrow> json \<Rightarrow> (ledger, branch) operation" where
  "demo_payment C service L =
     (case offer C ''alice'' ''bob'' 10 6 L of
        (Inl e, L1) \<Rightarrow> (Inl e, L1)
      | (Inr b, L1) \<Rightarrow>
          (case accept (br_id b) ''bob'' L1 of
             (Inl e, L2) \<Rightarrow> (Inl e, L2)
           | (Inr _, L2) \<Rightarrow>
               commit C (br_id b) ''alice''
                 (JObj [(''service_proof'', json_at [''proof'', ''event'', ''event_id''] service)]) L2))"

definition demo_digest :: "branch \<Rightarrow> string" where
  "demo_digest b = (case br_tx_digest b of None \<Rightarrow> [] | Some d \<Rightarrow> d)"

definition demo :: "crypto \<Rightarrow> (ecosystem, json) operation" where
  "demo C X =
     (case manifest_issue C (es_manifests X) demo_workload 0 10 of
        Inl e \<Rightarrow> (Inl e, X)
      | Inr m \<Rightarrow>
          let (s, S) = service_execute C (demo_request m) (es_services X); X1 = X\<lparr>es_services := S\<rparr> in
          (case s of
             Inl e \<Rightarrow> (Inl e, X1)
           | Inr service \<Rightarrow>
               let (p, L) = demo_payment C service (es_ledger X1); X2 = X1\<lparr>es_ledger := L\<rparr> in
               (case p of
                  Inl e \<Rightarrow> (Inl e, X2)
                | Inr b \<Rightarrow>
                    (case demo_finality C (br_id b) (demo_digest b) of
                       Inl e \<Rightarrow> (Inl e, X2)
                     | Inr F \<Rightarrow>
                         let (a, L') = advance C 3 (es_ledger X2); X3 = X2\<lparr>es_ledger := L'\<rparr> in
                         (case a of
                            Inl e \<Rightarrow> (Inl e, X3)
                          | Inr _ \<Rightarrow> (Inr (demo_result service F L' (do_nodes (sv_distops (es_services X3)))), X3))))))"

section \<open>The votes are all accepted\<close>

lemma good_acknowledged:
  assumes inv: "finality_inv F" and F: "\<not> fn_final F" "fn_round F = r" and b: "good_ballot C F r b"
    and new: "fv_observer (fst b) \<notin> round_observers F r"
  shows "acknowledge C b F = (Inr (fn_final (store_vote (fst b) F)), store_vote (fst b) F)"
proof -
  obtain v cert key where eq: "b = (v, cert, key)" by (cases b) auto
  have r: "r \<in> {1, 2, 3}" using finality_invD(6) [OF inv] F by simp
  have "map_of (round_votes F r) (fv_observer v) = None"
    using new eq by (auto simp: round_observers_def map_of_eq_None_iff)
  moreover have "ct_node cert = fv_observer v" "ca_verify C (fn_authority F) cert r ''observer'' = Inr True"
    "vote_signed C v key = Inr True" "fv_round v = r" "fv_branch v = fn_branch F"
    "fv_candidate v = fn_candidate F" "map_of (fn_observers F) (fv_observer v) = Some (fv_role v)"
    using b eq by (auto simp: good_ballot_def ballot_valid_def vote_ok_def)
  ultimately show ?thesis
    using F eq finality_invD(3) [OF inv r] by (simp add: acknowledge_def)
qed

definition signer_ballot :: "crypto \<Rightarrow> string \<Rightarrow> string \<Rightarrow> int \<Rightarrow> finality_signer \<Rightarrow> ballot" where
  "signer_ballot C branch candidate r S = (projr (fs_vote C S branch candidate r), fs_certificate S, fs_key S)"

lemma signer_ballot_vote:
  "fs_vote C S b c r = Inr (fst (signer_ballot C b c r S))" "fv_observer (fst (signer_ballot C b c r S)) = ct_node (fs_certificate S)"
proof -
  obtain v where "fs_vote C S b c r = Inr v" using signed_vote_exists by blast
  then show "fs_vote C S b c r = Inr (fst (signer_ballot C b c r S))"
    "fv_observer (fst (signer_ballot C b c r S)) = ct_node (fs_certificate S)"
    by (auto simp: signer_ballot_def fs_vote_def bindR_Inr_iff)
qed

lemma ack_signers_all:
  assumes "finality_inv F" "\<not> fn_final F" "fn_round F = r" "\<forall>S \<in> set Ss. good_ballot C F r (signer_ballot C b c r S)"
    "distinct (map (\<lambda>S. ct_node (fs_certificate S)) Ss)"
    "\<forall>S \<in> set Ss. ct_node (fs_certificate S) \<notin> round_observers F r"
    "length (round_votes F r) + length Ss = fn_quorum F"
  shows "ack_signers C b c r Ss F = (Inr (), run_ops (acknowledge C) (map (signer_ballot C b c r) Ss) F)"
  using assms
proof (induction Ss arbitrary: F)
  case (Cons S Ss)
  let ?b = "signer_ballot C b c r S"
  let ?F = "store_vote (fst ?b) F"
  have good: "good_ballot C F r ?b" using Cons.prems(4) by simp
  have new: "fv_observer (fst ?b) \<notin> round_observers F r" using Cons.prems(6) by (simp add: signer_ballot_vote)
  have ack: "acknowledge C ?b F = (Inr (fn_final ?F), ?F)"
    by (rule good_acknowledged [OF Cons.prems(1-3) good new])
  have v: "fv_round (fst ?b) = r" using good by (simp add: good_ballot_def vote_ok_def)
  have none: "map_of (round_votes F r) (fv_observer (fst ?b)) = None"
    using new by (auto simp: round_observers_def map_of_eq_None_iff)
  have b: "?b = (fst ?b, fs_certificate S, fs_key S)" by (simp add: signer_ballot_def)
  have step: "ack_signers C b c r (S # Ss) F = ack_signers C b c r Ss ?F"
    using ack [unfolded b [symmetric]] ack b by (simp add: signer_ballot_vote(1))
  show ?case
  proof (cases Ss)
    case Nil
    with step ack show ?thesis by simp
  next
    case (Cons S' Ss')
    have inv: "finality_inv ?F"
      using Cons.prems(1-3) none v good by (intro store_vote_inv) (simp_all add: good_ballot_def)
    have len: "length (round_votes ?F r) = Suc (length (round_votes F r))"
      using none v by (simp add: store_vote_votes update_length)
    with Cons Cons.prems(2,3,7) v have st: "\<not> fn_final ?F" "fn_round ?F = r" "fn_quorum ?F = fn_quorum F"
      by (simp_all add: store_vote_round)
    have obs: "round_observers ?F r = insert (ct_node (fs_certificate S)) (round_observers F r)"
      using v update_keys_set [of "fv_observer (fst ?b)" "fst ?b" "round_votes F r"]
      by (simp add: round_observers_def store_vote_votes signer_ballot_vote(2))
    have "ack_signers C b c r Ss ?F = (Inr (), run_ops (acknowledge C) (map (signer_ballot C b c r) Ss) ?F)"
      using Cons.IH [OF inv st(1,2)] Cons.prems(4-7) len st(3) obs by (simp add: good_ballot_cong) (metis image_eqI)
    with step ack show ?thesis by simp
  qed
qed simp

declare ack_signers.simps [simp del]

lemma demo_signer_ok:
  "\<exists>S. demo_signer C role = Inr S \<and> ct_node (fs_certificate S) = role_value role \<and> fs_role S = role
    \<and> ca_issue C demo_authority (role_value role) (role_value role @ ''-public'') [''observer''] 0 10 = Inr (fs_certificate S)"
proof -
  obtain c where c: "ca_issue C demo_authority (role_value role) (role_value role @ ''-public'') [''observer''] 0 10 = Inr c"
    by (simp add: ca_issue_def hmac_json_def canonical_json_def)
  with ca_issue_node [OF c] show ?thesis by (simp add: demo_signer_def)
qed

lemma demo_ballot_good:
  assumes "hex_digests C" "fn_authority F = demo_authority" "fn_branch F = b" "fn_candidate F = c"
    "map_of (fn_observers F) (role_value role) = Some role" "1 \<le> r" "r < 10" "demo_signer C role = Inr S"
  shows "good_ballot C F r (signer_ballot C b c r S)"
proof -
  have S: "fs_role S = role"
    "ca_issue C demo_authority (role_value role) (role_value role @ ''-public'') [''observer''] 0 10 = Inr (fs_certificate S)"
    using demo_signer_ok [of C role] assms(8) by auto
  have v: "fs_vote C S (fn_branch F) (fn_candidate F) r = Inr (fst (signer_ballot C b c r S))"
    using assms(3,4) signer_ballot_vote(1) by simp
  have "good_ballot C F r (fst (signer_ballot C b c r S), fs_certificate S, fs_key S)"
    by (rule signed_ballot_good [OF S(2) [folded assms(2)] assms(1) v]) (use assms(5-7) S(1) in simp_all)
  then show ?thesis by (simp add: signer_ballot_def)
qed

text \<open>One round of the demo: the two signers close it.\<close>

lemma demo_round:
  assumes G: "finality_inv G" "\<not> fn_final G" "fn_round G = r" "round_votes G r = []" "fn_quorum G = 2"
    and good: "\<forall>S \<in> set Ss. good_ballot C G r (signer_ballot C b c r S)"
    and Ss: "distinct (map (\<lambda>S. ct_node (fs_certificate S)) Ss)" "length Ss = 2"
  shows "\<exists>G'. ack_signers C b c r Ss G = (Inr (), G') \<and> finality_inv G' \<and> fn_quorum G' = 2
    \<and> good_ballot C G' = good_ballot C G \<and> (\<forall>r'. r' \<noteq> r \<longrightarrow> round_votes G' r' = round_votes G r')
    \<and> (r = 3 \<longrightarrow> fn_final G') \<and> (r \<noteq> 3 \<longrightarrow> \<not> fn_final G' \<and> fn_round G' = r + 1)"
proof -
  let ?B = "map (signer_ballot C b c r) Ss" and ?G = "run_ops (acknowledge C) (map (signer_ballot C b c r) Ss) G"
  have none: "round_observers G r = {}" using G(4) by (simp add: round_observers_def)
  have n: "length (round_votes G r) + length Ss = fn_quorum G" using G(4,5) Ss(2) by simp
  have ack: "ack_signers C b c r Ss G = (Inr (), ?G)"
    by (rule ack_signers_all [OF G(1-3) good Ss(1) _ n]) (simp add: none)
  have "distinct (map (\<lambda>x. fv_observer (fst x)) ?B)" using Ss(1) by (simp add: comp_def signer_ballot_vote(2))
  note d = this
  have p: "finality_inv ?G \<and> (\<forall>x r'. good_ballot C ?G r' x = good_ballot C G r' x) \<and> fn_quorum ?G = fn_quorum G
      \<and> (\<forall>r'. r' \<noteq> r \<longrightarrow> round_votes ?G r' = round_votes G r')
      \<and> (if r = 3 then fn_final ?G else \<not> fn_final ?G \<and> fn_round ?G = r + 1)"
    by (rule round_progress [OF G(1-3) _ d]) (use good none n in simp_all)
  then have "good_ballot C ?G = good_ballot C G" by (simp add: fun_eq_iff)
  with p ack G(5) show ?thesis by (intro exI [of _ ?G]) presburger
qed

lemma demo_finality_final:
  assumes hex: "hex_digests C"
  shows "\<exists>F. demo_finality C b c = Inr F \<and> fn_final F"
proof -
  obtain P where P: "demo_signer C PRIMARY = Inr P" "ct_node (fs_certificate P) = ''primary''" "fs_role P = PRIMARY"
    using demo_signer_ok [of C PRIMARY] by auto
  obtain S where S: "demo_signer C SECONDARY = Inr S" "ct_node (fs_certificate S) = ''secondary''" "fs_role S = SECONDARY"
    using demo_signer_ok [of C SECONDARY] by auto
  obtain T where T: "demo_signer C TERTIARY = Inr T" "ct_node (fs_certificate T) = ''tertiary''" "fs_role T = TERTIARY"
    using demo_signer_ok [of C TERTIARY] by auto
  let ?obs = "[(''primary'', PRIMARY), (''secondary'', SECONDARY), (''tertiary'', TERTIARY)]" and ?Ss = "[P, S]"
  obtain F where F: "finality_init demo_authority b c ?obs = Inr F" by (simp add: finality_init_def)
  note f = finality_init_fields [OF F] and start = finality_init_start [OF F]
  have q: "fn_quorum F = 2" using f by (simp add: fn_quorum_def)
  have good: "\<forall>X \<in> set ?Ss. good_ballot C F r (signer_ballot C b c r X)" if "r \<in> {1, 2, 3}" for r
    using that demo_ballot_good [OF hex, of F b c PRIMARY r P] demo_ballot_good [OF hex, of F b c SECONDARY r S] f P(1) S(1)
    by auto
  have Ss: "distinct (map (\<lambda>S. ct_node (fs_certificate S)) ?Ss)" "length ?Ss = 2" using P(2) S(2) by simp_all
  obtain F1 where r1: "ack_signers C b c 1 ?Ss F = (Inr (), F1)" "finality_inv F1" "fn_quorum F1 = 2"
    "good_ballot C F1 = good_ballot C F" "\<forall>r'. r' \<noteq> 1 \<longrightarrow> round_votes F1 r' = round_votes F r'"
    "\<not> fn_final F1" "fn_round F1 = 2"
    using demo_round [OF start(1-4) q good Ss] by auto
  obtain F2 where r2: "ack_signers C b c 2 ?Ss F1 = (Inr (), F2)" "finality_inv F2" "fn_quorum F2 = 2"
    "good_ballot C F2 = good_ballot C F" "\<forall>r'. r' \<noteq> 2 \<longrightarrow> round_votes F2 r' = round_votes F1 r'"
    "\<not> fn_final F2" "fn_round F2 = 3"
    using demo_round [OF r1(2,6,7) _ r1(3) _ Ss, where C = C and b = b and c = c] good [of 2] r1(4,5) start(4) by auto
  obtain F3 where r3: "ack_signers C b c 3 ?Ss F2 = (Inr (), F3)" "fn_final F3"
    using demo_round [OF r2(2,6,7) _ r2(3) _ Ss, where C = C and b = b and c = c] good [of 3] r2(4,5) r1(5) start(4) by auto
  have "demo_finality C b c = Inr F3"
    using P S T F r1(1) r2(1) r3(1) by (simp add: demo_finality_def)
  with r3(2) show ?thesis by blast
qed

section \<open>The payment\<close>

lemma digest_ok:
  assumes "domain \<noteq> []" "CHR 0x00 \<notin> set domain" "is_ascii domain" "\<not> has_nonfinite v"
  shows "\<exists>d. protocol_digest C domain v = Inr d"
  using assms by (simp add: protocol_digest_def canonical_json_def)

definition demo_branch :: "string \<Rightarrow> string \<Rightarrow> branch_state \<Rightarrow> string \<Rightarrow> branch" where
  "demo_branch bid origin st d = \<lparr>br_id = bid, br_sender = ''alice'', br_receiver = ''bob'', br_value = 10, br_stake = 10,
     br_created_round = 0, br_expires_round = 6, br_origin_height = 0, br_origin_digest = origin, br_state = st,
     br_accepted_round = Some 0, br_committed_round = Some 0, br_tx_digest = Some d\<rparr>"

definition demo_ledger :: "string \<Rightarrow> string \<Rightarrow> string \<Rightarrow> int \<Rightarrow> ledger" where
  "demo_ledger bid origin d r = \<lparr>lg_genesis = None, lg_round = r, lg_balances = [(''alice'', 1000), (''bob'', 1000)],
     lg_locked = [(''alice'', 20)], lg_branches = [(bid, demo_branch bid origin COMMITTED d)], lg_finalized = [],
     lg_height = 0, lg_digest = origin, lg_history = [(0, origin)]\<rparr>"

definition demo_start :: "string \<Rightarrow> ledger" where
  "demo_start origin = \<lparr>lg_genesis = None, lg_round = 0, lg_balances = [(''alice'', 1000), (''bob'', 1000)],
     lg_locked = [], lg_branches = [], lg_finalized = [], lg_height = 0, lg_digest = origin, lg_history = [(0, origin)]\<rparr>"

lemma demo_start_fields:
  "lg_genesis (demo_start o') = None" "lg_round (demo_start o') = 0" "lg_locked (demo_start o') = []"
  "lg_balances (demo_start o') = [(''alice'', 1000), (''bob'', 1000)]" "lg_branches (demo_start o') = []"
  "lg_height (demo_start o') = 0" "lg_digest (demo_start o') = o'"
  by (simp_all add: demo_start_def)

definition demo_offered :: "string \<Rightarrow> string \<Rightarrow> branch" where
  "demo_offered bid origin = new_branch (demo_start origin) bid ''alice'' ''bob'' 10 6"

lemma demo_offer:
  assumes "protocol_digest C ''splitchain/branch-id/v1'' (branch_id_json (demo_start o') ''alice'' ''bob'' 10) = Inr i"
  shows "offer C ''alice'' ''bob'' 10 6 (demo_start o') = (Inr (demo_offered (take 16 i) o'),
    (demo_start o')\<lparr>lg_branches := [(take 16 i, demo_offered (take 16 i) o')], lg_locked := [(''alice'', 20)]\<rparr>)"
proof -
  have guards: "\<not> is_reserved (demo_start o') ''alice''" "\<not> (10 \<le> (0::int) \<or> 6 < FINALITY_ROUNDS)"
    "dict_has [(''alice'', 1000 :: int), (''bob'', 1000)] ''bob''" "\<not> available (demo_start o') ''alice'' < 20"
    by (simp_all add: is_reserved_def demo_start_fields FINALITY_ROUNDS_def dict_has_def available_def dict_get_def)
  show ?thesis
    unfolding offer_def if_not_P [OF guards(1)] if_not_P [OF guards(2)] assms
    by (simp add: guards(3,4) Let_def demo_offered_def [symmetric] set_branch_def demo_start_fields dict_get_def)
qed

lemma demo_payment_ok:
  assumes "ledger_init C (Some [(''alice'', 1000), (''bob'', 1000)]) None = Inr L"
    "\<not> has_nonfinite (json_at [''proof'', ''event'', ''event_id''] service)"
  shows "\<exists>bid d. demo_payment C service L
      = (Inr (demo_branch bid (lg_digest L) COMMITTED d), demo_ledger bid (lg_digest L) d 0)"
proof -
  let ?payload = "JObj [(''service_proof'', json_at [''proof'', ''event'', ''event_id''] service)]"
  obtain o' where L: "L = demo_start o'"
    using assms(1) by (auto simp: ledger_init_def bindR_Inr_iff Let_def demo_start_def)
  have "\<exists>i. protocol_digest C ''splitchain/branch-id/v1'' (branch_id_json (demo_start o') ''alice'' ''bob'' 10) = Inr i"
    by (rule digest_ok) (simp_all add: is_ascii_def branch_id_json_def)
  then obtain i where i: "protocol_digest C ''splitchain/branch-id/v1''
      (branch_id_json (demo_start o') ''alice'' ''bob'' 10) = Inr i" by blast
  have "\<exists>d. protocol_digest C ''splitchain/tx-commit/v1'' ?payload = Inr d"
    by (rule digest_ok) (use assms(2) in \<open>simp_all add: is_ascii_def\<close>)
  then obtain d where d: "protocol_digest C ''splitchain/tx-commit/v1'' ?payload = Inr d" by blast
  let ?bid = "take 16 i"
  let ?b = "(demo_offered ?bid o')\<lparr>br_state := ACCEPTED, br_accepted_round := Some 0\<rparr>"
  let ?L1 = "(demo_start o')\<lparr>lg_branches := [(?bid, demo_offered ?bid o')], lg_locked := [(''alice'', 20)]\<rparr>"
  let ?L2 = "(demo_start o')\<lparr>lg_branches := [(?bid, ?b)], lg_locked := [(''alice'', 20)]\<rparr>"
  have f: "br_id (demo_offered ?bid o') = ?bid" "br_state (demo_offered ?bid o') = OFFERED"
    "br_expires_round (demo_offered ?bid o') = 6" "br_receiver (demo_offered ?bid o') = ''bob''"
    "br_sender (demo_offered ?bid o') = ''alice''"
    by (simp_all add: demo_offered_def new_branch_def demo_start_fields)
  have "accept ?bid ''bob'' ?L1 = (Inr ?b, ?L2)"
    by (simp add: accept_def find_branch_def ensure_live_def set_branch_def demo_start_fields f Let_def)
  moreover have "commit C ?bid ''alice'' ?payload ?L2 = (Inr (demo_branch ?bid o' COMMITTED d), demo_ledger ?bid o' d 0)"
    by (simp add: commit_def find_branch_def ensure_live_def set_branch_def demo_start_fields f d Let_def)
      (simp add: demo_branch_def demo_ledger_def demo_start_def demo_offered_def new_branch_def)
  ultimately have "demo_payment C service L = (Inr (demo_branch ?bid o' COMMITTED d), demo_ledger ?bid o' d 0)"
    using demo_offer [OF i] f(1) by (simp add: demo_payment_def L)
  then show ?thesis unfolding L demo_start_fields by blast
qed

lemma demo_tick:
  assumes "r < 2"
  shows "tick C cs (demo_ledger bid o' d r) = (Inr cs, demo_ledger bid o' d (r + 1))"
  using assms by (simp add: tick_def demo_ledger_def demo_branch_def keys_def age_branch_def FINALITY_ROUNDS_def)

lemma demo_last_tick:
  "\<exists>L'. tick C cs (demo_ledger bid o' d 2) = (Inr (cs @ [demo_branch bid o' FINAL d]), L')
     \<and> lg_balances L' = [(''alice'', 990), (''bob'', 1010)] \<and> lg_locked L' = [(''alice'', 0)]
     \<and> lg_branches L' = [(bid, demo_branch bid o' FINAL d)] \<and> lg_height L' = 1"
proof -
  have "\<exists>x. protocol_digest C ''splitchain/canonical-block/v1''
      (JObj [(''branch_id'', JStr bid), (''height'', JInt 1), (''parent'', JStr o'), (''tx_digest'', JStr d)]) = Inr x"
    by (rule digest_ok) (simp_all add: is_ascii_def)
  then obtain x where x: "protocol_digest C ''splitchain/canonical-block/v1''
      (JObj [(''branch_id'', JStr bid), (''height'', JInt 1), (''parent'', JStr o'), (''tx_digest'', JStr d)]) = Inr x" by blast
  then show ?thesis
    by (simp add: tick_def demo_ledger_def demo_branch_def keys_def age_branch_def FINALITY_ROUNDS_def finalize_def
        unlock_def set_branch_def append_block_def Let_def dict_get_def)
qed

lemma demo_advance:
  "\<exists>L'. advance C 3 (demo_ledger bid o' d 0) = (Inr [demo_branch bid o' FINAL d], L')
     \<and> lg_balances L' = [(''alice'', 990), (''bob'', 1010)] \<and> lg_locked L' = [(''alice'', 0)]
     \<and> lg_branches L' = [(bid, demo_branch bid o' FINAL d)] \<and> lg_height L' = 1"
proof -
  have "advance C 3 (demo_ledger bid o' d 0) = advance_loop C 1 [] (demo_ledger bid o' d 2)"
    by (simp add: advance_def numeral_3_eq_3 demo_tick)
  with demo_last_tick [of C "[]" bid o' d] show ?thesis by auto
qed

section \<open>The demo completes\<close>

lemma json_at_event: "json_at [''proof'', ''event'', ''event_id''] (service_result i R (truelies_proof e atts n q)) = JStr (se_id e)"
  by (simp add: json_at_def service_result_def truelies_proof_def event_json_def get_or_obj)

text \<open>The vertical slice works end to end: on a fresh ecosystem the demo returns; its candidate is final in
  three certified rounds, its proof has the quorum, the ten units have moved from alice to bob with nothing
  left locked, the branch is final in the first canonical block, and the service request is recorded.\<close>

theorem ecosystem_demo_completes:
  assumes "hex_digests C" "ecosystem_init C = Inr X"
  shows "\<exists>v X' bid b. demo C X = (Inr v, X') \<and> json_at [''finality'', ''finalized''] v = JBool True
    \<and> json_at [''truelies'', ''quorum''] v = JBool True
    \<and> lg_balances (es_ledger X') = [(''alice'', 990), (''bob'', 1010)] \<and> lg_locked (es_ledger X') = [(''alice'', 0)]
    \<and> lg_branches (es_ledger X') = [(bid, b)] \<and> br_state b = FINAL \<and> lg_height (es_ledger X') = 1
    \<and> map_of (sv_requests (es_services X')) ''demo-001'' \<noteq> None"
proof -
  from assms(2) obtain L T where L: "ledger_init C (Some [(''alice'', 1000), (''bob'', 1000)]) None = Inr L"
    and X: "X = \<lparr>es_ledger = L,
         es_services = \<lparr>sv_distops = \<lparr>do_nodes = demo_nodes, do_authority = Some demo_manifests, do_receipts = []\<rparr>,
           sv_truelies = T, sv_requests = []\<rparr>, es_manifests = demo_manifests\<rparr>"
    by (auto simp: ecosystem_init_def bindR_Inr_iff)
  obtain m where m: "manifest_issue C demo_manifests demo_workload 0 10 = Inr m"
    by (simp add: manifest_issue_def workload_digest_ok hmac_json_def canonical_json_def)
  let ?q = "demo_request m"
  have "is_ok (fst (schedule C demo_workload (Some m) 1 (sv_distops (es_services X))))"
    by (rule manifest_placed [OF m assms(1), where n = "hd demo_nodes"])
      (simp_all add: X demo_workload_def ALLOWED_IMAGES_def demo_nodes_def eligible_def)
  then obtain R where R: "fst (schedule C (sr_workload ?q) (sr_manifest ?q) (sr_round ?q) (sv_distops (es_services X))) = Inr R"
    by (auto simp: is_ok_iff demo_request_def)
  from service_effect [OF assms(1), of ?q "es_services X", unfolded R sum.case]
  obtain atts n S where S: "service_execute C ?q (es_services X)
      = (Inr (service_result ''demo-001'' R (truelies_proof (service_event_of C ?q R) atts n True)), S)"
    and req: "map_of (sv_requests S) ''demo-001'' \<noteq> None"
    by (auto simp: demo_request_def)
  let ?v = "service_result ''demo-001'' R (truelies_proof (service_event_of C ?q R) atts n True)"
  obtain bid d where pay: "demo_payment C ?v L = (Inr (demo_branch bid (lg_digest L) COMMITTED d), demo_ledger bid (lg_digest L) d 0)"
    using demo_payment_ok [OF L, of ?v] by (auto simp: json_at_event)
  obtain F where F: "demo_finality C bid d = Inr F" "fn_final F"
    using demo_finality_final [OF assms(1)] by blast
  obtain L' where L': "advance C 3 (demo_ledger bid (lg_digest L) d 0) = (Inr [demo_branch bid (lg_digest L) FINAL d], L')"
    "lg_balances L' = [(''alice'', 990), (''bob'', 1010)]" "lg_locked L' = [(''alice'', 0)]"
    "lg_branches L' = [(bid, demo_branch bid (lg_digest L) FINAL d)]" "lg_height L' = 1"
    using demo_advance by blast
  have b: "br_id (demo_branch bid o' st d) = bid" "demo_digest (demo_branch bid o' st d) = d"
    "br_state (demo_branch bid o' st d) = st" for o' st
    by (simp_all add: demo_branch_def demo_digest_def)
  have "demo C X = (Inr (demo_result ?v F L' (do_nodes (sv_distops S))), X\<lparr>es_services := S, es_ledger := L'\<rparr>)"
    using m S pay F(1) L'(1) by (simp add: demo_def X b Let_def)
  moreover have "json_at [''finality'', ''finalized''] (demo_result ?v F L' ns) = JBool True"
    "json_at [''truelies'', ''quorum''] (demo_result ?v F L' ns) = JBool True" for ns
    using F(2) by (simp_all add: json_at_def demo_result_def finality_status_def get_or_obj service_result_def truelies_proof_def)
  ultimately show ?thesis using L' req b(3) by simp
qed

lemma ecosystem_starts: "\<exists>X. ecosystem_init C = Inr X"
proof -
  have "\<exists>d. protocol_digest C ''splitchain/canonical-genesis/v1''
      (JObj [(''balances'', dict_json (sorted_dict [(''alice'', 1000), (''bob'', 1000)]))]) = Inr d"
    by (rule digest_ok) (simp_all add: is_ascii_def dict_json_def list_ex_iff)
  then obtain d where "protocol_digest C ''splitchain/canonical-genesis/v1''
      (JObj [(''balances'', dict_json (sorted_dict [(''alice'', 1000), (''bob'', 1000)]))]) = Inr d" by blast
  then show ?thesis
    by (simp add: ecosystem_init_def ledger_init_def ledger_origin_digest_def truelies_init_def default_observers_def Let_def)
qed

theorem ecosystem_demo_completes_witness:
  "\<exists>X v X'. ecosystem_init ascii_crypto = Inr X \<and> demo ascii_crypto X = (Inr v, X')
     \<and> lg_balances (es_ledger X') = [(''alice'', 990), (''bob'', 1010)]"
proof -
  obtain X where X: "ecosystem_init ascii_crypto = Inr X" using ecosystem_starts by blast
  with ecosystem_demo_completes [OF hex_ascii_crypto X] show ?thesis by blast
qed

end
