(* ===== verification/Node_Dispatch.thy ===== *)
theory Node_Dispatch
  imports Node_Safety Ecosystem
begin

text \<open>
  The request switch of the reference node (\<open>ReferenceNode.dispatch\<close> of \<open>splitchain/node.py\<close>) over the
  handlers of \<open>Node_Model\<close>, the demo of \<open>Ecosystem\<close> and the direct calls of a node without replication, and
  the reading of the state file by \<open>splitchain/persistence.py\<close> in the constructor. What other nodes answer
  while a request is handled is a parameter, \<open>node_world\<close>.
\<close>

section \<open>The server\<close>

record node_server =
  ns_node :: node
  ns_ecosystem :: ecosystem

text \<open>
  \<open>nw_prepared\<close> and \<open>nw_confirmed\<close> are those of \<open>replicate_mutation\<close>; \<open>nw_synced\<close> tells for every peer, in
  the order of their identifiers, whether it could be synchronised; \<open>nw_probes\<close> is what the peers answered to
  a status probe.
\<close>

record node_world =
  nw_urls :: "(string, string) dict"
  nw_prepared :: "json \<Rightarrow> nat"
  nw_confirmed :: "json \<Rightarrow> bool"
  nw_synced :: "(string, bool) dict"
  nw_probes :: json

definition on_node :: "(node, 'a) operation \<Rightarrow> (node_server, 'a) operation" where
  "on_node f S = (case f (ns_node S) of (r, N) \<Rightarrow> (r, S\<lparr>ns_node := N\<rparr>))"

section \<open>Handlers of the node that only the switch uses\<close>

definition replica_position :: "node \<Rightarrow> json result" where
  "replica_position N =
     (if nd_repl N = None \<or> nd_leadership N = None \<or> nd_role N = leader_of N
      then Inl (ProtocolError ''node does not expose a replica position'')
      else Inr (JObj [(''node_id'', JStr (nd_id N)), (''nonce'', JInt (committed_position N))]))"

definition replica_history :: "crypto \<Rightarrow> json \<Rightarrow> node \<Rightarrow> json result" where
  "replica_history C params N =
     (if nd_repl N = None \<or> nd_leadership N = None
      then Inl (ProtocolError ''replication history is not configured'')
      else (case get_or params ''from'' (JInt (-1)) of
          JInt start \<Rightarrow>
            if start < 0 \<or> committed_position N < start \<or> int (length (nd_log N)) \<noteq> committed_position N
            then Inl (ProtocolError ''invalid or incomplete replication history'')
            else bindR (ledger_digest C N) (\<lambda>d.
              Inr (JObj [(''node_id'', JStr (nd_id N)), (''nonce'', JInt (committed_position N)),
                (''entries'', JList (take 10 (drop (nat start) (nd_log N)))), (''ledger_digest'', JStr d)]))
        | _ \<Rightarrow> Inl (ProtocolError ''invalid or incomplete replication history'')))"

definition cluster_status :: "node_world \<Rightarrow> node \<Rightarrow> json" where
  "cluster_status W N = JObj
     [(''node_id'', JStr (nd_id N)), (''local'', ledger_snapshot (nd_ledger N)), (''peers'', nw_probes W)]"

definition sync_replicas :: "node_world \<Rightarrow> (node, json) operation" where
  "sync_replicas W N =
     (if nd_repl N = None \<or> nd_leadership N = None \<or> leader_of N \<noteq> nd_id N
      then (Inl (ProtocolError ''only the certified leader can synchronize replicas''), N)
      else (Inr (JObj (map (\<lambda>(i, ok). (i, JStr (if ok then ''synchronized'' else ''unavailable''))) (nw_synced W))),
            abort_uncommitted_primary N))"

definition cluster_leadership :: "node \<Rightarrow> json result" where
  "cluster_leadership N =
     (case nd_leadership N of
        None \<Rightarrow> Inl (ProtocolError ''cluster leadership is not configured'')
      | Some S \<Rightarrow> Inr (leadership_snapshot S))"

text \<open>The call of \<open>save\<close> with three arguments writes an empty log, no pending envelope and no leadership.\<close>

definition save_ledger :: "node \<Rightarrow> node" where
  "save_ledger N =
     (if nd_disk N = None then N
      else N\<lparr>nd_disk := Some (Some (node_document (N\<lparr>nd_log := [], nd_pending := None, nd_leadership := None\<rparr>)))\<rparr>)"

text \<open>A node that does not replicate: the actor is checked and the method is called under the lock.\<close>

definition direct_call :: "crypto \<Rightarrow> json \<Rightarrow> json \<Rightarrow> json \<Rightarrow> (node_server, json) operation" where
  "direct_call C request v params S =
     (case verify_request_actor C request v params True (ns_node S) of
        (Inl e, N) \<Rightarrow> (Inl e, S\<lparr>ns_node := N\<rparr>)
      | (Inr _, N) \<Rightarrow>
          let S1 = S\<lparr>ns_node := N\<rparr> in
          if v = JStr ''status'' then (Inr (ledger_snapshot (nd_ledger N)), S1)
          else if v = JStr ''ecosystem.demo'' then
            (case demo C (ns_ecosystem S1) of (r, X) \<Rightarrow> (r, S1\<lparr>ns_ecosystem := X\<rparr>))
          else if v \<in> JStr ` set MUTATING_METHODS then
            (case call_ledger C v params (nd_ledger N) of
               (Inl e, L) \<Rightarrow> (Inl e, S1\<lparr>ns_node := N\<lparr>nd_ledger := L\<rparr>\<rparr>)
             | (Inr r, L) \<Rightarrow> (Inr r, S1\<lparr>ns_node := save_ledger (N\<lparr>nd_ledger := L\<rparr>)\<rparr>))
          else (Inl (ProtocolError ''unknown method''), S1))"

section \<open>The switch\<close>

text \<open>The checks of a TLS peer; \<open>params\<close> is an object here.\<close>

definition peer_checks :: "peer_identity \<Rightarrow> json \<Rightarrow> json \<Rightarrow> unit result" where
  "peer_checks p v params =
     bindR (peer_authorize p v) (\<lambda>_.
       if v = JStr ''cluster.heartbeat'' \<and> get_or params ''leader'' JNull \<noteq> JStr (pi_node p)
       then Inl (ProtocolError ''heartbeat signer does not match TLS peer'')
       else if v = JStr ''cluster.timeout_vote'' \<and> obj_fields (get_or params ''vote'' (JObj [])) = None
       then Inl AttributeError
       else if v = JStr ''cluster.timeout_vote'' \<and> get_or (get_or params ''vote'' (JObj [])) ''voter'' JNull \<noteq> JStr (pi_node p)
       then Inl (ProtocolError ''timeout voter does not match TLS peer'')
       else if v = JStr ''cluster.certificate'' \<and> get_or params ''leader'' JNull \<noteq> JStr (pi_node p)
       then Inl (ProtocolError ''certificate sender does not match TLS peer'')
       else Inr ())"

definition reply :: "json \<Rightarrow> json \<Rightarrow> json" where
  "reply i v = JObj [(''id'', i), (''result'', v)]"

definition error_reply :: "json \<Rightarrow> string \<Rightarrow> string \<Rightarrow> json" where
  "error_reply i code message = JObj [(''id'', i), (''error'', JObj [(''code'', JStr code), (''message'', JStr message)])]"

definition replying :: "json \<Rightarrow> json result \<times> node_server \<Rightarrow> json result \<times> node_server" where
  "replying i r = map_op (reply i) r"

definition read_only :: "(node \<Rightarrow> json result) \<Rightarrow> (node_server, json) operation" where
  "read_only f S = (f (ns_node S), S)"

text \<open>The mutation that the leader replicates.\<close>

definition leader_mutation :: "json \<Rightarrow> json \<Rightarrow> json \<Rightarrow> node \<Rightarrow> json" where
  "leader_mutation request v params N = JObj ([(''method'', v), (''params'', params)]
     @ (if nd_auth N = None then []
        else [(''auth'', get_or request ''auth'' JNull), (''id'', get_or request ''id'' JNull)]))"

definition not_leader_reply :: "node_world \<Rightarrow> json \<Rightarrow> string \<Rightarrow> json" where
  "not_leader_reply W i leader = JObj [(''id'', i), (''error'', JObj
     [(''code'', JStr ''NOT_LEADER''), (''message'', JStr ''submit mutations to the certified leader''),
      (''leader'', JStr leader), (''url'', case map_of (nw_urls W) leader of None \<Rightarrow> JNull | Some u \<Rightarrow> JStr u)])]"

definition mutating_call :: "crypto \<Rightarrow> ed25519 \<Rightarrow> node_world \<Rightarrow> json \<Rightarrow> json \<Rightarrow> json \<Rightarrow> (node_server, json) operation" where
  "mutating_call C E W request v params S =
     (let N = ns_node S; i = get_or request ''id'' JNull in
      if nd_repl N \<noteq> None \<and> nd_leadership N \<noteq> None \<and> leader_of N = nd_id N
      then replying i (on_node (replicate_mutation C E (nw_prepared W) (nw_confirmed W) (leader_mutation request v params N)) S)
      else if nd_repl N \<noteq> None \<and> nd_role N \<noteq> ''standalone''
      then (if nd_leadership N = None then (Inl AttributeError, S) else (Inr (not_leader_reply W i (leader_of N)), S))
      else replying i (direct_call C request v params S))"

text \<open>The clock of the timeout votes is \<open>now\<close>. A list or an object is no method: \<open>method in MUTATING_METHODS\<close> raises.\<close>

definition route :: "crypto \<Rightarrow> ed25519 \<Rightarrow> node_world \<Rightarrow> int \<Rightarrow> json \<Rightarrow> json \<Rightarrow> json \<Rightarrow> (node_server, json) operation" where
  "route C E W now request v params S =
     (let i = get_or request ''id'' JNull in
      if v = JStr ''replica.prepare'' then replying i (on_node (prepare_replica C E params) S)
      else if v = JStr ''replica.commit'' then replying i (on_node (commit_replica C E params) S)
      else if v = JStr ''replica.abort'' then replying i (on_node (abort_replica C E params) S)
      else if v = JStr ''replica.position'' then replying i (read_only replica_position S)
      else if v = JStr ''replica.history'' then replying i (read_only (replica_history C params) S)
      else if v = JStr ''cluster.heartbeat'' then replying i (on_node (receive_heartbeat C E params) S)
      else if v = JStr ''cluster.timeout_vote'' then replying i (read_only (receive_timeout_vote C E now params) S)
      else if v = JStr ''cluster.certificate'' then replying i (on_node (receive_certificate C E params) S)
      else if v = JStr ''cluster.status'' then replying i (read_only (\<lambda>N. Inr (cluster_status W N)) S)
      else if v = JStr ''cluster.leadership'' then replying i (read_only cluster_leadership S)
      else if v = JStr ''cluster.sync'' then replying i (on_node (sync_replicas W) S)
      else if \<not> hashable v then (Inl TypeError, S)
      else if v \<in> JStr ` set MUTATING_METHODS then mutating_call C E W request v params S
      else replying i (direct_call C request v params S))"

text \<open>The two \<open>except\<close> clauses; every other exception leaves \<open>dispatch\<close>. The text of a \<open>TypeError\<close> is not kept.\<close>

definition answer :: "json \<Rightarrow> json result \<times> node_server \<Rightarrow> json result \<times> node_server" where
  "answer i r =
     (case r of
        (Inl (CommitUncertain m), S) \<Rightarrow> (Inr (error_reply i ''COMMIT_UNCERTAIN'' m), S)
      | (Inl (ProtocolError m), S) \<Rightarrow> (Inr (error_reply i ''INVALID_REQUEST'' m), S)
      | (Inl TypeError, S) \<Rightarrow> (Inr (error_reply i ''INVALID_REQUEST'' []), S)
      | x \<Rightarrow> x)"

definition dispatch ::
    "crypto \<Rightarrow> ed25519 \<Rightarrow> node_world \<Rightarrow> int \<Rightarrow> json \<Rightarrow> peer_identity option \<Rightarrow> (node_server, json) operation" where
  "dispatch C E W now request peer S =
     (let i = get_or request ''id'' JNull; v = get_or request ''method'' JNull;
          params = get_or request ''params'' (JObj []) in
      answer i
        (if obj_fields params = None then (Inl (ProtocolError ''params must be an object''), S)
         else (case (case peer of None \<Rightarrow> Inr () | Some p \<Rightarrow> peer_checks p v params) of
             Inl e \<Rightarrow> (Inl e, S)
           | Inr _ \<Rightarrow> route C E W now request v params S)))"

section \<open>The constructor\<close>

text \<open>
  The state file: \<open>None\<close> without a store, \<open>Some None\<close> when there is no file yet, otherwise its JSON value (a
  file that is no JSON is the \<open>ProtocolError\<close> of the loaders and is left out). Nonces of another type than an
  integer go through \<open>int(...)\<close> and are left out.
\<close>

fun state_ints :: "(string \<times> json) list \<Rightarrow> (string, int) dict result" where
  "state_ints [] = Inr []"
| "state_ints ((k, v) # kvs) =
     (case v of JInt i \<Rightarrow> bindR (state_ints kvs) (\<lambda>d. Inr ((k, i) # d)) | _ \<Rightarrow> Inl Unmodelled)"

definition fresh_ledger :: "crypto \<Rightarrow> (string, int) dict \<Rightarrow> genesis_config option \<Rightarrow> ledger result" where
  "fresh_ledger C initial genesis =
     (case genesis of Some g \<Rightarrow> ledger_init C None (Some g) | None \<Rightarrow> ledger_init C (Some initial) None)"

definition load_full_node_state ::
    "crypto \<Rightarrow> (string, int) dict \<Rightarrow> genesis_config option \<Rightarrow> json option
     \<Rightarrow> (ledger \<times> (string, int) dict \<times> (string, int) dict) result" where
  "load_full_node_state C initial genesis doc =
     (case doc of
        None \<Rightarrow> bindR (fresh_ledger C initial genesis) (\<lambda>L. Inr (L, [], []))
      | Some d \<Rightarrow>
          if obj_fields d = None then Inl AttributeError
          else if get_or d ''schema'' JNull \<noteq> JStr ''splitchain-node-state/v1''
          then bindR (from_snapshot C d genesis) (\<lambda>L. Inr (L, [], []))
          else (case obj_fields (get_or d ''replay_nonces'' (JObj [])) of
              None \<Rightarrow> Inl (ProtocolError ''invalid replay state'')
            | Some replay \<Rightarrow>
                (case obj_fields (get_or d ''replication_nonces'' (JObj [])) of
                   None \<Rightarrow> Inl (ProtocolError ''invalid replication replay state'')
                 | Some replication \<Rightarrow>
                     bindR (item d ''ledger'') (\<lambda>raw.
                     bindR (from_snapshot C raw genesis) (\<lambda>L.
                     bindR (state_ints replay) (\<lambda>a.
                     bindR (state_ints replication) (\<lambda>r. Inr (L, a, r))))))))"

definition load_replication_log :: "json option \<Rightarrow> json list result" where
  "load_replication_log doc =
     (case doc of
        None \<Rightarrow> Inr []
      | Some d \<Rightarrow>
          (case get_or d ''replication_log'' (JList []) of
             JList xs \<Rightarrow>
               if list_all (\<lambda>x. obj_fields x \<noteq> None) xs then Inr xs else Inl (ProtocolError ''invalid replication log'')
           | _ \<Rightarrow> Inl (ProtocolError ''invalid replication log'')))"

definition load_object :: "string \<Rightarrow> string \<Rightarrow> json option \<Rightarrow> json option result" where
  "load_object key message doc =
     (case doc of
        None \<Rightarrow> Inr None
      | Some d \<Rightarrow>
          (case get_or d key JNull of
             JNull \<Rightarrow> Inr None
           | JObj kvs \<Rightarrow> Inr (Some (JObj kvs))
           | _ \<Rightarrow> Inl (ProtocolError message)))"

definition load_replication_pending :: "json option \<Rightarrow> json option result" where
  "load_replication_pending = load_object ''replication_pending'' ''invalid pending replication record''"

definition load_leadership_snapshot :: "json option \<Rightarrow> json option result" where
  "load_leadership_snapshot = load_object ''leadership'' ''invalid leadership record''"

record node_config =
  nc_balances :: "(string, int) dict"
  nc_disk :: "json option option"
  nc_auth :: "(string, string) dict"
  nc_registry :: "(string, json) dict option"
  nc_id :: string
  nc_role :: string
  nc_secret :: string
  nc_keyring :: "keyring option"
  nc_genesis :: "genesis_config option"

text \<open>The derived vote keys of a cluster with one shared secret.\<close>

definition derived_keys :: "crypto \<Rightarrow> string \<Rightarrow> (string, string) dict" where
  "derived_keys C secret = map (\<lambda>role. (role, sha256 C (''splitchain/failover/v1:'' @ role @ '':'' @ secret))) ROLE_ORDER"

definition node_replication :: "node_config \<Rightarrow> replication_auth option result" where
  "node_replication K =
     (if nc_keyring K \<noteq> None \<and> nc_secret K \<noteq> []
      then Inl (ProtocolError ''cannot combine node keys with a shared cluster secret'')
      else (case nc_keyring K of
          Some k \<Rightarrow>
            if nc_id K \<noteq> nc_role K \<or> kr_role k \<noteq> nc_role K
            then Inl (ProtocolError ''node identity must match its configured role'')
            else map_sum id Some (replication_init None (Some k))
        | None \<Rightarrow> if nc_secret K = [] then Inr None else map_sum id Some (replication_init (Some (nc_secret K)) None)))"

definition node_leadership ::
    "crypto \<Rightarrow> ed25519 \<Rightarrow> node_config \<Rightarrow> json option \<Rightarrow> int \<Rightarrow> leadership result" where
  "node_leadership C E K saved committed =
     bindR (case nc_keyring K of Some k \<Rightarrow> failover_init None (Some k)
            | None \<Rightarrow> failover_init (Some (derived_keys C (nc_secret K))) None) (\<lambda>A.
     (case saved of
        None \<Rightarrow> bindR (leadership_init A 3) (\<lambda>S. Inr (S\<lparr>ls_nonce := committed\<rparr>))
      | Some raw \<Rightarrow>
          bindR (leadership_restore C E A raw) (\<lambda>S.
            if ls_nonce S \<noteq> committed
            then Inl (ProtocolError ''leadership record does not match committed replica position'') else Inr S)))"

text \<open>The leader whose envelope follows position \<open>n\<close>: the last certificate at or below it.\<close>

definition expected_leader :: "leadership \<Rightarrow> int \<Rightarrow> string" where
  "expected_leader S n = foldl (\<lambda>leader c. if lc_nonce c \<le> n then lc_leader c else leader) ''primary'' (ls_certs S)"

primrec check_log :: "crypto \<Rightarrow> ed25519 \<Rightarrow> replication_auth \<Rightarrow> leadership \<Rightarrow> json list \<Rightarrow> int \<Rightarrow> int result" where
  "check_log C E R S [] n = Inr n"
| "check_log C E R S (env # envs) n =
     bindR (replication_verify C E R env n (expected_leader S n)) (\<lambda>(_, nonce, _). check_log C E R S envs nonce)"

definition replayed_log :: "crypto \<Rightarrow> ed25519 \<Rightarrow> node \<Rightarrow> unit result" where
  "replayed_log C E N =
     (case nd_repl N of
        None \<Rightarrow> Inr ()
      | Some R \<Rightarrow>
          if nd_log N = [] then Inr ()
          else
            let start = committed_position N - int (length (nd_log N)) in
            if start < 0 then Inl (ProtocolError ''replication log exceeds committed position'')
            else (case nd_leadership N of
                None \<Rightarrow> Inl AttributeError
              | Some S \<Rightarrow>
                  bindR (check_log C E R S (nd_log N) start) (\<lambda>n.
                    if n \<noteq> committed_position N
                    then Inl (ProtocolError ''replication log does not match committed position'') else Inr ())))"

text \<open>\<open>ReferenceNode.__init__\<close>.\<close>

definition node_init :: "crypto \<Rightarrow> ed25519 \<Rightarrow> node_config \<Rightarrow> node result" where
  "node_init C E K =
     (let initial = (if nc_balances K = [] then [(''alice'', 1000), (''bob'', 1000)] else nc_balances K);
          doc = (case nc_disk K of None \<Rightarrow> None | Some d \<Rightarrow> d);
          auth = (if nc_auth K = [] then None else Some (authenticator_init (nc_auth K))) in
      bindR (node_replication K) (\<lambda>repl.
      bindR (load_full_node_state C initial (nc_genesis K) doc) (\<lambda>(L, replay, nonces).
      bindR (case auth of None \<Rightarrow> Inr None
             | Some A \<Rightarrow> (case auth_restore replay A of (Inl e, _) \<Rightarrow> Inl e | (Inr _, A') \<Rightarrow> Inr (Some A'))) (\<lambda>auth'.
      bindR (load_replication_log doc) (\<lambda>log.
      bindR (load_replication_pending doc) (\<lambda>pending.
      let N = \<lparr>nd_id = nc_id K, nd_role = nc_role K, nd_ledger = L, nd_auth = auth', nd_registry = nc_registry K,
                nd_repl = repl, nd_nonces = nonces, nd_log = log, nd_pending = pending, nd_leadership = None,
                nd_disk = nc_disk K\<rparr> in
      bindR (if repl \<noteq> None \<and> nc_role K \<in> set ROLE_ORDER
             then bindR (load_leadership_snapshot doc) (\<lambda>saved.
               map_sum id Some (node_leadership C E K saved (committed_position N)))
             else Inr None) (\<lambda>S.
      let N1 = N\<lparr>nd_leadership := S\<rparr> in
      bindR (replayed_log C E N1) (\<lambda>_. Inr N1))))))))"

end
