(* ===== verification/Node_Runs.thy ===== *)
theory Node_Runs
  imports Node_Safety
begin

text \<open>
  Properties of the reference node over whole runs of messages and client requests: the ledger is the
  replay of the replication log, a deposed Primary stays fenced, a prepared mutation commits.
\<close>

section \<open>The log and the ledger\<close>

text \<open>The ledger call that one entry of the log stands for.\<close>

definition log_mutation :: "crypto \<Rightarrow> json \<Rightarrow> (ledger, json) operation" where
  "log_mutation C env L =
     (case envelope_json env ''mutation'' of Inl e \<Rightarrow> (Inl e, L) | Inr mut \<Rightarrow> mutation_call C mut L)"

text \<open>What a run adds to the log, and what it does to the ledger and the position.\<close>

definition log_run :: "crypto \<Rightarrow> node \<Rightarrow> json list \<Rightarrow> node \<Rightarrow> bool" where
  "log_run C N envs M =
     (nd_log M = nd_log N @ envs \<and> nd_ledger M = run_ops (log_mutation C) envs (nd_ledger N)
      \<and> accepted (log_mutation C) envs (nd_ledger N) = envs
      \<and> sorted_wrt (<) (committed_position N # map envelope_nonce envs)
      \<and> committed_position M = List.last (committed_position N # map envelope_nonce envs))"

lemma sorted_chain:
  "sorted_wrt (<) (p # xs) \<Longrightarrow> sorted_wrt (<) (List.last (p # xs) # ys) \<Longrightarrow> sorted_wrt (<) ((p :: int) # xs @ ys)"
proof (induction xs arbitrary: p)
  case (Cons x xs)
  then have "sorted_wrt (<) (x # xs @ ys)" "p < x" by (auto split: if_splits)
  then show ?case by (auto intro: less_trans)
qed simp

lemma log_run_trans: "log_run C N xs M \<Longrightarrow> log_run C M ys K \<Longrightarrow> log_run C N (xs @ ys) K"
  using sorted_chain [of "committed_position N" "map envelope_nonce xs" "map envelope_nonce ys"]
  by (auto simp: log_run_def run_ops_append accepted_append last_append)

lemma log_step_run: "log_step C N M \<Longrightarrow> \<exists>envs. log_run C N envs M"
proof -
  assume "log_step C N M"
  then consider "log_run C N [] M" | env where "log_run C N [env] M"
    by (fastforce simp: log_step_def log_run_def log_mutation_def)
  then show ?thesis by cases blast+
qed

lemma node_run_log: "node_inv C E N \<Longrightarrow> \<exists>envs. log_run C N envs (run_ops (node_step C E) ops N)"
proof (induction ops arbitrary: N)
  case Nil
  have "log_run C N [] N" by (simp add: log_run_def)
  then show ?case by auto
next
  case (Cons op ops)
  let ?N = "snd (node_step C E op N)"
  have "log_step C N ?N" using node_step_good [OF Cons.prems] unfolding good_step_def by blast
  from log_step_run [OF this] obtain envs where "log_run C N envs ?N" ..
  moreover from Cons.IH [OF node.step_inv [OF Cons.prems]] obtain rest where
    "log_run C ?N rest (run_ops (node_step C E) ops ?N)" by blast
  ultimately show ?case using log_run_trans by fastforce
qed

section \<open>The leadership\<close>

lemma leadership_step_trans: "leadership_step N M \<Longrightarrow> leadership_step M K \<Longrightarrow> leadership_step N K"
  by (cases "nd_leadership N"; cases "nd_leadership M"; cases "nd_leadership K") (auto simp: leadership_step_def)

lemma node_run_leadership: "node_inv C E N \<Longrightarrow> leadership_step N (run_ops (node_step C E) ops N)"
proof (induction ops arbitrary: N)
  case Nil
  then show ?case by (auto simp: leadership_step_def)
next
  case (Cons op ops)
  have "leadership_step N (snd (node_step C E op N))"
    using node_step_good [OF Cons.prems] by (simp add: good_step_def)
  with Cons.IH [OF node.step_inv [OF Cons.prems]] show ?case by (auto intro: leadership_step_trans)
qed

text \<open>The leader is the role at the number of certificates, so it never becomes the Primary again.\<close>

lemma leader_not_primary: "leadership_inv C E S \<Longrightarrow> ls_leader S \<noteq> ''primary'' \<longleftrightarrow> ls_certs S \<noteq> []"
  by (cases "ls_certs S") (auto simp: leadership_inv_def certified_def ROLE_ORDER_def nth_Cons less_Suc_eq numeral_3_eq_3)

section \<open>Prepare, then commit\<close>

lemma learn_actor_again:
  assumes "nd_auth M = nd_auth (learn_actor request N)" "nd_registry M = nd_registry N"
  shows "learn_actor request M = M"
proof (cases "\<exists>B entries actor secret. nd_auth N = Some B \<and> nd_registry N = Some entries
      \<and> obj_get (get_or request ''auth'' JNull) ''actor'' = Some (JStr actor) \<and> \<not> auth_knows actor B
      \<and> map_of entries actor = Some (JStr secret) \<and> 32 \<le> py_len secret")
  case False
  then have none: "learn_actor request K = K" if "nd_auth K = nd_auth N" "nd_registry K = nd_registry N" for K
    using that by (auto simp: learn_actor_def split: option.split json.split)
  from none [OF refl refl] assms show ?thesis by (intro none) simp_all
next
  case True
  then obtain B entries actor secret where N: "nd_auth N = Some B" "nd_registry N = Some entries"
    "obj_get (get_or request ''auth'' JNull) ''actor'' = Some (JStr actor)" "\<not> auth_knows actor B"
    "map_of entries actor = Some (JStr secret)" "32 \<le> py_len secret"
    by blast
  then have "nd_auth M = Some (snd (auth_add_actor actor secret B))" using assms(1) by (simp add: learn_actor_def)
  moreover have "auth_knows actor (snd (auth_add_actor actor secret B))"
    using N(4) by (simp add: auth_knows_def auth_add_actor_def dict_has_def)
  ultimately show ?thesis using N assms(2) by (simp add: learn_actor_def)
qed

text \<open>A check that passed passes again on the authenticator that it left.\<close>

lemma actor_check_again:
  assumes "actor_check C mut N = (Inr u, K)" "nd_auth M = nd_auth K" "nd_registry M = nd_registry N"
  shows "actor_check C mut M = (Inr (), M)"
proof (cases "nd_auth N = None \<or> get_or mut ''method'' JNull = JStr ''status''")
  case True
  with assms show ?thesis by (auto simp: actor_check_def verify_request_actor_def split: if_splits)
next
  case False
  let ?R = "mutation_request mut" and ?v = "get_or mut ''method'' JNull" and ?p = "get_or mut ''params'' (JObj [])"
  from False learn_actor_some obtain B where B: "nd_auth (learn_actor ?R N) = Some B" by blast
  obtain x B' where v: "auth_verify C ?R False B = (x, B')" by (cases "auth_verify C ?R False B")
  with auth_verify_dry [of C ?R B] have "B' = B" by simp
  note v = v [unfolded this]
  have "verify_request_actor C ?R ?v ?p False N = (Inr u, K)"
    using assms(1) False by (simp only: actor_check_def de_Morgan_disj if_False)
  with False B v have K: "nd_auth K = Some B" "is_ok x"
    and ok: "\<not> (actor_field ?v \<noteq> None \<and> obj_fields ?p = None)"
      "\<not> (actor_field ?v \<noteq> None \<and> obj_get ?p (the (actor_field ?v)) \<noteq> Some (JStr (projr x)))"
      "\<not> (?v \<in> {JStr ''advance'', JStr ''account.register''} \<and> projr x \<noteq> ''testnet_operator'')"
    by (auto simp: verify_request_actor_def Let_def split: sum.splits if_splits)
  have same: "learn_actor ?R M = M"
    using learn_actor_again [of M ?R N] assms(2,3) K(1) B by simp
  have M: "nd_auth M = Some B" "M\<lparr>nd_auth := Some B\<rparr> = M" using assms(2) K(1) by simp_all
  obtain actor where "x = Inr actor" using K(2) by (auto simp: is_ok_iff)
  with False M same v ok show ?thesis
    unfolding actor_check_def verify_request_actor_def by (simp add: Let_def)
qed

lemma apply_mutation_dry:
  assumes "apply_mutation C mut False N = (Inr r, K)"
  obtains K1 where "actor_check C mut N = (Inr (), K1)" "nd_auth K = nd_auth K1" "obj_get mut ''method'' \<noteq> None"
    "fst (mutation_call C mut (nd_ledger N)) = Inr r"
proof -
  obtain x A where A: "actor_check C mut N = (x, N\<lparr>nd_auth := A\<rparr>)"
    using actor_check_auth by (metis surjective_pairing)
  show thesis
  proof (rule that)
    show "actor_check C mut N = (Inr (), N\<lparr>nd_auth := A\<rparr>)" "nd_auth K = nd_auth (N\<lparr>nd_auth := A\<rparr>)" "obj_get mut ''method'' \<noteq> None"
      "fst (mutation_call C mut (nd_ledger N)) = Inr r"
      using assms by (auto simp: apply_mutation_def A split: if_splits sum.splits option.splits prod.splits)
  qed
qed

lemma apply_mutation_passes:
  assumes "actor_check C mut N = (Inr (), N)" "obj_get mut ''method'' \<noteq> None"
    and "fst (mutation_call C mut (nd_ledger N)) = Inr r"
  shows "fst (apply_mutation C mut True N) = Inr r"
proof -
  obtain L where L: "mutation_call C mut (nd_ledger N) = (Inr r, L)" using assms(3) by (metis surjective_pairing)
  then have "get_or mut ''method'' JNull \<noteq> JStr ''status''" by (auto simp: mutation_call_def call_ledger_def bind_method_def)
  then have ok: "is_ok (fst (auth_verify C (mutation_request mut) True A))" if "nd_auth N = Some A" for A
    using actor_check_verifies [of C mut N "()" A] assms(1) that by simp
  show ?thesis
  proof (cases "nd_auth N")
    case None
    with assms(1,2) L show ?thesis by (auto simp: apply_mutation_def)
  next
    case (Some A)
    obtain y B where "auth_verify C (mutation_request mut) True A = (Inr y, B)"
      using ok [OF Some] by (cases "auth_verify C (mutation_request mut) True A") (auto simp: is_ok_iff)
    with Some assms(1,2) L show ?thesis by (auto simp: apply_mutation_def)
  qed
qed

lemma mutation_call_same:
  "same_ledger L M \<Longrightarrow> fst (mutation_call C mut L) = fst (mutation_call C mut M)"
  using same_apply by (auto simp: mutation_call_def call_ledger_def same_outcome_def split: json.split sum.split)

text \<open>A mutation that passed the trial applies: the copy that was tried behaves like the ledger.\<close>

lemma try_mutation_applies:
  assumes "ledger_inv (nd_ledger N)" "locks_exact (nd_ledger N)" "genesis_kept C (nd_ledger N)"
    and "try_mutation C mut N = (Inr u, N1)"
    and "nd_auth M = nd_auth N1" "nd_registry M = nd_registry N" "nd_ledger M = nd_ledger N"
  shows "is_ok (fst (apply_mutation C mut True M))"
proof -
  let ?T = "canonical_ledger (nd_ledger N)"
  have "from_snapshot C (ledger_snapshot (nd_ledger N)) None = Inr ?T"
    by (rule from_snapshot_canonical [OF assms(1-3)]) simp
  with assms(4) obtain r K where K: "apply_mutation C mut False (N\<lparr>nd_ledger := ?T\<rparr>) = (Inr r, K)"
    "N1 = K\<lparr>nd_ledger := nd_ledger N\<rparr>"
    by (auto simp: try_mutation_def split: sum.splits prod.splits)
  from K(1) obtain K1 where K1: "actor_check C mut (N\<lparr>nd_ledger := ?T\<rparr>) = (Inr (), K1)" "nd_auth K = nd_auth K1"
    "obj_get mut ''method'' \<noteq> None" "fst (mutation_call C mut ?T) = Inr r"
    by (rule apply_mutation_dry) simp
  have "actor_check C mut M = (Inr (), M)"
    by (rule actor_check_again [OF K1(1)]) (use assms(5,6) K(2) K1(2) in simp_all)
  moreover have "fst (mutation_call C mut (nd_ledger M)) = Inr r"
    using mutation_call_same [OF same_ledger_canonical [OF assms(1)], of C mut] K1(4) assms(7) by simp
  ultimately show ?thesis using apply_mutation_passes [of C mut M r] K1(3) by simp
qed

section \<open>Properties\<close>

text \<open>C3. The replicated state machine: start a node with an empty log and let any messages and client
  requests reach it, valid or not, in any order. Its ledger is the replay of its log on the ledger it
  started with, every entry of the log is a call that the ledger accepted, the nonces of the log strictly
  increase, and the committed position is the last of them.\<close>

theorem node_log_replay:
  assumes "node_inv C E N" "nd_log N = []" "M = run_ops (node_step C E) ops N"
  shows "nd_ledger M = run_ops (log_mutation C) (nd_log M) (nd_ledger N)
    \<and> accepted (log_mutation C) (nd_log M) (nd_ledger N) = nd_log M
    \<and> sorted_wrt (<) (committed_position N # map envelope_nonce (nd_log M))
    \<and> committed_position M = List.last (committed_position N # map envelope_nonce (nd_log M))"
  using node_run_log [OF assms(1), of ops] assms(2,3) by (auto simp: log_run_def)


text \<open>C6. Fencing: once a node has recorded a leadership certificate, then after any further messages it
  rejects every envelope of the old Primary, on prepare, commit and abort, and changes nothing; and if
  it is the old Primary itself, it rejects every mutation submitted to it.\<close>

theorem node_primary_fenced:
  assumes "node_inv C E N" "nd_leadership N = Some S" "ls_certs S \<noteq> []"
    and "M = run_ops (node_step C E) ops N" "obj_get env ''leader'' = Some (JStr ''primary'')"
  shows "prepare_replica C E env M = (Inl (ProtocolError ''old Primary is fenced by a leadership certificate''), M)
    \<and> commit_replica C E env M = (Inl (ProtocolError ''old Primary is fenced by a leadership certificate''), M)
    \<and> abort_replica C E env M = (Inl (ProtocolError ''old Primary is fenced by a leadership certificate''), M)
    \<and> (nd_id N = ''primary'' \<longrightarrow> replicate_mutation C E prepared confirmed mut M
        = (Inl (ProtocolError (if nd_repl N = None then ''cluster replication is not configured''
                               else ''old Primary is fenced by a leadership certificate'')), M))"
proof -
  have step: "leadership_step N M" unfolding assms(4) by (rule node_run_leadership [OF assms(1)])
  with assms(2) obtain T where T: "nd_leadership M = Some T"
    by (cases "nd_leadership M") (auto simp: leadership_step_def)
  with step assms(2,3) have certs: "ls_certs T \<noteq> []" by (auto simp: leadership_step_def)
  have "node_inv C E M" unfolding assms(4) by (rule node.run_inv [OF assms(1)])
  with T have "leadership_inv C E T" by (simp add: node_inv_def)
  with certs have lead: "ls_leader T \<noteq> ''primary''" by (simp add: leader_not_primary)
  have fence: "verify_replica_envelope C E env M = Inl (ProtocolError ''old Primary is fenced by a leadership certificate'')"
    using T lead assms(5) by (simp add: verify_replica_envelope_def leader_of_def)
  from step have "nd_id M = nd_id N" "nd_repl M = nd_repl N" by (simp_all add: leadership_step_def)
  with fence T lead show ?thesis
    by (auto simp: prepare_replica_def commit_replica_def abort_replica_def replicate_mutation_def leader_of_def
        split: option.split)
qed

text \<open>C5. Prepared means it commits: on a node with a sound ledger (the ledger invariant, exact locks, a
  ledger that matches its genesis file) and no pending envelope, a prepare that is acknowledged is
  followed by a commit that succeeds, appends the envelope to the log and takes its nonce as the
  committed position. The trial ran on a copy restored from a snapshot; it foretells the outcome.\<close>

theorem node_prepared_commits:
  assumes "node_inv C E N" "locks_exact (nd_ledger N)" "genesis_kept C (nd_ledger N)" "nd_pending N = None"
    and "prepare_replica C E env N = (Inr reply, M)"
  shows "\<exists>result K. commit_replica C E env M = (Inr result, K) \<and> nd_log K = nd_log N @ [env]
    \<and> nd_pending K = None \<and> committed_position K = envelope_nonce env"
proof -
  from assms(5,4) obtain leader nonce mut N1 where v: "verify_replica_envelope C E env N = Inr (leader, nonce, mut)"
    and t: "try_mutation C mut N = (Inr (), N1)" and M: "M = node_save (N1\<lparr>nd_pending := Some env\<rparr>)"
    by (auto simp: prepare_replica_def pending_envelope_def split: sum.splits prod.splits)
  obtain A where "N1 = N\<lparr>nd_auth := A\<rparr>" using try_mutation_auth [of C mut N] t by auto
  with M have same: "nd_auth M = nd_auth N1" "nd_registry M = nd_registry N" "nd_ledger M = nd_ledger N" "nd_log M = nd_log N"
    "nd_repl M = nd_repl N" "nd_leadership M = nd_leadership N" "nd_role M = nd_role N" "nd_nonces M = nd_nonces N"
    "nd_pending M = Some env"
    by simp_all
  have "verify_replica_envelope C E env M = verify_replica_envelope C E env N"
    by (simp only: verify_replica_envelope_def leader_of_def same committed_position_cong [OF same(8)])
  with v have verify: "verify_replica_envelope C E env M = Inr (leader, nonce, mut)" by simp
  have "ledger_inv (nd_ledger N)" using assms(1) by (simp add: node_inv_def)
  from try_mutation_applies [OF this assms(2,3) t same(1-3)] obtain r where r: "fst (apply_mutation C mut True M) = Inr r"
    by (auto simp: is_ok_iff)
  obtain B L where F: "snd (apply_mutation C mut True M) = M\<lparr>nd_auth := B, nd_ledger := L\<rparr>"
    using apply_mutation_frame by blast
  let ?K = "record_commit leader nonce env (M\<lparr>nd_auth := B, nd_ledger := L\<rparr>)"
  have "commit_replica C E env M = (Inr (replica_reply (M\<lparr>nd_auth := B, nd_ledger := L\<rparr>) nonce ''mutation'' r), ?K)"
    using verify r F same(9) by (cases "apply_mutation C mut True M") (simp add: commit_replica_def replica_reply_def)
  moreover have "committed_position ?K = nonce"
    by (rule committed_position_commit [of N _ _ leader])
      (use verify_replica_envelope_Inr(1) [OF v] assms(1) same(8) in \<open>simp_all add: node_inv_def record_commit_def\<close>)
  ultimately show ?thesis
    using verify_replica_envelope_Inr(2) [OF v] same(4) by (simp add: record_commit_def)
qed

section \<open>A concrete cluster node\<close>

definition sample_node :: node where
  "sample_node = \<lparr>nd_id = ''secondary'', nd_role = ''secondary'', nd_ledger = sample_ledger, nd_auth = None,
     nd_registry = None, nd_repl = Some sample_secret, nd_nonces = [], nd_log = [], nd_pending = None,
     nd_leadership = Some sample_start, nd_disk = None\<rparr>"

definition elected_leadership :: leadership where
  "elected_leadership = run_ops (lead_step ascii_crypto sample_ed) (sample_votes 5) sample_start"

lemma elected_facts:
  "leadership_inv ascii_crypto sample_ed elected_leadership" "ls_nonce elected_leadership = 0"
  "ls_votes elected_leadership = []" "ls_certs elected_leadership \<noteq> []"
proof -
  show "leadership_inv ascii_crypto sample_ed elected_leadership"
    unfolding elected_leadership_def by (rule leadership_reachable [OF sample_start_init])
  have "(3::int) \<le> 5" by simp
  from sample_certified [OF this]
  show "ls_nonce elected_leadership = 0" "ls_votes elected_leadership = []" "ls_certs elected_leadership \<noteq> []"
    unfolding elected_leadership_def sample_votes_def by (auto simp: sample_start_facts)
qed

lemma sample_node_inv: "node_inv ascii_crypto sample_ed sample_node"
  using leadership_reachable(1) [OF sample_start_init, of ascii_crypto sample_ed "[]"] sample_inv
  by (simp add: node_inv_def sample_node_def committed_position_def sample_start_facts)

lemma fenced_node_inv: "node_inv ascii_crypto sample_ed (sample_node\<lparr>nd_leadership := Some elected_leadership\<rparr>)"
  using elected_facts sample_inv by (simp add: node_inv_def sample_node_def committed_position_def)

lemma sample_prepared: "is_ok (fst (prepare_replica ascii_crypto sample_ed (sample_envelope 1) sample_node))"
  by code_simp

theorem node_log_replay_witness:
  "nd_ledger (run_ops (node_step ascii_crypto sample_ed) [PrepareOp (sample_envelope 1), CommitOp (sample_envelope 1)] sample_node)
    = run_ops (log_mutation ascii_crypto)
       (nd_log (run_ops (node_step ascii_crypto sample_ed) [PrepareOp (sample_envelope 1), CommitOp (sample_envelope 1)] sample_node))
       sample_ledger"
  using node_log_replay [OF sample_node_inv _ refl, of "[PrepareOp (sample_envelope 1), CommitOp (sample_envelope 1)]"]
  by (simp only: sample_node_def node.select_convs simp_thms)


theorem node_primary_fenced_witness:
  "prepare_replica ascii_crypto sample_ed (sample_envelope 1) (sample_node\<lparr>nd_leadership := Some elected_leadership\<rparr>)
    = (Inl (ProtocolError ''old Primary is fenced by a leadership certificate''),
       sample_node\<lparr>nd_leadership := Some elected_leadership\<rparr>)"
proof -
  have "obj_get (sample_envelope 1) ''leader'' = Some (JStr ''primary'')" by code_simp
  from node_primary_fenced [OF fenced_node_inv _ elected_facts(4) _ this, of "sample_node\<lparr>nd_leadership := Some elected_leadership\<rparr>" "[]"]
  show ?thesis by simp
qed

theorem node_prepared_commits_witness:
  "\<exists>result K. commit_replica ascii_crypto sample_ed (sample_envelope 1)
      (snd (prepare_replica ascii_crypto sample_ed (sample_envelope 1) sample_node)) = (Inr result, K)
    \<and> nd_log K = nd_log sample_node @ [sample_envelope 1] \<and> nd_pending K = None
    \<and> committed_position K = envelope_nonce (sample_envelope 1)"
proof -
  obtain reply M where M: "prepare_replica ascii_crypto sample_ed (sample_envelope 1) sample_node = (Inr reply, M)"
    using sample_prepared by (cases "prepare_replica ascii_crypto sample_ed (sample_envelope 1) sample_node") (auto simp: is_ok_iff)
  have "locks_exact (nd_ledger sample_node)" "genesis_kept ascii_crypto (nd_ledger sample_node)" "nd_pending sample_node = None"
    using ledger_init_fields [OF sample_init] by (simp_all add: sample_node_def locks_exact_def genesis_kept_def open_locks_def)
  from node_prepared_commits [OF sample_node_inv this M] M show ?thesis by simp
qed

end
