(* ===== verification/Node_Server.thy ===== *)
theory Node_Server
  imports Node_Dispatch Node_Runs
begin

text \<open>
  Safety of the whole server: a node that the constructor starts from its state file is well formed, every
  dispatched request keeps it so, and whatever clients and peers send, the ledger only makes legal moves.
\<close>

section \<open>Every request is a sequence of ledger moves\<close>

definition server_step :: "crypto \<Rightarrow> ed25519 \<Rightarrow> node \<Rightarrow> node \<Rightarrow> bool" where
  "server_step C E N M = (node_inv C E M \<and> ledger_moves C (nd_ledger N) (nd_ledger M))"

lemma server_step_same: "node_inv C E N \<Longrightarrow> server_step C E N N"
  by (simp add: server_step_def)

lemma call_ledger_moves: "ledger_inv L \<Longrightarrow> ledger_moves C L (snd (call_ledger C v params L))"
  using apply_method_moves by (auto simp: call_ledger_def split: json.splits sum.splits)

lemma good_step_server:
  assumes "node_inv C E N" "good_step C E N M"
  shows "server_step C E N M"
proof -
  from assms(2) have "log_step C N M" "node_inv C E M" by (simp_all add: good_step_def)
  moreover have "ledger_inv (nd_ledger N)" using assms(1) by (simp add: node_inv_def)
  then have "ledger_moves C (nd_ledger N) (snd (mutation_call C mut (nd_ledger N)))" for mut
    unfolding mutation_call_def by (rule call_ledger_moves)
  ultimately show ?thesis unfolding server_step_def log_step_def by (metis rtranclp.rtrancl_refl snd_conv)
qed

lemma ns_on_node [simp]: "ns_node (snd (on_node f S)) = snd (f (ns_node S))"
  by (simp add: on_node_def split: prod.split)

lemma node_inv_frame:
  "node_inv C E N \<Longrightarrow> ledger_inv (nd_ledger M) \<Longrightarrow> nd_nonces M = nd_nonces N \<Longrightarrow> nd_leadership M = nd_leadership N
     \<Longrightarrow> node_inv C E M"
  using committed_position_cong [of M N] by (simp add: node_inv_def)

lemma save_ledger_fields [simp]:
  "nd_ledger (save_ledger N) = nd_ledger N" "nd_nonces (save_ledger N) = nd_nonces N"
  "nd_leadership (save_ledger N) = nd_leadership N"
  by (simp_all add: save_ledger_def)

lemma direct_call_step:
  assumes inv: "node_inv C E (ns_node S)"
  shows "server_step C E (ns_node S) (ns_node (snd (direct_call C request v params S)))"
proof -
  obtain A where A: "snd (verify_request_actor C request v params True (ns_node S)) = (ns_node S)\<lparr>nd_auth := A\<rparr>"
    using verify_request_actor_auth by blast
  let ?N = "(ns_node S)\<lparr>nd_auth := A\<rparr>"
  have N: "node_inv C E ?N" by (rule node_inv_frame [OF inv]) (use inv in \<open>simp_all add: node_inv_def\<close>)
  have L: "ledger_inv (nd_ledger (ns_node S))" using inv by (simp add: node_inv_def)
  obtain r L' where call: "call_ledger C v params (nd_ledger (ns_node S)) = (r, L')" by (cases "call_ledger C v params (nd_ledger (ns_node S))")
  have L': "ledger_inv L'" "ledger_moves C (nd_ledger (ns_node S)) L'"
    using call_ledger_inv(1) [OF L, of C v params] call_ledger_moves [OF L, of C v params] call by simp_all
  have N': "node_inv C E (?N\<lparr>nd_ledger := L'\<rparr>)" "node_inv C E (save_ledger (?N\<lparr>nd_ledger := L'\<rparr>))"
    by (rule node_inv_frame [OF inv]; simp add: L')+
  obtain x where v: "verify_request_actor C request v params True (ns_node S) = (x, ?N)"
    using A by (metis surjective_pairing)
  show ?thesis
  proof (cases x)
    case (Inl e)
    with v N show ?thesis by (simp add: direct_call_def server_step_def)
  next
    case (Inr u)
    with v N N' L'(2) call show ?thesis
      by (cases r) (auto simp: direct_call_def server_step_def Let_def split: prod.split)
  qed
qed

lemma sync_replicas_step: "node_inv C E N \<Longrightarrow> good_step C E N (snd (sync_replicas W N))"
  using same_core_step [OF _ same_core_abort] good_step_same by (auto simp: sync_replicas_def)

lemma map_op_snd: "snd (replying i r) = snd r"
  by (simp add: replying_def)

lemma mutating_call_step:
  assumes "node_inv C E (ns_node S)"
  shows "server_step C E (ns_node S) (ns_node (snd (mutating_call C E W request v params S)))"
  using good_step_server [OF assms replicate_mutation_step [OF assms]] direct_call_step [OF assms] server_step_same [OF assms]
  by (simp add: mutating_call_def Let_def map_op_snd)

lemma route_step:
  assumes inv: "node_inv C E (ns_node S)"
  shows "server_step C E (ns_node S) (ns_node (snd (route C E W now request v params S)))"
  using good_step_server [OF inv prepare_replica_step [OF inv]] good_step_server [OF inv commit_replica_step [OF inv]]
    good_step_server [OF inv abort_replica_step [OF inv]] good_step_server [OF inv receive_heartbeat_step [OF inv]]
    good_step_server [OF inv receive_certificate_step [OF inv]] good_step_server [OF inv sync_replicas_step [OF inv]]
    mutating_call_step [OF inv] direct_call_step [OF inv] server_step_same [OF inv]
  by (simp add: route_def Let_def map_op_snd read_only_def)

lemma answer_snd: "snd (answer i r) = snd r"
  by (cases r; cases "fst r"; cases "projl (fst r)") (auto simp: answer_def split: error.split)

lemma dispatch_step:
  assumes inv: "node_inv C E (ns_node S)"
  shows "server_step C E (ns_node S) (ns_node (snd (dispatch C E W now request peer S)))"
  using route_step [OF inv] server_step_same [OF inv]
  by (simp add: dispatch_def Let_def answer_snd split: sum.split)

text \<open>A request, with the peer that sent it and what the rest of the cluster does meanwhile.\<close>

type_synonym server_request = "json \<times> peer_identity option \<times> node_world \<times> int"

definition serve :: "crypto \<Rightarrow> ed25519 \<Rightarrow> server_request \<Rightarrow> (node_server, json) operation" where
  "serve C E = (\<lambda>(request, peer, W, now). dispatch C E W now request peer)"

interpretation server: invariant_machine "serve C E" "\<lambda>S. node_inv C E (ns_node S)" for C E
  using dispatch_step by unfold_locales (auto simp: serve_def server_step_def)

lemma serve_moves:
  "node_inv C E (ns_node S) \<Longrightarrow>
     ledger_moves C (nd_ledger (ns_node S)) (nd_ledger (ns_node (run_ops (serve C E) rs S)))"
proof (induction rs arbitrary: S)
  case (Cons r rs)
  have "ledger_moves C (nd_ledger (ns_node S)) (nd_ledger (ns_node (snd (serve C E r S))))"
    using dispatch_step [OF Cons.prems] by (cases r) (auto simp: serve_def server_step_def)
  also have "ledger_moves C \<dots> (nd_ledger (ns_node (run_ops (serve C E) rs (snd (serve C E r S)))))"
    by (rule Cons.IH [OF server.step_inv [OF Cons.prems]])
  finally show ?case by simp
qed simp

section \<open>The constructor\<close>

lemma bindR_InrE: "bindR r f = Inr x \<Longrightarrow> (\<And>a. r = Inr a \<Longrightarrow> f a = Inr x \<Longrightarrow> P) \<Longrightarrow> P"
  by (auto simp: bindR_Inr_iff)

text \<open>
  What the state file must satisfy beyond the tests of the constructor: object keys are not repeated, the
  ledger meets the two conditions that \<open>from_snapshot\<close> leaves untested, and no nonce is negative. Without
  a file the initial balances must be those of a ledger.
\<close>

definition config_ok :: "node_config \<Rightarrow> node \<Rightarrow> bool" where
  "config_ok K N =
     (unchecked_ok (nd_ledger N) \<and> valid_start (lg_balances (nd_ledger N)) \<and> 0 \<le> committed_position N
      \<and> (case nc_disk K of Some (Some d) \<Rightarrow> wf_keys d | _ \<Rightarrow> True))"

lemma load_state_inv:
  assumes "load_full_node_state C initial g doc = Inr (L, replay, nonces)" "unchecked_ok L"
    "valid_start (lg_balances L)" "\<And>d. doc = Some d \<Longrightarrow> wf_keys d"
  shows "ledger_inv L"
proof (cases doc)
  case None
  with assms(1) obtain b where "ledger_init C b g = Inr L"
    by (auto simp: load_full_node_state_def fresh_ledger_def bindR_Inr_iff split: option.splits)
  from ledger_init_inv [OF this assms(3)] show ?thesis .
next
  case (Some d)
  with assms(1) obtain raw where raw: "from_snapshot C raw g = Inr L" "raw = d \<or> obj_get d ''ledger'' = Some raw"
    by (auto simp: load_full_node_state_def bindR_Inr_iff item_def split: option.splits if_splits)
  have "wf_keys raw" using assms(4) [OF Some] raw(2) wf_keys_get by blast
  from from_snapshot_sound [OF raw(1) this assms(2)] show ?thesis ..
qed

lemma node_leadership_inv:
  assumes "node_leadership C E K saved n = Inr S" and n: "0 \<le> n"
  shows "leadership_inv C E S \<and> ls_nonce S = n \<and> ls_votes S = []"
proof (cases saved)
  case None
  with assms obtain A T where T: "leadership_init A 3 = Inr T" "S = T\<lparr>ls_nonce := n\<rparr>"
    by (auto simp: node_leadership_def bindR_Inr_iff)
  then show ?thesis
    using n by (auto simp: leadership_init_def leadership_inv_def certified_def votes_pending_def LS_QUORUM_def ROLE_ORDER_def)
next
  case (Some raw)
  with assms obtain A where A: "leadership_restore C E A raw = Inr S" "ls_nonce S = n"
    by (auto simp: node_leadership_def bindR_Inr_iff split: if_splits)
  from A(1) obtain timeout beat t m l certs where r: "2 \<le> timeout"
    "leadership_check C E \<lparr>ls_authority = A, ls_timeout = timeout, ls_term = t, ls_leader = l,
              ls_heartbeat = beat, ls_nonce = m, ls_votes = [], ls_certs = certs\<rparr> = Inr S"
    unfolding leadership_restore_def by (auto elim!: bindR_InrE simp: not_less split: if_split_asm option.split_asm)
  from r(2) have S: "S = \<lparr>ls_authority = A, ls_timeout = timeout, ls_term = t, ls_leader = l,
              ls_heartbeat = beat, ls_nonce = m, ls_votes = [], ls_certs = certs\<rparr>"
    by (auto simp: leadership_check_def bindR_Inr_iff split: if_splits)
  then have "certified C E S" using r(2) leadership_check_Inr by metis
  with r(1) S A(2) show ?thesis by (simp add: leadership_inv_def votes_pending_def LS_QUORUM_def)
qed

lemma node_init_loads:
  assumes "node_init C E K = Inr N"
  shows "\<exists>replay. load_full_node_state C
             (if nc_balances K = [] then [(''alice'', 1000), (''bob'', 1000)] else nc_balances K) (nc_genesis K)
             (case nc_disk K of None \<Rightarrow> None | Some d \<Rightarrow> d) = Inr (nd_ledger N, replay, nd_nonces N)"
  using assms unfolding node_init_def Let_def
  by (elim bindR_InrE; clarsimp split: prod.split_asm if_split_asm elim!: bindR_InrE; fastforce)

lemma node_init_leads:
  assumes "node_init C E K = Inr N" "nd_leadership N = Some S"
  shows "\<exists>saved. node_leadership C E K saved (committed_position N) = Inr S"
proof -
  have f: "map_sum id Some x = Inr y \<longleftrightarrow> (\<exists>z. x = Inr z \<and> y = Some z)" for x :: "leadership result" and y
    by (cases x) auto
  from assms show ?thesis unfolding node_init_def Let_def
    by (elim bindR_InrE; clarsimp simp: f committed_position_def split: prod.split_asm if_split_asm elim!: bindR_InrE;
        (auto simp: f committed_position_def)?)
qed

lemma node_init_inv:
  assumes init: "node_init C E K = Inr N" and ok: "config_ok K N"
  shows "node_inv C E N"
proof -
  obtain replay where l: "load_full_node_state C
      (if nc_balances K = [] then [(''alice'', 1000), (''bob'', 1000)] else nc_balances K) (nc_genesis K)
      (case nc_disk K of None \<Rightarrow> None | Some d \<Rightarrow> d) = Inr (nd_ledger N, replay, nd_nonces N)"
    using node_init_loads [OF init] by blast
  have "ledger_inv (nd_ledger N)"
    by (rule load_state_inv [OF l]) (use ok in \<open>auto simp: config_ok_def split: option.splits\<close>)
  moreover have "leadership_inv C E S \<and> ls_nonce S = committed_position N \<and> ls_votes S = []" if "nd_leadership N = Some S" for S
    using node_init_leads [OF init that] node_leadership_inv ok by (auto simp: config_ok_def)
  ultimately show ?thesis using ok by (simp add: node_inv_def config_ok_def)
qed

lemma server_run_safe:
  assumes "node_init C E K = Inr (ns_node S)" "config_ok K (ns_node S)"
  shows "node_inv C E (ns_node (run_ops (serve C E) rs S))
    \<and> assert_invariants (nd_ledger (ns_node (run_ops (serve C E) rs S)))
         (dict_sum (lg_balances (nd_ledger (ns_node S)))) = Inr ()"
proof -
  have inv: "node_inv C E (ns_node S)" by (rule node_init_inv [OF assms])
  then have L: "ledger_inv (nd_ledger (ns_node S))" by (simp add: node_inv_def)
  have fin: "node_inv C E (ns_node (run_ops (serve C E) rs S))" by (rule server.run_inv [OF inv])
  then have "ledger_inv (nd_ledger (ns_node (run_ops (serve C E) rs S)))" by (simp add: node_inv_def)
  from assert_invariants_ok [OF this] fin ledger_moves_supply [OF serve_moves [OF inv] L] show ?thesis by simp
qed


definition plain_config :: node_config where
  "plain_config = \<lparr>nc_balances = [(''alice'', 5), (''bob'', 5)], nc_disk = None, nc_auth = [], nc_registry = None,
     nc_id = ''standalone'', nc_role = ''standalone'', nc_secret = [], nc_keyring = None, nc_genesis = None\<rparr>"

definition plain_node :: "ledger \<Rightarrow> node" where
  "plain_node L = \<lparr>nd_id = ''standalone'', nd_role = ''standalone'', nd_ledger = L, nd_auth = None, nd_registry = None,
     nd_repl = None, nd_nonces = [], nd_log = [], nd_pending = None, nd_leadership = None, nd_disk = None\<rparr>"

lemma plain_node_starts:
  assumes "ledger_init C (Some (nc_balances plain_config)) None = Inr L"
  shows "node_init C E plain_config = Inr (plain_node L)"
  using assms
  by (simp add: node_init_def plain_config_def node_replication_def load_full_node_state_def fresh_ledger_def
      load_replication_log_def load_replication_pending_def load_object_def replayed_log_def plain_node_def)

definition plain_server :: node_server where
  "plain_server = \<lparr>ns_node = plain_node (projr (ledger_init sample_crypto (Some (nc_balances plain_config)) None)),
     ns_ecosystem = projr (ecosystem_init sample_crypto)\<rparr>"

definition empty_world :: node_world where
  "empty_world = \<lparr>nw_urls = [], nw_prepared = (\<lambda>_. 0), nw_confirmed = (\<lambda>_. False), nw_synced = [], nw_probes = JObj []\<rparr>"

definition offer_call :: server_request where
  "offer_call = (JObj [(''method'', JStr ''offer''), (''params'', JObj [(''sender'', JStr ''alice''),
     (''receiver'', JStr ''bob''), (''value'', JInt 2), (''ttl'', JInt 3)])], None, empty_world, 0)"


end
