(* ===== verification/Node_Cluster.thy ===== *)
theory Node_Cluster
  imports Node_Server
begin

text \<open>
  What a node does on its own over the network: the synchronisation of replicas and histories and the
  periodic failover step of \<open>splitchain/node.py\<close>. The other nodes are an arbitrary state \<open>'w\<close> behind
  \<open>_replica_rpc\<close>: \<open>call url m params w\<close> is what they answer (\<open>None\<close> when there is none) and their next state.
  Calls that run side by side with \<open>asyncio.gather\<close> are made one after the other here; answers are JSON objects.
\<close>

type_synonym 'w rpc = "string \<Rightarrow> string \<Rightarrow> json \<Rightarrow> 'w \<Rightarrow> json option \<times> 'w"

definition rpc_result :: "json option \<Rightarrow> json option" where
  "rpc_result v = (case v of None \<Rightarrow> None | Some x \<Rightarrow> obj_get x ''result'')"

text \<open>\<open>int(v)\<close> inside a \<open>try\<close> for \<open>TypeError\<close>: \<open>Inr None\<close> when it fails; other conversions are left out.\<close>

definition try_int :: "json \<Rightarrow> int option result" where
  "try_int v = (case v of JInt i \<Rightarrow> Inr (Some i) | JNull \<Rightarrow> Inr None | JList _ \<Rightarrow> Inr None | JObj _ \<Rightarrow> Inr None | _ \<Rightarrow> Inl Unmodelled)"

section \<open>Bringing a replica up to date\<close>

text \<open>The loop over the missing entries; it stops at the first that is not acknowledged twice.\<close>

primrec push_entries :: "'w rpc \<Rightarrow> string \<Rightarrow> json list \<Rightarrow> 'w \<Rightarrow> bool \<times> 'w" where
  "push_entries call url [] w = (True, w)"
| "push_entries call url (env # envs) w =
     (case call url ''replica.prepare'' env w of
        (p, w1) \<Rightarrow>
          (case call url ''replica.commit'' env w1 of
             (c, w2) \<Rightarrow> if rpc_result p = None \<or> rpc_result c = None then (False, w2) else push_entries call url envs w2))"

definition sync_history :: "'w rpc \<Rightarrow> string \<Rightarrow> node \<Rightarrow> ('w, bool) operation" where
  "sync_history call url N w =
     (case call url ''replica.position'' (JObj []) w of
        (resp, w1) \<Rightarrow>
          (case rpc_result resp of
             None \<Rightarrow> (Inr False, w1)
           | Some position \<Rightarrow>
               if obj_fields position = None then (Inl AttributeError, w1)
               else (case try_int (get_or position ''nonce'' (JInt (- 1))) of
                   Inl e \<Rightarrow> (Inl e, w1)
                 | Inr None \<Rightarrow> (Inr False, w1)
                 | Inr (Some nonce) \<Rightarrow>
                     if nonce < 0 \<or> nonce > committed_position N \<or> int (length (nd_log N)) \<noteq> committed_position N
                     then (Inr False, w1)
                     else (case push_entries call url (drop (nat nonce) (nd_log N)) w1 of (ok, w2) \<Rightarrow> (Inr ok, w2)))))"

section \<open>Catching up from a peer\<close>

text \<open>
  One page of a peer's log. An \<open>except\<close> clause with \<open>pass\<close>, \<open>return\<close> or \<open>return False\<close> lets the named errors pass
  over. \<open>CommitUncertain\<close> is a subclass of \<open>ProtocolError\<close>.
\<close>

definition is_protocol :: "error \<Rightarrow> bool" where
  "is_protocol e = (case e of ProtocolError _ \<Rightarrow> True | CommitUncertain _ \<Rightarrow> True | _ \<Rightarrow> False)"

definition pass_over :: "error \<Rightarrow> 'a \<Rightarrow> error \<Rightarrow> 'a result" where
  "pass_over also v e = (if is_protocol e \<or> e = also then Inr v else Inl e)"

fun apply_entries :: "crypto \<Rightarrow> ed25519 \<Rightarrow> json list \<Rightarrow> (node, bool) operation" where
  "apply_entries C E [] N = (Inr True, N)"
| "apply_entries C E (env # envs) N =
     (if (case nd_pending N of None \<Rightarrow> False | Some p \<Rightarrow> \<not> py_eq p env) then (Inr False, N)
      else (case (if nd_pending N = None then prepare_replica C E env N else (Inr JNull, N)) of
          (Inl e, N1) \<Rightarrow> (pass_over TypeError False e, N1)
        | (Inr _, N1) \<Rightarrow>
            (case commit_replica C E env N1 of
               (Inl e, N2) \<Rightarrow> (pass_over TypeError False e, N2)
             | (Inr _, N2) \<Rightarrow> apply_entries C E envs N2)))"

text \<open>The fields \<open>nonce\<close>, \<open>entries\<close> and \<open>ledger_digest\<close> of a history; \<open>Inr None\<close> when one is missing.\<close>

definition read_history :: "json \<Rightarrow> (int \<times> json \<times> json) option result" where
  "read_history remote =
     (case (obj_get remote ''nonce'', obj_get remote ''entries'', obj_get remote ''ledger_digest'') of
        (None, _, _) \<Rightarrow> Inr None
      | (Some v, entries, digest) \<Rightarrow>
          bindR (try_int v) (\<lambda>n. Inr (case (n, entries, digest) of
            (Some i, Some es, Some d) \<Rightarrow> Some (i, es, d) | _ \<Rightarrow> None)))"

fun sync_from_peer ::
    "crypto \<Rightarrow> ed25519 \<Rightarrow> 'w rpc \<Rightarrow> string \<Rightarrow> nat \<Rightarrow> (node \<times> 'w, bool) operation" where
  "sync_from_peer C E call url 0 S = (Inr False, S)"
| "sync_from_peer C E call url (Suc n) S =
     (case S of (N, w) \<Rightarrow>
       (case call url ''replica.history'' (JObj [(''from'', JInt (committed_position N))]) w of
          (resp, w1) \<Rightarrow>
            (case rpc_result resp of
               None \<Rightarrow> (Inr False, N, w1)
             | Some remote \<Rightarrow>
                 (case read_history remote of
                    Inl e \<Rightarrow> (Inl e, N, w1)
                  | Inr None \<Rightarrow> (Inr False, N, w1)
                  | Inr (Some (position, entries, digest)) \<Rightarrow>
                      (case entries of
                         JList es \<Rightarrow>
                           if position < committed_position N then (Inr False, N, w1)
                           else if position = committed_position N
                           then (map_sum id (\<lambda>d. digest = JStr d \<and> nd_pending N = None) (ledger_digest C N), N, w1)
                           else if es = [] then (Inr False, N, w1)
                           else (case apply_entries C E es N of
                               (Inl e, N1) \<Rightarrow> (Inl e, N1, w1)
                             | (Inr False, N1) \<Rightarrow> (Inr False, N1, w1)
                             | (Inr True, N1) \<Rightarrow> sync_from_peer C E call url n (N1, w1))
                       | _ \<Rightarrow> (Inr False, N, w1))))))"

text \<open>The last question: position and digest of the witness are the own ones.\<close>

definition confirm_witness :: "crypto \<Rightarrow> 'w rpc \<Rightarrow> string \<Rightarrow> node \<Rightarrow> ('w, bool) operation" where
  "confirm_witness C call url N w =
     (case call url ''replica.history'' (JObj [(''from'', JInt (committed_position N))]) w of
        (resp, w1) \<Rightarrow>
          (case rpc_result resp of
             None \<Rightarrow> (Inr False, w1)
           | Some v \<Rightarrow>
               if obj_fields v = None then (Inl AttributeError, w1)
               else (map_sum id (\<lambda>d. py_eq (get_or v ''nonce'' JNull) (JInt (committed_position N))
                       \<and> get_or v ''ledger_digest'' JNull = JStr d) (ledger_digest C N), w1)))"

definition reconcile_witness :: "crypto \<Rightarrow> ed25519 \<Rightarrow> 'w rpc \<Rightarrow> string \<Rightarrow> (node \<times> 'w, bool) operation" where
  "reconcile_witness C E call url S =
     (case S of (N, w) \<Rightarrow>
       (case call url ''replica.position'' (JObj []) w of
          (resp, w1) \<Rightarrow>
            (case (case rpc_result resp of None \<Rightarrow> Inr None
                   | Some v \<Rightarrow> (case obj_get v ''nonce'' of None \<Rightarrow> Inr None | Some i \<Rightarrow> try_int i)) of
               Inl e \<Rightarrow> (Inl e, N, w1)
             | Inr None \<Rightarrow> (Inr False, N, w1)
             | Inr (Some position) \<Rightarrow>
                 (case (if position > committed_position N then sync_from_peer C E call url 10 (N, w1)
                        else (Inr (nd_pending N = None), N, w1)) of
                    (Inl e, S1) \<Rightarrow> (Inl e, S1)
                  | (Inr False, S1) \<Rightarrow> (Inr False, S1)
                  | (Inr True, (N1, w2)) \<Rightarrow>
                      if nd_pending N1 \<noteq> None \<or> int (length (nd_log N1)) \<noteq> committed_position N1 then (Inr False, N1, w2)
                      else (case (if position < committed_position N1 then sync_history call url N1 w2 else (Inr True, w2)) of
                          (Inl e, w3) \<Rightarrow> (Inl e, N1, w3)
                        | (Inr False, w3) \<Rightarrow> (Inr False, N1, w3)
                        | (Inr True, w3) \<Rightarrow> (case confirm_witness C call url N1 w3 of (ok, w4) \<Rightarrow> (ok, N1, w4)))))))"

section \<open>The failover step\<close>

text \<open>The leader's turn: its own heartbeat, then certificate and heartbeat to every peer.\<close>

primrec tell_all :: "'w rpc \<Rightarrow> string \<Rightarrow> json \<Rightarrow> string list \<Rightarrow> 'w \<Rightarrow> 'w" where
  "tell_all call m params [] w = w"
| "tell_all call m params (url # urls) w = tell_all call m params urls (snd (call url m params w))"

definition leader_turn :: "crypto \<Rightarrow> ed25519 \<Rightarrow> 'w rpc \<Rightarrow> string list \<Rightarrow> int \<Rightarrow> leadership \<Rightarrow> (node \<times> 'w, unit) operation" where
  "leader_turn C E call urls now S X =
     (case X of (N, w) \<Rightarrow>
       (case (if now > ls_heartbeat S then heartbeat (nd_id N) (ls_term S) now (committed_position N) S else (Inr (), S)) of
          (Inl e, S1) \<Rightarrow> (Inl e, N\<lparr>nd_leadership := Some S1\<rparr>, w)
        | (Inr _, S1) \<Rightarrow>
            let N1 = (if now > ls_heartbeat S then node_save (N\<lparr>nd_leadership := Some S1\<rparr>) else N) in
            (case sign_heartbeat C E (ls_authority S1) (nd_id N1) (ls_term S1) now (committed_position N1) of
               Inl e \<Rightarrow> (Inl e, N1, w)
             | Inr beat \<Rightarrow>
                 let w1 = (if ls_certs S1 = [] then w
                           else tell_all call ''cluster.certificate'' (lc_public (List.last (ls_certs S1))) urls w)
                 in (Inr (), N1, tell_all call ''cluster.heartbeat'' beat urls w1))))"

text \<open>The certificate that the witness may already hold.\<close>

definition remote_certificate :: "crypto \<Rightarrow> ed25519 \<Rightarrow> leadership \<Rightarrow> json \<Rightarrow> leadership_certificate result" where
  "remote_certificate C E S remote =
     bindR (leadership_restore C E (ls_authority S) remote) (\<lambda>restored.
       if ls_certs restored = [] then Inl IndexError else Inr (List.last (ls_certs restored)))"

text \<open>The vote of the node itself and the one of the witness, counted on a copy of the leadership.\<close>

definition trial_certificate ::
    "crypto \<Rightarrow> ed25519 \<Rightarrow> leadership \<Rightarrow> failure_vote \<Rightarrow> json \<Rightarrow> leadership_certificate option result" where
  "trial_certificate C E S v resp =
     bindR (read_vote resp) (\<lambda>signed.
     bindR (leadership_restore C E (ls_authority S) (leadership_snapshot S)) (\<lambda>trial.
       (case submit C E v trial of
          (Inl e, _) \<Rightarrow> Inl e
        | (Inr _, trial1) \<Rightarrow> fst (submit C E signed trial1))))"

definition candidate_turn ::
    "crypto \<Rightarrow> ed25519 \<Rightarrow> 'w rpc \<Rightarrow> string \<Rightarrow> int \<Rightarrow> leadership \<Rightarrow> (node \<times> 'w, unit) operation" where
  "candidate_turn C E call url now S X =
     (case X of (N, w) \<Rightarrow>
       (case call url ''cluster.leadership'' (JObj []) w of
          (remote, w1) \<Rightarrow>
            if (case rpc_result remote of None \<Rightarrow> False | Some v \<Rightarrow> obj_fields v = None) then (Inl AttributeError, N, w1)
            else if (case rpc_result remote of None \<Rightarrow> False | Some v \<Rightarrow> py_eq (get_or v ''term'' JNull) (JInt (ls_term S + 1)))
            then (case remote_certificate C E S (the (rpc_result remote)) of
                Inl e \<Rightarrow> (pass_over IndexError () e, N, w1)
              | Inr c \<Rightarrow> (case record_leadership_certificate C E c N of
                    (Inl e, N1) \<Rightarrow> (pass_over IndexError () e, N1, w1)
                  | (Inr _, N1) \<Rightarrow> (Inr (), N1, w1)))
            else
              (case bindR (failover_vote C E (ls_authority S) (nd_id N) (ls_term S + 1) (ls_leader S) (nd_id N) now (committed_position N))
                      (\<lambda>v. bindR (ledger_digest C N) (\<lambda>d. Inr (v, d))) of
                 Inl e \<Rightarrow> (Inl e, N, w1)
               | Inr (v, d) \<Rightarrow>
                   (case call url ''cluster.timeout_vote'' (JObj [(''vote'', fl_public v), (''ledger_digest'', JStr d)]) w1 of
                      (resp, w2) \<Rightarrow>
                        (case rpc_result resp of
                           None \<Rightarrow> (Inr (), N, w2)
                         | Some raw \<Rightarrow>
                             (case trial_certificate C E S v raw of
                                Inl e \<Rightarrow> (pass_over TypeError () e, N, w2)
                              | Inr None \<Rightarrow> (Inl TypeError, N, w2)
                              | Inr (Some c) \<Rightarrow>
                                  (case call url ''cluster.certificate'' (lc_public c) w2 of
                                     (ack, w3) \<Rightarrow>
                                       if rpc_result ack = None then (Inr (), N, w3)
                                       else (case record_leadership_certificate C E c N of (x, N1) \<Rightarrow> (x, N1, w3)))))))))"

text \<open>\<open>failover_step\<close>; \<open>now\<close> is the tick.\<close>

definition first_beat :: "int \<Rightarrow> node \<Rightarrow> node" where
  "first_beat now N =
     (case nd_leadership N of
        None \<Rightarrow> N
      | Some S \<Rightarrow> if ls_heartbeat S = 0 then node_save (N\<lparr>nd_leadership := Some (S\<lparr>ls_heartbeat := now\<rparr>)\<rparr>) else N)"

definition failover_step ::
    "crypto \<Rightarrow> ed25519 \<Rightarrow> 'w rpc \<Rightarrow> (string, string) dict \<Rightarrow> int \<Rightarrow> (node \<times> 'w, unit) operation" where
  "failover_step C E call urls now X =
     (case X of (N0, w) \<Rightarrow>
       let N = first_beat now N0 in
       (case nd_leadership N of
          None \<Rightarrow> (Inr (), N, w)
        | Some S \<Rightarrow>
            if ls_leader S = nd_id N then leader_turn C E call (map snd urls) now S (N, w)
            else if ls_leader S = ''tertiary'' then (Inr (), N, w)
            else (case successor S of
                Inl e \<Rightarrow> (Inl e, N, w)
              | Inr candidate \<Rightarrow>
                  if nd_id N \<noteq> candidate then (Inr (), N, w)
                  else if now - ls_heartbeat S < ls_timeout S then (Inr (), N, w)
                  else (case Option.bind (witness_role (ls_leader S) (nd_id N)) (map_of urls) of
                      None \<Rightarrow> (Inr (), N, w)
                    | Some url \<Rightarrow>
                        if url = [] then (Inr (), N, w)
                        else (case reconcile_witness C E call url (N, w) of
                            (Inl e, X1) \<Rightarrow> (Inl e, X1)
                          | (Inr False, X1) \<Rightarrow> (Inr (), X1)
                          | (Inr True, (N1, w1)) \<Rightarrow>
                              (case nd_leadership N1 of
                                 None \<Rightarrow> (Inr (), N1, w1)
                               | Some S1 \<Rightarrow> candidate_turn C E call url now S1 (N1, w1)))))))"

section \<open>The steps of a node on its own are safe\<close>

text \<open>What any number of steps leaves: a well-formed node, a longer log, the same certificates first.\<close>

definition node_moves :: "crypto \<Rightarrow> ed25519 \<Rightarrow> node \<Rightarrow> node \<Rightarrow> bool" where
  "node_moves C E N M = (node_inv C E M \<and> (\<exists>envs. log_run C N envs M) \<and> leadership_step N M)"

lemma good_step_moves: "good_step C E N M \<Longrightarrow> node_moves C E N M"
  using log_step_run by (auto simp: good_step_def node_moves_def)

lemma node_moves_refl: "node_inv C E N \<Longrightarrow> node_moves C E N N"
  by (rule good_step_moves [OF good_step_same])

lemma node_moves_inv: "node_moves C E N M \<Longrightarrow> node_inv C E M"
  by (simp add: node_moves_def)

lemma node_moves_trans: "node_moves C E N M \<Longrightarrow> node_moves C E M K \<Longrightarrow> node_moves C E N K"
  unfolding node_moves_def using log_run_trans leadership_step_trans by blast

text \<open>Catching up changes neither who the node is nor the leadership beyond its position.\<close>

definition same_leader :: "node \<Rightarrow> node \<Rightarrow> bool" where
  "same_leader N M =
     (nd_id M = nd_id N
      \<and> map_option (\<lambda>S. S\<lparr>ls_nonce := 0\<rparr>) (nd_leadership M) = map_option (\<lambda>S. S\<lparr>ls_nonce := 0\<rparr>) (nd_leadership N))"

lemma same_leader_refl: "same_leader N N"
  by (simp add: same_leader_def)

lemma same_leader_trans: "same_leader N M \<Longrightarrow> same_leader M K \<Longrightarrow> same_leader N K"
  by (simp add: same_leader_def)

lemma prepare_replica_leader: "same_leader N (snd (prepare_replica C E env N))"
proof (cases "verify_replica_envelope C E env N")
  case (Inr t)
  obtain leader nonce mut where t: "t = (leader, nonce, mut)" by (cases t)
  obtain x A where "try_mutation C mut N = (x, N\<lparr>nd_auth := A\<rparr>)" using try_mutation_auth by (metis surjective_pairing)
  with Inr t show ?thesis by (cases x) (auto simp: prepare_replica_def same_leader_def split: option.split)
qed (simp add: prepare_replica_def same_leader_def)

lemma commit_replica_leader: "same_leader N (snd (commit_replica C E env N))"
proof (cases "verify_replica_envelope C E env N")
  case (Inr t)
  obtain leader nonce mut where t: "t = (leader, nonce, mut)" by (cases t)
  obtain x A L where "apply_mutation C mut True N = (x, N\<lparr>nd_auth := A, nd_ledger := L\<rparr>)"
    using apply_mutation_frame by (metis surjective_pairing)
  with Inr t show ?thesis
    by (cases x) (auto simp: commit_replica_def same_leader_def record_commit_def option.map_comp comp_def)
qed (simp add: commit_replica_def same_leader_def)

definition catches_up :: "crypto \<Rightarrow> ed25519 \<Rightarrow> node \<Rightarrow> node \<Rightarrow> bool" where
  "catches_up C E N M = (node_moves C E N M \<and> same_leader N M)"

lemma catches_up_refl: "node_inv C E N \<Longrightarrow> catches_up C E N N"
  by (simp add: catches_up_def node_moves_refl same_leader_refl)

lemma catches_up_trans: "catches_up C E N M \<Longrightarrow> catches_up C E M K \<Longrightarrow> catches_up C E N K"
  unfolding catches_up_def using node_moves_trans same_leader_trans by blast

lemma catches_up_inv: "catches_up C E N M \<Longrightarrow> node_inv C E M"
  using node_moves_inv by (auto simp: catches_up_def)

lemma replica_catches_up:
  assumes "node_inv C E N"
  shows "catches_up C E N (snd (prepare_replica C E env N))" "catches_up C E N (snd (commit_replica C E env N))"
  using good_step_moves [OF prepare_replica_step [OF assms]] good_step_moves [OF commit_replica_step [OF assms]]
    prepare_replica_leader commit_replica_leader
  by (simp_all add: catches_up_def)

lemma apply_entries_catches_up:
  "node_inv C E N \<Longrightarrow> catches_up C E N (snd (apply_entries C E es N))"
proof (induction es arbitrary: N)
  case (Cons env es)
  let ?r = "if nd_pending N = None then prepare_replica C E env N else (Inr JNull, N)"
  have p: "catches_up C E N (snd ?r)"
    using replica_catches_up(1) [OF Cons.prems] catches_up_refl [OF Cons.prems] by simp
  then have N1: "node_inv C E (snd ?r)" by (rule catches_up_inv)
  have c: "catches_up C E N (snd (commit_replica C E env (snd ?r)))"
    by (rule catches_up_trans [OF p replica_catches_up(2) [OF N1]])
  have r: "catches_up C E N (snd (apply_entries C E es (snd (commit_replica C E env (snd ?r)))))"
    by (rule catches_up_trans [OF c Cons.IH [OF catches_up_inv [OF c]]])
  obtain x N1 where e: "?r = (x, N1)" by (cases ?r)
  obtain y N2 where d: "commit_replica C E env N1 = (y, N2)" by (cases "commit_replica C E env N1")
  from p c r catches_up_refl [OF Cons.prems] show ?case
    by (auto simp: e d split: sum.split)
qed (simp add: catches_up_refl)

lemma sync_from_peer_catches_up:
  "node_inv C E (fst S) \<Longrightarrow> catches_up C E (fst S) (fst (snd (sync_from_peer C E call url n S)))"
proof (induction n arbitrary: S)
  case (Suc n)
  obtain N w where S: "S = (N, w)" by (cases S)
  have same: "catches_up C E N N" using Suc.prems by (simp add: S catches_up_refl)
  have more: "catches_up C E N (fst (snd (case apply_entries C E es N of
       (Inl e, N1) \<Rightarrow> (Inl e, N1, w1) | (Inr False, N1) \<Rightarrow> (Inr False, N1, w1)
     | (Inr True, N1) \<Rightarrow> sync_from_peer C E call url n (N1, w1))))" for es w1
  proof -
    obtain x N1 where a: "apply_entries C E es N = (x, N1)" by (cases "apply_entries C E es N")
    have "catches_up C E N N1" using apply_entries_catches_up [of C E N es] Suc.prems by (simp add: S a)
    moreover from this have "catches_up C E N (fst (snd (sync_from_peer C E call url n (N1, w1))))"
      using Suc.IH [of "(N1, w1)"] catches_up_inv catches_up_trans by fastforce
    ultimately show ?thesis unfolding a by (auto split: sum.split bool.split)
  qed
  show ?case
    unfolding S sync_from_peer.simps prod.case fst_conv
    using same more by (auto split: prod.split option.split sum.split json.split)
qed (simp add: catches_up_refl)

lemma reconcile_catches_up:
  assumes inv: "node_inv C E N" and r: "reconcile_witness C E call url (N, w) = (r, N1, w1)"
  shows "catches_up C E N N1"
    and "r = Inr True \<Longrightarrow> nd_pending N1 = None \<and> int (length (nd_log N1)) = committed_position N1"
proof -
  have sync: "catches_up C E N M" if "sync_from_peer C E call url n (N, v) = (x, M, u)" for n v x M u
    using sync_from_peer_catches_up [of C E "(N, v)" call url n] inv that by simp
  note splits = prod.split_asm option.split_asm sum.split_asm bool.split_asm if_split_asm
  show "catches_up C E N N1"
    using r catches_up_refl [OF inv] unfolding reconcile_witness_def
    by (auto split: splits dest: sync)
  show "r = Inr True \<Longrightarrow> nd_pending N1 = None \<and> int (length (nd_log N1)) = committed_position N1"
    using r unfolding reconcile_witness_def by (auto split: splits)
qed

lemma first_beat_moves:
  assumes inv: "node_inv C E N" and "0 \<le> now"
  shows "node_moves C E N (first_beat now N)"
proof (cases "nd_leadership N")
  case None
  with node_moves_refl [OF inv] show ?thesis by (simp add: first_beat_def)
next
  case (Some S)
  have S: "leadership_inv C E S" "ls_votes S = []" using inv Some by (auto simp: node_inv_def)
  have "leadership_inv C E (S\<lparr>ls_heartbeat := now\<rparr>)" if "ls_heartbeat S = 0"
    using S that \<open>0 \<le> now\<close> by (auto simp: leadership_inv_def certified_def votes_pending_def)
  then have "good_step C E N (node_save (N\<lparr>nd_leadership := Some (S\<lparr>ls_heartbeat := now\<rparr>)\<rparr>))" if "ls_heartbeat S = 0"
    using that S(2) by (intro good_step_leadership [OF inv Some, where T = "S\<lparr>ls_heartbeat := now\<rparr>" and cs = "[]"]) auto
  with node_moves_refl [OF inv] Some show ?thesis by (simp add: first_beat_def good_step_moves)
qed

lemma leader_turn_moves:
  assumes inv: "node_inv C E N" and S: "nd_leadership N = Some S"
  shows "node_moves C E N (fst (snd (leader_turn C E call urls now S (N, w))))
    \<and> (\<exists>T. nd_leadership (fst (snd (leader_turn C E call urls now S (N, w)))) = Some T \<and> ls_certs T = ls_certs S)"
proof -
  have I: "leadership_inv C E S" "ls_nonce S = committed_position N" "ls_votes S = []"
    using inv S by (auto simp: node_inv_def)
  obtain x T where h: "heartbeat (nd_id N) (ls_term S) now (committed_position N) S = (x, T)"
    by (cases "heartbeat (nd_id N) (ls_term S) now (committed_position N) S")
  have T: "leadership_inv C E T" "ls_nonce T = ls_nonce S" "ls_votes T = []" "ls_authority T = ls_authority S" "ls_certs T = ls_certs S"
    using heartbeat_inv [OF I(1), of "nd_id N" "ls_term S" now "committed_position N"] h I
    by (auto simp: heartbeat_def split: if_splits)
  have save: "node_moves C E N (node_save (N\<lparr>nd_leadership := Some T\<rparr>))" "node_moves C E N (N\<lparr>nd_leadership := Some T\<rparr>)"
    using T by (auto intro!: good_step_moves good_step_leadership [OF inv S, where T = T and cs = "[]"])
  show ?thesis
    using save node_moves_refl [OF inv] T(5) S
    by (cases x) (auto simp: leader_turn_def h Let_def split: sum.split)
qed

lemma candidate_turn_records:
  assumes "candidate_turn C E call url now S (N, w) = (r, M, w1)"
  shows "M = N \<or> (\<exists>c. M = snd (record_leadership_certificate C E c N))"
  using assms unfolding candidate_turn_def
  by (auto split: prod.split_asm option.split_asm sum.split_asm if_split_asm simp: prod_eq_iff)

text \<open>Recording a certificate keeps the leadership, or moves it to the successor and drops what was prepared.\<close>

lemma record_certificate_takes:
  assumes inv: "node_inv C E N" and S: "nd_leadership N = Some S"
    and T: "nd_leadership (snd (record_leadership_certificate C E c N)) = Some T" and new: "ls_certs T \<noteq> ls_certs S"
  shows "successor S = Inr (ls_leader T) \<and> ls_term T = ls_term S + 1
    \<and> nd_pending (snd (record_leadership_certificate C E c N)) = None
    \<and> nd_log (snd (record_leadership_certificate C E c N)) = nd_log N
    \<and> committed_position (snd (record_leadership_certificate C E c N)) = committed_position N
    \<and> nd_id (snd (record_leadership_certificate C E c N)) = nd_id N"
proof -
  have I: "2 \<le> ls_timeout S" "ls_nonce S = committed_position N"
    using inv S by (auto simp: node_inv_def leadership_inv_def)
  obtain x A where a: "accept_certificate C E c S = (x, A)" by (cases "accept_certificate C E c S")
  have rec: "(if ls_certs S \<noteq> [] \<and> c = List.last (ls_certs S) then (Inr (), N) else (case accept_certificate C E c S of
      (Inl e, S1) \<Rightarrow> (Inl e, N\<lparr>nd_leadership := Some S1\<rparr>)
    | (Inr _, S1) \<Rightarrow> (Inr (), node_save (N\<lparr>nd_leadership := Some S1, nd_pending := None\<rparr>))))
    = record_leadership_certificate C E c N" using I by (simp add: record_leadership_certificate_def S)
  have fresh: "c \<notin> set (ls_certs S)" "\<not> (ls_certs S \<noteq> [] \<and> c = List.last (ls_certs S))" "x = Inr ()"
    using T new S a accept_certificate_again [of c S C E] accept_certificate_Inl [of C E c S]
    by (cases x; auto simp: rec [symmetric] split: if_splits)+
  then have ok: "fst (accept_certificate C E c S) = Inr ()" using a by simp
  obtain candidate where c: "successor S = Inr candidate" "A = S\<lparr>ls_term := ls_term S + 1, ls_leader := candidate,
       ls_heartbeat := fl_tick (hd (lc_votes c)), ls_votes := [], ls_certs := ls_certs S @ [c]\<rparr>"
    using accept_certificate_Inr [OF ok fresh(1) I(1)] a by (metis snd_conv)
  have M: "snd (record_leadership_certificate C E c N) = node_save (N\<lparr>nd_leadership := Some A, nd_pending := None\<rparr>)"
    using a fresh(2,3) by (auto simp: rec [symmetric])
  then have "T = A" using T by simp
  then show ?thesis using c unfolding M by (simp add: committed_position_def)
qed

text \<open>What a failover step does: the node's own turn as leader, or reconciliation and the election.\<close>

lemma failover_step_cases:
  assumes r: "failover_step C E call urls now (N, w) = (r, M, w1)"
  obtains (idle) "M = first_beat now N"
    | (lead) S where "nd_leadership (first_beat now N) = Some S" "ls_leader S = nd_id (first_beat now N)"
        "M = fst (snd (leader_turn C E call (map snd urls) now S (first_beat now N, w)))"
    | (reconcile) S url x N1 w2 where "nd_leadership (first_beat now N) = Some S"
        "successor S = Inr (nd_id (first_beat now N))" "ls_timeout S \<le> now - ls_heartbeat S"
        "reconcile_witness C E call url (first_beat now N, w) = (x, N1, w2)"
        "M = N1 \<or> x = Inr True \<and> (\<exists>c. M = snd (record_leadership_certificate C E c N1))"
proof (cases "nd_leadership (first_beat now N)")
  case None
  with r idle show ?thesis by (simp add: failover_step_def Let_def)
next
  case (Some S)
  let ?N = "first_beat now N"
  show ?thesis
  proof (cases "ls_leader S = nd_id ?N")
    case True
    with r Some lead show ?thesis by (simp add: failover_step_def Let_def prod_eq_iff)
  next
    case False
    define rest where "rest = (\<lambda>url. case reconcile_witness C E call url (?N, w) of
        (Inl e, X1) \<Rightarrow> (Inl e, X1)
      | (Inr False, X1) \<Rightarrow> (Inr (), X1)
      | (Inr True, (N1, w1)) \<Rightarrow> (case nd_leadership N1 of
            None \<Rightarrow> (Inr (), N1, w1) | Some S1 \<Rightarrow> candidate_turn C E call url now S1 (N1, w1)))"
    note rest = fun_cong [OF rest_def, symmetric]
    from r have "M = ?N \<or> (\<exists>url. successor S = Inr (nd_id ?N) \<and> ls_timeout S \<le> now - ls_heartbeat S \<and> rest url = (r, M, w1))"
      using False Some unfolding failover_step_def Let_def prod.case rest
      by (auto split: option.split_asm sum.split_asm if_split_asm simp: not_less)
    then show ?thesis
    proof (elim disjE exE conjE)
      fix url
      assume s: "successor S = Inr (nd_id ?N)" "ls_timeout S \<le> now - ls_heartbeat S" and url: "rest url = (r, M, w1)"
      obtain x N1 w2 where w: "reconcile_witness C E call url (?N, w) = (x, N1, w2)"
        by (cases "reconcile_witness C E call url (?N, w)")
      have "M = N1 \<or> x = Inr True \<and> (\<exists>c. M = snd (record_leadership_certificate C E c N1))"
        using url unfolding rest_def w
        by (auto split: option.split_asm sum.split_asm bool.split_asm dest!: candidate_turn_records)
      with reconcile [OF Some s w] show ?thesis .
    qed (rule idle)
  qed
qed

lemma failover_step_moves:
  assumes inv: "node_inv C E N" and now: "0 \<le> now" and r: "failover_step C E call urls now (N, w) = (r, M, w1)"
  shows "node_moves C E N M"
proof -
  have b: "node_moves C E N (first_beat now N)" by (rule first_beat_moves [OF inv now])
  then have I: "node_inv C E (first_beat now N)" by (rule node_moves_inv)
  show ?thesis
    using r
  proof (cases rule: failover_step_cases)
    case idle
    with b show ?thesis by simp
  next
    case (lead S)
    show ?thesis unfolding lead(3) by (rule node_moves_trans [OF b leader_turn_moves [OF I lead(1), THEN conjunct1]])
  next
    case (reconcile S url x N1 w2)
    have N1: "node_moves C E N N1"
      using reconcile_catches_up(1) [OF I reconcile(4)] node_moves_trans [OF b] by (simp add: catches_up_def)
    moreover have "node_moves C E N (snd (record_leadership_certificate C E c N1))" for c
      using node_moves_trans [OF N1 good_step_moves [OF record_certificate_step [OF node_moves_inv [OF N1]]]] .
    ultimately show ?thesis using reconcile(5) by blast
  qed
qed

text \<open>C10. Whatever the other nodes answer, a failover step of a node is safe: the node stays well formed, its log
  only grows by envelopes with increasing nonces whose mutations its ledger executes, and its leadership keeps
  its authority and all its certificates.\<close>

theorem failover_step_safe:
  assumes "node_inv C E N" "0 \<le> now" "failover_step C E call urls now (N, w) = (r, M, w1)"
  shows "node_inv C E M \<and> (\<exists>envs. log_run C N envs M) \<and> leadership_step N M"
  using failover_step_moves [OF assms] by (simp add: node_moves_def)

theorem failover_step_safe_witness:
  "node_inv ascii_crypto sample_ed (fst (snd (failover_step ascii_crypto sample_ed (\<lambda>url m params w. (None, w))
     [(''tertiary'', ''ws://c'')] 9 (sample_node, ()))))"
proof -
  obtain r M w1 where r: "failover_step ascii_crypto sample_ed (\<lambda>url m params w. (None, w))
      [(''tertiary'', ''ws://c'')] 9 (sample_node, ()) = (r, M, w1)"
    by (metis prod_cases3)
  with failover_step_safe [OF sample_node_inv _ r] show ?thesis by simp
qed

end
