(* ===== verification/Cluster_Writes.thy ===== *)
theory Cluster_Writes
  imports Node_Cluster
begin

text \<open>
  The leader over the network: \<open>replicate_mutation\<close>, \<open>sync_replicas\<close> and \<open>cluster_status\<close> of
  \<open>splitchain/node.py\<close> with the peers of \<open>Node_Cluster\<close> behind them. They refine the handlers of \<open>Node_Model\<close> and
  \<open>Node_Dispatch\<close>, whose parameters say only how many peers prepared and whether one confirmed; and with one
  working replica behind the connection an accepted write ends on both nodes.
\<close>

section \<open>The leader's calls\<close>

definition peer_list :: "(string, string) dict \<Rightarrow> string list" where
  "peer_list urls = map snd (sort_key fst urls)"

definition sync_and_prepare :: "'w rpc \<Rightarrow> string \<Rightarrow> json \<Rightarrow> node \<Rightarrow> ('w, bool) operation" where
  "sync_and_prepare call url env N w =
     (case sync_history call url N w of
        (Inl e, w1) \<Rightarrow> (Inl e, w1)
      | (Inr False, w1) \<Rightarrow> (Inr False, w1)
      | (Inr True, w1) \<Rightarrow> (case call url ''replica.prepare'' env w1 of (resp, w2) \<Rightarrow> (Inr (rpc_result resp \<noteq> None), w2)))"

text \<open>The sum of the acknowledgements; an exception of one call surfaces when all were made.\<close>

primrec prepare_all :: "'w rpc \<Rightarrow> json \<Rightarrow> node \<Rightarrow> string list \<Rightarrow> ('w, nat) operation" where
  "prepare_all call env N [] w = (Inr 0, w)"
| "prepare_all call env N (url # urls) w =
     (case sync_and_prepare call url env N w of
        (ok, w1) \<Rightarrow> (case prepare_all call env N urls w1 of
            (n, w2) \<Rightarrow> (bindR ok (\<lambda>b. map_sum id (\<lambda>k. (if b then Suc k else k)) n), w2)))"

primrec ask_all :: "'w rpc \<Rightarrow> string \<Rightarrow> json \<Rightarrow> string list \<Rightarrow> 'w \<Rightarrow> json option list \<times> 'w" where
  "ask_all call m params [] w = ([], w)"
| "ask_all call m params (url # urls) w =
     (case call url m params w of
        (resp, w1) \<Rightarrow> (case ask_all call m params urls w1 of (resps, w2) \<Rightarrow> (resp # resps, w2)))"

fun any_confirmed :: "int \<Rightarrow> json option list \<Rightarrow> bool result" where
  "any_confirmed nonce [] = Inr False"
| "any_confirmed nonce (None # rs) = any_confirmed nonce rs"
| "any_confirmed nonce (Some v # rs) =
     (case obj_get v ''result'' of
        None \<Rightarrow> any_confirmed nonce rs
      | Some x \<Rightarrow>
          if obj_fields x = None then Inl AttributeError
          else if py_eq (get_or x ''nonce'' JNull) (JInt nonce) then Inr True
          else any_confirmed nonce rs)"

definition abort_pending :: "'w rpc \<Rightarrow> string list \<Rightarrow> node \<Rightarrow> 'w \<Rightarrow> node \<times> 'w" where
  "abort_pending call urls N w =
     (case pending_envelope N of
        None \<Rightarrow> (N, w)
      | Some env \<Rightarrow> (node_save (N\<lparr>nd_pending := None\<rparr>), tell_all call ''replica.abort'' env urls w))"

definition replicate_over ::
    "crypto \<Rightarrow> ed25519 \<Rightarrow> 'w rpc \<Rightarrow> string list \<Rightarrow> json \<Rightarrow> (node \<times> 'w, json) operation" where
  "replicate_over C E call urls mut X =
     (case X of (N, w) \<Rightarrow>
       (case nd_repl N of
          None \<Rightarrow> (Inl (ProtocolError ''cluster replication is not configured''), N, w)
        | Some R \<Rightarrow>
            if nd_leadership N \<noteq> None \<and> leader_of N \<noteq> nd_id N
            then (Inl (ProtocolError ''old Primary is fenced by a leadership certificate''), N, w)
            else (case abort_pending call urls N w of (N0, w0) \<Rightarrow>
              (case try_mutation C mut N0 of
                 (Inl e, N1) \<Rightarrow> (Inl e, N1, w0)
               | (Inr _, N1) \<Rightarrow>
                   let nonce = committed_position N1 + 1 in
                   (case replication_sign C E R (nd_id N1) nonce mut of
                      Inl e \<Rightarrow> (Inl e, N1, w0)
                    | Inr env \<Rightarrow>
                        let N2 = node_save (N1\<lparr>nd_pending := Some env\<rparr>) in
                        (case prepare_all call env N2 urls w0 of
                           (Inl e, w1) \<Rightarrow> (Inl e, N2, w1)
                         | (Inr n, w1) \<Rightarrow>
                             if n < 1
                             then (Inl (ProtocolError ''mutation did not receive a 2/3 cluster quorum''),
                                   node_save (N2\<lparr>nd_pending := None\<rparr>), tell_all call ''replica.abort'' env urls w1)
                             else (case apply_mutation C mut True N2 of
                                 (Inl e, N3) \<Rightarrow> (Inl e, N3, w1)
                               | (Inr r, N3) \<Rightarrow>
                                   let N4 = record_commit (nd_id N3) nonce env N3 in
                                   (case ask_all call ''replica.commit'' env urls w1 of
                                      (resps, w2) \<Rightarrow>
                                        (case any_confirmed nonce resps of
                                           Inl e \<Rightarrow> (Inl e, N4, w2)
                                         | Inr True \<Rightarrow> (Inr r, N4, w2)
                                         | Inr False \<Rightarrow> (Inl (CommitUncertain ''commit outcome is uncertain''), N4, w2))))))))))"

text \<open>\<open>sync_replicas\<close> and the probes of \<open>cluster_status\<close>, whose peers answer in the order of their identifiers.\<close>

primrec sync_all :: "'w rpc \<Rightarrow> node \<Rightarrow> (string, string) dict \<Rightarrow> ('w, (string, bool) dict) operation" where
  "sync_all call N [] w = (Inr [], w)"
| "sync_all call N (peer # peers) w =
     (case sync_history call (snd peer) N w of
        (ok, w1) \<Rightarrow> (case sync_all call N peers w1 of
            (oks, w2) \<Rightarrow> (bindR ok (\<lambda>b. map_sum id (\<lambda>ks. (fst peer, b) # ks) oks), w2)))"

definition sync_replicas_over ::
    "'w rpc \<Rightarrow> (string, string) dict \<Rightarrow> (node \<times> 'w, json) operation" where
  "sync_replicas_over call urls X =
     (case X of (N, w) \<Rightarrow>
       if nd_repl N = None \<or> nd_leadership N = None \<or> leader_of N \<noteq> nd_id N
       then (Inl (ProtocolError ''only the certified leader can synchronize replicas''), N, w)
       else (case abort_pending call (map snd urls) N w of (N0, w0) \<Rightarrow>
         (case sync_all call N0 (sort_key fst urls) w0 of
            (r, w1) \<Rightarrow> (map_sum id (\<lambda>oks. JObj (map (\<lambda>(i, ok).
               (i, JStr (if ok then ''synchronized'' else ''unavailable''))) oks)) r, N0, w1))))"

definition probe :: "json option \<Rightarrow> json" where
  "probe resp =
     (case rpc_result resp of
        Some v \<Rightarrow> JObj [(''status'', JStr ''available''), (''ledger'', v)]
      | None \<Rightarrow> JObj [(''status'', JStr ''unavailable'')])"

definition cluster_status_over :: "'w rpc \<Rightarrow> (string, string) dict \<Rightarrow> node \<Rightarrow> 'w \<Rightarrow> json \<times> 'w" where
  "cluster_status_over call urls N w =
     (case ask_all call ''status'' (JObj []) (peer_list urls) w of
        (resps, w1) \<Rightarrow>
          (JObj [(''node_id'', JStr (nd_id N)), (''local'', ledger_snapshot (nd_ledger N)),
             (''peers'', JObj (zip (map fst (sort_key fst urls)) (map probe resps)))], w1))"

section \<open>Refinement of the abstract leader\<close>

lemma abort_pending_fst: "fst (abort_pending call urls N w) = abort_uncommitted_primary N"
  by (simp add: abort_pending_def abort_uncommitted_primary_def split: option.split)

text \<open>
  Every run of the leader over the network is one of the abstract leader, for some number of
  acknowledgements and some confirmation. When a peer answers with a result that is no object, the exception
  surfaces: before the quorum, with the envelope pending, or after the commit.
\<close>

lemma replicate_over_refines:
  assumes r: "replicate_over C E call urls mut (N, w) = (r, M, w1)"
  obtains (abstract) prepared confirmed where "replicate_mutation C E prepared confirmed mut N = (r, M)"
    | (unprepared) N1 env u where "try_mutation C mut (abort_uncommitted_primary N) = (Inr u, N1)"
        "M = node_save (N1\<lparr>nd_pending := Some env\<rparr>)"
    | (committed) prepared x where "replicate_mutation C E prepared (\<lambda>_. True) mut N = (Inr x, M)"
proof -
  obtain N0 w0 where a: "abort_pending call urls N w = (N0, w0)" by (cases "abort_pending call urls N w")
  have N0: "abort_uncommitted_primary N = N0" using a abort_pending_fst by (metis fst_conv)
  obtain x N1 where t: "try_mutation C mut N0 = (x, N1)" by (cases "try_mutation C mut N0")
  note defs = replicate_over_def replicate_mutation_def N0 a t prod.case Let_def
  show ?thesis
  proof (cases "nd_repl N = None \<or> nd_leadership N \<noteq> None \<and> leader_of N \<noteq> nd_id N \<or> \<not> is_ok x")
    case True
    with r have "replicate_mutation C E (\<lambda>_. 0) (\<lambda>_. False) mut N = (r, M)"
      by (cases x) (auto simp: defs split: option.splits if_splits)
    with abstract show ?thesis .
  next
    case False
    then obtain R u where R: "nd_repl N = Some R" "x = Inr u" by (auto simp: is_ok_iff)
    from False have free: "\<not> ((\<exists>S. nd_leadership N = Some S) \<and> leader_of N \<noteq> nd_id N)" by simp
    note defs = defs free
    let ?nonce = "committed_position N1 + 1"
    show ?thesis
    proof (cases "replication_sign C E R (nd_id N1) ?nonce mut")
      case (Inl e)
      have "r = Inl e" "M = N1" using r by (simp_all add: defs R Inl)
      moreover have "replicate_mutation C E (\<lambda>_. 0) (\<lambda>_. False) mut N = (Inl e, N1)" by (simp add: defs R Inl)
      ultimately have "replicate_mutation C E (\<lambda>_. 0) (\<lambda>_. False) mut N = (r, M)" by (simp only:)
      with abstract show ?thesis .
    next
      case (Inr env)
      let ?N2 = "node_save (N1\<lparr>nd_pending := Some env\<rparr>)"
      obtain n w2 where p: "prepare_all call env ?N2 urls w0 = (n, w2)" by (cases "prepare_all call env ?N2 urls w0")
      show ?thesis
      proof (cases n)
        case (Inl e)
        with r R Inr p have "M = ?N2" by (auto simp: defs)
        with unprepared t R(2) N0 show ?thesis by blast
      next
        case (Inr k)
        obtain y N3 where y: "apply_mutation C mut True ?N2 = (y, N3)" by (cases "apply_mutation C mut True ?N2")
        show ?thesis
        proof (cases "k < 1 \<or> \<not> is_ok y")
          case True
          with r R Inr p y \<open>replication_sign C E R (nd_id N1) ?nonce mut = Inr env\<close>
          have "replicate_mutation C E (\<lambda>_. k) (\<lambda>_. False) mut N = (r, M)"
            by (cases y) (auto simp: defs split: if_splits)
          with abstract show ?thesis .
        next
          case False
          then obtain v where v: "y = Inr v" "\<not> k < 1" by (auto simp: is_ok_iff)
          obtain resps w3 where c: "ask_all call ''replica.commit'' env urls w2 = (resps, w3)"
            by (cases "ask_all call ''replica.commit'' env urls w2")
          note all = r R Inr p y v c \<open>replication_sign C E R (nd_id N1) ?nonce mut = Inr env\<close>
          show ?thesis
          proof (cases "any_confirmed ?nonce resps")
            case (Inl e)
            with all have "replicate_mutation C E (\<lambda>_. k) (\<lambda>_. True) mut N = (Inr v, M)" by (auto simp: defs)
            with committed show ?thesis .
          next
            case (Inr b)
            with all have "replicate_mutation C E (\<lambda>_. k) (\<lambda>_. b) mut N = (r, M)" by (cases b) (auto simp: defs)
            with abstract show ?thesis .
          qed
        qed
      qed
    qed
  qed
qed

lemma replicate_over_moves:
  assumes inv: "node_inv C E N" and r: "replicate_over C E call urls mut (N, w) = (r, M, w1)"
  shows "node_moves C E N M"
  using r
proof (cases rule: replicate_over_refines)
  case (abstract prepared confirmed)
  with replicate_mutation_step [OF inv, of prepared confirmed mut] show ?thesis by (simp add: good_step_moves)
next
  case (unprepared N1 env u)
  obtain A where A: "snd (try_mutation C mut (abort_uncommitted_primary N)) = (abort_uncommitted_primary N)\<lparr>nd_auth := A\<rparr>"
    using try_mutation_auth by blast
  have N1: "N1 = (abort_uncommitted_primary N)\<lparr>nd_auth := A\<rparr>" using A unprepared(1) by simp
  have "same_core N M" unfolding unprepared(2) N1 by (intro same_core_updates same_core_abort)
  then show ?thesis by (rule good_step_moves [OF same_core_step [OF inv]])
next
  case (committed prepared x)
  with replicate_mutation_step [OF inv, of prepared "\<lambda>_. True" mut] show ?thesis by (simp add: good_step_moves)
qed

section \<open>The same mutation on two nodes\<close>

text \<open>A mutation reads and changes only the authenticator and the ledger, beside the registry file.\<close>

definition same_view :: "node \<Rightarrow> node \<Rightarrow> bool" where
  "same_view N M = (nd_auth M = nd_auth N \<and> nd_registry M = nd_registry N \<and> nd_ledger M = nd_ledger N)"

lemma learn_actor_view: "same_view N M \<Longrightarrow> same_view (learn_actor q N) (learn_actor q M)"
  by (auto simp: same_view_def learn_actor_def split: option.split json.split)

lemma verify_request_actor_view:
  assumes "same_view N M"
  shows "fst (verify_request_actor C q v params b M) = fst (verify_request_actor C q v params b N)
    \<and> same_view (snd (verify_request_actor C q v params b N)) (snd (verify_request_actor C q v params b M))"
proof -
  have l: "same_view (learn_actor q N) (learn_actor q M)" by (rule learn_actor_view [OF assms])
  then have a: "nd_auth (learn_actor q M) = nd_auth (learn_actor q N)" "nd_registry (learn_actor q M) = nd_registry (learn_actor q N)"
    "nd_ledger (learn_actor q M) = nd_ledger (learn_actor q N)"
    by (simp_all add: same_view_def)
  have n: "nd_auth M = nd_auth N" using assms by (simp add: same_view_def)
  show ?thesis
    unfolding verify_request_actor_def Let_def a(1) n
    using assms a by (auto simp: same_view_def split: option.split sum.split prod.split)
qed

lemma actor_check_view:
  assumes "same_view N M"
  shows "fst (actor_check C mut M) = fst (actor_check C mut N) \<and> same_view (snd (actor_check C mut N)) (snd (actor_check C mut M))"
  using verify_request_actor_view [OF assms] assms by (auto simp: actor_check_def same_view_def)

lemma apply_mutation_view:
  assumes "same_view N M"
  shows "fst (apply_mutation C mut b M) = fst (apply_mutation C mut b N)
    \<and> same_view (snd (apply_mutation C mut b N)) (snd (apply_mutation C mut b M))"
proof -
  obtain x N1 where n: "actor_check C mut N = (x, N1)" by (cases "actor_check C mut N")
  obtain y M1 where m: "actor_check C mut M = (y, M1)" by (cases "actor_check C mut M")
  have s: "y = x" "nd_auth M1 = nd_auth N1" "nd_registry M1 = nd_registry N1" "nd_ledger M1 = nd_ledger N1"
    using actor_check_view [OF assms, of C mut] n m by (simp_all add: same_view_def)
  show ?thesis
    unfolding apply_mutation_def n m prod.case s
    using assms s by (auto simp: same_view_def split: option.split sum.split prod.split)
qed

lemma try_mutation_view:
  assumes "same_view N M"
  shows "fst (try_mutation C mut M) = fst (try_mutation C mut N) \<and> same_view (snd (try_mutation C mut N)) (snd (try_mutation C mut M))"
proof -
  have l: "nd_ledger M = nd_ledger N" using assms by (simp add: same_view_def)
  have t: "same_view (N\<lparr>nd_ledger := T\<rparr>) (M\<lparr>nd_ledger := T\<rparr>)" for T using assms by (simp add: same_view_def)
  show ?thesis
  proof (cases "from_snapshot C (ledger_snapshot (nd_ledger N)) None")
    case (Inl e)
    with assms l show ?thesis by (simp add: try_mutation_def)
  next
    case (Inr T)
    obtain x N1 where n: "apply_mutation C mut False (N\<lparr>nd_ledger := T\<rparr>) = (x, N1)" by (cases "apply_mutation C mut False (N\<lparr>nd_ledger := T\<rparr>)")
    obtain y M1 where m: "apply_mutation C mut False (M\<lparr>nd_ledger := T\<rparr>) = (y, M1)" by (cases "apply_mutation C mut False (M\<lparr>nd_ledger := T\<rparr>)")
    have "y = x" "same_view N1 M1" using apply_mutation_view [OF t, of C mut False T] n m by simp_all
    with n m l Inr show ?thesis by (cases x) (auto simp: try_mutation_def same_view_def)
  qed
qed

section \<open>A node behind the connection\<close>

text \<open>
  The request that \<open>_replica_rpc\<close> sends, answered by \<open>dispatch\<close> of the node at \<open>url\<close>; nobody answers elsewhere.
  An exception that leaves \<open>dispatch\<close> closes the connection. \<open>peer\<close> is the identity of the caller.
\<close>

definition node_rpc ::
    "crypto \<Rightarrow> ed25519 \<Rightarrow> node_world \<Rightarrow> int \<Rightarrow> peer_identity option \<Rightarrow> string \<Rightarrow> node_server rpc" where
  "node_rpc C E W now peer url = (\<lambda>u m params S.
     if u \<noteq> url then (None, S)
     else (case dispatch C E W now (JObj [(''id'', JStr m), (''method'', JStr m), (''params'', params)]) peer S of
         (Inl e, S1) \<Rightarrow> (None, S1)
       | (Inr v, S1) \<Rightarrow> (Some v, S1)))"

definition peer_may :: "peer_identity option \<Rightarrow> string \<Rightarrow> bool" where
  "peer_may peer m = (case peer of None \<Rightarrow> True | Some p \<Rightarrow> peer_authorize p (JStr m) = Inr ())"

lemma node_rpc_dead: "u \<noteq> url \<Longrightarrow> node_rpc C E W now peer url u m params S = (None, S)"
  by (simp add: node_rpc_def)

text \<open>A permitted call whose handler succeeds is answered with the handler's result.\<close>

lemma node_rpc_route:
  assumes "obj_fields params \<noteq> None" "(case peer of None \<Rightarrow> Inr () | Some p \<Rightarrow> peer_checks p (JStr m) params) = Inr ()"
    and "route C E W now (JObj [(''id'', JStr m), (''method'', JStr m), (''params'', params)]) (JStr m) params S
      = (Inr (reply (JStr m) v), S1)"
  shows "rpc_result (fst (node_rpc C E W now peer url url m params S)) = Some v"
    "snd (node_rpc C E W now peer url url m params S) = S1"
proof -
  let ?q = "JObj [(''id'', JStr m), (''method'', JStr m), (''params'', params)]"
  have q: "get_or ?q ''id'' JNull = JStr m" "get_or ?q ''method'' JNull = JStr m" "get_or ?q ''params'' (JObj []) = params"
    by (simp_all add: get_or_def obj_get_def obj_fields_def)
  have "dispatch C E W now ?q peer S = (Inr (reply (JStr m) v), S1)"
    unfolding dispatch_def Let_def q using assms by (auto simp: answer_def)
  then show "rpc_result (fst (node_rpc C E W now peer url url m params S)) = Some v"
    "snd (node_rpc C E W now peer url url m params S) = S1"
    by (simp_all add: node_rpc_def rpc_result_def reply_def obj_get_def obj_fields_def)
qed

lemma plain_peer_checks:
  "peer_may peer m \<Longrightarrow> m \<notin> {''cluster.heartbeat'', ''cluster.timeout_vote'', ''cluster.certificate''} \<Longrightarrow>
     (case peer of None \<Rightarrow> Inr () | Some p \<Rightarrow> peer_checks p (JStr m) params) = Inr ()"
  by (auto simp: peer_may_def peer_checks_def split: option.split)

lemma replying_on_node: "f (ns_node S) = (Inr v, R) \<Longrightarrow> replying i (on_node f S) = (Inr (reply i v), S\<lparr>ns_node := R\<rparr>)"
  by (simp add: replying_def map_op_def on_node_def)

lemma replying_read_only: "f (ns_node S) = Inr v \<Longrightarrow> replying i (read_only f S) = (Inr (reply i v), S)"
  by (simp add: replying_def map_op_def read_only_def)

lemma node_rpc_prepare:
  assumes "peer_may peer ''replica.prepare''" "obj_fields env \<noteq> None" "prepare_replica C E env (ns_node S) = (Inr v, R)"
  shows "rpc_result (fst (node_rpc C E W now peer url url ''replica.prepare'' env S)) = Some v"
    "snd (node_rpc C E W now peer url url ''replica.prepare'' env S) = S\<lparr>ns_node := R\<rparr>"
  by (rule node_rpc_route [OF assms(2) plain_peer_checks [OF assms(1)]];
      simp add: route_def get_or_def obj_get_def obj_fields_def replying_on_node [of "prepare_replica C E env", OF assms(3)])+

lemma node_rpc_commit:
  assumes "peer_may peer ''replica.commit''" "obj_fields env \<noteq> None" "commit_replica C E env (ns_node S) = (Inr v, R)"
  shows "rpc_result (fst (node_rpc C E W now peer url url ''replica.commit'' env S)) = Some v"
    "snd (node_rpc C E W now peer url url ''replica.commit'' env S) = S\<lparr>ns_node := R\<rparr>"
  by (rule node_rpc_route [OF assms(2) plain_peer_checks [OF assms(1)]];
      simp add: route_def get_or_def obj_get_def obj_fields_def replying_on_node [of "commit_replica C E env", OF assms(3)])+

lemma node_rpc_position:
  assumes "peer_may peer ''replica.position''" "replica_position (ns_node S) = Inr v"
  shows "rpc_result (fst (node_rpc C E W now peer url url ''replica.position'' (JObj []) S)) = Some v"
    "snd (node_rpc C E W now peer url url ''replica.position'' (JObj []) S) = S"
  by (rule node_rpc_route [OF _ plain_peer_checks [OF assms(1)]];
      simp add: route_def get_or_def obj_get_def obj_fields_def replying_read_only [of replica_position, OF assms(2)])+

section \<open>A replicated write\<close>

text \<open>Peers that do not answer neither prepare nor confirm.\<close>

lemma sync_and_prepare_dead:
  "call u ''replica.position'' (JObj []) w = (None, w) \<Longrightarrow> sync_and_prepare call u env N w = (Inr False, w)"
  by (simp add: sync_and_prepare_def sync_history_def rpc_result_def)

lemma prepare_all_one:
  assumes "distinct urls" "url \<in> set urls" "\<And>u m params w. u \<noteq> url \<Longrightarrow> call u m params w = (None, w)"
    and "sync_and_prepare call url env N w = (Inr True, w1)"
  shows "prepare_all call env N urls w = (Inr 1, w1)"
proof -
  have none: "prepare_all call env N us v = (Inr 0, v)" if "url \<notin> set us" for us v
    using that by (induction us) (auto simp: sync_and_prepare_dead assms(3))
  show ?thesis
    using assms(1,2)
  proof (induction urls)
    case (Cons u us)
    then show ?case
      by (cases "u = url") (auto simp: assms(4) none sync_and_prepare_dead [of call u w] assms(3))
  qed simp
qed

lemma commit_all_one:
  assumes "distinct urls" "url \<in> set urls" "\<And>u m params w. u \<noteq> url \<Longrightarrow> call u m params w = (None, w)"
    and "call url ''replica.commit'' env w = (Some v, w1)" "obj_get v ''result'' = Some x"
    and "obj_fields x \<noteq> None" "py_eq (get_or x ''nonce'' JNull) (JInt nonce)"
  shows "\<exists>resps. ask_all call ''replica.commit'' env urls w = (resps, w1) \<and> any_confirmed nonce resps = Inr True"
proof -
  have none: "ask_all call ''replica.commit'' env us v = (map (\<lambda>_. None) us, v)" if "url \<notin> set us" for us v
    using that by (induction us) (auto simp: assms(3))
  show ?thesis
    using assms(1,2)
  proof (induction urls)
    case (Cons u us)
    show ?case
    proof (cases "u = url")
      case True
      with Cons.prems(1) none assms(4-7) show ?thesis by simp
    next
      case False
      with Cons obtain resps where "ask_all call ''replica.commit'' env us w = (resps, w1)" "any_confirmed nonce resps = Inr True" by auto
      with False show ?thesis by (simp add: assms(3))
    qed
  qed simp
qed

text \<open>A replica in step with its leader.\<close>

definition in_step :: "ed25519 \<Rightarrow> node \<Rightarrow> node \<Rightarrow> bool" where
  "in_step E N R =
     (same_view N R \<and> committed_position R = committed_position N \<and> int (length (nd_log N)) = committed_position N
      \<and> nd_pending N = None \<and> nd_pending R = None
      \<and> (case (nd_repl N, nd_repl R) of (Some k, Some k') \<Rightarrow> same_scheme E k k' (nd_id N) | _ \<Rightarrow> False)
      \<and> nd_leadership N \<noteq> None \<and> leader_of N = nd_id N \<and> nd_leadership R \<noteq> None \<and> leader_of R = nd_id N
      \<and> nd_role R \<in> set ROLE_ORDER \<and> nd_role R \<noteq> nd_id N)"

lemma in_step_position:
  assumes step: "in_step E N R" and "nd_log N2 = nd_log N" "committed_position N2 = committed_position N" "ns_node S = R"
    and "peer_may peer ''replica.position''" "0 \<le> committed_position N"
  shows "sync_history (node_rpc C E W now peer url) url N2 S = (Inr True, S)"
proof -
  let ?v = "JObj [(''node_id'', JStr (nd_id R)), (''nonce'', JInt (committed_position N))]"
  have "replica_position (ns_node S) = Inr ?v"
    using step assms(4) by (auto simp: in_step_def replica_position_def split: option.splits)
  note p = node_rpc_position [OF assms(5) this, of C E W now url]
  obtain resp S1 where c: "node_rpc C E W now peer url url ''replica.position'' (JObj []) S = (resp, S1)"
    by (cases "node_rpc C E W now peer url url ''replica.position'' (JObj []) S")
  have "drop (nat (committed_position N)) (nd_log N) = []" using step by (auto simp: in_step_def)
  with p c assms(2,3,6) step show ?thesis
    by (simp add: sync_history_def in_step_def obj_fields_def get_or_def obj_get_def try_int_def)
qed

lemma mutation_call_replicated:
  assumes "fst (mutation_call C mut L) = Inr r"
  obtains kvs where "mut = JObj kvs" "get_or mut ''method'' JNull \<in> set (map JStr replicated_methods)"
proof -
  from assms obtain m where m: "get_or mut ''method'' JNull = JStr m" "is_ok (bind_method m (get_or mut ''params'' (JObj [])))"
    by (auto simp: mutation_call_def call_ledger_def is_ok_iff split: json.splits sum.splits)
  then have "m \<in> set replicated_methods" by (auto simp: bind_method_def replicated_methods_def split: if_splits)
  moreover from m(1) obtain kvs where "mut = JObj kvs" by (cases mut) (auto simp: get_or_def obj_get_def obj_fields_def)
  ultimately show thesis using m(1) that by simp
qed

lemma verify_in_step:
  assumes "in_step E N R" "nd_repl N = Some k" "replication_sign C E k (nd_id N) (committed_position N + 1) (JObj kvs) = Inr env"
    and "hex_digests C" "ed25519_correct E" "get_or (JObj kvs) ''method'' JNull \<in> set (map JStr replicated_methods)"
    and M: "nd_repl M = nd_repl R" "nd_leadership M = nd_leadership R" "nd_role M = nd_role R" "nd_nonces M = nd_nonces R"
  shows "verify_replica_envelope C E env M = Inr (nd_id N, committed_position N + 1, JObj kvs)"
proof -
  from assms(1,2) obtain k' T where k: "nd_repl R = Some k'" "same_scheme E k k' (nd_id N)" "nd_leadership R = Some T" "ls_leader T = nd_id N"
    "nd_role R \<in> set ROLE_ORDER" "nd_role R \<noteq> nd_id N" "committed_position R = committed_position N"
    by (auto simp: in_step_def leader_of_def split: option.splits)
  have "obj_get env ''leader'' = Some (JStr (nd_id N))"
    using assms(3) by (auto simp: replication_sign_def bindR_Inr_iff obj_get_def obj_fields_def split: if_splits)
  moreover have "replication_verify C E k' env (committed_position N) (nd_id N) = Inr (nd_id N, committed_position N + 1, JObj kvs)"
    using replication_sign_verify [OF assms(3-5) k(2) assms(6)] by simp
  moreover have "leader_of M = nd_id N" "nd_repl M = Some k'" "nd_leadership M = Some T" "nd_role M = nd_role R"
    "committed_position M = committed_position N"
    using M k committed_position_cong [OF M(4)] by (simp_all add: leader_of_def)
  ultimately show ?thesis using k by (auto simp: verify_replica_envelope_def)
qed

lemma replicated_write:
  assumes inv: "node_inv C E N" "node_inv C E (ns_node S)" and L: "locks_exact (nd_ledger N)" "genesis_kept C (nd_ledger N)"
    and step: "in_step E N (ns_node S)" and peers: "distinct urls" "url \<in> set urls"
    and may: "list_all (peer_may peer) [''replica.position'', ''replica.prepare'', ''replica.commit'']"
    and ok: "is_ok (fst (try_mutation C mut N))" and crypto: "hex_digests C" "ed25519_correct E"
    and sign: "nd_repl N = Some k" "replication_sign C E k (nd_id N) (committed_position N + 1) mut = Inr env"
  shows "\<exists>r N' R'. replicate_over C E (node_rpc C E W now peer url) urls mut (N, S) = (Inr r, N', S\<lparr>ns_node := R'\<rparr>)
    \<and> in_step E N' R' \<and> nd_log N' = nd_log N @ [env] \<and> nd_log R' = nd_log (ns_node S) @ [env]
    \<and> mutation_call C mut (nd_ledger N) = (Inr r, nd_ledger N')"
proof -
  let ?call = "node_rpc C E W now peer url" and ?R = "ns_node S" and ?p = "committed_position N"
  obtain N1 where t: "try_mutation C mut N = (Inr (), N1)"
    using ok by (cases "try_mutation C mut N") (auto simp: is_ok_iff)
  obtain A where A: "N1 = N\<lparr>nd_auth := A\<rparr>" using try_mutation_auth [of C mut N] t by auto
  define N2 where "N2 = node_save (N1\<lparr>nd_pending := Some env\<rparr>)"
  have N2: "nd_auth N2 = nd_auth N1" "nd_registry N2 = nd_registry N" "nd_ledger N2 = nd_ledger N" "nd_log N2 = nd_log N"
    "nd_nonces N2 = nd_nonces N" "nd_leadership N2 = nd_leadership N" "nd_id N2 = nd_id N" "nd_repl N2 = nd_repl N"
    by (simp_all add: N2_def A)
  have view: "same_view N ?R" and pos: "0 \<le> ?p" using step inv(1) by (simp_all add: in_step_def node_inv_def)
  obtain R1 where tr: "try_mutation C mut ?R = (Inr (), R1)" "same_view N1 R1"
    using try_mutation_view [OF view, of C mut] t by (cases "try_mutation C mut ?R") auto
  obtain B where B: "R1 = ?R\<lparr>nd_auth := B\<rparr>" using try_mutation_auth [of C mut ?R] tr(1) by auto
  define R2 where "R2 = node_save (R1\<lparr>nd_pending := Some env\<rparr>)"
  have view2: "same_view N2 R2" using tr(2) by (simp add: same_view_def N2_def R2_def)
  have "ledger_inv (nd_ledger N)" using inv(1) by (simp add: node_inv_def)
  from try_mutation_applies [OF this L t, of N2] N2 obtain r where r: "fst (apply_mutation C mut True N2) = Inr r"
    by (auto simp: is_ok_iff)
  obtain A' L' where F: "snd (apply_mutation C mut True N2) = N2\<lparr>nd_auth := A', nd_ledger := L'\<rparr>"
    using apply_mutation_frame by blast
  define N3 where "N3 = N2\<lparr>nd_auth := A', nd_ledger := L'\<rparr>"
  have ap: "apply_mutation C mut True N2 = (Inr r, N3)" using r F by (simp add: N3_def prod_eq_iff)
  have call: "mutation_call C mut (nd_ledger N) = (Inr r, L')"
  proof -
    have "ledger_inv (nd_ledger N2)" using inv(1) N2(3) by (simp add: node_inv_def)
    then show ?thesis
      by (rule apply_mutation_cases [of N2 C mut True]) (use r F N2(3) in \<open>auto simp: prod_eq_iff dest: arg_cong [of _ _ nd_ledger]\<close>)
  qed
  then obtain kvs where mut: "mut = JObj kvs" "get_or mut ''method'' JNull \<in> set (map JStr replicated_methods)"
    using mutation_call_replicated [of C mut "nd_ledger N" r] by auto
  note verify = verify_in_step [OF step sign(1) sign(2) [unfolded mut(1)] crypto mut(2) [unfolded mut(1)]]
  have env: "obj_fields env \<noteq> None" using sign(2) by (auto simp: replication_sign_def bindR_Inr_iff obj_fields_def split: if_splits)
  have pend: "pending_envelope ?R = None" using step by (simp add: in_step_def pending_envelope_def)
  have prepare: "prepare_replica C E env ?R = (Inr (replica_reply R1 (?p + 1) ''state'' (JStr ''prepared'')), R2)"
    using verify [of ?R] tr(1) pend by (simp add: prepare_replica_def mut(1) R2_def B replica_reply_def)
  have R2: "nd_repl R2 = nd_repl ?R" "nd_leadership R2 = nd_leadership ?R" "nd_role R2 = nd_role ?R" "nd_nonces R2 = nd_nonces ?R"
    "nd_pending R2 = Some env" "nd_log R2 = nd_log ?R" "nd_id R2 = nd_id ?R"
    by (simp_all add: R2_def B)
  obtain y R3 where R3: "apply_mutation C mut True R2 = (y, R3)" by (cases "apply_mutation C mut True R2")
  with apply_mutation_view [OF view2, of C mut True] ap have y: "y = Inr r" "same_view N3 R3" by simp_all
  obtain B' K' where K: "R3 = R2\<lparr>nd_auth := B', nd_ledger := K'\<rparr>" using apply_mutation_frame [of C mut True R2] R3 by auto
  define R4 where "R4 = record_commit (nd_id N) (?p + 1) env R3"
  let ?x = "replica_reply R3 (?p + 1) ''mutation'' r"
  have commit: "commit_replica C E env R2 = (Inr ?x, R4)"
    using verify [of R2] R2 R3 y(1) by (simp add: commit_replica_def mut(1) R4_def replica_reply_def K)
  define S2 where "S2 = S\<lparr>ns_node := R2\<rparr>"
  have may: "peer_may peer ''replica.position''" "peer_may peer ''replica.prepare''" "peer_may peer ''replica.commit''"
    using may by simp_all
  have "sync_history ?call url N2 S = (Inr True, S)"
    by (rule in_step_position [OF step N2(4) committed_position_cong [OF N2(5)] refl may(1) pos])
  with node_rpc_prepare [OF may(2) env prepare, of W now url] have "sync_and_prepare ?call url env N2 S = (Inr True, S2)"
    by (cases "?call url ''replica.prepare'' env S") (simp add: sync_and_prepare_def S2_def)
  from prepare_all_one [OF peers node_rpc_dead this] have prep: "prepare_all ?call env N2 urls S = (Inr 1, S2)" .
  have "ns_node S2 = R2" by (simp add: S2_def)
  note com = node_rpc_commit [OF may(3) env commit [folded this], of W now url]
  obtain v where v: "?call url ''replica.commit'' env S2 = (Some v, S\<lparr>ns_node := R4\<rparr>)" "obj_get v ''result'' = Some ?x"
    using com by (cases "?call url ''replica.commit'' env S2") (auto simp: rpc_result_def S2_def split: option.splits)
  have x: "obj_fields ?x \<noteq> None" "py_eq (get_or ?x ''nonce'' JNull) (JInt (?p + 1))"
    by (simp_all add: replica_reply_def get_or_def obj_get_def obj_fields_def)
  obtain resps where c: "ask_all ?call ''replica.commit'' env urls S2 = (resps, S\<lparr>ns_node := R4\<rparr>)"
      "any_confirmed (?p + 1) resps = Inr True"
    using commit_all_one [of urls url ?call env S2 v "S\<lparr>ns_node := R4\<rparr>" ?x "?p + 1"] peers node_rpc_dead v x by blast
  define N4 where "N4 = record_commit (nd_id N) (?p + 1) env N3"
  have N3: "nd_id N3 = nd_id N" by (simp add: N3_def N2)
  have abort: "abort_pending ?call urls N S = (N, S)" using step by (simp add: abort_pending_def pending_envelope_def in_step_def)
  have lead: "\<not> ((\<exists>T. nd_leadership N = Some T) \<and> leader_of N \<noteq> nd_id N)" using step by (simp add: in_step_def)
  have N1: "committed_position N1 = ?p" "nd_id N1 = nd_id N" by (simp_all add: A committed_position_def)
  have run: "replicate_over C E ?call urls mut (N, S) = (Inr r, N4, S\<lparr>ns_node := R4\<rparr>)"
    using prep ap c sign lead
    by (simp add: replicate_over_def abort t N1 N3 N2_def [symmetric] N4_def Let_def)
  have "committed_position R4 = ?p + 1"
    by (rule committed_position_commit [of ?R _ _ "nd_id N"]) (use step pos in \<open>simp_all add: in_step_def R4_def record_commit_def K R2\<close>)
  moreover have "committed_position N4 = ?p + 1"
    by (rule committed_position_commit [of N _ _ "nd_id N"]) (use pos in \<open>simp_all add: N4_def record_commit_def N3_def N2\<close>)
  moreover have "same_view N4 R4" using y(2) by (simp add: same_view_def N4_def R4_def record_commit_def)
  moreover have "leader_of N4 = leader_of N" "leader_of R4 = leader_of ?R"
    by (simp_all add: leader_of_def N4_def R4_def record_commit_def N3_def N2 K R2 split: option.split)
  moreover have "nd_repl N4 = nd_repl N" "nd_repl R4 = nd_repl ?R" "nd_id N4 = nd_id N" "nd_role R4 = nd_role ?R"
    "nd_leadership N4 = None \<longleftrightarrow> nd_leadership N = None" "nd_leadership R4 = None \<longleftrightarrow> nd_leadership ?R = None"
    "nd_pending N4 = None" "nd_pending R4 = None" "nd_log N4 = nd_log N @ [env]" "nd_log R4 = nd_log ?R @ [env]"
    "nd_ledger N4 = L'"
    by (simp_all add: N4_def R4_def record_commit_def N3_def N2 K R2)
  ultimately show ?thesis
    using step call run
    by - (rule exI [of _ r], rule exI [of _ N4], rule exI [of _ R4], simp add: in_step_def split: option.splits)
qed

section \<open>Properties\<close>

text \<open>C7. A write that one replica can take is committed on both nodes: the leader and one replica in step (same
  ledger, accounts and position, nothing pending, shared key material), the other peers all dead or not, in
  any order. When the trial of the mutation passes on the leader, \<open>replicate_mutation\<close> returns the ledger's
  result; both nodes have appended the leader's envelope to their logs and hold the same ledger, and they are
  in step again, ready for the next write. The replica is a node behind \<open>dispatch\<close>, with the checks of the
  TLS peer.\<close>

theorem replicated_write_commits:
  assumes "node_inv C E N" "node_inv C E (ns_node S)" "locks_exact (nd_ledger N)" "genesis_kept C (nd_ledger N)"
    and "in_step E N (ns_node S)" "distinct urls" "url \<in> set urls"
    and "list_all (peer_may peer) [''replica.position'', ''replica.prepare'', ''replica.commit'']"
    and "is_ok (fst (try_mutation C mut N))" "hex_digests C" "ed25519_correct E"
    and "nd_repl N = Some k" "replication_sign C E k (nd_id N) (committed_position N + 1) mut = Inr env"
  shows "\<exists>r N' R'. replicate_over C E (node_rpc C E W now peer url) urls mut (N, S) = (Inr r, N', S\<lparr>ns_node := R'\<rparr>)
    \<and> in_step E N' R' \<and> nd_log N' = nd_log N @ [env] \<and> nd_log R' = nd_log (ns_node S) @ [env]
    \<and> mutation_call C mut (nd_ledger N) = (Inr r, nd_ledger N')"
  by (rule replicated_write [OF assms])

definition sample_primary :: node where
  "sample_primary = sample_node\<lparr>nd_id := ''primary'', nd_role := ''primary''\<rparr>"

definition sample_replica :: node_server where
  "sample_replica = \<lparr>ns_node = sample_node, ns_ecosystem = projr (ecosystem_init sample_crypto)\<rparr>"

lemma sample_primary_tries: "is_ok (fst (try_mutation ascii_crypto sample_mutation sample_primary))"
  by code_simp

lemma sample_primary_inv: "node_inv ascii_crypto sample_ed sample_primary"
  using sample_node_inv by (simp add: sample_primary_def node_inv_def committed_position_def)

lemma sample_in_step: "in_step sample_ed sample_primary sample_node"
  by (simp add: in_step_def same_view_def sample_primary_def sample_node_def committed_position_def sample_secret_def
      leader_of_def sample_start_facts ROLE_ORDER_def)

theorem replicated_write_commits_witness:
  "\<exists>r N' R'. replicate_over ascii_crypto sample_ed
        (node_rpc ascii_crypto sample_ed empty_world 0 None ''ws://b'') [''ws://b'', ''ws://c''] sample_mutation
        (sample_primary, sample_replica) = (Inr r, N', sample_replica\<lparr>ns_node := R'\<rparr>)
    \<and> nd_log N' = [sample_envelope 1] \<and> nd_log R' = [sample_envelope 1] \<and> nd_ledger R' = nd_ledger N'"
proof -
  have s: "ns_node sample_replica = sample_node" by (simp add: sample_replica_def)
  have N: "nd_ledger sample_primary = sample_ledger" "nd_repl sample_primary = Some sample_secret" "nd_log sample_primary = []"
    "nd_id sample_primary = ''primary''" "committed_position sample_primary = 0" "nd_log sample_node = []"
    by (simp_all add: sample_primary_def sample_node_def committed_position_def)
  have "locks_exact (nd_ledger sample_primary)" "genesis_kept ascii_crypto (nd_ledger sample_primary)"
    using ledger_init_fields [OF sample_init] by (simp_all add: N(1) locks_exact_def genesis_kept_def open_locks_def)
  moreover have "replication_sign ascii_crypto sample_ed sample_secret (nd_id sample_primary)
      (committed_position sample_primary + 1) sample_mutation = Inr (sample_envelope 1)"
    using sample_envelope_signed N by (simp add: sample_mutation_def)
  ultimately show ?thesis
    using replicated_write_commits [of ascii_crypto sample_ed sample_primary sample_replica "[''ws://b'', ''ws://c'']" "''ws://b''"
        None sample_mutation sample_secret "sample_envelope 1" empty_world 0]
      sample_primary_inv sample_node_inv sample_in_step sample_primary_tries hex_ascii_crypto sample_ed_correct N
    by (fastforce simp: s peer_may_def in_step_def same_view_def)
qed

end
