(* ===== verification/Cluster_Elections.thy ===== *)
theory Cluster_Elections
  imports Cluster_Writes
begin

text \<open>
  Elections over the network: what a node that becomes the leader in its own failover step has done
  before, and the election that two survivors complete, the candidate with \<open>failover_step\<close> and the witness
  behind \<open>dispatch\<close>.
\<close>

section \<open>Becoming the leader\<close>

lemma failover_takeover_facts:
  assumes inv: "node_inv C E N" and now: "0 \<le> now" and r: "failover_step C E call urls now (N, w) = (r, M, w1)"
    and S: "nd_leadership N = Some S" and T: "nd_leadership M = Some T" and new: "ls_certs T \<noteq> ls_certs S"
  shows "ls_leader T = nd_id M \<and> ls_term T = ls_term S + 1 \<and> successor S = Inr (nd_id N)
    \<and> ls_timeout S \<le> now - ls_heartbeat S \<and> nd_pending M = None \<and> int (length (nd_log M)) = committed_position M"
proof -
  let ?N = "first_beat now N"
  let ?S = "if ls_heartbeat S = 0 then S\<lparr>ls_heartbeat := now\<rparr> else S"
  have B: "nd_leadership ?N = Some ?S" "nd_id ?N = nd_id N" using S by (simp_all add: first_beat_def)
  have I: "node_inv C E ?N" using first_beat_moves [OF inv now] node_moves_inv by blast
  show ?thesis
    using r
  proof (cases rule: failover_step_cases)
    case idle
    with B T new show ?thesis by (auto split: if_splits)
  next
    case (lead L)
    with leader_turn_moves [OF I lead(1), of call "map snd urls" now w] B T new show ?thesis by (auto split: if_splits)
  next
    case (reconcile L url x N1 w2)
    have L: "L = ?S" using B reconcile(1) by simp
    have "2 \<le> ls_timeout S" using inv S by (simp add: node_inv_def leadership_inv_def)
    then have beat: "ls_heartbeat S \<noteq> 0" "L = S" using reconcile(3) L by (auto split: if_splits)
    note c = reconcile_catches_up [OF I reconcile(4)]
    have N1: "node_inv C E N1" using catches_up_inv [OF c(1)] .
    obtain S1 where S1: "nd_leadership N1 = Some S1" "S1\<lparr>ls_nonce := 0\<rparr> = S\<lparr>ls_nonce := 0\<rparr>" "nd_id N1 = nd_id N"
      using c(1) reconcile(1) B(2) beat(2) by (auto simp: catches_up_def same_leader_def map_option_case split: option.splits)
    have same: "ls_certs S1 = ls_certs S" "ls_term S1 = ls_term S" "ls_leader S1 = ls_leader S"
      using arg_cong [OF S1(2), of ls_certs] arg_cong [OF S1(2), of ls_term] arg_cong [OF S1(2), of ls_leader] by simp_all
    from reconcile(5) S1(1) T new same obtain cert where M: "x = Inr True" "M = snd (record_leadership_certificate C E cert N1)"
      by auto
    from record_certificate_takes [OF N1 S1(1), of cert T] T new same M(2)
    have t: "successor S1 = Inr (ls_leader T)" "ls_term T = ls_term S1 + 1" "nd_pending M = None" "nd_log M = nd_log N1"
      "committed_position M = committed_position N1" "nd_id M = nd_id N1"
      by simp_all
    have "successor S1 = successor S" using same by (simp add: successor_def)
    then show ?thesis using t c(2) [OF M(1)] reconcile(2,3) same beat S1(3) B(2) by auto
  qed
qed

text \<open>C8. Who leads has caught up: when a failover step ends with a new certificate, whatever the other nodes
  answered, then the node itself is the new leader, as the successor of the silent leader, in the next term, the
  heartbeat had timed out, nothing is left prepared, and its log holds an entry for every committed position.\<close>

theorem failover_takeover_caught_up:
  assumes "node_inv C E N" "0 \<le> now" "failover_step C E call urls now (N, w) = (r, M, w1)"
    and "nd_leadership N = Some S" "nd_leadership M = Some T" "ls_certs T \<noteq> ls_certs S"
  shows "ls_leader T = nd_id M \<and> ls_term T = ls_term S + 1 \<and> successor S = Inr (nd_id N)
    \<and> ls_timeout S \<le> now - ls_heartbeat S \<and> nd_pending M = None \<and> int (length (nd_log M)) = committed_position M"
  by (rule failover_takeover_facts [OF assms])

section \<open>The witness behind the connection\<close>

lemma node_rpc_history:
  assumes "peer_may peer ''replica.history''" "replica_history C params (ns_node S) = Inr v" "obj_fields params \<noteq> None"
  shows "rpc_result (fst (node_rpc C E W now peer url url ''replica.history'' params S)) = Some v"
    "snd (node_rpc C E W now peer url url ''replica.history'' params S) = S"
  by (rule node_rpc_route [OF assms(3) plain_peer_checks [OF assms(1)]];
      simp add: route_def get_or_def obj_get_def obj_fields_def replying_read_only [of "replica_history C params", OF assms(2)])+

lemma node_rpc_leadership:
  assumes "peer_may peer ''cluster.leadership''" "cluster_leadership (ns_node S) = Inr v"
  shows "rpc_result (fst (node_rpc C E W now peer url url ''cluster.leadership'' (JObj []) S)) = Some v"
    "snd (node_rpc C E W now peer url url ''cluster.leadership'' (JObj []) S) = S"
  by (rule node_rpc_route [OF _ plain_peer_checks [OF assms(1)]];
      simp add: route_def get_or_def obj_get_def obj_fields_def replying_read_only [of cluster_leadership, OF assms(2)])+

lemma node_rpc_vote:
  assumes "peer_may peer ''cluster.timeout_vote''" "\<And>p. peer = Some p \<Longrightarrow> pi_node p = fl_voter v"
    and "receive_timeout_vote C E now (JObj [(''vote'', fl_public v), (''ledger_digest'', JStr d)]) (ns_node S) = Inr x"
  shows "rpc_result (fst (node_rpc C E W now peer url url ''cluster.timeout_vote''
      (JObj [(''vote'', fl_public v), (''ledger_digest'', JStr d)]) S)) = Some x"
    "snd (node_rpc C E W now peer url url ''cluster.timeout_vote'' (JObj [(''vote'', fl_public v), (''ledger_digest'', JStr d)]) S) = S"
proof -
  let ?p = "JObj [(''vote'', fl_public v), (''ledger_digest'', JStr d)]"
  have "(case peer of None \<Rightarrow> Inr () | Some q \<Rightarrow> peer_checks q (JStr ''cluster.timeout_vote'') ?p) = Inr ()"
    using assms(1,2)
    by (auto simp: peer_may_def peer_checks_def get_or_def obj_get_def obj_fields_def fl_public_def fl_unsigned_fields_def split: option.split)
  note r = node_rpc_route [OF _ this, of C E W now S x S url]
  show "rpc_result (fst (node_rpc C E W now peer url url ''cluster.timeout_vote'' ?p S)) = Some x"
    "snd (node_rpc C E W now peer url url ''cluster.timeout_vote'' ?p S) = S"
    by (rule r; simp add: route_def get_or_def obj_get_def obj_fields_def replying_read_only [of "receive_timeout_vote C E now ?p", OF assms(3)])+
qed

lemma node_rpc_certificate:
  assumes "peer_may peer ''cluster.certificate''" "\<And>p. peer = Some p \<Longrightarrow> pi_node p = lc_leader c"
    and "receive_certificate C E (lc_public c) (ns_node S) = (Inr x, R)"
  shows "rpc_result (fst (node_rpc C E W now peer url url ''cluster.certificate'' (lc_public c) S)) = Some x"
    "snd (node_rpc C E W now peer url url ''cluster.certificate'' (lc_public c) S) = S\<lparr>ns_node := R\<rparr>"
proof -
  have "(case peer of None \<Rightarrow> Inr () | Some q \<Rightarrow> peer_checks q (JStr ''cluster.certificate'') (lc_public c)) = Inr ()"
    using assms(1,2)
    by (auto simp: peer_may_def peer_checks_def get_or_def obj_get_def obj_fields_def lc_public_def split: option.split)
  note r = node_rpc_route [OF _ this, of C E W now S x "S\<lparr>ns_node := R\<rparr>" url]
  show "rpc_result (fst (node_rpc C E W now peer url url ''cluster.certificate'' (lc_public c) S)) = Some x"
    "snd (node_rpc C E W now peer url url ''cluster.certificate'' (lc_public c) S) = S\<lparr>ns_node := R\<rparr>"
    by (rule r; simp add: route_def get_or_def obj_get_def obj_fields_def lc_public_def [of c]
        replying_on_node [of "receive_certificate C E (lc_public c)", OF assms(3), unfolded lc_public_def])+
qed

section \<open>An election\<close>

text \<open>A candidate and the witness that agree on everything committed, with nothing prepared.\<close>

definition election_ready :: "crypto \<Rightarrow> node \<Rightarrow> node \<Rightarrow> leadership \<Rightarrow> leadership \<Rightarrow> bool" where
  "election_ready C N R L K =
     (nd_leadership N = Some L \<and> nd_leadership R = Some K
      \<and> ls_authority K = ls_authority L \<and> ls_timeout K = ls_timeout L \<and> ls_certs K = ls_certs L
      \<and> committed_position R = committed_position N
      \<and> int (length (nd_log N)) = committed_position N \<and> int (length (nd_log R)) = committed_position R
      \<and> nd_pending N = None \<and> nd_pending R = None
      \<and> is_ok (ledger_digest C N) \<and> ledger_digest C R = ledger_digest C N
      \<and> nd_repl R \<noteq> None \<and> nd_role R \<noteq> ls_leader K
      \<and> successor L = Inr (nd_id N) \<and> witness_role (ls_leader L) (nd_id N) = Some (nd_id R))"

lemma reconcile_ready:
  assumes ready: "election_ready C N (ns_node S) L K" and "0 \<le> committed_position N"
    and may: "peer_may peer ''replica.position''" "peer_may peer ''replica.history''"
  shows "reconcile_witness C E (node_rpc C E W now peer url) url (N, S) = (Inr True, N, S)"
proof -
  let ?call = "node_rpc C E W now peer url" and ?R = "ns_node S" and ?p = "committed_position N"
  obtain d where d: "ledger_digest C N = Inr d" "ledger_digest C ?R = Inr d"
    using ready by (auto simp: election_ready_def is_ok_iff)
  let ?v = "JObj [(''node_id'', JStr (nd_id ?R)), (''nonce'', JInt ?p)]"
  have "replica_position ?R = Inr ?v"
    using ready by (auto simp: election_ready_def replica_position_def leader_of_def)
  note pos = node_rpc_position [OF may(1) this, of C E W now url]
  let ?q = "JObj [(''from'', JInt ?p)]"
  have "replica_history C ?q ?R = Inr (JObj [(''node_id'', JStr (nd_id ?R)), (''nonce'', JInt ?p),
      (''entries'', JList (take 10 (drop (nat ?p) (nd_log ?R)))), (''ledger_digest'', JStr d)])"
    using ready assms(2) by (simp add: election_ready_def replica_history_def get_or_def obj_get_def obj_fields_def d)
  note hist = node_rpc_history [OF may(2) this, of E W now url]
  obtain a S1 where a: "?call url ''replica.position'' (JObj []) S = (a, S1)" by (cases "?call url ''replica.position'' (JObj []) S")
  obtain b S2 where b: "?call url ''replica.history'' ?q S = (b, S2)" by (cases "?call url ''replica.history'' ?q S")
  have "confirm_witness C ?call url N S = (Inr True, S)"
    using hist b d by (simp add: confirm_witness_def obj_fields_def get_or_def obj_get_def)
  then show ?thesis
    using pos a ready by (simp add: reconcile_witness_def election_ready_def obj_get_def obj_fields_def try_int_def)
qed

text \<open>The witness signs the vote of the candidate.\<close>

lemma witness_votes:
  assumes ready: "election_ready C N R L K" and inv: "node_inv C E N" "node_inv C E R"
    and A: "failover_init (Some ks) None = Inr (ls_authority L)" and "hex_digests C"
    and t: "ls_timeout K \<le> now - ls_heartbeat K" "\<bar>now - now'\<bar> \<le> 1"
    and v: "failover_vote C E (ls_authority L) (nd_id N) (ls_term L + 1) (ls_leader L) (nd_id N) now (committed_position N) = Inr v"
    and w: "failover_vote C E (ls_authority L) (nd_id R) (ls_term L + 1) (ls_leader L) (nd_id N) now (committed_position N) = Inr w"
    and d: "ledger_digest C N = Inr d" and valid: "vote_verify C E (ls_authority L) v = Inr True"
  shows "receive_timeout_vote C E now' (JObj [(''vote'', fl_public v), (''ledger_digest'', JStr d)]) R = Inr (fl_public w)"
proof -
  have v': "fl_voter v = nd_id N" "fl_term v = ls_term L + 1" "fl_accused v = ls_leader L" "fl_candidate v = nd_id N"
    "fl_tick v = now" "fl_nonce v = committed_position N"
    using v by (auto simp: failover_vote_def bindR_Inr_iff)
  have c: "certified C E L" "certified C E K" using inv ready by (auto simp: node_inv_def election_ready_def leadership_inv_def)
  have same: "ls_term K = ls_term L" "ls_leader K = ls_leader L"
    using certified_heartbeat [OF c] ready by (auto simp: election_ready_def)
  have succ: "successor K = Inr (nd_id N)" "ls_leader K \<noteq> ''tertiary''"
    using ready same by (auto simp: election_ready_def successor_def ROLE_ORDER_def)
  have read: "read_timeout_vote (JObj [(''vote'', fl_public v), (''ledger_digest'', JStr d)]) = Inr (v, JStr d)"
    by (simp add: read_timeout_vote_def Let_def obj_get_def obj_fields_def read_vote_public guard_read_def)
      (simp add: fl_public_def)
  show ?thesis
    using ready v' same succ t w d valid
    by (simp add: receive_timeout_vote_def read election_ready_def Let_def)
qed

lemma survivors:
  assumes "successor L = Inr c" "witness_role (ls_leader L) c = Some r"
  shows "{c, r} = set ROLE_ORDER - {ls_leader L}" "c \<noteq> r" "ls_leader L \<noteq> c" "ls_leader L \<noteq> ''tertiary''" "c \<in> set ROLE_ORDER" "r \<in> set ROLE_ORDER"
proof -
  from assms(1) have "ls_leader L = ''primary'' \<and> c = ''secondary'' \<or> ls_leader L = ''secondary'' \<and> c = ''tertiary''"
    by (auto simp: successor_def ROLE_ORDER_def split: if_splits)
  then show "{c, r} = set ROLE_ORDER - {ls_leader L}" "c \<noteq> r" "ls_leader L \<noteq> c" "ls_leader L \<noteq> ''tertiary''" "c \<in> set ROLE_ORDER" "r \<in> set ROLE_ORDER"
    using assms(2) by (auto simp: witness_role_def ROLE_ORDER_def)
qed

lemma record_certificate_accepts:
  assumes "nd_leadership N = Some K" "ls_nonce K = committed_position N" "accept_certificate C E c K = (Inr (), K')"
    and "ls_certs K' \<noteq> ls_certs K"
  shows "record_leadership_certificate C E c N = (Inr (), node_save (N\<lparr>nd_leadership := Some K', nd_pending := None\<rparr>))"
proof -
  have "c \<notin> set (ls_certs K)" using accept_certificate_again [of c K C E] assms(3,4) by auto
  then have "\<not> (ls_certs K \<noteq> [] \<and> c = List.last (ls_certs K))" by auto
  with assms(1-3) show ?thesis by (auto simp: record_leadership_certificate_def)
qed

lemma submit_counts: "fst (submit C E v L) = Inr x \<Longrightarrow> vote_verify C E (ls_authority L) v = Inr True"
  by (auto simp: submit_def split: sum.splits if_splits)

lemma failover_elects_facts:
  assumes inv: "node_inv C E N" "node_inv C E (ns_node S)" and ready: "election_ready C N (ns_node S) L K"
    and A: "failover_init (Some ks) None = Inr (ls_authority L)" and hex: "hex_digests C"
    and url: "map_of urls (nd_id (ns_node S)) = Some url" "url \<noteq> []"
    and may: "list_all (peer_may peer) [''replica.position'', ''replica.history'', ''cluster.leadership'',
        ''cluster.timeout_vote'', ''cluster.certificate'']" and own: "\<And>p. peer = Some p \<Longrightarrow> pi_node p = nd_id N"
    and late: "ls_heartbeat L \<noteq> 0" "ls_timeout L \<le> now - ls_heartbeat L" "ls_timeout L \<le> now - ls_heartbeat K"
    and clock: "\<bar>now - now'\<bar> \<le> 1"
  shows "\<exists>c N' R'. failover_step C E (node_rpc C E W now' peer url) urls now (N, S) = (Inr (), N', S\<lparr>ns_node := R'\<rparr>)
    \<and> nd_leadership N' = Some (L\<lparr>ls_term := ls_term L + 1, ls_leader := nd_id N, ls_heartbeat := now, ls_votes := [], ls_certs := ls_certs L @ [c]\<rparr>)
    \<and> nd_leadership R' = Some (K\<lparr>ls_term := ls_term L + 1, ls_leader := nd_id N, ls_heartbeat := now, ls_votes := [], ls_certs := ls_certs L @ [c]\<rparr>)
    \<and> nd_ledger N' = nd_ledger N \<and> nd_ledger R' = nd_ledger (ns_node S)"
proof -
  let ?call = "node_rpc C E W now' peer url" and ?R = "ns_node S" and ?p = "committed_position N"
  have e: "nd_leadership N = Some L" "nd_leadership ?R = Some K" "ls_authority K = ls_authority L" "ls_timeout K = ls_timeout L"
    "ls_certs K = ls_certs L" "committed_position ?R = ?p" "successor L = Inr (nd_id N)"
    "witness_role (ls_leader L) (nd_id N) = Some (nd_id ?R)"
    using ready by (simp_all add: election_ready_def)
  have I: "leadership_inv C E L" "ls_nonce L = ?p" "ls_votes L = []" "leadership_inv C E K" "ls_nonce K = ?p" "ls_votes K = []" "0 \<le> ?p"
    using inv e by (auto simp: node_inv_def)
  note roles = survivors [OF e(7,8)]
  obtain d where d: "ledger_digest C N = Inr d" using ready by (auto simp: election_ready_def is_ok_iff)
  have L: "certified C E L" "2 \<le> ls_timeout L" and K: "certified C E K" using I by (auto simp: leadership_inv_def)
  have same: "ls_term K = ls_term L" "ls_leader K = ls_leader L" using certified_heartbeat [OF L(1) K] e(3-5) by simp_all
  from A have keys: "ls_authority L = VoteKeys ks" "set (keys ks) = set ROLE_ORDER"
    by (auto simp: failover_init_def split: if_splits)
  have vote: "is_ok (failover_vote C E (ls_authority L) role t a c b n)" if "role \<in> set ROLE_ORDER" for role t a c b n
  proof -
    have "role \<in> fst ` set ks" using that keys(2) by (simp add: keys_def)
    then obtain key where "map_of ks role = Some key" by (auto simp: map_of_eq_None_iff [symmetric] dest: weak_map_of_SomeI)
    then show ?thesis unfolding keys(1) by (rule failover_vote_ok)
  qed
  obtain v where v: "failover_vote C E (ls_authority L) (nd_id N) (ls_term L + 1) (ls_leader L) (nd_id N) now (ls_nonce L) = Inr v"
    using vote [OF roles(5), of "ls_term L + 1" "ls_leader L" "nd_id N" now "ls_nonce L"] by (auto simp: is_ok_iff)
  obtain w where w: "failover_vote C E (ls_authority L) (nd_id ?R) (ls_term L + 1) (ls_leader L) (nd_id N) now (ls_nonce L) = Inr w"
    using vote [OF roles(6), of "ls_term L + 1" "ls_leader L" "nd_id N" now "ls_nonce L"] by (auto simp: is_ok_iff)
  let ?L1 = "L\<lparr>ls_votes := [(nd_id N, v)]\<rparr>"
  obtain c where c: "submit C E v L = (Inr None, ?L1)" "submit C E w ?L1 = (Inr (Some c), L\<lparr>ls_term := ls_term L + 1,
      ls_leader := nd_id N, ls_heartbeat := now, ls_votes := [], ls_certs := ls_certs L @ [c]\<rparr>)"
    using survivors_certify [OF A hex refl I(3) e(7) late(2) roles(1,2) v w] by blast
  have L1: "leadership_inv C E ?L1" using submit_inv [OF I(1), of v] c(1) by simp
  have valid: "vote_verify C E (ls_authority L) v = Inr True" using submit_counts [of C E v L] c(1) by simp
  have ok: "accept_certificate C E c M = (Inr (), M\<lparr>ls_term := ls_term L + 1, ls_leader := nd_id N, ls_heartbeat := now,
        ls_votes := [], ls_certs := ls_certs L @ [c]\<rparr>)" "lc_leader c = nd_id N"
    if "leadership_inv C E M" "ls_authority M = ls_authority L" "ls_timeout M = ls_timeout L" "ls_certs M = ls_certs L" "ls_nonce M = ls_nonce L" for M
    using certificate_travels [OF that(1) L1, of w c] that(2-5) c(2) by simp_all
  note okL = ok [OF I(1) refl refl refl refl] and okK = ok(1) [OF I(4) e(3-5)]
  let ?K' = "K\<lparr>ls_term := ls_term L + 1, ls_leader := nd_id N, ls_heartbeat := now, ls_votes := [], ls_certs := ls_certs L @ [c]\<rparr>"
  let ?L' = "L\<lparr>ls_term := ls_term L + 1, ls_leader := nd_id N, ls_heartbeat := now, ls_votes := [], ls_certs := ls_certs L @ [c]\<rparr>"
  define R' where "R' = node_save (?R\<lparr>nd_leadership := Some ?K', nd_pending := None\<rparr>)"
  define N' where "N' = node_save (N\<lparr>nd_leadership := Some ?L', nd_pending := None\<rparr>)"
  have aK: "accept_certificate C E c K = (Inr (), ?K')" using okK I by simp
  have recR: "record_leadership_certificate C E c ?R = (Inr (), R')"
    unfolding R'_def by (rule record_certificate_accepts [OF e(2) _ aK]) (simp_all add: e(5,6) I(5))
  have recN: "record_leadership_certificate C E c N = (Inr (), N')"
    unfolding N'_def by (rule record_certificate_accepts [OF e(1) I(2) okL(1)]) simp
  have "receive_certificate C E (lc_public c) ?R = (Inr (leadership_reply R' ?K'), R')"
    by (simp add: receive_certificate_def read_certificate_public guard_read_def recR) (simp add: R'_def)
  note cert = node_rpc_certificate [of peer c C E S _ R' W now' url, OF _ _ this]
  have "L\<lparr>ls_authority := ls_authority L, ls_votes := []\<rparr> = L" using I(3) by (cases L) simp
  moreover have "leadership_check C E L = Inr L" using L(1) by (simp add: leadership_check_Inr)
  ultimately have "leadership_restore C E (ls_authority L) (leadership_snapshot L) = Inr L"
    using leadership_restore_snapshot [OF L(2), of C E "ls_authority L"] by simp
  then have trial: "trial_certificate C E L v (fl_public w) = Inr (Some c)"
    using c by (simp add: trial_certificate_def read_vote_public)
  note votes = witness_votes [OF ready inv A hex _ clock v [unfolded I(2)] w [unfolded I(2)] d valid]
  have voter: "fl_voter v = nd_id N" using v by (auto simp: failover_vote_def bindR_Inr_iff)
  let ?q = "JObj [(''vote'', fl_public v), (''ledger_digest'', JStr d)]"
  have may': "peer_may peer ''replica.position''" "peer_may peer ''replica.history''" "peer_may peer ''cluster.leadership''"
      "peer_may peer ''cluster.timeout_vote''" "peer_may peer ''cluster.certificate''"
    using may by simp_all
  have "cluster_leadership ?R = Inr (leadership_snapshot K)" using e by (simp add: cluster_leadership_def)
  note asked = node_rpc_leadership [OF may'(3) this, of C E W now' url]
  have voted: "rpc_result (fst (?call url ''cluster.timeout_vote'' ?q S)) = Some (fl_public w)" "snd (?call url ''cluster.timeout_vote'' ?q S) = S"
    using node_rpc_vote [of peer v C E now' d S "fl_public w" W url] may'(4) own voter votes late(3) e(4) by auto
  have certified: "rpc_result (fst (?call url ''cluster.certificate'' (lc_public c) S)) \<noteq> None"
      "snd (?call url ''cluster.certificate'' (lc_public c) S) = S\<lparr>ns_node := R'\<rparr>"
    using cert may'(5) own okL(2) by auto
  have fields: "obj_fields (leadership_snapshot K) \<noteq> None" "get_or (leadership_snapshot K) ''term'' JNull = JInt (ls_term L)"
    by (simp_all add: leadership_snapshot_def obj_fields_def get_or_def obj_get_def same)
  obtain a S1 where a: "?call url ''cluster.leadership'' (JObj []) S = (a, S1)" by (cases "?call url ''cluster.leadership'' (JObj []) S")
  obtain b S2 where b: "?call url ''cluster.timeout_vote'' ?q S = (b, S2)" by (cases "?call url ''cluster.timeout_vote'' ?q S")
  obtain g S3 where g: "?call url ''cluster.certificate'' (lc_public c) S = (g, S3)" by (cases "?call url ''cluster.certificate'' (lc_public c) S")
  have candidate: "candidate_turn C E ?call url now L (N, S) = (Inr (), N', S\<lparr>ns_node := R'\<rparr>)"
    using asked voted certified a b g fields v [unfolded I(2)] d trial recN
    by (auto simp: candidate_turn_def py_eq_def)
  have first: "first_beat now N = N" using e(1) late(1) by (simp add: first_beat_def)
  have "failover_step C E ?call urls now (N, S) = (Inr (), N', S\<lparr>ns_node := R'\<rparr>)"
    using e roles late(2) url reconcile_ready [OF ready I(7) may'(1,2)] candidate
    by (simp add: failover_step_def first Let_def)
  then show ?thesis
    by - (rule exI [of _ c], rule exI [of _ N'], rule exI [of _ R'], simp add: N'_def R'_def)
qed

text \<open>C9. The survivors elect a new leader over the network: when the leader has been silent for the timeout on both
  sides, and candidate and witness agree on everything committed with nothing prepared, one \<open>failover_step\<close> of
  the candidate, with the witness behind \<open>dispatch\<close> and clocks at most one tick apart, ends with the same new
  certificate on both: both follow the candidate in the next term, and no ledger has changed.\<close>

theorem failover_elects:
  assumes "node_inv C E N" "node_inv C E (ns_node S)" "election_ready C N (ns_node S) L K"
    and "failover_init (Some ks) None = Inr (ls_authority L)" "hex_digests C"
    and "map_of urls (nd_id (ns_node S)) = Some url" "url \<noteq> []"
    and "list_all (peer_may peer) [''replica.position'', ''replica.history'', ''cluster.leadership'',
        ''cluster.timeout_vote'', ''cluster.certificate'']" "\<And>p. peer = Some p \<Longrightarrow> pi_node p = nd_id N"
    and "ls_heartbeat L \<noteq> 0" "ls_timeout L \<le> now - ls_heartbeat L" "ls_timeout L \<le> now - ls_heartbeat K"
    and "\<bar>now - now'\<bar> \<le> 1"
  shows "\<exists>c N' R'. failover_step C E (node_rpc C E W now' peer url) urls now (N, S) = (Inr (), N', S\<lparr>ns_node := R'\<rparr>)
    \<and> nd_leadership N' = Some (L\<lparr>ls_term := ls_term L + 1, ls_leader := nd_id N, ls_heartbeat := now, ls_votes := [], ls_certs := ls_certs L @ [c]\<rparr>)
    \<and> nd_leadership R' = Some (K\<lparr>ls_term := ls_term L + 1, ls_leader := nd_id N, ls_heartbeat := now, ls_votes := [], ls_certs := ls_certs L @ [c]\<rparr>)
    \<and> nd_ledger N' = nd_ledger N \<and> nd_ledger R' = nd_ledger (ns_node S)"
  by (rule failover_elects_facts [OF assms])

section \<open>A concrete election\<close>

definition sample_candidate :: node where
  "sample_candidate = first_beat 1 sample_node"

definition sample_witness :: node_server where
  "sample_witness = sample_replica\<lparr>ns_node := sample_candidate\<lparr>nd_id := ''tertiary'', nd_role := ''tertiary''\<rparr>\<rparr>"

abbreviation sample_urls :: "(string, string) dict" where
  "sample_urls \<equiv> [(''primary'', ''ws://a''), (''tertiary'', ''ws://c'')]"

abbreviation witness_rpc :: "node_server rpc" where
  "witness_rpc \<equiv> node_rpc ascii_crypto sample_ed empty_world 6 None ''ws://c''"

lemma sample_candidate_fields:
  "nd_leadership sample_candidate = Some (sample_start\<lparr>ls_heartbeat := 1\<rparr>)" "nd_id sample_candidate = ''secondary''"
  "nd_ledger sample_candidate = sample_ledger" "nd_log sample_candidate = []" "nd_pending sample_candidate = None"
  "nd_nonces sample_candidate = []" "nd_repl sample_candidate = Some sample_secret"
  by (simp_all add: sample_candidate_def first_beat_def sample_node_def sample_start_facts)

lemma sample_candidate_inv:
  "node_inv ascii_crypto sample_ed sample_candidate" "node_inv ascii_crypto sample_ed (ns_node sample_witness)"
proof -
  show i: "node_inv ascii_crypto sample_ed sample_candidate"
    unfolding sample_candidate_def by (rule node_moves_inv [OF first_beat_moves [OF sample_node_inv]]) simp
  show "node_inv ascii_crypto sample_ed (ns_node sample_witness)"
    unfolding sample_witness_def by (rule node_inv_frame [OF i]) (use i in \<open>simp_all add: node_inv_def\<close>)
qed

lemma sample_digest: "is_ok (ledger_digest ascii_crypto sample_node)"
  by code_simp

lemma sample_election_ready:
  "election_ready ascii_crypto sample_candidate (ns_node sample_witness) (sample_start\<lparr>ls_heartbeat := 1\<rparr>) (sample_start\<lparr>ls_heartbeat := 1\<rparr>)"
proof -
  have "ledger_digest ascii_crypto sample_candidate = ledger_digest ascii_crypto sample_node"
    "ledger_digest ascii_crypto (ns_node sample_witness) = ledger_digest ascii_crypto sample_node"
    by (simp_all add: ledger_digest_def sample_candidate_fields sample_witness_def sample_node_def)
  moreover have "successor (sample_start\<lparr>ls_heartbeat := 1\<rparr>) = Inr ''secondary''"
    using sample_start_facts(2) by (simp add: successor_def)
  ultimately show ?thesis
    using sample_digest
    by (simp add: election_ready_def sample_candidate_fields sample_witness_def committed_position_def sample_start_facts
        witness_role_def ROLE_ORDER_def)
qed

theorem failover_elects_witness:
  "\<exists>c N' R'. failover_step ascii_crypto sample_ed witness_rpc sample_urls 5 (sample_candidate, sample_witness)
      = (Inr (), N', sample_witness\<lparr>ns_node := R'\<rparr>)
    \<and> map_option ls_leader (nd_leadership N') = Some ''secondary'' \<and> map_option ls_leader (nd_leadership R') = Some ''secondary''
    \<and> map_option ls_certs (nd_leadership N') = Some [c] \<and> map_option ls_certs (nd_leadership R') = Some [c]"
  using failover_elects [OF sample_candidate_inv sample_election_ready, of sample_vote_keys sample_urls "''ws://c''" None 5 6 empty_world]
    sample_authority_made hex_ascii_crypto
  by (fastforce simp: sample_start_facts peer_may_def sample_witness_def sample_candidate_fields)

theorem failover_takeover_caught_up_witness:
  "\<exists>T. nd_leadership (fst (snd (failover_step ascii_crypto sample_ed witness_rpc sample_urls 5 (sample_candidate, sample_witness)))) = Some T
    \<and> ls_leader T = ''secondary'' \<and> ls_term T = 1"
proof -
  obtain c N' R' where e: "failover_step ascii_crypto sample_ed witness_rpc sample_urls 5 (sample_candidate, sample_witness)
      = (Inr (), N', sample_witness\<lparr>ns_node := R'\<rparr>)"
    "nd_leadership N' = Some (sample_start\<lparr>ls_heartbeat := 1, ls_term := 1, ls_leader := ''secondary'', ls_heartbeat := 5, ls_votes := [], ls_certs := [c]\<rparr>)"
    using failover_elects_facts [OF sample_candidate_inv sample_election_ready, of sample_vote_keys sample_urls "''ws://c''" None 5 6 empty_world]
      sample_authority_made hex_ascii_crypto
    by (fastforce simp: sample_start_facts peer_may_def sample_witness_def sample_candidate_fields)
  from failover_takeover_caught_up [OF sample_candidate_inv(1) _ e(1) sample_candidate_fields(1) e(2)]
  show ?thesis using e by (simp add: sample_start_facts)
qed

end
