(* ===== verification/Olc_Gateway.thy ===== *)
theory Olc_Gateway
  imports Complex_Main Request_Auth Node_Keys Transport
begin

text \<open>
  The gateway of the Open Light Compute pilot (\<open>Store\<close> and \<open>Handler\<close> of \<open>splitchain/olc_gateway.py\<close>):
  the operator queues the one fixed job, a worker leases it and reports a digest, three verifiers sign
  statements about the result, and two equal ones decide. The clock (\<open>time.time()\<close>, a rational number of
  seconds) and the fresh job identifiers are arguments; the state file is written after every change and
  read back only by the constructor.
\<close>

section \<open>Hexadecimal text and signatures\<close>

definition hex_space :: "char \<Rightarrow> bool" where
  "hex_space c = (c \<in> set [CHR 0x20, CHR 0x09, CHR 0x0A, CHR 0x0B, CHR 0x0C, CHR 0x0D])"

definition hex_digit :: "char \<Rightarrow> nat option" where
  "hex_digit c = index_of c ''0123456789abcdef'' "

definition hex_digit_any :: "char \<Rightarrow> nat option" where
  "hex_digit_any c = (case hex_digit c of Some d \<Rightarrow> Some d | None \<Rightarrow>
     map_option (\<lambda>d. d + 10) (index_of c ''ABCDEF''))"

text \<open>\<open>bytes.fromhex\<close>: pairs of digits, with white space between the pairs; \<open>None\<close> is its \<open>ValueError\<close>.\<close>

fun from_hex :: "string \<Rightarrow> string option" where
  "from_hex [] = Some []"
| "from_hex [c] = (if hex_space c then Some [] else None)"
| "from_hex (c # d # s) =
     (if hex_space c then from_hex (d # s)
      else (case (hex_digit_any c, hex_digit_any d) of
          (Some h, Some l) \<Rightarrow> map_option (\<lambda>bs. char_of (16 * h + l) # bs) (from_hex s)
        | _ \<Rightarrow> None))"

definition to_hex :: "string \<Rightarrow> string" where
  "to_hex bs = concat (map (\<lambda>b. [hex_char ((of_char b :: nat) div 16), hex_char ((of_char b :: nat) mod 16)]) bs)"

text \<open>\<open>Ed25519PublicKey.from_public_bytes(bytes.fromhex(h))\<close>: any 32 bytes are a key.\<close>

definition public_key :: "string \<Rightarrow> string result" where
  "public_key h =
     (case from_hex h of
        None \<Rightarrow> Inl (ValueError ''non-hexadecimal number found in fromhex()'')
      | Some k \<Rightarrow> if length k = 32 then Inr k else Inl (ValueError ''An Ed25519 public key is 32 bytes long''))"

definition check_signature :: "ed25519 \<Rightarrow> string \<Rightarrow> string \<Rightarrow> json \<Rightarrow> unit result" where
  "check_signature E key_hex signature v =
     bindR (public_key key_hex) (\<lambda>k.
     (case from_hex signature of
        None \<Rightarrow> Inl (ValueError ''non-hexadecimal number found in fromhex()'')
      | Some s \<Rightarrow> bindR (canonical_json v) (\<lambda>body.
          if ed_verify E k s body then Inr () else Inl InvalidSignature)))"

section \<open>State\<close>

definition PAYLOAD :: string where
  "PAYLOAD = ''OLC Worker01 test job'' @ [CHR 0x0A]"

definition EXPECTED :: "crypto \<Rightarrow> string" where
  "EXPECTED C = sha256 C PAYLOAD"

definition NODE_ID :: string where
  "NODE_ID = ''olc-worker-001''"

definition VERIFIER_IDS :: "string list" where
  "VERIFIER_IDS = [''verifier-1'', ''verifier-2'', ''verifier-3'']"

definition LEASE_SECONDS :: rat where
  "LEASE_SECONDS = 120"

definition ONLINE_SECONDS :: rat where
  "ONLINE_SECONDS = 45"

datatype job_state = Queued | Leased | Verified | AwaitingQuorum | QuorumVerified | Disputed | Rejected

fun job_state_name :: "job_state \<Rightarrow> string" where
  "job_state_name Queued = ''queued''"
| "job_state_name Leased = ''leased''"
| "job_state_name Verified = ''verified''"
| "job_state_name AwaitingQuorum = ''awaiting_quorum''"
| "job_state_name QuorumVerified = ''quorum_verified''"
| "job_state_name Disputed = ''disputed''"
| "job_state_name Rejected = ''rejected''"

text \<open>An optional field is \<open>None\<close> when the dictionary has no such key (an older job has no roster).\<close>

record attestation =
  at_statement :: json
  at_signature :: string

record job =
  jb_node :: string
  jb_state :: job_state
  jb_created :: rat
  jb_keys :: "(string, string) dict option"
  jb_quorum :: int
  jb_atts :: "(string, attestation) dict"
  jb_until :: "rat option"
  jb_digest :: "string option"
  jb_completed :: "rat option"

record worker_row =
  wk_seen :: rat
  wk_capabilities :: json

text \<open>The credentials as the constructor read them, and the two tables of the state file.\<close>

record gateway =
  gw_workers :: "(string, string) dict"
  gw_operator :: string
  gw_verifier :: "string option"
  gw_tokens :: "(string, string) dict"
  gw_keys :: "(string, string) dict"
  gw_rows :: "(string, worker_row) dict"
  gw_jobs :: "(string, job) dict"

section \<open>The constructor\<close>

definition bad_credentials :: error where
  "bad_credentials = ValueError ''gateway credentials must contain distinct 32+ character tokens''"

text \<open>A table of tokens: text of at least 32 characters.\<close>

fun token_table :: "(string \<times> json) list \<Rightarrow> (string, string) dict option" where
  "token_table [] = Some []"
| "token_table ((k, v) # kvs) =
     (case (v, token_table kvs) of
        (JStr t, Some d) \<Rightarrow> if 32 \<le> py_len t then Some ((k, t) # d) else None
      | _ \<Rightarrow> None)"

definition read_tokens :: "json \<Rightarrow> ((string, string) dict \<times> string) result" where
  "read_tokens credentials =
     (case (get_or credentials ''workers'' (JObj []), get_or credentials ''operator'' (JStr [])) of
        (JObj kvs, JStr operator) \<Rightarrow>
          (case token_table kvs of
             Some workers \<Rightarrow>
               if \<not> dict_has workers NODE_ID \<or> py_len operator < 32 \<or> \<not> distinct (operator # map snd workers)
               then Inl bad_credentials else Inr (workers, operator)
           | None \<Rightarrow> Inl bad_credentials)
      | _ \<Rightarrow> Inl bad_credentials)"

definition read_verifier :: "json \<Rightarrow> string list \<Rightarrow> string option result" where
  "read_verifier credentials taken =
     (case get_or credentials ''verifier'' JNull of
        JNull \<Rightarrow> Inr None
      | v \<Rightarrow>
          (case (obj_get v ''token'', obj_get v ''public_key'') of
             (Some (JStr token), Some (JStr key)) \<Rightarrow>
               if py_len token < 32 \<or> token \<in> set taken then Inl (ValueError ''invalid verifier credentials'')
               else bindR (public_key key) (\<lambda>_. Inr (Some key))
           | _ \<Rightarrow> Inl (ValueError ''invalid verifier credentials'')))"

definition read_roster_item :: "json \<Rightarrow> string \<Rightarrow> (string \<times> string \<times> string) result" where
  "read_roster_item configured name =
     (let v = get_or configured name JNull in
      case (obj_get v ''token'', obj_get v ''public_key'') of
        (Some (JStr token), Some (JStr key)) \<Rightarrow>
          if py_len token < 32 then Inl (ValueError ''invalid quorum verifier credentials'')
          else bindR (public_key key) (\<lambda>_. Inr (name, token, key))
      | _ \<Rightarrow> Inl (ValueError ''invalid quorum verifier credentials''))"

definition read_roster :: "json \<Rightarrow> string list \<Rightarrow> ((string, string) dict \<times> (string, string) dict) result" where
  "read_roster credentials taken =
     (case get_or credentials ''verifiers'' JNull of
        JNull \<Rightarrow> Inr ([], [])
      | configured \<Rightarrow>
          (case obj_fields configured of
             None \<Rightarrow> Inl (ValueError ''the quorum roster requires three named verifiers'')
           | Some kvs \<Rightarrow>
               if set (map fst kvs) \<noteq> set VERIFIER_IDS
               then Inl (ValueError ''the quorum roster requires three named verifiers'')
               else bindR (mapR (read_roster_item configured) VERIFIER_IDS) (\<lambda>items.
                 if \<not> distinct (taken @ map (\<lambda>(n, t, k). t) items) \<or> \<not> distinct (map (\<lambda>(n, t, k). k) items)
                 then Inl (ValueError ''quorum keys and tokens must be distinct'')
                 else Inr (map (\<lambda>(n, t, k). (n, t)) items, map (\<lambda>(n, t, k). (n, k)) items))))"

text \<open>\<open>Store.__init__\<close>; the tables are those of the state file, empty ones when there is none.\<close>

definition gateway_make :: "json \<Rightarrow> (string, worker_row) dict \<Rightarrow> (string, job) dict \<Rightarrow> gateway result" where
  "gateway_make credentials rows jobs =
     (if obj_fields credentials = None then Inl AttributeError
     else bindR (read_tokens credentials) (\<lambda>(workers, operator).
     bindR (read_verifier credentials (operator # map snd workers)) (\<lambda>verifier.
     bindR (read_roster credentials (operator # map snd workers)) (\<lambda>(tokens, ks).
       Inr \<lparr>gw_workers = workers, gw_operator = operator, gw_verifier = verifier, gw_tokens = tokens,
            gw_keys = ks, gw_rows = rows, gw_jobs = jobs\<rparr>))))"

section \<open>Operations of the store\<close>

definition authorized :: "string \<Rightarrow> string \<Rightarrow> gateway \<Rightarrow> bool result" where
  "authorized token role G =
     (let reference = (if role = ''operator'' then gw_operator G
                       else if role \<in> set VERIFIER_IDS then dict_get (gw_tokens G) role []
                       else dict_get (gw_workers G) role [])
      in if reference = [] then Inr False else compare_digest token reference)"

text \<open>\<open>type(cpu) is int\<close> excludes booleans, which are another constructor here.\<close>

definition olc_heartbeat :: "rat \<Rightarrow> string \<Rightarrow> json \<Rightarrow> (gateway, json) operation" where
  "olc_heartbeat now node capabilities G =
     (case obj_fields capabilities of
        None \<Rightarrow> (Inl (ValueError ''invalid capabilities''), G)
      | Some kvs \<Rightarrow>
          if set (map fst kvs) \<noteq> {''cpu_threads'', ''memory_mb''}
          then (Inl (ValueError ''invalid capabilities''), G)
          else (case (obj_get capabilities ''cpu_threads'', obj_get capabilities ''memory_mb'') of
              (Some (JInt cpu), Some (JInt memory)) \<Rightarrow>
                if 1 \<le> cpu \<and> cpu \<le> 256 \<and> 128 \<le> memory \<and> memory \<le> 2000000
                then (Inr (JObj [(''accepted'', JBool True), (''node_id'', JStr node)]),
                      G\<lparr>gw_rows := AList.update node \<lparr>wk_seen = now, wk_capabilities = capabilities\<rparr> (gw_rows G)\<rparr>)
                else (Inl (ValueError ''invalid resource inventory''), G)
            | _ \<Rightarrow> (Inl (ValueError ''invalid resource inventory''), G)))"

definition worker_json :: "rat \<Rightarrow> string \<times> worker_row \<Rightarrow> json" where
  "worker_json now p = JObj
     [(''node_id'', JStr (fst p)),
      (''state'', JStr (if now - wk_seen (snd p) < ONLINE_SECONDS then ''online'' else ''offline'')),
      (''capabilities'', wk_capabilities (snd p))]"

definition public_workers :: "rat \<Rightarrow> gateway \<Rightarrow> json" where
  "public_workers now G = JObj [(''workers'', JList (map (worker_json now) (sorted_dict (gw_rows G))))]"

definition new_job :: "rat \<Rightarrow> gateway \<Rightarrow> job" where
  "new_job now G = \<lparr>jb_node = NODE_ID, jb_state = Queued, jb_created = now, jb_keys = Some (gw_keys G),
     jb_quorum = 2, jb_atts = [], jb_until = None, jb_digest = None, jb_completed = None\<rparr>"

text \<open>\<open>fresh\<close> is \<open>secrets.token_hex(16)\<close>.\<close>

definition enqueue :: "rat \<Rightarrow> string \<Rightarrow> (gateway, json) operation" where
  "enqueue now fresh G =
     (if length (gw_keys G) \<noteq> 3
      then (Inl (ValueError ''three verifier keys must be provisioned before new jobs''), G)
      else (Inr (JObj [(''job_id'', JStr fresh), (''state'', JStr ''queued'')]),
            G\<lparr>gw_jobs := AList.update fresh (new_job now G) (gw_jobs G)\<rparr>))"

text \<open>The end of a lease: the state \<open>leased\<close> is always written together with \<open>lease_until\<close>.\<close>

definition lease_until :: "job \<Rightarrow> rat" where
  "lease_until J = (case jb_until J of None \<Rightarrow> 0 | Some t \<Rightarrow> t)"

definition in_force :: "rat \<Rightarrow> string \<Rightarrow> job \<Rightarrow> bool" where
  "in_force now node J = (jb_node J = node \<and> jb_state J = Leased \<and> now \<le> lease_until J)"

definition leasable :: "rat \<Rightarrow> string \<Rightarrow> job \<Rightarrow> bool" where
  "leasable now node J =
     (jb_node J = node \<and> (jb_state J = Queued \<or> jb_state J = Leased \<and> lease_until J < now))"

definition lease :: "rat \<Rightarrow> string \<Rightarrow> (gateway, json) operation" where
  "lease now node G =
     (if list_ex (\<lambda>(k, J). in_force now node J) (gw_jobs G) then (Inr (JObj [(''job'', JNull)]), G)
      else (case find (\<lambda>(k, J). leasable now node J) (gw_jobs G) of
          None \<Rightarrow> (Inr (JObj [(''job'', JNull)]), G)
        | Some (k, J) \<Rightarrow>
            (Inr (JObj [(''job_id'', JStr k), (''kind'', JStr ''sha256-fixed-v1'')]),
             G\<lparr>gw_jobs := AList.update k (J\<lparr>jb_state := Leased, jb_until := Some (now + LEASE_SECONDS)\<rparr>) (gw_jobs G)\<rparr>)))"

text \<open>\<open>self.data["jobs"].get(key)\<close>: an array or object cannot be a key.\<close>

definition find_job :: "json \<Rightarrow> gateway \<Rightarrow> (string \<times> job) option result" where
  "find_job v G =
     (case v of
        JStr k \<Rightarrow> Inr (map_option (\<lambda>J. (k, J)) (map_of (gw_jobs G) k))
      | JList _ \<Rightarrow> Inl TypeError
      | JObj _ \<Rightarrow> Inl TypeError
      | _ \<Rightarrow> Inr None)"

definition result_reply :: "string \<Rightarrow> job \<Rightarrow> json" where
  "result_reply k J = JObj [(''job_id'', JStr k), (''state'', JStr (job_state_name (jb_state J))),
     (''verification'', JStr ''coordinator-sha256'')]"

definition finish_job :: "crypto \<Rightarrow> rat \<Rightarrow> string \<Rightarrow> job \<Rightarrow> job" where
  "finish_job C now d J =
     J\<lparr>jb_state := (if d = EXPECTED C then (if jb_keys J = None then Verified else AwaitingQuorum) else Rejected),
       jb_digest := Some d, jb_completed := Some now\<rparr>"

text \<open>
  \<open>Store.result\<close>. Both digests are ASCII when they are compared, so \<open>compare_digest\<close> is equality (\<open>EXPECTED\<close>
  is a \<open>hexdigest\<close>).
\<close>

definition olc_result :: "crypto \<Rightarrow> rat \<Rightarrow> string \<Rightarrow> json \<Rightarrow> json \<Rightarrow> (gateway, json) operation" where
  "olc_result C now node job_id digest G =
     (case digest of
        JStr d \<Rightarrow>
          if length d \<noteq> 64 \<or> \<not> list_all is_hex d then (Inl (ValueError ''invalid digest''), G)
          else (case find_job job_id G of
              Inl e \<Rightarrow> (Inl e, G)
            | Inr None \<Rightarrow> (Inl (ValueError ''unknown or unleased job''), G)
            | Inr (Some (k, J)) \<Rightarrow>
                if jb_node J \<noteq> node \<or> jb_state J = Queued then (Inl (ValueError ''unknown or unleased job''), G)
                else if jb_state J = Leased then
                  if lease_until J < now then (Inl (ValueError ''job lease expired''), G)
                  else
                    let J' = finish_job C now d J
                    in (Inr (result_reply k J'), G\<lparr>gw_jobs := AList.update k J' (gw_jobs G)\<rparr>)
                else if jb_digest J \<noteq> Some d then (Inl (ValueError ''conflicting result''), G)
                else (Inr (result_reply k J), G))
      | _ \<Rightarrow> (Inl TypeError, G))"

definition opt_field_json :: "string option \<Rightarrow> json" where
  "opt_field_json v = (case v of None \<Rightarrow> JNull | Some s \<Rightarrow> JStr s)"

definition text_table :: "(string, string) dict \<Rightarrow> json" where
  "text_table d = JObj (map (\<lambda>(k, v). (k, JStr v)) d)"

definition attestations_json :: "(string, attestation) dict \<Rightarrow> json" where
  "attestations_json d = JObj (map (\<lambda>(k, a).
     (k, JObj [(''statement'', at_statement a), (''signature'', JStr (at_signature a))])) d)"

text \<open>One receipt. Jobs with the single legacy attestation come from older state files only and are left out.\<close>

definition receipt_json :: "string \<times> job \<Rightarrow> json" where
  "receipt_json p = (let J = snd p in JObj
     [(''job_id'', JStr (fst p)), (''node_id'', JStr (jb_node J)), (''state'', JStr (job_state_name (jb_state J))),
      (''result_digest'', opt_field_json (jb_digest J)), (''attestation'', JNull),
      (''attestations'', if jb_keys J = None then JNull else attestations_json (jb_atts J)),
      (''verifier_keys'', case jb_keys J of None \<Rightarrow> JNull | Some d \<Rightarrow> text_table d),
      (''quorum_required'', if jb_keys J = None then JNull else JInt (jb_quorum J))])"

definition last_items :: "nat \<Rightarrow> 'a list \<Rightarrow> 'a list" where
  "last_items n xs = drop (length xs - n) xs"

definition public_receipts :: "gateway \<Rightarrow> json" where
  "public_receipts G = JObj
     [(''schema'', JStr ''olc-receipts/v1''), (''receipts'', JList (map receipt_json (last_items 20 (gw_jobs G)))),
      (''verifier_public_key'', opt_field_json (gw_verifier G)), (''verifiers'', text_table (gw_keys G))]"

text \<open>\<open>operator_jobs\<close>: every field of every job, in the order of their insertion; \<open>show_time\<close> is \<open>float.__repr__\<close>.\<close>

definition time_json :: "(rat \<Rightarrow> string) \<Rightarrow> rat \<Rightarrow> json" where
  "time_json show_time t = JFloat (show_time t)"

definition job_json :: "(rat \<Rightarrow> string) \<Rightarrow> string \<times> job \<Rightarrow> json" where
  "job_json show_time p = (let J = snd p in JObj
     ([(''job_id'', JStr (fst p)), (''node_id'', JStr (jb_node J)), (''state'', JStr (job_state_name (jb_state J))),
       (''created'', time_json show_time (jb_created J))]
      @ (case jb_keys J of None \<Rightarrow> [] | Some d \<Rightarrow> [(''verifier_keys'', text_table d), (''quorum_required'', JInt (jb_quorum J)),
           (''attestations'', attestations_json (jb_atts J))])
      @ (case jb_until J of None \<Rightarrow> [] | Some t \<Rightarrow> [(''lease_until'', time_json show_time t)])
      @ (case jb_digest J of None \<Rightarrow> [] | Some d \<Rightarrow> [(''result_digest'', JStr d)])
      @ (case jb_completed J of None \<Rightarrow> [] | Some t \<Rightarrow> [(''completed'', time_json show_time t)])))"

definition operator_jobs :: "(rat \<Rightarrow> string) \<Rightarrow> gateway \<Rightarrow> json" where
  "operator_jobs show_time G = JObj [(''jobs'', JList (map (job_json show_time) (gw_jobs G)))]"

section \<open>Verifiers\<close>

definition job_key :: "job \<Rightarrow> string \<Rightarrow> string option" where
  "job_key J verifier = (case jb_keys J of None \<Rightarrow> None | Some d \<Rightarrow> map_of d verifier)"

definition verifier_job :: "string \<Rightarrow> gateway \<Rightarrow> json" where
  "verifier_job verifier G =
     (case find (\<lambda>(k, J). jb_state J = AwaitingQuorum \<and> job_key J verifier \<noteq> None
          \<and> \<not> dict_has (jb_atts J) verifier \<and> map_of (gw_keys G) verifier = job_key J verifier) (gw_jobs G) of
        None \<Rightarrow> JObj [(''job'', JNull)]
      | Some (k, J) \<Rightarrow> JObj [(''job_id'', JStr k), (''node_id'', JStr (jb_node J)),
          (''result_digest'', opt_field_json (jb_digest J))])"

definition statement_fields :: "string list" where
  "statement_fields = [''job_id'', ''node_id'', ''result_digest'', ''accepted'', ''verifier_id'']"

definition accepts :: "json \<Rightarrow> bool" where
  "accepts statement = (obj_get statement ''accepted'' = Some (JBool True))"

definition approvals :: "job \<Rightarrow> int" where
  "approvals J = int (length (filter (\<lambda>(k, a). accepts (at_statement a)) (jb_atts J)))"

definition denials :: "job \<Rightarrow> int" where
  "denials J = int (length (jb_atts J)) - approvals J"

text \<open>The vote is stored, then the two counts decide.\<close>

definition record_vote :: "string \<Rightarrow> attestation \<Rightarrow> job \<Rightarrow> job" where
  "record_vote verifier a J =
     (let J1 = J\<lparr>jb_atts := AList.update verifier a (jb_atts J)\<rparr> in
      if approvals J1 \<ge> jb_quorum J1 then J1\<lparr>jb_state := QuorumVerified\<rparr>
      else if denials J1 \<ge> jb_quorum J1 then J1\<lparr>jb_state := Disputed\<rparr> else J1)"

definition attest_reply :: "string \<Rightarrow> job \<Rightarrow> json" where
  "attest_reply k J = JObj [(''job_id'', JStr k), (''state'', JStr (job_state_name (jb_state J))),
     (''approvals'', JInt (approvals J)), (''quorum_required'', JInt (jb_quorum J))]"

text \<open>\<open>Store.attest\<close>.\<close>

definition attest :: "ed25519 \<Rightarrow> string \<Rightarrow> json \<Rightarrow> json \<Rightarrow> (gateway, json) operation" where
  "attest E verifier statement signature G =
     (case (obj_fields statement, obj_get statement ''accepted'', signature) of
        (Some kvs, Some (JBool _), JStr s) \<Rightarrow>
          if set (map fst kvs) \<noteq> set statement_fields then (Inl (ValueError ''invalid statement''), G)
          else if obj_get statement ''verifier_id'' \<noteq> Some (JStr verifier)
          then (Inl (ValueError ''invalid attestation''), G)
          else (case find_job (get_or statement ''job_id'' JNull) G of
              Inl e \<Rightarrow> (Inl e, G)
            | Inr None \<Rightarrow> (Inl (ValueError ''attestation does not match job''), G)
            | Inr (Some (k, J)) \<Rightarrow>
                if jb_state J \<notin> {AwaitingQuorum, QuorumVerified, Disputed}
                   \<or> obj_get statement ''node_id'' \<noteq> Some (JStr (jb_node J))
                   \<or> obj_get statement ''result_digest'' \<noteq> Some (opt_field_json (jb_digest J))
                   \<or> map_of (gw_keys G) verifier \<noteq> job_key J verifier
                then (Inl (ValueError ''attestation does not match job''), G)
                else (case job_key J verifier of
                    None \<Rightarrow> (Inl KeyError, G)
                  | Some key \<Rightarrow>
                      if \<not> is_ok (check_signature E key s statement)
                      then (Inl (ValueError ''invalid verifier signature''), G)
                      else (case map_of (jb_atts J) verifier of
                          Some a \<Rightarrow>
                            if \<not> py_eq (at_statement a) statement \<or> at_signature a \<noteq> s
                            then (Inl (ValueError ''conflicting attestation''), G)
                            else (Inr (attest_reply k J), G)
                        | None \<Rightarrow>
                            if jb_state J \<noteq> AwaitingQuorum then (Inl (ValueError ''quorum already reached''), G)
                            else
                              let J' = record_vote verifier \<lparr>at_statement = statement, at_signature = s\<rparr> J
                              in (Inr (attest_reply k J'), G\<lparr>gw_jobs := AList.update k J' (gw_jobs G)\<rparr>))))
      | (None, _) \<Rightarrow> (Inl (ValueError ''invalid statement''), G)
      | (Some kvs, _) \<Rightarrow>
          (Inl (ValueError (if set (map fst kvs) \<noteq> set statement_fields then ''invalid statement''
                            else ''invalid attestation'')), G))"

section \<open>The HTTP handler\<close>

text \<open>
  A request: its path, the value of the \<open>Authorization\<close> header, and its body as \<open>_body\<close> returns it (a bad
  length and bad JSON are \<open>ValueError\<close>s, another JSON value than an object a \<open>TypeError\<close>).
\<close>

record http_request =
  rq_path :: string
  rq_authorization :: string
  rq_body :: "json result"

definition removeprefix :: "string \<Rightarrow> string \<Rightarrow> string option" where
  "removeprefix p s = (if take (length p) s = p then Some (drop (length p) s) else None)"

definition http_authorized :: "string \<Rightarrow> http_request \<Rightarrow> gateway \<Rightarrow> bool result" where
  "http_authorized role q G =
     (case removeprefix ''Bearer '' (rq_authorization q) of
        None \<Rightarrow> Inr False
      | Some token \<Rightarrow> authorized token role G)"

definition unauthorized :: "nat \<times> json" where
  "unauthorized = (401, JObj [(''error'', JStr ''unauthorized'')])"

definition guarded :: "string \<Rightarrow> http_request \<Rightarrow> (gateway, nat \<times> json) operation \<Rightarrow> (gateway, nat \<times> json) operation" where
  "guarded role q f G =
     (case http_authorized role q G of
        Inl e \<Rightarrow> (Inl e, G)
      | Inr False \<Rightarrow> (Inr unauthorized, G)
      | Inr True \<Rightarrow> f G)"

definition http_ok :: "'s \<Rightarrow> json \<Rightarrow> (nat \<times> json) result \<times> 's" where
  "http_ok G v = (Inr (200, v), G)"

definition worker_path :: "string \<Rightarrow> string" where
  "worker_path action = ''/worker/'' @ NODE_ID @ ''/'' @ action"

definition verifier_path :: "string \<Rightarrow> string \<Rightarrow> string" where
  "verifier_path name action = ''/verifier/'' @ name @ ''/'' @ action"

definition gateway_get :: "(rat \<Rightarrow> string) \<Rightarrow> rat \<Rightarrow> http_request \<Rightarrow> (gateway, nat \<times> json) operation" where
  "gateway_get show_time now q G =
     (if rq_path q = ''/workers'' then http_ok G (public_workers now G)
      else if rq_path q = ''/receipts'' then http_ok G (public_receipts G)
      else if rq_path q = worker_path ''job'' then guarded NODE_ID q (\<lambda>G. map_op (Pair 200) (lease now NODE_ID G)) G
      else if rq_path q = ''/operator/jobs'' then guarded ''operator'' q (\<lambda>G. http_ok G (operator_jobs show_time G)) G
      else (case find (\<lambda>name. rq_path q = verifier_path name ''job'') VERIFIER_IDS of
          Some name \<Rightarrow> guarded name q (\<lambda>G. http_ok G (verifier_job name G)) G
        | None \<Rightarrow> (Inr (404, JObj [(''error'', JStr ''unknown route'')]), G)))"

text \<open>\<open>except (ValueError, TypeError)\<close>: every other exception leaves the handler.\<close>

definition catch_invalid :: "json result \<times> gateway \<Rightarrow> (nat \<times> json) result \<times> gateway" where
  "catch_invalid r =
     (case r of
        (Inr v, G) \<Rightarrow> (Inr (200, v), G)
      | (Inl (ValueError m), G) \<Rightarrow> (Inr (400, JObj [(''error'', JStr ''invalid request'')]), G)
      | (Inl (ProtocolError m), G) \<Rightarrow> (Inr (400, JObj [(''error'', JStr ''invalid request'')]), G)
      | (Inl TypeError, G) \<Rightarrow> (Inr (400, JObj [(''error'', JStr ''invalid request'')]), G)
      | (Inl e, G) \<Rightarrow> (Inl e, G))"

definition operator_body :: json where
  "operator_body = JObj [(''kind'', JStr ''sha256-fixed-v1''), (''node_id'', JStr NODE_ID)]"

text \<open>\<open>route\<close> is the operation behind an authorized path.\<close>

definition post_route :: "crypto \<Rightarrow> ed25519 \<Rightarrow> rat \<Rightarrow> string \<Rightarrow> string \<Rightarrow> string option \<Rightarrow> json \<Rightarrow> (gateway, json) operation" where
  "post_route C E now fresh path verifier body G =
     (if path = ''/operator/job'' then
        if \<not> py_eq body operator_body
        then (Inl (ValueError ''only the fixed test workload is supported''), G)
        else enqueue now fresh G
      else (case verifier of
          Some name \<Rightarrow> attest E name (get_or body ''statement'' JNull) (get_or body ''signature'' JNull) G
        | None \<Rightarrow>
            if path = worker_path ''heartbeat'' then olc_heartbeat now NODE_ID (get_or body ''capabilities'' JNull) G
            else olc_result C now NODE_ID (get_or body ''job_id'' JNull) (get_or body ''digest'' JNull) G))"

definition gateway_post :: "crypto \<Rightarrow> ed25519 \<Rightarrow> rat \<Rightarrow> string \<Rightarrow> http_request \<Rightarrow> (gateway, nat \<times> json) operation" where
  "gateway_post C E now fresh q G =
     (let verifier = find (\<lambda>name. rq_path q = verifier_path name ''attest'') VERIFIER_IDS;
          role = (if rq_path q = ''/operator/job'' then ''operator''
                  else case verifier of Some name \<Rightarrow> name | None \<Rightarrow> NODE_ID) in
      if rq_path q \<notin> {''/operator/job'', worker_path ''heartbeat'', worker_path ''result''} \<and> verifier = None
      then (Inr (404, JObj [(''error'', JStr ''unknown route'')]), G)
      else guarded role q (\<lambda>G. catch_invalid
        (case rq_body q of
           Inl e \<Rightarrow> (Inl e, G)
         | Inr body \<Rightarrow>
             if obj_fields body = None then (Inl TypeError, G)
             else post_route C E now fresh (rq_path q) verifier body G)) G)"

end
