(* ===== verification/Olc_Receipts.thy ===== *)
theory Olc_Receipts
  imports Olc_Gateway
begin

text \<open>
  The public check of the receipts that a gateway publishes (\<open>verify_document\<close> of
  \<open>splitchain/olc_receipts.py\<close>), and the proof that every gateway passes it: a receipt that says
  \<open>quorum_verified\<close> carries two genuine approvals by two of the three verifiers.
\<close>

section \<open>verify_document\<close>

text \<open>\<open>value[key]\<close>, and the lazy \<open>or\<close> of two tests that may raise.\<close>

definition need :: "json \<Rightarrow> string \<Rightarrow> json result" where
  "need v k =
     (if obj_fields v = None then Inl TypeError
      else case obj_get v k of None \<Rightarrow> Inl KeyError | Some x \<Rightarrow> Inr x)"

definition orR :: "bool result \<Rightarrow> bool result \<Rightarrow> bool result" where
  "orR a b = bindR a (\<lambda>x. if x then Inr True else b)"

definition differs :: "json \<Rightarrow> json \<Rightarrow> string \<Rightarrow> bool result" where
  "differs statement receipt k = bindR (need receipt k) (\<lambda>r. Inr (\<not> py_eq (get_or statement k JNull) r))"

fun str_values :: "(string \<times> json) list \<Rightarrow> (string, string) dict option" where
  "str_values [] = Some []"
| "str_values ((k, JStr v) # kvs) = map_option (\<lambda>d. (k, v) # d) (str_values kvs)"
| "str_values _ = None"

definition bad_vote :: error where
  "bad_vote = ValueError ''quorum vote does not match the job''"

definition is_bool :: "json \<Rightarrow> bool" where
  "is_bool v = (case v of JBool _ \<Rightarrow> True | _ \<Rightarrow> False)"

text \<open>One vote: its value. A statement that is no object is left out.\<close>

definition check_vote :: "crypto \<Rightarrow> ed25519 \<Rightarrow> json \<Rightarrow> (string, string) dict \<Rightarrow> string \<Rightarrow> json \<Rightarrow> bool result" where
  "check_vote C E receipt roster verifier a =
     bindR (need a ''statement'') (\<lambda>st.
     (case obj_fields st of
        None \<Rightarrow> Inl Unmodelled
      | Some kvs \<Rightarrow>
          bindR (orR (Inr (set (map fst kvs) \<noteq> set statement_fields
                          \<or> \<not> py_eq (get_or st ''verifier_id'' JNull) (JStr verifier)))
                (orR (differs st receipt ''job_id'') (orR (differs st receipt ''node_id'')
                (orR (differs st receipt ''result_digest'')
                (Inr (\<not> is_bool (get_or st ''accepted'' JNull)
                      \<or> accepts st \<and> obj_get receipt ''result_digest'' \<noteq> Some (JStr (EXPECTED C)))))))) (\<lambda>bad.
          if bad then Inl bad_vote
          else
            bindR (public_key (dict_get roster verifier [])) (\<lambda>_.
            bindR (need a ''signature'') (\<lambda>s.
            (case s of
               JStr t \<Rightarrow> bindR (check_signature E (dict_get roster verifier []) t st) (\<lambda>_. Inr (accepts st))
             | _ \<Rightarrow> Inl TypeError))))))"

fun check_votes ::
    "crypto \<Rightarrow> ed25519 \<Rightarrow> json \<Rightarrow> (string, string) dict \<Rightarrow> (string \<times> json) list \<Rightarrow> (int \<times> int) result" where
  "check_votes C E receipt roster [] = Inr (0, 0)"
| "check_votes C E receipt roster ((verifier, a) # vs) =
     bindR (check_vote C E receipt roster verifier a) (\<lambda>yes.
     bindR (check_votes C E receipt roster vs) (\<lambda>(n, d). Inr (if yes then (n + 1, d) else (n, d + 1))))"

definition state_differs :: "string \<Rightarrow> int \<Rightarrow> int \<Rightarrow> bool \<Rightarrow> bool" where
  "state_differs st n d voted =
     (st = ''quorum_verified'' \<and> n < 2 \<or> st = ''disputed'' \<and> d < 2
      \<or> st = ''awaiting_quorum'' \<and> (n \<ge> 2 \<or> d \<ge> 2)
      \<or> st \<in> {''queued'', ''leased'', ''rejected''} \<and> voted
      \<or> st \<notin> {''quorum_verified'', ''disputed'', ''awaiting_quorum'', ''queued'', ''leased'', ''rejected''})"

definition bad_roster :: error where
  "bad_roster = ValueError ''invalid quorum roster''"

text \<open>A receipt with a roster: whether it counts as verified. A roster with other values than text is left out.\<close>

definition quorum_receipt :: "crypto \<Rightarrow> ed25519 \<Rightarrow> string option \<Rightarrow> json \<Rightarrow> json \<Rightarrow> bool result" where
  "quorum_receipt C E pinned_roster receipt roster_json =
     (case obj_fields roster_json of
        None \<Rightarrow> Inl Unmodelled
      | Some rkvs \<Rightarrow>
        (case str_values rkvs of
           None \<Rightarrow> Inl Unmodelled
         | Some roster \<Rightarrow>
            if set (map fst roster) \<noteq> set VERIFIER_IDS \<or> card (set (map snd roster)) \<noteq> 3 then Inl bad_roster
            else
              bindR (need receipt ''quorum_required'') (\<lambda>q.
              if \<not> py_eq q (JInt 2) then Inl bad_roster
              else
                bindR (case pinned_roster of None \<Rightarrow> Inr False | Some [] \<Rightarrow> Inr False
                       | Some p \<Rightarrow> bindR (canonical_json roster_json) (\<lambda>body. Inr (sha256 C body \<noteq> p))) (\<lambda>other.
                if other then Inl (ValueError ''verifier roster differs from pinned fingerprint'')
                else
                  bindR (need receipt ''attestations'') (\<lambda>votes.
                  (case obj_fields votes of
                     None \<Rightarrow> Inl (ValueError ''invalid verifier votes'')
                   | Some vs \<Rightarrow>
                      if \<not> set (map fst vs) \<subseteq> set (map fst roster) then Inl (ValueError ''invalid verifier votes'')
                      else
                        bindR (check_votes C E receipt roster vs) (\<lambda>(n, d).
                        bindR (need receipt ''state'') (\<lambda>st.
                        (case st of
                           JStr t \<Rightarrow>
                             if state_differs t n d (vs \<noteq> []) then Inl (ValueError ''job state differs from signed quorum'')
                             else Inr (t = ''quorum_verified'')
                         | JList _ \<Rightarrow> Inl TypeError
                         | JObj _ \<Rightarrow> Inl TypeError
                         | _ \<Rightarrow> Inl (ValueError ''job state differs from signed quorum''))))))))))"

definition legacy_fields :: "string list" where
  "legacy_fields = [''job_id'', ''node_id'', ''result_digest'', ''accepted'']"

text \<open>A receipt of an older job, with one signature under the single verifier key.\<close>

definition legacy_receipt :: "crypto \<Rightarrow> ed25519 \<Rightarrow> json \<Rightarrow> json \<Rightarrow> json \<Rightarrow> bool result" where
  "legacy_receipt C E key receipt a =
     (case key of
        JNull \<Rightarrow> Inl (ValueError ''missing legacy verifier key'')
      | JStr key_hex \<Rightarrow>
          bindR (public_key key_hex) (\<lambda>_.
          bindR (need a ''statement'') (\<lambda>st.
          (case obj_fields st of
             None \<Rightarrow> Inl Unmodelled
           | Some kvs \<Rightarrow>
               bindR (orR (Inr (set (map fst kvs) \<noteq> set legacy_fields))
                     (orR (differs st receipt ''job_id'') (orR (differs st receipt ''node_id'')
                     (orR (differs st receipt ''result_digest'')
                     (Inr (\<not> is_bool (get_or st ''accepted'' JNull)
                           \<or> accepts st \<noteq> (obj_get receipt ''result_digest'' = Some (JStr (EXPECTED C))))))))) (\<lambda>bad.
               if bad then Inl (ValueError ''verifier statement does not match the job receipt'')
               else bindR (need a ''signature'') (\<lambda>s.
                 (case s of
                    JStr t \<Rightarrow> bindR (check_signature E key_hex t st) (\<lambda>_. Inr True)
                  | _ \<Rightarrow> Inl TypeError))))))
      | _ \<Rightarrow> Inl TypeError)"

definition check_receipt :: "crypto \<Rightarrow> ed25519 \<Rightarrow> string option \<Rightarrow> json \<Rightarrow> json \<Rightarrow> bool result" where
  "check_receipt C E pinned_roster key receipt =
     (if obj_fields receipt = None then Inl AttributeError
      else case get_or receipt ''verifier_keys'' JNull of
        JNull \<Rightarrow>
          (case get_or receipt ''attestation'' JNull of
             JNull \<Rightarrow> Inr False
           | a \<Rightarrow> legacy_receipt C E key receipt a)
      | roster \<Rightarrow> quorum_receipt C E pinned_roster receipt roster)"

fun check_receipts ::
    "crypto \<Rightarrow> ed25519 \<Rightarrow> string option \<Rightarrow> json \<Rightarrow> json list \<Rightarrow> (nat \<times> nat) result" where
  "check_receipts C E pinned_roster key [] = Inr (0, 0)"
| "check_receipts C E pinned_roster key (r # rs) =
     bindR (check_receipt C E pinned_roster key r) (\<lambda>yes.
     bindR (check_receipts C E pinned_roster key rs) (\<lambda>(v, p). Inr (if yes then (Suc v, p) else (v, Suc p))))"

definition verify_document ::
    "crypto \<Rightarrow> ed25519 \<Rightarrow> json \<Rightarrow> string option \<Rightarrow> string option \<Rightarrow> (nat \<times> nat) result" where
  "verify_document C E document pinned_key pinned_roster =
     (if obj_fields document = None then Inl AttributeError
      else if obj_get document ''schema'' \<noteq> Some (JStr ''olc-receipts/v1'')
      then Inl (ValueError ''unexpected receipt schema'')
      else
        let key = get_or document ''verifier_public_key'' JNull in
        if pinned_key \<noteq> None \<and> key \<noteq> JStr (the pinned_key)
        then Inl (ValueError ''legacy verifier public key differs from pinned key'')
        else bindR (need document ''receipts'') (\<lambda>rs.
          (case rs of JList xs \<Rightarrow> check_receipts C E pinned_roster key xs | _ \<Rightarrow> Inl Unmodelled)))"

section \<open>The invariant of the gateway\<close>

definition vote_ok :: "ed25519 \<Rightarrow> (string, string) dict \<Rightarrow> string \<Rightarrow> job \<Rightarrow> string \<times> attestation \<Rightarrow> bool" where
  "vote_ok E ks k J p = (let verifier = fst p; st = at_statement (snd p) in
     verifier \<in> set VERIFIER_IDS
     \<and> (\<exists>kvs b d. obj_fields st = Some kvs \<and> set (map fst kvs) = set statement_fields
          \<and> obj_get st ''verifier_id'' = Some (JStr verifier) \<and> obj_get st ''job_id'' = Some (JStr k)
          \<and> obj_get st ''node_id'' = Some (JStr (jb_node J)) \<and> jb_digest J = Some d
          \<and> obj_get st ''result_digest'' = Some (JStr d) \<and> obj_get st ''accepted'' = Some (JBool b))
     \<and> (\<exists>key. map_of ks verifier = Some key \<and> is_ok (check_signature E key (at_signature (snd p)) st)))"

definition state_ok :: "crypto \<Rightarrow> job \<Rightarrow> bool" where
  "state_ok C J =
     (case jb_state J of
        Queued \<Rightarrow> jb_digest J = None \<and> jb_atts J = []
      | Leased \<Rightarrow> jb_digest J = None \<and> jb_atts J = []
      | Rejected \<Rightarrow> jb_atts J = []
      | AwaitingQuorum \<Rightarrow> jb_digest J = Some (EXPECTED C) \<and> approvals J < 2 \<and> denials J < 2
      | QuorumVerified \<Rightarrow> jb_digest J = Some (EXPECTED C) \<and> 2 \<le> approvals J
      | Disputed \<Rightarrow> jb_digest J = Some (EXPECTED C) \<and> 2 \<le> denials J
      | Verified \<Rightarrow> False)"

definition roster_shape :: "(string, string) dict \<Rightarrow> bool" where
  "roster_shape ks = (map fst ks = VERIFIER_IDS \<and> distinct (map snd ks))"

definition job_ok :: "crypto \<Rightarrow> ed25519 \<Rightarrow> (string, string) dict \<Rightarrow> string \<Rightarrow> job \<Rightarrow> bool" where
  "job_ok C E ks k J =
     (jb_keys J = Some ks \<and> roster_shape ks \<and> jb_quorum J = 2 \<and> wf_dict (jb_atts J)
      \<and> list_all (vote_ok E ks k J) (jb_atts J) \<and> state_ok C J)"

definition gateway_inv :: "crypto \<Rightarrow> ed25519 \<Rightarrow> gateway \<Rightarrow> bool" where
  "gateway_inv C E G =
     ((gw_keys G = [] \<or> roster_shape (gw_keys G)) \<and> wf_dict (gw_jobs G)
      \<and> (\<forall>k J. map_of (gw_jobs G) k = Some J \<longrightarrow> job_ok C E (gw_keys G) k J))"

lemma gateway_inv_update:
  "gateway_inv C E G \<Longrightarrow> job_ok C E (gw_keys G) k J \<Longrightarrow>
     gateway_inv C E (G\<lparr>gw_jobs := AList.update k J (gw_jobs G)\<rparr>)"
  by (simp add: gateway_inv_def)

lemma gateway_inv_rows: "gateway_inv C E (G\<lparr>gw_rows := rows\<rparr>) = gateway_inv C E G"
  by (simp add: gateway_inv_def)

lemma gateway_make_inv:
  assumes "gateway_make credentials rows [] = Inr G"
  shows "gateway_inv C E G"
proof -
  have item: "read_roster_item configured name = Inr (n, t, k) \<Longrightarrow> n = name" for configured name n t k
    by (auto simp: read_roster_item_def Let_def bindR_Inr_iff split: option.splits json.splits if_splits)
  have names: "mapR (read_roster_item configured) ns = Inr items \<Longrightarrow> map fst (map (\<lambda>(n, t, k). (n, k)) items) = ns"
    for configured ns items
    by (induction ns arbitrary: items) (auto simp: bindR_Inr_iff dest: item)
  have "ks = [] \<or> roster_shape ks" if "read_roster credentials taken = Inr (tokens, ks)" for taken tokens ks
    using that
    by (auto simp: read_roster_def roster_shape_def bindR_Inr_iff comp_def case_prod_unfold
        split: json.splits option.splits if_splits dest!: names)
  moreover from assms obtain taken tokens ks where "read_roster credentials taken = Inr (tokens, ks)" "gw_keys G = ks" "gw_jobs G = []"
    by (auto simp: gateway_make_def bindR_Inr_iff split: if_splits)
  ultimately show ?thesis by (fastforce simp: gateway_inv_def)
qed

lemma gateway_inv_job: "gateway_inv C E G \<Longrightarrow> map_of (gw_jobs G) k = Some J \<Longrightarrow> job_ok C E (gw_keys G) k J"
  by (simp add: gateway_inv_def)

lemma find_mem: "find P xs = Some x \<Longrightarrow> x \<in> set xs \<and> P x"
  by (induction xs) (auto split: if_splits)

lemma lease_inv: "gateway_inv C E G \<Longrightarrow> gateway_inv C E (snd (lease now node G))"
proof -
  assume inv: "gateway_inv C E G"
  show ?thesis
  proof (cases "find (\<lambda>(k, J). leasable now node J) (gw_jobs G)")
    case None
    with inv show ?thesis by (simp add: lease_def)
  next
    case (Some p)
    obtain k J where p: "p = (k, J)" by (cases p)
    with Some have mem: "(k, J) \<in> set (gw_jobs G)" "leasable now node J" by (auto dest: find_mem)
    with inv have "job_ok C E (gw_keys G) k J" by (simp add: gateway_inv_def wf_dict_mem)
    with mem(2) have "job_ok C E (gw_keys G) k (J\<lparr>jb_state := Leased, jb_until := Some (now + LEASE_SECONDS)\<rparr>)"
      by (auto simp: job_ok_def state_ok_def leasable_def)
    with inv Some p show ?thesis by (auto simp: lease_def intro!: gateway_inv_update)
  qed
qed

lemma find_job_some: "find_job v G = Inr (Some (k, J)) \<Longrightarrow> map_of (gw_jobs G) k = Some J"
  by (cases v) (auto simp: find_job_def)

lemma olc_result_inv: "gateway_inv C E G \<Longrightarrow> gateway_inv C E (snd (olc_result C now node job_id digest G))"
proof -
  assume inv: "gateway_inv C E G"
  have "job_ok C E (gw_keys G) k (finish_job C now d J)"
    if "map_of (gw_jobs G) k = Some J" "jb_state J = Leased" for k J d
  proof -
    from gateway_inv_job [OF inv that(1)] that(2) have "jb_atts J = []" "jb_keys J = Some (gw_keys G)" "roster_shape (gw_keys G)" "jb_quorum J = 2"
      by (simp_all add: job_ok_def state_ok_def)
    then show ?thesis by (simp add: finish_job_def job_ok_def state_ok_def approvals_def denials_def)
  qed
  with inv show ?thesis
    by (auto simp: olc_result_def Let_def split: json.split sum.split option.split
        intro!: gateway_inv_update dest!: find_job_some)
qed


lemma enqueue_inv: "gateway_inv C E G \<Longrightarrow> gateway_inv C E (snd (enqueue now fresh G))"
  by (auto simp: enqueue_def gateway_inv_def job_ok_def state_ok_def new_job_def)

lemma approvals_update:
  assumes "map_of (jb_atts J) verifier = None"
  shows "approvals (J\<lparr>jb_atts := AList.update verifier a (jb_atts J)\<rparr>) = approvals J + (if accepts (at_statement a) then 1 else 0)"
    "denials (J\<lparr>jb_atts := AList.update verifier a (jb_atts J)\<rparr>) = denials J + (if accepts (at_statement a) then 0 else 1)"
proof -
  have "AList.update verifier a (jb_atts J) = jb_atts J @ [(verifier, a)]"
    using assms by (intro update_new) (simp add: map_of_eq_None_iff)
  then show "approvals (J\<lparr>jb_atts := AList.update verifier a (jb_atts J)\<rparr>) = approvals J + (if accepts (at_statement a) then 1 else 0)"
    "denials (J\<lparr>jb_atts := AList.update verifier a (jb_atts J)\<rparr>) = denials J + (if accepts (at_statement a) then 0 else 1)"
    by (simp_all add: approvals_def denials_def)
qed

lemma vote_ok_cong: "jb_node J' = jb_node J \<Longrightarrow> jb_digest J' = jb_digest J \<Longrightarrow> vote_ok E ks k J' = vote_ok E ks k J"
  by (simp add: vote_ok_def fun_eq_iff)

lemma record_vote_ok:
  assumes job: "job_ok C E ks k J" and "jb_state J = AwaitingQuorum" "map_of (jb_atts J) verifier = None"
    and vote: "vote_ok E ks k J (verifier, a)"
  shows "job_ok C E ks k (record_vote verifier a J)"
proof -
  let ?J = "J\<lparr>jb_atts := AList.update verifier a (jb_atts J)\<rparr>"
  note counts = approvals_update [OF assms(3), of a]
  have new: "AList.update verifier a (jb_atts J) = jb_atts J @ [(verifier, a)]"
    using assms(3) by (intro update_new) (simp add: map_of_eq_None_iff)
  have "vote_ok E ks k (J\<lparr>jb_atts := x, jb_state := s\<rparr>) = vote_ok E ks k J" "vote_ok E ks k (J\<lparr>jb_atts := x\<rparr>) = vote_ok E ks k J" for x s
    by (rule vote_ok_cong; simp)+
  then have votes: "list_all (vote_ok E ks k (?J\<lparr>jb_state := s\<rparr>)) (AList.update verifier a (jb_atts J))"
    and votes': "list_all (vote_ok E ks k ?J) (AList.update verifier a (jb_atts J))" for s
    using job vote unfolding new by (simp_all add: job_ok_def)
  have state: "jb_digest J = Some (EXPECTED C)" "approvals J < 2" "denials J < 2" "jb_quorum J = 2"
    using job assms(2) by (simp_all add: job_ok_def state_ok_def)
  have same: "approvals (?J\<lparr>jb_state := s\<rparr>) = approvals ?J" "denials (?J\<lparr>jb_state := s\<rparr>) = denials ?J" for s
    by (simp_all add: approvals_def denials_def)
  consider "2 \<le> approvals ?J" | "approvals ?J < 2" "2 \<le> denials ?J" | "approvals ?J < 2" "denials ?J < 2" by linarith
  then show ?thesis
  proof cases
    case 1
    then have "record_vote verifier a J = ?J\<lparr>jb_state := QuorumVerified\<rparr>" using state by (simp add: record_vote_def Let_def)
    with 1 job votes [of QuorumVerified] same [of QuorumVerified] state show ?thesis by (simp add: job_ok_def state_ok_def)
  next
    case 2
    then have "record_vote verifier a J = ?J\<lparr>jb_state := Disputed\<rparr>" using state by (simp add: record_vote_def Let_def)
    with 2 job votes [of Disputed] same [of Disputed] state show ?thesis by (simp add: job_ok_def state_ok_def)
  next
    case 3
    then have "record_vote verifier a J = ?J" using state by (simp add: record_vote_def Let_def)
    with 3 job votes' state assms(2) show ?thesis by (simp add: job_ok_def state_ok_def)
  qed
qed

text \<open>The anatomy of \<open>attest\<close>: nothing changes, or a valid new vote is recorded.\<close>

lemma attest_cases:
  obtains (same) "snd (attest E verifier statement signature G) = G"
  | (vote) k J s where "map_of (gw_jobs G) k = Some J" "jb_state J = AwaitingQuorum" "map_of (jb_atts J) verifier = None"
      "signature = JStr s" "obj_get statement ''job_id'' = Some (JStr k)"
      "\<exists>kvs b. obj_fields statement = Some kvs \<and> set (map fst kvs) = set statement_fields \<and> obj_get statement ''accepted'' = Some (JBool b)"
      "obj_get statement ''verifier_id'' = Some (JStr verifier)" "obj_get statement ''node_id'' = Some (JStr (jb_node J))"
      "obj_get statement ''result_digest'' = Some (opt_field_json (jb_digest J))"
      "\<exists>key. map_of (gw_keys G) verifier = Some key \<and> is_ok (check_signature E key s statement)"
      "attest E verifier statement signature G
        = (let J' = record_vote verifier \<lparr>at_statement = statement, at_signature = s\<rparr> J
           in (Inr (attest_reply k J'), G\<lparr>gw_jobs := AList.update k J' (gw_jobs G)\<rparr>))"
proof (cases "\<exists>kvs b s. obj_fields statement = Some kvs \<and> set (map fst kvs) = set statement_fields
    \<and> obj_get statement ''accepted'' = Some (JBool b) \<and> signature = JStr s \<and> obj_get statement ''verifier_id'' = Some (JStr verifier)")
  case False
  then have "snd (attest E verifier statement signature G) = G"
    by (auto simp: attest_def split: option.split json.split)
  then show thesis by (rule same)
next
  case True
  then obtain kvs b s where st: "obj_fields statement = Some kvs" "set (map fst kvs) = set statement_fields"
    "obj_get statement ''accepted'' = Some (JBool b)" "signature = JStr s" "obj_get statement ''verifier_id'' = Some (JStr verifier)"
    by blast
  show thesis
  proof (cases "find_job (get_or statement ''job_id'' JNull) G")
    case (Inl e)
    with st show thesis by (intro same) (simp add: attest_def)
  next
    case (Inr o')
    show thesis
    proof (cases o')
      case None
      with Inr st show thesis by (intro same) (simp add: attest_def)
    next
      case (Some p)
      obtain k J where p: "p = (k, J)" by (cases p)
      with Inr Some have job: "map_of (gw_jobs G) k = Some J" "obj_get statement ''job_id'' = Some (JStr k)"
        by (auto simp: find_job_def get_or_def split: json.splits option.splits)
      show thesis
      proof (cases "jb_state J = AwaitingQuorum \<and> obj_get statement ''node_id'' = Some (JStr (jb_node J))
          \<and> obj_get statement ''result_digest'' = Some (opt_field_json (jb_digest J)) \<and> map_of (gw_keys G) verifier = job_key J verifier
          \<and> map_of (jb_atts J) verifier = None \<and> (\<exists>key. job_key J verifier = Some key \<and> is_ok (check_signature E key s statement))")
        case True
        then obtain key where key: "job_key J verifier = Some key" "is_ok (check_signature E key s statement)" by blast
        with True st job show thesis
          by (intro vote [OF job(1) _ _ st(4) job(2)]) (simp_all add: attest_def find_job_def get_or_def)
      next
        case False
        with st Inr Some p show thesis
          by (intro same) (auto simp: attest_def split: option.split)
      qed
    qed
  qed
qed

lemma attest_inv:
  assumes inv: "gateway_inv C E G"
  shows "gateway_inv C E (snd (attest E verifier statement signature G))"
proof (rule attest_cases [of E verifier statement signature G])
  assume "snd (attest E verifier statement signature G) = G"
  with inv show ?thesis by simp
next
  fix k J s
  assume job: "map_of (gw_jobs G) k = Some J" "jb_state J = AwaitingQuorum" "map_of (jb_atts J) verifier = None"
    and st: "obj_get statement ''job_id'' = Some (JStr k)"
      "\<exists>kvs b. obj_fields statement = Some kvs \<and> set (map fst kvs) = set statement_fields \<and> obj_get statement ''accepted'' = Some (JBool b)"
      "obj_get statement ''verifier_id'' = Some (JStr verifier)" "obj_get statement ''node_id'' = Some (JStr (jb_node J))"
      "obj_get statement ''result_digest'' = Some (opt_field_json (jb_digest J))"
    and key: "\<exists>key. map_of (gw_keys G) verifier = Some key \<and> is_ok (check_signature E key s statement)"
    and eq: "attest E verifier statement signature G
        = (let J' = record_vote verifier \<lparr>at_statement = statement, at_signature = s\<rparr> J
           in (Inr (attest_reply k J'), G\<lparr>gw_jobs := AList.update k J' (gw_jobs G)\<rparr>))"
  note ok = gateway_inv_job [OF inv job(1)]
  then have "jb_digest J = Some (EXPECTED C)" "roster_shape (gw_keys G)" using job(2) by (simp_all add: job_ok_def state_ok_def)
  moreover from key \<open>roster_shape (gw_keys G)\<close> have "verifier \<in> set VERIFIER_IDS"
    by (metis domI dom_map_of_conv_image_fst list.set_map roster_shape_def)
  ultimately have "vote_ok E (gw_keys G) k J (verifier, \<lparr>at_statement = statement, at_signature = s\<rparr>)"
    using st key by (auto simp: vote_ok_def opt_field_json_def)
  from gateway_inv_update [OF inv record_vote_ok [OF ok job(2,3) this]]
  show ?thesis by (simp add: eq Let_def)
qed

lemma catch_invalid_snd [simp]: "snd (catch_invalid r) = snd r"
  by (cases r) (auto simp: catch_invalid_def split: sum.split error.split)

lemma guarded_inv: "gateway_inv C E G \<Longrightarrow> gateway_inv C E (snd (f G)) \<Longrightarrow> gateway_inv C E (snd (guarded role q f G))"
  by (simp add: guarded_def split: sum.split bool.split)

lemma olc_heartbeat_inv: "gateway_inv C E G \<Longrightarrow> gateway_inv C E (snd (olc_heartbeat now node capabilities G))"
  by (simp add: olc_heartbeat_def gateway_inv_rows split: option.split json.split)

lemmas gateway_op_inv = lease_inv olc_result_inv enqueue_inv attest_inv olc_heartbeat_inv

section \<open>The gateway as a machine\<close>

datatype gateway_op = Get rat http_request | Post rat string http_request

primrec op_time :: "gateway_op \<Rightarrow> rat" where
  "op_time (Get now q) = now"
| "op_time (Post now fresh q) = now"

primrec gateway_step :: "crypto \<Rightarrow> ed25519 \<Rightarrow> (rat \<Rightarrow> string) \<Rightarrow> gateway_op \<Rightarrow> (gateway, nat \<times> json) operation" where
  "gateway_step C E show_time (Get now q) = gateway_get show_time now q"
| "gateway_step C E show_time (Post now fresh q) = gateway_post C E now fresh q"

lemma gateway_get_inv: "gateway_inv C E G \<Longrightarrow> gateway_inv C E (snd (gateway_get show_time now q G))"
  by (auto simp: gateway_get_def http_ok_def intro!: guarded_inv gateway_op_inv split: option.split)

lemma gateway_post_inv: "gateway_inv C E G \<Longrightarrow> gateway_inv C E (snd (gateway_post C E now fresh q G))"
  by (auto simp: gateway_post_def Let_def post_route_def intro!: guarded_inv gateway_op_inv split: option.split sum.split)

interpretation gateway: invariant_machine "gateway_step C E show_time" "gateway_inv C E" for C E show_time
proof
  fix s a assume "gateway_inv C E s"
  then show "gateway_inv C E (snd (gateway_step C E show_time a s))"
    by (cases a) (simp_all add: gateway_get_inv gateway_post_inv)
qed

end
