(* ===== verification/Olc_Safety.thy ===== *)
theory Olc_Safety
  imports Olc_Receipts
begin

text \<open>
  What the Open Light Compute gateway promises, for every sequence of requests: its public receipts pass
  the public check, a verified job rests on two genuine approvals, at most one lease is in force.
\<close>

section \<open>Receipts of sound jobs\<close>

lemma str_values_table: "str_values (map (\<lambda>(k, v). (k, JStr v)) d) = Some d"
  by (induction d) auto

lemma receipt_fields:
  "obj_get (receipt_json (k, J)) ''job_id'' = Some (JStr k)"
  "obj_get (receipt_json (k, J)) ''node_id'' = Some (JStr (jb_node J))"
  "obj_get (receipt_json (k, J)) ''state'' = Some (JStr (job_state_name (jb_state J)))"
  "obj_get (receipt_json (k, J)) ''result_digest'' = Some (opt_field_json (jb_digest J))"
  "obj_get (receipt_json (k, J)) ''attestations'' = Some (if jb_keys J = None then JNull else attestations_json (jb_atts J))"
  "obj_get (receipt_json (k, J)) ''verifier_keys'' = Some (case jb_keys J of None \<Rightarrow> JNull | Some d \<Rightarrow> text_table d)"
  "obj_get (receipt_json (k, J)) ''quorum_required'' = Some (if jb_keys J = None then JNull else JInt (jb_quorum J))"
  "obj_fields (receipt_json (k, J)) \<noteq> None"
  by (simp_all add: receipt_json_def obj_get_def obj_fields_def Let_def)

lemma need_Some: "obj_get v k = Some x \<Longrightarrow> need v k = Inr x"
  by (auto simp: need_def obj_get_def obj_fields_def split: json.splits)

lemma check_signature_key: "is_ok (check_signature E key s v) \<Longrightarrow> is_ok (public_key key)"
  by (auto simp: check_signature_def is_ok_iff bindR_Inr_iff)

lemma check_vote_ok:
  assumes vote: "vote_ok E ks k J (verifier, a)" and digest: "jb_digest J = Some (EXPECTED C)"
  shows "check_vote C E (receipt_json (k, J)) ks verifier
      (JObj [(''statement'', at_statement a), (''signature'', JStr (at_signature a))]) = Inr (accepts (at_statement a))"
proof -
  let ?st = "at_statement a" and ?r = "receipt_json (k, J)"
  from vote digest obtain kvs b key where st: "obj_fields ?st = Some kvs" "set (map fst kvs) = set statement_fields"
    "obj_get ?st ''verifier_id'' = Some (JStr verifier)" "obj_get ?st ''job_id'' = Some (JStr k)"
    "obj_get ?st ''node_id'' = Some (JStr (jb_node J))" "obj_get ?st ''result_digest'' = Some (JStr (EXPECTED C))"
    "obj_get ?st ''accepted'' = Some (JBool b)" "map_of ks verifier = Some key" "is_ok (check_signature E key (at_signature a) ?st)"
    by (auto simp: vote_ok_def Let_def)
  have "differs ?st ?r ''job_id'' = Inr False" "differs ?st ?r ''node_id'' = Inr False" "differs ?st ?r ''result_digest'' = Inr False"
    using st(4-6) digest by (simp_all add: differs_def need_Some receipt_fields get_or_def opt_field_json_def)
  moreover have "is_bool (get_or ?st ''accepted'' JNull)" "get_or ?st ''verifier_id'' JNull = JStr verifier"
    using st(3,7) by (simp_all add: get_or_def is_bool_def)
  moreover have "obj_get ?r ''result_digest'' = Some (JStr (EXPECTED C))"
    using digest by (simp add: receipt_fields opt_field_json_def)
  moreover obtain pk where "public_key key = Inr pk" using check_signature_key [OF st(9)] by (auto simp: is_ok_iff)
  moreover have "check_signature E key (at_signature a) ?st = Inr ()" using st(9) by (auto simp: is_ok_iff)
  moreover have "need (JObj [(''statement'', ?st), (''signature'', JStr (at_signature a))]) ''statement'' = Inr ?st"
    "need (JObj [(''statement'', ?st), (''signature'', JStr (at_signature a))]) ''signature'' = Inr (JStr (at_signature a))"
    by (simp_all add: need_def obj_get_def obj_fields_def)
  ultimately show ?thesis
    using st(1,2) dict_get_Some [OF st(8), of "[]"] by (simp add: check_vote_def orR_def)
qed

lemma check_votes_ok:
  assumes "jb_digest J = Some (EXPECTED C)" "list_all (vote_ok E ks k J) atts"
  shows "check_votes C E (receipt_json (k, J)) ks
      (map (\<lambda>(k, a). (k, JObj [(''statement'', at_statement a), (''signature'', JStr (at_signature a))])) atts)
    = Inr (int (length (filter (\<lambda>(k, a). accepts (at_statement a)) atts)),
           int (length atts) - int (length (filter (\<lambda>(k, a). accepts (at_statement a)) atts)))"
  using assms(2) by (induction atts) (auto simp: check_vote_ok [OF _ assms(1)])

lemma job_votes:
  assumes "job_ok C E ks k J"
  shows "check_votes C E (receipt_json (k, J)) ks
      (map (\<lambda>(k, a). (k, JObj [(''statement'', at_statement a), (''signature'', JStr (at_signature a))])) (jb_atts J))
    = Inr (approvals J, denials J)"
proof (cases "jb_atts J = []")
  case True
  then show ?thesis by (simp add: approvals_def denials_def)
next
  case False
  with assms have "jb_digest J = Some (EXPECTED C)" by (cases "jb_state J") (simp_all add: job_ok_def state_ok_def)
  with assms check_votes_ok [of J C E ks k "jb_atts J"] show ?thesis by (simp add: job_ok_def approvals_def denials_def)
qed

lemma job_state_agrees:
  assumes "job_ok C E ks k J"
  shows "\<not> state_differs (job_state_name (jb_state J)) (approvals J) (denials J) (jb_atts J \<noteq> [])"
  using assms by (cases "jb_state J") (simp_all add: job_ok_def state_ok_def state_differs_def)

lemma quorum_verified_name: "job_state_name s = ''quorum_verified'' \<longleftrightarrow> s = QuorumVerified"
  by (cases s) simp_all

definition roster_pinned :: "crypto \<Rightarrow> (string, string) dict \<Rightarrow> string option \<Rightarrow> bool" where
  "roster_pinned C ks pinned = (pinned = None \<or> map_sum id (sha256 C) (canonical_json (text_table ks)) = Inr (the pinned))"

lemma check_receipt_ok:
  assumes job: "job_ok C E ks k J" and pin: "roster_pinned C ks pinned"
  shows "check_receipt C E pinned key (receipt_json (k, J)) = Inr (jb_state J = QuorumVerified)"
proof -
  let ?r = "receipt_json (k, J)"
  have ks: "jb_keys J = Some ks" "roster_shape ks" "jb_quorum J = 2" using job by (simp_all add: job_ok_def)
  then have roster: "set (map fst ks) = set VERIFIER_IDS" "card (set (map snd ks)) = 3"
    using distinct_card [of "map snd ks"] by (auto simp: roster_shape_def VERIFIER_IDS_def dest: arg_cong [of _ _ length])
  have names: "fst ` set (jb_atts J) \<subseteq> fst ` set ks"
  proof -
    have "fst p \<in> set VERIFIER_IDS" if "p \<in> set (jb_atts J)" for p
      using job that by (auto simp: job_ok_def vote_ok_def list_all_iff Let_def)
    then show ?thesis using roster(1) by auto
  qed
  have get: "get_or ?r ''verifier_keys'' JNull = text_table ks" "need ?r ''quorum_required'' = Inr (JInt 2)"
    "need ?r ''attestations'' = Inr (attestations_json (jb_atts J))" "need ?r ''state'' = Inr (JStr (job_state_name (jb_state J)))"
    using ks by (simp_all add: get_or_def need_Some receipt_fields)
  have pinned: "(case pinned of None \<Rightarrow> Inr False | Some [] \<Rightarrow> Inr False
      | Some p \<Rightarrow> bindR (canonical_json (text_table ks)) (\<lambda>body. Inr (sha256 C body \<noteq> p))) = Inr False"
    using pin by (cases "canonical_json (text_table ks)") (auto simp: roster_pinned_def split: option.split list.split)
  have atts: "obj_fields (attestations_json (jb_atts J))
      = Some (map (\<lambda>(k, a). (k, JObj [(''statement'', at_statement a), (''signature'', JStr (at_signature a))])) (jb_atts J))"
    by (simp add: attestations_json_def obj_fields_def)
  have tab: "obj_fields (text_table ks) = Some (map (\<lambda>(k, v). (k, JStr v)) ks)"
    by (simp add: text_table_def obj_fields_def)
  have "quorum_receipt C E pinned ?r (text_table ks) = Inr (jb_state J = QuorumVerified)"
    unfolding quorum_receipt_def tab option.case str_values_table get bindR_simps pinned atts
    using roster names job_state_agrees [OF job]
    by (simp add: job_votes [OF job] quorum_verified_name image_image comp_def split_beta)
  then show ?thesis
    using get(1) receipt_fields(8) [of k J] by (auto simp: check_receipt_def text_table_def)
qed

lemma check_receipts_ok:
  assumes "list_all (\<lambda>(k, J). job_ok C E ks k J) jobs" "roster_pinned C ks pinned"
  shows "check_receipts C E pinned key (map receipt_json jobs)
    = Inr (length (filter (\<lambda>(k, J). jb_state J = QuorumVerified) jobs), length (filter (\<lambda>(k, J). jb_state J \<noteq> QuorumVerified) jobs))"
  using assms(1) by (induction jobs) (auto simp: check_receipt_ok [OF _ assms(2)])

lemma gateway_frame:
  "gw_keys (snd (gateway_step C E show_time op G)) = gw_keys G \<and> gw_verifier (snd (gateway_step C E show_time op G)) = gw_verifier G"
proof -
  have guard: "gw_keys (snd (guarded role q f G)) = gw_keys G \<and> gw_verifier (snd (guarded role q f G)) = gw_verifier G"
    if "gw_keys (snd (f G)) = gw_keys G \<and> gw_verifier (snd (f G)) = gw_verifier G" for role q f
    using that by (simp add: guarded_def split: sum.split bool.split)
  have lease: "gw_keys (snd (lease now node G)) = gw_keys G \<and> gw_verifier (snd (lease now node G)) = gw_verifier G" for now node
    by (simp add: lease_def split: option.split)
  have rest: "gw_keys (snd (olc_result C now node j d G)) = gw_keys G \<and> gw_verifier (snd (olc_result C now node j d G)) = gw_verifier G"
    "gw_keys (snd (olc_heartbeat now node v G)) = gw_keys G \<and> gw_verifier (snd (olc_heartbeat now node v G)) = gw_verifier G"
    "gw_keys (snd (enqueue now fresh G)) = gw_keys G \<and> gw_verifier (snd (enqueue now fresh G)) = gw_verifier G" for now node j d v fresh
    by (simp_all add: olc_result_def olc_heartbeat_def enqueue_def Let_def split: json.split sum.split option.split)
  have att: "gw_keys (snd (attest E n st s G)) = gw_keys G \<and> gw_verifier (snd (attest E n st s G)) = gw_verifier G" for n st s
    by (rule attest_cases [of E n st s G]) (simp_all add: Let_def)
  show ?thesis
    by (cases op; simp add: gateway_get_def gateway_post_def Let_def http_ok_def post_route_def guard lease rest att
        split: option.split sum.split)
qed

lemma gateway_run_frame:
  "gw_keys (run_ops (gateway_step C E show_time) ops G) = gw_keys G
    \<and> gw_verifier (run_ops (gateway_step C E show_time) ops G) = gw_verifier G"
  by (induction ops arbitrary: G) (simp_all add: gateway_frame)

section \<open>Properties\<close>


text \<open>C23. Two genuine approvals: when a job is \<open>quorum_verified\<close>, whatever requests led there, two different
  verifiers of the roster have each signed a statement, under the key registered for them, that accepts
  this job, of this node, with the expected digest.\<close>

theorem olc_quorum_genuine:
  assumes "gateway_make credentials rows [] = Inr G" "M = run_ops (gateway_step C E show_time) ops G"
    and "map_of (gw_jobs M) k = Some J" "jb_state J = QuorumVerified"
  shows "\<exists>v w a b. v \<noteq> w \<and> {v, w} \<subseteq> set VERIFIER_IDS \<and> jb_digest J = Some (EXPECTED C)
    \<and> map_of (jb_atts J) v = Some a \<and> map_of (jb_atts J) w = Some b \<and> accepts (at_statement a) \<and> accepts (at_statement b)
    \<and> vote_ok E (gw_keys G) k J (v, a) \<and> vote_ok E (gw_keys G) k J (w, b)"
proof -
  have inv: "gateway_inv C E M" unfolding assms(2) by (rule gateway.run_inv [OF gateway_make_inv [OF assms(1)]])
  have job: "job_ok C E (gw_keys G) k J"
    using gateway_inv_job [OF inv assms(3)] gateway_run_frame [of C E show_time ops G] assms(2) by simp
  let ?yes = "filter (\<lambda>(k, a). accepts (at_statement a)) (jb_atts J)"
  from job assms(4) have two: "2 \<le> length ?yes" and wf: "wf_dict (jb_atts J)" and digest: "jb_digest J = Some (EXPECTED C)"
    by (simp_all add: job_ok_def state_ok_def approvals_def)
  from two obtain p q rest where yes: "?yes = p # q # rest" by (cases ?yes; cases "tl ?yes") auto
  obtain v a w b where pq: "p = (v, a)" "q = (w, b)" by (cases p; cases q)
  have sub: "p \<in> set ?yes" "q \<in> set ?yes" by (simp_all add: yes)
  then have mem: "(v, a) \<in> set (jb_atts J)" "(w, b) \<in> set (jb_atts J)" "accepts (at_statement a)" "accepts (at_statement b)"
    by (auto simp: pq)
  have "distinct (map fst ?yes)" using wf unfolding wf_dict_def by (rule distinct_map_filter)
  then have "v \<noteq> w" by (simp add: yes pq)
  moreover have "map_of (jb_atts J) v = Some a" "map_of (jb_atts J) w = Some b" using mem(1,2) wf by (simp_all add: wf_dict_mem)
  moreover have votes: "vote_ok E (gw_keys G) k J (v, a)" "vote_ok E (gw_keys G) k J (w, b)"
    using job mem(1,2) by (auto simp: job_ok_def list_all_iff)
  moreover have "v \<in> set VERIFIER_IDS" "w \<in> set VERIFIER_IDS" using votes by (simp_all add: vote_ok_def Let_def)
  ultimately show ?thesis using mem(3,4) digest by blast
qed

section \<open>Leases\<close>

text \<open>At most one job of a worker is under a lease that is in force.\<close>

definition one_lease :: "rat \<Rightarrow> gateway \<Rightarrow> bool" where
  "one_lease now G = (\<forall>k k' J J'. map_of (gw_jobs G) k = Some J \<and> map_of (gw_jobs G) k' = Some J'
     \<and> in_force now NODE_ID J \<and> in_force now NODE_ID J' \<longrightarrow> k = k')"

lemma in_force_mono: "in_force now node J \<Longrightarrow> t \<le> now \<Longrightarrow> in_force t node J"
  by (auto simp: in_force_def)

lemma one_lease_mono: "one_lease t G \<Longrightarrow> t \<le> now \<Longrightarrow> one_lease now G"
  unfolding one_lease_def using in_force_mono by blast

text \<open>A change of one job that adds no lease.\<close>

lemma one_lease_update:
  "one_lease t G \<Longrightarrow> (in_force t NODE_ID J \<Longrightarrow> \<exists>J0. map_of (gw_jobs G) k = Some J0 \<and> in_force t NODE_ID J0) \<Longrightarrow>
     one_lease t (G\<lparr>gw_jobs := AList.update k J (gw_jobs G)\<rparr>)"
  by (fastforce simp: one_lease_def)

lemma lease_one:
  assumes "one_lease now G" "wf_dict (gw_jobs G)"
  shows "one_lease now (snd (lease now NODE_ID G))"
proof (cases "list_ex (\<lambda>(k, J). in_force now NODE_ID J) (gw_jobs G)")
  case True
  with assms show ?thesis by (simp add: lease_def)
next
  case False
  then have "\<not> in_force now NODE_ID J" if "map_of (gw_jobs G) k = Some J" for k J
    using that assms(2) by (auto simp: list_ex_iff wf_dict_mem [symmetric])
  with False assms show ?thesis
    by (auto simp: lease_def one_lease_def split: option.split if_splits)
qed

lemma leased_states [simp]: "\<not> in_force t node (finish_job C now d J)" "jb_state J = AwaitingQuorum \<Longrightarrow> \<not> in_force t node (record_vote v a J)"
  by (simp_all add: in_force_def finish_job_def record_vote_def Let_def)

lemma gateway_step_one:
  assumes inv: "gateway_inv C E G" and one: "one_lease t G" and "t \<le> T" "op_time op = T"
  shows "one_lease T (snd (gateway_step C E show_time op G))"
proof -
  note now = one_lease_mono [OF one assms(3)]
  have guard: "one_lease T (snd (guarded role q f G))" if "one_lease T (snd (f G))" for role q f
    using that now by (simp add: guarded_def split: sum.split bool.split)
  have lease: "one_lease T (snd (lease T NODE_ID G))"
    using lease_one [OF now] inv by (simp add: gateway_inv_def)
  have enq: "one_lease T (snd (enqueue now' fresh G))" for now' fresh
    using now by (auto simp: enqueue_def in_force_def new_job_def intro!: one_lease_update)
  have beat: "one_lease T (snd (olc_heartbeat now' node v G))" for now' node v
    using now by (simp add: olc_heartbeat_def one_lease_def split: option.split json.split)
  have res: "one_lease T (snd (olc_result C now' node j d G))" for now' node j d
    using now by (auto simp: olc_result_def Let_def intro!: one_lease_update split: json.split sum.split option.split)
  have att: "one_lease T (snd (attest E n st s G))" for n st s
    using now by (rule_tac attest_cases [of E n st s G]) (auto simp: Let_def intro!: one_lease_update)
  show ?thesis using assms(4)
  proof (cases op)
    case (Get now' q)
    with now lease assms(4) show ?thesis by (simp add: gateway_get_def http_ok_def guard split: option.split)
  next
    case (Post now' fresh q)
    with now assms(4) show ?thesis
      by (simp add: gateway_post_def Let_def post_route_def guard enq beat res att split: option.split sum.split)
  qed
qed

text \<open>C24. One job at a time: while the clock does not run backwards, at the time of the last request at most one
  job is under a lease in force, so an honest worker never gets a second job before it reported on the
  first or its lease ran out.\<close>

theorem olc_one_lease:
  assumes "gateway_make credentials rows [] = Inr G" "sorted (map op_time ops @ [t])"
    and "M = run_ops (gateway_step C E show_time) ops G"
    and "map_of (gw_jobs M) k = Some J" "map_of (gw_jobs M) k' = Some J'"
    and "in_force t NODE_ID J" "in_force t NODE_ID J'"
  shows "k = k'"
proof -
  have "one_lease t (run_ops (gateway_step C E show_time) ops K)"
    if "gateway_inv C E K" "one_lease t0 K" "sorted (t0 # map op_time ops @ [t])" for t0 K
    using that assms(2)
  proof (induction ops arbitrary: K t0)
    case Nil
    then show ?case using one_lease_mono by auto
  next
    case (Cons op ops)
    from Cons.prems have "one_lease (op_time op) (snd (gateway_step C E show_time op K))"
      by (intro gateway_step_one [of C E K t0]) auto
    with Cons.prems Cons.IH [OF gateway.step_inv [OF Cons.prems(1)], of "op_time op"] show ?case by simp
  qed
  moreover have "gw_jobs G = []"
    using assms(1) by (auto simp: gateway_make_def bindR_Inr_iff split: if_splits)
  then have "one_lease (hd (map op_time ops @ [t])) G" by (simp add: one_lease_def)
  moreover have "sorted (hd (map op_time ops @ [t]) # map op_time ops @ [t])"
    using assms(2) by (cases ops) auto
  ultimately have "one_lease t M"
    using gateway_make_inv [OF assms(1)] assms(3) by blast
  with assms(4-7) show ?thesis by (auto simp: one_lease_def)
qed

section \<open>Honest verifiers\<close>

lemma hex_chars: "list_all (\<lambda>d. hex_digit_any (hex_char d) = Some d \<and> \<not> hex_space (hex_char d)) [0..<16]"
  by code_simp

lemma hex_char_digit: "d < 16 \<Longrightarrow> hex_digit_any (hex_char d) = Some d \<and> \<not> hex_space (hex_char d)"
  using hex_chars by (simp add: list_all_iff)

lemma from_hex_byte: "from_hex (to_hex [b] @ s) = map_option ((#) b) (from_hex s)"
proof -
  have b: "(of_char b :: nat) < 256" using byte_less [of b] by (simp add: byte_def)
  then have "(of_char b :: nat) div 16 < 16" by (simp add: less_mult_imp_div_less)
  with hex_char_digit [of "(of_char b :: nat) div 16"] hex_char_digit [of "(of_char b :: nat) mod 16"] b show ?thesis
    by (simp add: to_hex_def)
qed

text \<open>\<open>bytes.fromhex(b.hex()) == b\<close>.\<close>

lemma from_hex_to_hex: "from_hex (to_hex bs) = Some bs"
proof (induction bs)
  case (Cons b bs)
  have "to_hex (b # bs) = to_hex [b] @ to_hex bs" by (simp add: to_hex_def)
  with Cons show ?case by (simp only: from_hex_byte) simp
qed (simp add: to_hex_def)

text \<open>\<open>verify_once\<close> of \<open>splitchain/olc_verifier.py\<close>, between its two requests: the body that answers a job.\<close>

definition verifier_statement :: "crypto \<Rightarrow> string \<Rightarrow> json \<Rightarrow> json" where
  "verifier_statement C verifier task = JObj
     [(''job_id'', get_or task ''job_id'' JNull), (''node_id'', get_or task ''node_id'' JNull),
      (''result_digest'', get_or task ''result_digest'' JNull),
      (''accepted'', JBool (get_or task ''result_digest'' JNull = JStr (EXPECTED C))), (''verifier_id'', JStr verifier)]"

definition verify_once :: "crypto \<Rightarrow> ed25519 \<Rightarrow> string \<Rightarrow> string \<Rightarrow> json \<Rightarrow> (json \<times> json) option result" where
  "verify_once C E verifier private task =
     (if obj_get task ''job_id'' = None then Inr None
      else bindR (need task ''node_id'') (\<lambda>_. bindR (need task ''result_digest'') (\<lambda>_.
        let st = verifier_statement C verifier task in
        bindR (canonical_json st) (\<lambda>body. Inr (Some (st, JStr (to_hex (ed_sign E private body))))))))"

text \<open>One turn of a verifier: it asks for a job and attests to it.\<close>

definition verifier_turn :: "crypto \<Rightarrow> ed25519 \<Rightarrow> string \<Rightarrow> string \<Rightarrow> (gateway, json) operation" where
  "verifier_turn C E verifier private G =
     (case verify_once C E verifier private (verifier_job verifier G) of
        Inl e \<Rightarrow> (Inl e, G)
      | Inr None \<Rightarrow> (Inr JNull, G)
      | Inr (Some (st, s)) \<Rightarrow> attest E verifier st s G)"

definition key_registered :: "ed25519 \<Rightarrow> gateway \<Rightarrow> string \<Rightarrow> string \<Rightarrow> bool" where
  "key_registered E G verifier private =
     (map_of (gw_keys G) verifier = Some (to_hex (ed_public E private)) \<and> length (ed_public E private) = 32)"

definition waiting_for :: "gateway \<Rightarrow> string \<Rightarrow> string \<times> job \<Rightarrow> bool" where
  "waiting_for G verifier p = (case p of (k, J) \<Rightarrow> jb_state J = AwaitingQuorum \<and> job_key J verifier \<noteq> None
     \<and> \<not> dict_has (jb_atts J) verifier \<and> map_of (gw_keys G) verifier = job_key J verifier)"

lemma verifier_job_found:
  assumes "find (waiting_for G verifier) (gw_jobs G) = Some (k, J)"
  shows "verifier_job verifier G = JObj [(''job_id'', JStr k), (''node_id'', JStr (jb_node J)), (''result_digest'', opt_field_json (jb_digest J))]"
proof -
  have "waiting_for G verifier = (\<lambda>(k, J). jb_state J = AwaitingQuorum \<and> job_key J verifier \<noteq> None
      \<and> \<not> dict_has (jb_atts J) verifier \<and> map_of (gw_keys G) verifier = job_key J verifier)"
    by (simp add: waiting_for_def fun_eq_iff)
  with assms show ?thesis by (simp add: verifier_job_def)
qed

lemma honest_turn:
  assumes "ed25519_correct E" "key_registered E G verifier private" "wf_dict (gw_jobs G)"
    and found: "find (waiting_for G verifier) (gw_jobs G) = Some (k, J)" and "jb_digest J = Some (EXPECTED C)"
  shows "\<exists>a. accepts (at_statement a)
    \<and> (\<exists>st s. verify_once C E verifier private (verifier_job verifier G) = Inr (Some (st, s)))
    \<and> verifier_turn C E verifier private G
      = (Inr (attest_reply k (record_vote verifier a J)), G\<lparr>gw_jobs := AList.update k (record_vote verifier a J) (gw_jobs G)\<rparr>)"
proof -
  let ?task = "verifier_job verifier G" and ?st = "verifier_statement C verifier (verifier_job verifier G)"
  note task = verifier_job_found [OF found]
  have mem: "map_of (gw_jobs G) k = Some J" "waiting_for G verifier (k, J)"
    using find_mem [OF found] assms(3) by (simp_all add: wf_dict_mem)
  have st: "?st = JObj [(''job_id'', JStr k), (''node_id'', JStr (jb_node J)), (''result_digest'', JStr (EXPECTED C)),
      (''accepted'', JBool True), (''verifier_id'', JStr verifier)]"
    using assms(5) by (simp add: verifier_statement_def task get_or_def obj_get_def opt_field_json_def)
  then obtain body where body: "canonical_json ?st = Inr body" by (simp add: canonical_json_def)
  let ?s = "to_hex (ed_sign E private body)"
  have once: "verify_once C E verifier private ?task = Inr (Some (?st, JStr ?s))"
    using body by (simp add: verify_once_def Let_def) (simp add: task need_def obj_get_def obj_fields_def)
  have key: "job_key J verifier = Some (to_hex (ed_public E private))" "map_of (gw_keys G) verifier = job_key J verifier"
    using mem(2) assms(2) by (simp_all add: waiting_for_def key_registered_def)
  have sig: "check_signature E (to_hex (ed_public E private)) ?s ?st = Inr ()"
    using assms(1,2) body by (simp add: check_signature_def public_key_def from_hex_to_hex key_registered_def ed25519_correct_def)
  let ?a = "\<lparr>at_statement = ?st, at_signature = ?s\<rparr>"
  have "attest E verifier ?st (JStr ?s) G
      = (Inr (attest_reply k (record_vote verifier ?a J)), G\<lparr>gw_jobs := AList.update k (record_vote verifier ?a J) (gw_jobs G)\<rparr>)"
  proof -
    have f: "obj_fields ?st = Some [(''job_id'', JStr k), (''node_id'', JStr (jb_node J)), (''result_digest'', JStr (EXPECTED C)),
        (''accepted'', JBool True), (''verifier_id'', JStr verifier)]"
      "obj_get ?st ''accepted'' = Some (JBool True)" "obj_get ?st ''verifier_id'' = Some (JStr verifier)"
      "obj_get ?st ''node_id'' = Some (JStr (jb_node J))" "obj_get ?st ''result_digest'' = Some (opt_field_json (jb_digest J))"
      "find_job (get_or ?st ''job_id'' JNull) G = Inr (Some (k, J))"
      using assms(5) mem(1) by (simp_all add: st obj_fields_def obj_get_def get_or_def find_job_def opt_field_json_def)
    show ?thesis
      using mem(2) key sig f
      by (simp add: attest_def waiting_for_def dict_has_def statement_fields_def insert_commute Let_def)
  qed
  moreover have "accepts (at_statement ?a)" by (simp add: st accepts_def obj_get_def)
  ultimately show ?thesis using once by (intro exI [of _ ?a]) (simp add: verifier_turn_def)
qed

lemma find_update:
  assumes "find P xs = Some (k, J)" "P' (k, J')" "\<forall>p \<in> set xs. fst p \<noteq> k \<longrightarrow> P' p = P p" "wf_dict xs"
  shows "find P' (AList.update k J' xs) = Some (k, J')"
  using assms
proof (induction xs)
  case (Cons x xs)
  obtain k0 J0 where x: "x = (k0, J0)" by (cases x)
  show ?case
  proof (cases "k0 = k")
    case True
    with Cons.prems x show ?thesis by simp
  next
    case False
    with Cons.prems x have "\<not> P (k0, J0)" by (auto split: if_splits)
    with False Cons x show ?thesis by (auto simp: wf_dict_def)
  qed
qed simp

text \<open>C25. Liveness of the quorum: a job waits with the expected digest and no votes, and is the first that
  waits for either of two honest verifiers, whose keys are on the roster. After a turn of each, whichever
  the third verifier is, the job is \<open>quorum_verified\<close>.\<close>

theorem olc_honest_quorum:
  assumes "ed25519_correct E" "key_registered E G v private" "key_registered E G w private'" "v \<noteq> w" "wf_dict (gw_jobs G)"
    and "find (waiting_for G v) (gw_jobs G) = Some (k, J)" "find (waiting_for G w) (gw_jobs G) = Some (k, J)"
    and "jb_digest J = Some (EXPECTED C)" "jb_atts J = []" "jb_quorum J = 2"
  shows "map_option jb_state (map_of (gw_jobs (snd (verifier_turn C E w private' (snd (verifier_turn C E v private G))))) k)
    = Some QuorumVerified"
proof -
  obtain a where a: "accepts (at_statement a)" "verifier_turn C E v private G
      = (Inr (attest_reply k (record_vote v a J)), G\<lparr>gw_jobs := AList.update k (record_vote v a J) (gw_jobs G)\<rparr>)"
    using honest_turn [OF assms(1,2,5,6,8)] by blast
  let ?J = "J\<lparr>jb_atts := [(v, a)]\<rparr>" and ?G = "G\<lparr>gw_jobs := AList.update k (record_vote v a J) (gw_jobs G)\<rparr>"
  have J: "record_vote v a J = ?J"
    using assms(9,10) a(1) by (simp add: record_vote_def approvals_def denials_def Let_def)
  have find: "find (waiting_for ?G w) (gw_jobs ?G) = Some (k, ?J)"
  proof (simp add: J, rule find_update [OF assms(7) _ _ assms(5)])
    show "waiting_for (G\<lparr>gw_jobs := AList.update k ?J (gw_jobs G)\<rparr>) w (k, ?J)"
      using find_mem [OF assms(7)] assms(4) by (simp add: waiting_for_def dict_has_def job_key_def)
  qed (simp add: waiting_for_def case_prod_unfold)
  have "key_registered E ?G w private'" "wf_dict (gw_jobs ?G)" "jb_digest ?J = Some (EXPECTED C)"
    using assms(3,5,8) by (simp_all add: key_registered_def)
  from honest_turn [OF assms(1) this(1,2) find this(3)] obtain b where b: "accepts (at_statement b)"
    "verifier_turn C E w private' ?G
      = (Inr (attest_reply k (record_vote w b ?J)), ?G\<lparr>gw_jobs := AList.update k (record_vote w b ?J) (gw_jobs ?G)\<rparr>)"
    by blast
  have "jb_state (record_vote w b ?J) = QuorumVerified"
    using assms(4,10) a(1) b(1) by (simp add: record_vote_def approvals_def denials_def Let_def)
  with a(2) b(2) show ?thesis by simp
qed

section \<open>A pilot run\<close>

text \<open>The operator queues the job, the worker leases it and reports, two verifiers approve.\<close>

definition pilot_crypto :: crypto where
  "pilot_crypto = \<lparr>sha256 = (\<lambda>s. replicate 64 CHR ''a''), hmac_sha256 = (\<lambda>k s. [])\<rparr>"

definition pilot_roster :: "(string \<times> char) list" where
  "pilot_roster = [(''verifier-1'', CHR ''1''), (''verifier-2'', CHR ''2''), (''verifier-3'', CHR ''3'')]"

definition pilot_credentials :: json where
  "pilot_credentials = JObj
     [(''workers'', JObj [(NODE_ID, JStr (replicate 32 CHR ''w''))]), (''operator'', JStr (replicate 32 CHR ''o'')),
      (''verifiers'', JObj (map (\<lambda>(v, c). (v, JObj [(''token'', JStr (replicate 32 c)),
         (''public_key'', JStr (to_hex (replicate 32 c)))])) pilot_roster))]"

definition pilot_gateway :: gateway where
  "pilot_gateway = \<lparr>gw_workers = [(NODE_ID, replicate 32 CHR ''w'')], gw_operator = replicate 32 CHR ''o'', gw_verifier = None,
     gw_tokens = map (\<lambda>(v, c). (v, replicate 32 c)) pilot_roster,
     gw_keys = map (\<lambda>(v, c). (v, to_hex (replicate 32 c))) pilot_roster, gw_rows = [], gw_jobs = []\<rparr>"

definition pilot_request :: "string \<Rightarrow> char \<Rightarrow> json \<Rightarrow> http_request" where
  "pilot_request path c body = \<lparr>rq_path = path, rq_authorization = ''Bearer '' @ replicate 32 c, rq_body = Inr body\<rparr>"

lemma to_hex_inj: "to_hex a = to_hex b \<longleftrightarrow> a = b"
  by (metis from_hex_to_hex option.inject)

lemma py_len_replicate: "(of_char c :: nat) div 64 \<noteq> 2 \<Longrightarrow> py_len (replicate n c) = n"
  by (simp add: py_len_def)

lemma pilot_tokens: "read_tokens pilot_credentials = Inr ([(NODE_ID, replicate 32 CHR ''w'')], replicate 32 CHR ''o'')"
  by (simp add: read_tokens_def pilot_credentials_def get_or_def obj_get_def py_len_replicate dict_has_def)

lemma pilot_item:
  "map_of pilot_roster v = Some c \<Longrightarrow> (of_char c :: nat) div 64 \<noteq> 2 \<Longrightarrow>
     read_roster_item (JObj (map (\<lambda>(v, c). (v, JObj [(''token'', JStr (replicate 32 c)), (''public_key'', JStr (to_hex (replicate 32 c)))])) pilot_roster)) v
     = Inr (v, replicate 32 c, to_hex (replicate 32 c))"
  by (simp add: read_roster_item_def get_or_def obj_get_def map_of_map py_len_replicate public_key_def from_hex_to_hex Let_def)

lemma pilot_made: "gateway_make pilot_credentials [] [] = Inr pilot_gateway"
proof -
  have v: "read_verifier pilot_credentials taken = Inr None" for taken
    by (simp add: read_verifier_def pilot_credentials_def get_or_def obj_get_def)
  have items: "mapR (read_roster_item (JObj (map (\<lambda>(v, c). (v, JObj [(''token'', JStr (replicate 32 c)), (''public_key'', JStr (to_hex (replicate 32 c)))])) pilot_roster))) VERIFIER_IDS
      = Inr (map (\<lambda>(v, c). (v, replicate 32 c, to_hex (replicate 32 c))) pilot_roster)"
  proof -
    have "map_of pilot_roster ''verifier-1'' = Some CHR ''1''" "map_of pilot_roster ''verifier-2'' = Some CHR ''2''"
      "map_of pilot_roster ''verifier-3'' = Some CHR ''3''"
      by (simp_all add: pilot_roster_def)
    then show ?thesis
      unfolding VERIFIER_IDS_def mapR.simps pilot_item [OF \<open>map_of pilot_roster ''verifier-1'' = _\<close>, simplified]
        pilot_item [OF \<open>map_of pilot_roster ''verifier-2'' = _\<close>, simplified]
        pilot_item [OF \<open>map_of pilot_roster ''verifier-3'' = _\<close>, simplified] bindR_simps
      by (simp add: pilot_roster_def)
  qed
  have distinct: "distinct (map (\<lambda>(n, t, k). k) (map (\<lambda>(v, c). (v, replicate 32 c, to_hex (replicate 32 c))) pilot_roster))"
    "distinct ([replicate 32 CHR ''o'', replicate 32 CHR ''w'']
      @ map (\<lambda>(n, t, k). t) (map (\<lambda>(v, c). (v, replicate 32 c, to_hex (replicate 32 c))) pilot_roster))"
    by (simp_all add: pilot_roster_def to_hex_inj)
  have names: "set (map fst (map (\<lambda>(v, c). (v, JObj [(''token'', JStr (replicate 32 c)), (''public_key'', JStr (to_hex (replicate 32 c)))])) pilot_roster))
      = set VERIFIER_IDS"
    by (simp add: pilot_roster_def VERIFIER_IDS_def)
  have roster: "read_roster pilot_credentials [replicate 32 CHR ''o'', replicate 32 CHR ''w'']
      = Inr (map (\<lambda>(v, c). (v, replicate 32 c)) pilot_roster, map (\<lambda>(v, c). (v, to_hex (replicate 32 c))) pilot_roster)"
  proof -
    have "get_or pilot_credentials ''verifiers'' JNull
        = JObj (map (\<lambda>(v, c). (v, JObj [(''token'', JStr (replicate 32 c)), (''public_key'', JStr (to_hex (replicate 32 c)))])) pilot_roster)"
      by (simp add: pilot_credentials_def get_or_def obj_get_def)
    then show ?thesis
      using distinct names by (simp add: read_roster_def obj_fields_def items del: map_map) (simp add: pilot_roster_def)
  qed
  have "obj_fields pilot_credentials \<noteq> None" by (simp add: pilot_credentials_def obj_fields_def)
  with v roster show ?thesis
    by (simp add: gateway_make_def pilot_tokens pilot_gateway_def)
qed

lemma pilot_facts:
  "gw_operator pilot_gateway = replicate 32 CHR ''o''" "gw_workers pilot_gateway = [(NODE_ID, replicate 32 CHR ''w'')]"
  "gw_tokens pilot_gateway = map (\<lambda>(v, c). (v, replicate 32 c)) pilot_roster"
  "gw_keys pilot_gateway = map (\<lambda>(v, c). (v, to_hex (replicate 32 c))) pilot_roster" "gw_jobs pilot_gateway = []"
  by (simp_all add: pilot_gateway_def)

lemma pilot_request_fields [simp]: "rq_path (pilot_request p c b) = p" "rq_body (pilot_request p c b) = Inr b"
  by (simp_all add: pilot_request_def)

lemma ascii_replicate: "of_char c < (128::nat) \<Longrightarrow> is_ascii (replicate n c)"
  by (simp add: is_ascii_def list_all_iff)

lemma removeprefix_append: "removeprefix p (p @ s) = Some s"
  by (simp add: removeprefix_def)

lemma authorized_token: "of_char c < (128::nat) \<Longrightarrow>
    role = ''operator'' \<and> gw_operator G = replicate 32 c
    \<or> role \<noteq> ''operator'' \<and> role \<in> set VERIFIER_IDS \<and> dict_get (gw_tokens G) role [] = replicate 32 c
    \<or> role \<noteq> ''operator'' \<and> role \<notin> set VERIFIER_IDS \<and> dict_get (gw_workers G) role [] = replicate 32 c \<Longrightarrow>
    http_authorized role (pilot_request path c body) G = Inr True"
  unfolding http_authorized_def pilot_request_def http_request.select_convs removeprefix_append option.case authorized_def
  by (elim disjE) (simp_all add: Let_def compare_digest_def ascii_replicate)

lemma pilot_authorized:
  assumes "gw_operator G = gw_operator pilot_gateway" "gw_workers G = gw_workers pilot_gateway" "gw_tokens G = gw_tokens pilot_gateway"
  shows "http_authorized ''operator'' (pilot_request path CHR ''o'' body) G = Inr True"
    "http_authorized NODE_ID (pilot_request path CHR ''w'' body) G = Inr True"
    "http_authorized ''verifier-1'' (pilot_request path CHR ''1'' body) G = Inr True"
    "http_authorized ''verifier-2'' (pilot_request path CHR ''2'' body) G = Inr True"
  by (rule authorized_token; simp add: assms pilot_facts dict_get_def pilot_roster_def VERIFIER_IDS_def NODE_ID_def)+

lemma pilot_step1:
  "snd (gateway_step pilot_crypto sample_ed f (Post 1 ''j'' (pilot_request ''/operator/job'' CHR ''o'' operator_body)) pilot_gateway)
    = pilot_gateway\<lparr>gw_jobs := [(''j'', new_job 1 pilot_gateway)]\<rparr>"
  by (simp add: gateway_post_def guarded_def pilot_authorized VERIFIER_IDS_def verifier_path_def)
    (simp add: post_route_def operator_body_def obj_fields_def enqueue_def pilot_facts pilot_roster_def)

definition queued_job :: job where
  "queued_job = new_job 1 pilot_gateway"

definition leased_job :: job where
  "leased_job = queued_job\<lparr>jb_state := Leased, jb_until := Some (2 + LEASE_SECONDS)\<rparr>"

definition waiting_job :: job where
  "waiting_job = finish_job pilot_crypto 3 (replicate 64 CHR ''a'') leased_job"

lemmas pilot_job_defs = queued_job_def leased_job_def waiting_job_def new_job_def

definition pilot_with :: "job \<Rightarrow> gateway" where
  "pilot_with J = pilot_gateway\<lparr>gw_jobs := [(''j'', J)]\<rparr>"

lemma pilot_with_facts:
  "gw_operator (pilot_with J) = gw_operator pilot_gateway" "gw_workers (pilot_with J) = gw_workers pilot_gateway"
  "gw_tokens (pilot_with J) = gw_tokens pilot_gateway" "gw_keys (pilot_with J) = gw_keys pilot_gateway"
  "gw_jobs (pilot_with J) = [(''j'', J)]" "(pilot_with J)\<lparr>gw_jobs := [(''j'', J')]\<rparr> = pilot_with J'"
  by (simp_all add: pilot_with_def)

lemmas pilot_authorized_with = pilot_authorized [OF pilot_with_facts(1-3)]

lemma pilot_step2:
  "snd (gateway_step pilot_crypto sample_ed f (Get 2 (pilot_request (worker_path ''job'') CHR ''w'' JNull)) (pilot_with queued_job))
    = pilot_with leased_job"
proof -
  have "leasable 2 NODE_ID queued_job" "\<not> in_force 2 NODE_ID queued_job"
    by (simp_all add: leasable_def in_force_def pilot_job_defs Let_def)
  moreover have "worker_path ''job'' \<noteq> ''/workers''" "worker_path ''job'' \<noteq> ''/receipts''" by (simp_all add: worker_path_def NODE_ID_def)
  ultimately show ?thesis
    by (simp add: gateway_get_def guarded_def pilot_authorized_with lease_def pilot_with_facts)
      (simp add: pilot_job_defs Let_def)
qed

lemma pilot_step3:
  "snd (gateway_step pilot_crypto sample_ed f (Post 3 [] (pilot_request (worker_path ''result'') CHR ''w''
       (JObj [(''job_id'', JStr ''j''), (''digest'', JStr (replicate 64 CHR ''a''))]))) (pilot_with leased_job))
    = pilot_with waiting_job"
proof -
  have job: "jb_node leased_job = NODE_ID" "jb_state leased_job = Leased" "\<not> lease_until leased_job < 3"
    "finish_job pilot_crypto 3 (replicate 64 CHR ''a'') leased_job = waiting_job"
    by (simp_all add: pilot_job_defs Let_def lease_until_def LEASE_SECONDS_def)
  have hex: "list_all is_hex (replicate 64 CHR ''a'')" by (simp add: list_all_iff is_hex_def)
  have path: "worker_path ''result'' \<noteq> ''/operator/job''" "worker_path ''result'' \<noteq> worker_path ''heartbeat''"
    "find (\<lambda>name. worker_path ''result'' = verifier_path name ''attest'') VERIFIER_IDS = None"
    by (simp_all add: worker_path_def NODE_ID_def verifier_path_def VERIFIER_IDS_def)
  show ?thesis
    using path
    by (simp add: gateway_post_def guarded_def pilot_authorized_with)
      (simp add: post_route_def obj_fields_def olc_result_def get_or_def obj_get_def find_job_def
        pilot_with_facts job hex Let_def path)
qed

definition pilot_start :: "gateway_op list" where
  "pilot_start = [Post 1 ''j'' (pilot_request ''/operator/job'' CHR ''o'' operator_body),
     Get 2 (pilot_request (worker_path ''job'') CHR ''w'' JNull),
     Post 3 [] (pilot_request (worker_path ''result'') CHR ''w''
       (JObj [(''job_id'', JStr ''j''), (''digest'', JStr (replicate 64 CHR ''a''))]))]"

lemma pilot_start_run: "run_ops (gateway_step pilot_crypto sample_ed f) pilot_start pilot_gateway = pilot_with waiting_job"
proof -
  have "pilot_gateway\<lparr>gw_jobs := [(''j'', new_job 1 pilot_gateway)]\<rparr> = pilot_with queued_job"
    by (simp add: pilot_with_def pilot_job_defs Let_def)
  then show ?thesis
    unfolding pilot_start_def by (simp only: run_ops.simps pilot_step1 pilot_step2 pilot_step3)
qed

lemma pilot_job_facts:
  "jb_state waiting_job = AwaitingQuorum" "jb_digest waiting_job = Some (EXPECTED pilot_crypto)" "jb_atts waiting_job = []"
  "jb_quorum waiting_job = 2" "jb_keys waiting_job = Some (gw_keys pilot_gateway)"
  by (simp_all add: pilot_job_defs finish_job_def EXPECTED_def pilot_crypto_def Let_def)

lemma pilot_registered:
  "key_registered sample_ed (pilot_with J) ''verifier-1'' (replicate 32 CHR ''1'')"
  "key_registered sample_ed (pilot_with J) ''verifier-2'' (replicate 32 CHR ''2'')"
  by (simp_all add: key_registered_def pilot_with_facts pilot_facts pilot_roster_def sample_ed_def)

lemma pilot_waiting:
  assumes "jb_state J = AwaitingQuorum" "jb_keys J = Some (gw_keys pilot_gateway)" "map_of (jb_atts J) v = None"
    and "v \<in> {''verifier-1'', ''verifier-2''}"
  shows "find (waiting_for (pilot_with J) v) (gw_jobs (pilot_with J)) = Some (''j'', J)"
  using assms by (auto simp: pilot_with_facts waiting_for_def job_key_def dict_has_def pilot_facts pilot_roster_def)

text \<open>The request that carries the answer of a verifier.\<close>

definition turn_request :: "string \<Rightarrow> char \<Rightarrow> gateway \<Rightarrow> gateway_op" where
  "turn_request v c G = Post 3 [] (pilot_request (verifier_path v ''attest'') c
     (case verify_once pilot_crypto sample_ed v (replicate 32 c) (verifier_job v G) of
        Inr (Some (st, s)) \<Rightarrow> JObj [(''statement'', st), (''signature'', s)] | _ \<Rightarrow> JObj []))"

lemma turn_request_step:
  assumes "(v, c) = (''verifier-1'', CHR ''1'') \<or> (v, c) = (''verifier-2'', CHR ''2'')"
    and "verify_once pilot_crypto sample_ed v (replicate 32 c) (verifier_job v (pilot_with J)) = Inr (Some (st, s))"
  shows "snd (gateway_step pilot_crypto sample_ed f (turn_request v c (pilot_with J)) (pilot_with J))
    = snd (verifier_turn pilot_crypto sample_ed v (replicate 32 c) (pilot_with J))"
proof -
  have path: "find (\<lambda>name. verifier_path v ''attest'' = verifier_path name ''attest'') VERIFIER_IDS = Some v"
    "verifier_path v ''attest'' \<noteq> ''/operator/job''"
    using assms(1) by (auto simp: verifier_path_def VERIFIER_IDS_def)
  have auth: "http_authorized v (pilot_request p c body) (pilot_with J) = Inr True" for p body
    using assms(1) pilot_authorized_with(3,4) by auto
  show ?thesis
    using path
    by (simp add: turn_request_def verifier_turn_def assms(2) gateway_post_def guarded_def auth)
      (simp add: post_route_def path obj_fields_def get_or_def obj_get_def)
qed


theorem olc_honest_quorum_witness:
  "map_option jb_state (map_of (gw_jobs (snd (verifier_turn pilot_crypto sample_ed ''verifier-2'' (replicate 32 CHR ''2'')
     (snd (verifier_turn pilot_crypto sample_ed ''verifier-1'' (replicate 32 CHR ''1'') (pilot_with waiting_job)))))) ''j'')
    = Some QuorumVerified"
proof -
  have wf: "wf_dict (gw_jobs (pilot_with waiting_job))" by (simp add: pilot_with_facts wf_dict_def)
  have found: "find (waiting_for (pilot_with waiting_job) v) (gw_jobs (pilot_with waiting_job)) = Some (''j'', waiting_job)"
    if "v \<in> {''verifier-1'', ''verifier-2''}" for v
    using that by (intro pilot_waiting) (simp_all add: pilot_job_facts)
  show ?thesis
    by (rule olc_honest_quorum [OF sample_ed_correct pilot_registered _ wf found found pilot_job_facts(2-4)]) simp_all
qed

lemma pilot_turn:
  assumes "(v, c) = (''verifier-1'', CHR ''1'') \<or> (v, c) = (''verifier-2'', CHR ''2'')"
    and "jb_state J = AwaitingQuorum" "jb_keys J = Some (gw_keys pilot_gateway)" "map_of (jb_atts J) v = None"
    and "jb_digest J = Some (EXPECTED pilot_crypto)"
  obtains a where "accepts (at_statement a)"
    "snd (gateway_step pilot_crypto sample_ed f (turn_request v c (pilot_with J)) (pilot_with J)) = pilot_with (record_vote v a J)"
proof -
  have found: "find (waiting_for (pilot_with J) v) (gw_jobs (pilot_with J)) = Some (''j'', J)"
    using assms(1) by (intro pilot_waiting [OF assms(2-4)]) auto
  have "key_registered sample_ed (pilot_with J) v (replicate 32 c)" "wf_dict (gw_jobs (pilot_with J))"
    using assms(1) pilot_registered by (auto simp: pilot_with_facts wf_dict_def)
  from honest_turn [OF sample_ed_correct this found assms(5)] obtain a st s where a: "accepts (at_statement a)"
    "verify_once pilot_crypto sample_ed v (replicate 32 c) (verifier_job v (pilot_with J)) = Inr (Some (st, s))"
    "snd (verifier_turn pilot_crypto sample_ed v (replicate 32 c) (pilot_with J)) = pilot_with (record_vote v a J)"
    by (auto simp: pilot_with_facts)
  from that [OF a(1)] turn_request_step [OF assms(1) a(2)] a(3) show thesis by simp
qed

lemma pilot_quorum:
  "\<exists>ops J. map_of (gw_jobs (run_ops (gateway_step pilot_crypto sample_ed f) ops pilot_gateway)) ''j'' = Some J \<and> jb_state J = QuorumVerified"
proof -
  let ?J = "waiting_job"
  obtain a where a: "accepts (at_statement a)"
    "snd (gateway_step pilot_crypto sample_ed f (turn_request ''verifier-1'' CHR ''1'' (pilot_with ?J)) (pilot_with ?J))
      = pilot_with (record_vote ''verifier-1'' a ?J)"
    by (rule pilot_turn [of "''verifier-1''" "CHR ''1''" ?J f]) (simp_all add: pilot_job_facts)
  have J: "record_vote ''verifier-1'' a ?J = ?J\<lparr>jb_atts := [(''verifier-1'', a)]\<rparr>"
    using a(1) by (simp add: record_vote_def approvals_def denials_def pilot_job_facts Let_def)
  obtain b where b: "accepts (at_statement b)"
    "snd (gateway_step pilot_crypto sample_ed f (turn_request ''verifier-2'' CHR ''2'' (pilot_with (?J\<lparr>jb_atts := [(''verifier-1'', a)]\<rparr>)))
        (pilot_with (?J\<lparr>jb_atts := [(''verifier-1'', a)]\<rparr>)))
      = pilot_with (record_vote ''verifier-2'' b (?J\<lparr>jb_atts := [(''verifier-1'', a)]\<rparr>))"
    by (rule pilot_turn [of "''verifier-2''" "CHR ''2''" "?J\<lparr>jb_atts := [(''verifier-1'', a)]\<rparr>" f]) (simp_all add: pilot_job_facts)
  have "jb_state (record_vote ''verifier-2'' b (?J\<lparr>jb_atts := [(''verifier-1'', a)]\<rparr>)) = QuorumVerified"
    using a(1) b(1) by (simp add: record_vote_def approvals_def denials_def pilot_job_facts Let_def)
  then show ?thesis
    using a(2) b(2)
    by (intro exI [of _ "pilot_start @ [turn_request ''verifier-1'' CHR ''1'' (pilot_with ?J),
          turn_request ''verifier-2'' CHR ''2'' (pilot_with (?J\<lparr>jb_atts := [(''verifier-1'', a)]\<rparr>))]"]
        exI [of _ "record_vote ''verifier-2'' b (?J\<lparr>jb_atts := [(''verifier-1'', a)]\<rparr>)"])
      (simp add: run_ops_append pilot_start_run J pilot_with_facts)
qed

theorem olc_quorum_genuine_witness:
  "\<exists>ops J v w. map_of (gw_jobs (run_ops (gateway_step pilot_crypto sample_ed (\<lambda>t. [])) ops pilot_gateway)) ''j'' = Some J
    \<and> v \<noteq> w \<and> map_of (jb_atts J) v \<noteq> None \<and> map_of (jb_atts J) w \<noteq> None"
proof -
  obtain ops J where J: "map_of (gw_jobs (run_ops (gateway_step pilot_crypto sample_ed (\<lambda>t. [])) ops pilot_gateway)) ''j'' = Some J"
    "jb_state J = QuorumVerified"
    using pilot_quorum by blast
  obtain v w a b where vw: "v \<noteq> w" "map_of (jb_atts J) v = Some a" "map_of (jb_atts J) w = Some b"
    using olc_quorum_genuine [OF pilot_made refl J] by blast
  show ?thesis by (rule exI [of _ ops], rule exI [of _ J], rule exI [of _ v], rule exI [of _ w]) (use J(1) vw in simp)
qed

theorem olc_one_lease_witness:
  "\<exists>!k. \<exists>J. map_of (gw_jobs (run_ops (gateway_step pilot_crypto sample_ed (\<lambda>t. [])) (take 2 pilot_start) pilot_gateway)) k = Some J
    \<and> in_force 5 NODE_ID J"
proof -
  have run: "run_ops (gateway_step pilot_crypto sample_ed (\<lambda>t. [])) (take 2 pilot_start) pilot_gateway = pilot_with leased_job"
  proof -
    have "pilot_gateway\<lparr>gw_jobs := [(''j'', new_job 1 pilot_gateway)]\<rparr> = pilot_with queued_job"
      by (simp add: pilot_with_def pilot_job_defs Let_def)
    moreover have "take 2 pilot_start = [Post 1 ''j'' (pilot_request ''/operator/job'' CHR ''o'' operator_body),
        Get 2 (pilot_request (worker_path ''job'') CHR ''w'' JNull)]"
      by (simp add: pilot_start_def)
    ultimately show ?thesis by (simp only: run_ops.simps pilot_step1 pilot_step2)
  qed
  have sorted: "sorted (map op_time (take 2 pilot_start) @ [5])" by (simp add: pilot_start_def)
  have force: "in_force 5 NODE_ID leased_job"
    by (simp add: in_force_def pilot_job_defs lease_until_def LEASE_SECONDS_def Let_def)
  show ?thesis
    unfolding run
  proof (rule ex1I [of _ "''j''"])
    show "\<exists>J. map_of (gw_jobs (pilot_with leased_job)) ''j'' = Some J \<and> in_force 5 NODE_ID J"
      using force by (simp add: pilot_with_facts)
    show "k = ''j''" if "\<exists>J. map_of (gw_jobs (pilot_with leased_job)) k = Some J \<and> in_force 5 NODE_ID J" for k
    proof -
      from that obtain J where J: "map_of (gw_jobs (pilot_with leased_job)) k = Some J" "in_force 5 NODE_ID J" by blast
      have j: "map_of (gw_jobs (pilot_with leased_job)) ''j'' = Some leased_job" by (simp add: pilot_with_facts)
      show ?thesis by (rule olc_one_lease [OF pilot_made sorted run [symmetric] J(1) j J(2) force])
    qed
  qed
qed

end
