(* ===== verification/Distributor.thy ===== *)
theory Distributor
  imports Runtime Node_Model
begin

text \<open>
  The operator's batch distributor of \<open>splitchain/distributor.py\<close>: the plan, the private drafts and the
  registry (\<open>prepare\<close>), and the funding process (\<open>Distributor\<close>), whose progress is saved before and after
  every remote call. The files are values here, and the network with its clock and random identifiers is
  a parameter: \<open>ou_send\<close> answers a request (\<open>None\<close> when the connection fails or times out) and moves the
  outside world on.
\<close>

definition SCHEMA :: string where "SCHEMA = ''splitchain-friend-distribution/v1''"

definition FAUCET :: string where "FAUCET = ''testnet_faucet''"

definition SMS_URL :: string where "SMS_URL = ''https://bokiloki.ddns.net/splitchain/downloads''"

definition BACKENDS :: "string list" where
  "BACKENDS = [''ws://primary:8765'', ''ws://secondary:8765'', ''ws://tertiary:8765'']"

section \<open>The plan\<close>

record dist_plan =
  dp_network :: string
  dp_genesis :: string
  dp_recipients :: "string list"
  dp_amount :: int
  dp_total :: int

text \<open>The pattern \<open>[a-z][a-z0-9_]{1,24}\<close>.\<close>

definition prefix_ok :: "string \<Rightarrow> bool" where
  "prefix_ok s =
     (case s of [] \<Rightarrow> False
      | c # cs \<Rightarrow> (let n = (of_char c :: nat) in 97 \<le> n \<and> n \<le> 122)
          \<and> 1 \<le> length cs \<and> length cs \<le> 24 \<and> list_all account_char cs)"

text \<open>The format \<open>{i:03d}\<close>.\<close>

definition pad3 :: "nat \<Rightarrow> string" where
  "pad3 i = replicate (3 - length (nat_str i)) (CHR ''0'') @ nat_str i"

definition accounts_for :: "string \<Rightarrow> int \<Rightarrow> string list result" where
  "accounts_for pfx n =
     (if \<not> prefix_ok pfx \<or> starts_with pfx ''testnet_''
      then Inl (DistributionError ''prefix must start with a lowercase letter and contain only lowercase letters, digits or underscore'')
      else if \<not> (1 \<le> n \<and> n \<le> 100) then Inl (DistributionError ''count must be between 1 and 100'')
      else
        let accounts = map (\<lambda>i. pfx @ pad3 i) [1..<Suc (nat n)] in
        if list_ex (\<lambda>a. \<not> account_name a) accounts
        then Inl (DistributionError ''generated account ID exceeds 32 characters'') else Inr accounts)"

definition plan_for :: "crypto \<Rightarrow> string \<Rightarrow> int \<Rightarrow> int \<Rightarrow> genesis_config \<Rightarrow> dist_plan result" where
  "plan_for C pfx n amount g =
     (let bad = DistributionError ''amount must be positive and total cannot exceed the faucet allocation'' in
      if amount < 1 then Inl bad
      else (case map_of (allocations g) FAUCET of
          None \<Rightarrow> Inl KeyError
        | Some allocation \<Rightarrow>
            if n * amount > allocation then Inl bad
            else bindR (genesis_digest C g) (\<lambda>digest. bindR (accounts_for pfx n) (\<lambda>recipients.
              Inr \<lparr>dp_network = network_id g, dp_genesis = digest, dp_recipients = recipients,
                dp_amount = amount, dp_total = n * amount\<rparr>))))"

definition plan_json :: "dist_plan \<Rightarrow> json" where
  "plan_json P = JObj
     [(''schema'', JStr SCHEMA), (''network_id'', JStr (dp_network P)), (''genesis_digest'', JStr (dp_genesis P)),
      (''sender'', JStr FAUCET), (''recipients'', JList (map JStr (dp_recipients P))),
      (''amount'', JInt (dp_amount P)), (''total'', JInt (dp_total P))]"

section \<open>Drafts and the registry\<close>

definition newline :: char where "newline = CHR 0x0A"

definition draft :: "string \<Rightarrow> string \<Rightarrow> int \<Rightarrow> string" where
  "draft actor secret amount =
     ''SplitChain TESTNET (valueless) - '' @ int_str amount @ '' test units'' @ [newline]
     @ ''Wallet ID: '' @ actor @ [newline] @ ''Credential: '' @ secret @ [newline]
     @ ''Wallet app or browser: '' @ SMS_URL @ [newline]
     @ ''Keep the credential private. These are sandbox units, not real coins.'' @ [newline]"

text \<open>\<open>str.splitlines\<close> of an ASCII text; a carriage return followed by a newline is one boundary.\<close>

definition line_end :: "char \<Rightarrow> bool" where
  "line_end c = (c \<in> {CHR 0x0A, CHR 0x0B, CHR 0x0C, CHR 0x0D, CHR 0x1C, CHR 0x1D, CHR 0x1E})"

fun split_lines :: "string \<Rightarrow> string \<Rightarrow> string list" where
  "split_lines acc [] = (if acc = [] then [] else [rev acc])"
| "split_lines acc (c # cs) =
     (if c = CHR 0x0D \<and> cs \<noteq> [] \<and> hd cs = newline then split_lines acc cs
      else if line_end c then rev acc # split_lines [] cs
      else split_lines (c # acc) cs)"

definition hex_char_ok :: "char \<Rightarrow> bool" where
  "hex_char_ok c = (let n = (of_char c :: nat) in 48 \<le> n \<and> n \<le> 57 \<or> 97 \<le> n \<and> n \<le> 102)"

definition credential :: "string \<Rightarrow> string \<Rightarrow> string result" where
  "credential text actor =
     (let ls = split_lines [] text in
      if length ls < 3 \<or> ls ! 1 \<noteq> ''Wallet ID: '' @ actor \<or> \<not> starts_with (ls ! 2) ''Credential: ''
      then Inl (DistributionError (''invalid SMS draft for '' @ actor))
      else
        let secret = drop 12 (ls ! 2) in
        if length secret = 64 \<and> list_all hex_char_ok secret then Inr secret
        else Inl (DistributionError (''invalid credential for '' @ actor)))"

text \<open>The operator's files; the modes of files and directories are left out.\<close>

record dist_files =
  df_registry :: json
  df_plan :: "json option"
  df_drafts :: "(string, string) dict"
  df_state :: "json option"

text \<open>
  The loop over the recipients: \<open>tokens\<close> is \<open>secrets.token_hex(32)\<close>, \<open>stored\<close> the registry read before. The
  result is \<open>additions\<close>.
\<close>

primrec prepare_drafts ::
    "(string \<Rightarrow> string) \<Rightarrow> int \<Rightarrow> json \<Rightarrow> string list \<Rightarrow> (dist_files, (string, string) dict) operation" where
  "prepare_drafts tokens amount stored [] F = (Inr [], F)"
| "prepare_drafts tokens amount stored (actor # actors) F =
     (case (case map_of (df_drafts F) actor of
              Some text \<Rightarrow> bindR (credential text actor) (\<lambda>s. Inr (s, F))
            | None \<Rightarrow>
                if obj_get stored actor \<noteq> None
                then Inl (DistributionError (''missing SMS draft for enrolled account '' @ actor @ ''; inspect before retrying''))
                else Inr (tokens actor, F\<lparr>df_drafts := df_drafts F @ [(actor, draft actor (tokens actor) amount)]\<rparr>)) of
        Inl e \<Rightarrow> (Inl e, F)
      | Inr (secret, F1) \<Rightarrow>
          if obj_get stored actor \<noteq> None \<and> obj_get stored actor \<noteq> Some (JStr secret)
          then (Inl (DistributionError (''registry credential mismatch for '' @ actor)), F1)
          else (case prepare_drafts tokens amount stored actors F1 of
              (Inl e, F2) \<Rightarrow> (Inl e, F2)
            | (Inr additions, F2) \<Rightarrow> (Inr ((actor, secret) # additions), F2)))"

text \<open>\<open>{**fresh, **additions}\<close>.\<close>

fun merge_registry :: "json \<Rightarrow> (string, string) dict \<Rightarrow> json" where
  "merge_registry (JObj kvs) additions = JObj (fold (\<lambda>(k, s). AList.update k (JStr s)) additions kvs)"
| "merge_registry v additions = v"

definition check_plan :: "dist_plan \<Rightarrow> (dist_files, unit) operation" where
  "check_plan P F =
     (case df_plan F of
        Some p \<Rightarrow>
          if py_eq p (plan_json P) then (Inr (), F)
          else (Inl (DistributionError ''existing plan differs; use a separate directory for another batch''), F)
      | None \<Rightarrow>
          if list_ex (\<lambda>a. obj_get (df_registry F) a \<noteq> None) (dp_recipients P)
          then (Inl (DistributionError ''one or more generated IDs already exist; change the prefix''), F)
          else if df_drafts F \<noteq> [] then (Inl (DistributionError ''unrecognized SMS files in distribution directory''), F)
          else (Inr (), F\<lparr>df_plan := Some (plan_json P)\<rparr>))"

text \<open>
  \<open>prepare\<close>: \<open>meanwhile\<close> is what others make of the registry file between the two readings (the lock of the
  directory does not cover it).
\<close>

definition prepare :: "(string \<Rightarrow> string) \<Rightarrow> (json \<Rightarrow> json) \<Rightarrow> dist_plan \<Rightarrow> (dist_files, unit) operation" where
  "prepare tokens meanwhile P F =
     (if obj_fields (df_registry F) = None then (Inl (DistributionError ''expected JSON object''), F)
      else if obj_get (df_registry F) FAUCET = None
      then (Inl (DistributionError ''faucet account missing from registry''), F)
      else (case check_plan P F of
          (Inl e, F1) \<Rightarrow> (Inl e, F1)
        | (Inr _, F1) \<Rightarrow>
            (case prepare_drafts tokens (dp_amount P) (df_registry F) (dp_recipients P) F1 of
               (Inl e, F2) \<Rightarrow> (Inl e, F2)
             | (Inr additions, F2) \<Rightarrow>
                 if list_all (\<lambda>(k, s). obj_get (df_registry F) k = Some (JStr s)) additions then (Inr (), F2)
                 else
                   let fresh = meanwhile (df_registry F2); F3 = F2\<lparr>df_registry := fresh\<rparr> in
                   if obj_fields fresh = None then (Inl (DistributionError ''expected JSON object''), F3)
                   else if list_ex (\<lambda>(k, s). obj_get fresh k \<noteq> None \<and> obj_get fresh k \<noteq> Some (JStr s)) additions
                   then (Inl (DistributionError ''registry changed during preparation''), F3)
                   else (Inr (), F3\<lparr>df_registry := merge_registry fresh additions\<rparr>))))"

section \<open>The funding process\<close>

record in_flight =
  if_recipient :: string
  if_method :: string
  if_nonce :: int

record distributor =
  ds_registry :: json
  ds_genesis :: genesis_config
  ds_recipients :: "string list"
  ds_amount :: int
  ds_digest :: string
  ds_nonces :: "(string, int) dict"
  ds_known :: "(string, string) dict"
  ds_flight :: "in_flight option"
  ds_file :: "json option"

definition flight_json :: "in_flight option \<Rightarrow> json" where
  "flight_json f = (case f of None \<Rightarrow> JNull
     | Some x \<Rightarrow> JObj [(''recipient'', JStr (if_recipient x)), (''method'', JStr (if_method x)), (''nonce'', JInt (if_nonce x))])"

definition state_json :: "distributor \<Rightarrow> json" where
  "state_json D = JObj
     [(''schema'', JStr SCHEMA), (''plan_digest'', JStr (ds_digest D)), (''last_nonces'', dict_json (ds_nonces D)),
      (''known_branches'', JObj (map (\<lambda>(r, b). (r, JStr b)) (ds_known D))), (''in_flight'', flight_json (ds_flight D))]"

definition dist_save :: "distributor \<Rightarrow> distributor" where
  "dist_save D = D\<lparr>ds_file := Some (state_json D)\<rparr>"

text \<open>Reading the progress back. Files that the process did not write (values of other types) are left out.\<close>

fun str_table :: "(string \<times> json) list \<Rightarrow> (string, string) dict result" where
  "str_table [] = Inr []"
| "str_table ((k, JStr s) # kvs) = bindR (str_table kvs) (\<lambda>d. Inr ((k, s) # d))"
| "str_table _ = Inl Unmodelled"

fun nonce_table :: "(string \<times> json) list \<Rightarrow> (string, int) dict result" where
  "nonce_table [] = Inr []"
| "nonce_table ((k, JInt i) # kvs) = bindR (nonce_table kvs) (\<lambda>d. Inr ((k, i) # d))"
| "nonce_table _ = Inl Unmodelled"

definition read_flight :: "json \<Rightarrow> in_flight option result" where
  "read_flight v =
     (case v of
        JNull \<Rightarrow> Inr None
      | JObj kvs \<Rightarrow>
          (case (map_of kvs ''recipient'', map_of kvs ''method'', map_of kvs ''nonce'') of
             (Some (JStr r), Some (JStr m), Some (JInt n)) \<Rightarrow>
               Inr (Some \<lparr>if_recipient = r, if_method = m, if_nonce = n\<rparr>)
           | _ \<Rightarrow> Inl Unmodelled)
      | _ \<Rightarrow> Inl Unmodelled)"

definition read_progress :: "json \<Rightarrow> ((string, int) dict \<times> (string, string) dict \<times> in_flight option) result" where
  "read_progress v =
     (case (obj_get v ''last_nonces'', get_or v ''known_branches'' (JObj []), obj_get v ''in_flight'') of
        (Some (JObj ns), JObj ks, Some f) \<Rightarrow>
          bindR (nonce_table ns) (\<lambda>nonces. bindR (str_table ks) (\<lambda>known. bindR (read_flight f) (\<lambda>flight.
            Inr (nonces, known, flight))))
      | _ \<Rightarrow> Inl Unmodelled)"

primrec check_drafts :: "dist_files \<Rightarrow> string list \<Rightarrow> unit result" where
  "check_drafts F [] = Inr ()"
| "check_drafts F (actor # actors) =
     (case map_of (df_drafts F) actor of
        None \<Rightarrow> Inl Unmodelled
      | Some text \<Rightarrow>
          bindR (credential text actor) (\<lambda>secret.
            if obj_get (df_registry F) actor \<noteq> Some (JStr secret)
            then Inl (DistributionError (''registry and SMS draft disagree for '' @ actor @ ''; recreate nodes after preparing''))
            else check_drafts F actors))"

definition plan_recipients :: "json \<Rightarrow> string list result" where
  "plan_recipients plan =
     (case obj_get plan ''recipients'' of
        None \<Rightarrow> Inl KeyError
      | Some (JList xs) \<Rightarrow> (case str_list xs of None \<Rightarrow> Inl Unmodelled | Some rs \<Rightarrow> Inr rs)
      | _ \<Rightarrow> Inl Unmodelled)"

text \<open>
  \<open>Distributor.__init__\<close>. A missing file is a \<open>FileNotFoundError\<close> there, and the amount is read from the plan
  where it is used; both are left out (\<open>Unmodelled\<close>), as is the pause between calls.
\<close>

definition dist_init :: "crypto \<Rightarrow> genesis_config \<Rightarrow> dist_files \<Rightarrow> distributor result" where
  "dist_init C g F =
     (case df_plan F of
        None \<Rightarrow> Inl Unmodelled
      | Some plan \<Rightarrow>
          if obj_fields (df_registry F) = None \<or> obj_fields plan = None
          then Inl (DistributionError ''expected JSON object'')
          else bindR (genesis_digest C g) (\<lambda>genesis.
            if get_or plan ''schema'' JNull \<noteq> JStr SCHEMA \<or> get_or plan ''genesis_digest'' JNull \<noteq> JStr genesis
            then Inl (DistributionError ''plan differs from pinned genesis'')
            else bindR (json_sha256 C plan) (\<lambda>digest.
              bindR (case df_state F of None \<Rightarrow> Inr ([], [], None)
                     | Some st \<Rightarrow>
                         if obj_fields st = None then Inl (DistributionError ''expected JSON object'')
                         else if get_or st ''schema'' JNull \<noteq> JStr SCHEMA \<or> get_or st ''plan_digest'' JNull \<noteq> JStr digest
                         then Inl (DistributionError ''state belongs to a different distribution plan'')
                         else read_progress st) (\<lambda>(nonces, known, flight).
              bindR (plan_recipients plan) (\<lambda>recipients.
              bindR (check_drafts F recipients) (\<lambda>_.
              (case obj_get (df_registry F) FAUCET of
                 Some (JStr _) \<Rightarrow>
                   (case obj_get plan ''amount'' of
                      Some (JInt amount) \<Rightarrow>
                        Inr \<lparr>ds_registry = df_registry F, ds_genesis = g, ds_recipients = recipients, ds_amount = amount,
                          ds_digest = digest, ds_nonces = nonces, ds_known = known, ds_flight = flight, ds_file = df_state F\<rparr>
                    | _ \<Rightarrow> Inl Unmodelled)
               | _ \<Rightarrow> Inl (DistributionError ''faucet credential missing''))))))))"

section \<open>Remote calls\<close>

record 'w outside =
  ou_send :: "string \<Rightarrow> json \<Rightarrow> 'w \<Rightarrow> json option \<times> 'w"
  ou_now :: "'w \<Rightarrow> int"
  ou_uid :: "'w \<Rightarrow> string"

text \<open>The code of an error reply: \<open>None\<close> when \<open>error\<close> is no object (an \<open>AttributeError\<close>).\<close>

definition error_code :: "json \<Rightarrow> json option" where
  "error_code response =
     (let e = get_or response ''error'' (JObj []) in if obj_fields e = None then None else Some (get_or e ''code'' JNull))"

text \<open>\<open>call\<close>: the backends in turn, until one is not a \<open>NOT_LEADER\<close>.\<close>

fun dist_call :: "'w outside \<Rightarrow> json \<Rightarrow> string list \<Rightarrow> ('w, json) operation" where
  "dist_call U request [] w = (Inl (DistributionError ''no certified leader available; rerun after node recovery''), w)"
| "dist_call U request (backend # backends) w =
     (case ou_send U backend request w of
        (None, w1) \<Rightarrow> (Inl (DistributionError ''RPC outcome unknown; rerun to reconcile status''), w1)
      | (Some response, w1) \<Rightarrow>
          if obj_fields response = None then (Inl AttributeError, w1)
          else if \<not> py_eq (get_or response ''id'' JNull) (get_or request ''id'' JNull)
          then (Inl (DistributionError ''RPC returned a mismatched request ID; inspect the ledger''), w1)
          else (case error_code response of
              None \<Rightarrow> (Inl AttributeError, w1)
            | Some code \<Rightarrow> if code = JStr ''NOT_LEADER'' then dist_call U request backends w1 else (Inr response, w1)))"

text \<open>
  \<open>snapshot\<close>: the first backend with a ledger of the same genesis. The error of a different genesis is a
  \<open>ValueError\<close>, which the handler of the loop catches like an unreachable backend.
\<close>

fun dist_snapshot :: "'w outside \<Rightarrow> genesis_config \<Rightarrow> string list \<Rightarrow> ('w, json) operation" where
  "dist_snapshot U g [] w = (Inl (DistributionError ''no testnet node returned a valid ledger status''), w)"
| "dist_snapshot U g (backend # backends) w =
     (case ou_send U backend (JObj [(''id'', JStr (ou_uid U w)), (''method'', JStr ''status''), (''params'', JObj [])]) w of
        (None, w1) \<Rightarrow> dist_snapshot U g backends w1
      | (Some response, w1) \<Rightarrow>
          (case item response ''result'' of
             Inl e \<Rightarrow> dist_snapshot U g backends w1
           | Inr ledger \<Rightarrow>
               if obj_fields ledger = None then (Inl AttributeError, w1)
               else if \<not> py_eq (get_or ledger ''genesis'' JNull) (genesis_public g) then dist_snapshot U g backends w1
               else (Inr ledger, w1)))"

section \<open>Reading a ledger status\<close>

fun matching_rows :: "string \<Rightarrow> json list \<Rightarrow> json list result" where
  "matching_rows r [] = Inr []"
| "matching_rows r (b # bs) =
     bindR (item b ''sender'') (\<lambda>s.
     bindR (if py_eq s (JStr FAUCET) then bindR (item b ''receiver'') (\<lambda>x. Inr (py_eq x (JStr r))) else Inr False) (\<lambda>own.
     bindR (matching_rows r bs) (\<lambda>rows. Inr (if own then b # rows else rows))))"

definition known_branch :: "distributor \<Rightarrow> string \<Rightarrow> string" where
  "known_branch D r = dict_get (ds_known D) r []"

text \<open>\<open>branch\<close>. Branches that are no list are left out.\<close>

definition dist_branch :: "distributor \<Rightarrow> json \<Rightarrow> string \<Rightarrow> json option result" where
  "dist_branch D ledger r =
     bindR (item ledger ''branches'') (\<lambda>v.
     (case v of
        JList bs \<Rightarrow>
          bindR (matching_rows r bs) (\<lambda>rows.
          if length rows > 1
          then Inl (DistributionError (''multiple faucet branches found for '' @ r @ ''; inspect before retrying''))
          else
            bindR (case rows of [] \<Rightarrow> Inr True | b # _ \<Rightarrow>
                     bindR (item b ''value'') (\<lambda>v. Inr (py_eq v (JInt (ds_amount D))))) (\<lambda>same.
            if \<not> same
            then Inl (DistributionError (''preexisting different payment to '' @ r @ ''; inspect before retrying''))
            else
              bindR (if known_branch D r = [] then Inr True
                     else (case rows of [] \<Rightarrow> Inr False
                       | b # _ \<Rightarrow> bindR (item b ''branch_id'') (\<lambda>k. Inr (k = JStr (known_branch D r))))) (\<lambda>seen.
              if \<not> seen
              then Inl (DistributionError (''known offer for '' @ r @ '' missing from node status; refusing duplicate payment''))
              else Inr (case rows of [] \<Rightarrow> None | b # _ \<Rightarrow> Some b))))
      | _ \<Rightarrow> Inl Unmodelled))"

definition row_state :: "json \<Rightarrow> json result" where
  "row_state b = item b ''state''"

text \<open>Whether the operation in flight shows in the status.\<close>

definition flight_done :: "string \<Rightarrow> json option \<Rightarrow> bool result" where
  "flight_done method row =
     (case row of
        None \<Rightarrow> Inr False
      | Some b \<Rightarrow>
          if method = ''offer'' then Inr True
          else if method = ''accept'' then
            bindR (row_state b) (\<lambda>s. Inr (s \<in> {JStr ''accepted'', JStr ''committed'', JStr ''final''}))
          else if method = ''commit'' then bindR (row_state b) (\<lambda>s. Inr (s \<in> {JStr ''committed'', JStr ''final''}))
          else Inr False)"

text \<open>\<open>reconcile\<close>. Branch ids that are no text are left out.\<close>

definition reconcile :: "string \<Rightarrow> json \<Rightarrow> (distributor, unit) operation" where
  "reconcile r ledger D =
     (case ds_flight D of
        None \<Rightarrow> (Inr (), D)
      | Some p \<Rightarrow>
          if if_recipient p \<noteq> r
          then (Inl (DistributionError (''unresolved '' @ if_method p @ '' for '' @ if_recipient p @ ''; rerun with the same plan'')), D)
          else (case bindR (dist_branch D ledger r) (\<lambda>row. bindR (flight_done (if_method p) row) (\<lambda>fin. Inr (row, fin))) of
              Inl e \<Rightarrow> (Inl e, D)
            | Inr (row, fin) \<Rightarrow>
                if \<not> fin
                then (Inl (DistributionError (''uncertain '' @ if_method p @ '' for '' @ r
                  @ ''; inspect all nodes before any retry. No second payment sent'')), D)
                else (case row of
                    None \<Rightarrow> (Inr (), dist_save (D\<lparr>ds_flight := None\<rparr>))
                  | Some b \<Rightarrow>
                      (case item b ''branch_id'' of
                         Inr (JStr k) \<Rightarrow> (Inr (), dist_save (D\<lparr>ds_known := AList.update r k (ds_known D), ds_flight := None\<rparr>))
                       | Inr _ \<Rightarrow> (Inl Unmodelled, D)
                       | Inl e \<Rightarrow> (Inl e, D)))))"

section \<open>One funding step\<close>

definition next_nonce :: "int \<Rightarrow> string \<Rightarrow> distributor \<Rightarrow> int" where
  "next_nonce now actor D = max now (dict_get (ds_nonces D) actor (- 1) + 1)"

text \<open>The message of a rejection; the text of messages that are no strings is not kept.\<close>

definition rejection :: "string \<Rightarrow> string \<Rightarrow> json \<Rightarrow> error" where
  "rejection r method e = DistributionError (r @ '' '' @ method @ '' rejected: ''
     @ (case get_or e ''message'' (get_or e ''code'' JNull) of JStr s \<Rightarrow> s | _ \<Rightarrow> []))"

text \<open>What the reply of a mutation does to the progress.\<close>

definition settle_reply :: "string \<Rightarrow> string \<Rightarrow> json \<Rightarrow> (distributor, unit) operation" where
  "settle_reply method r response D =
     (case obj_get response ''error'' of
        Some e \<Rightarrow>
          (Inl (rejection r method e),
           if get_or e ''code'' JNull = JStr ''INVALID_REQUEST'' then dist_save (D\<lparr>ds_flight := None\<rparr>) else D)
      | None \<Rightarrow>
          if method = ''offer'' then
            (let result = get_or response ''result'' (JObj []) in
             if obj_fields result = None then (Inl AttributeError, D)
             else (case obj_get result ''branch_id'' of
                 Some (JStr k) \<Rightarrow>
                   if k = [] then (Inl (DistributionError ''offer response has no branch ID; reconcile before retrying''), D)
                   else (Inr (), dist_save (D\<lparr>ds_known := AList.update r k (ds_known D), ds_flight := None\<rparr>))
               | _ \<Rightarrow> (Inl (DistributionError ''offer response has no branch ID; reconcile before retrying''), D)))
          else (Inr (), dist_save (D\<lparr>ds_flight := None\<rparr>)))"

text \<open>\<open>mutate\<close>: the nonce and the operation are saved before any network traffic.\<close>

definition mutate ::
    "crypto \<Rightarrow> 'w outside \<Rightarrow> string \<Rightarrow> string \<Rightarrow> json \<Rightarrow> string \<Rightarrow> (distributor \<times> 'w, unit) operation" where
  "mutate C U method r params actor S =
     (case S of (D, w) \<Rightarrow>
       let nonce = next_nonce (ou_now U w) actor D;
           D1 = D\<lparr>ds_nonces := AList.update actor nonce (ds_nonces D)\<rparr>;
           request = [(''id'', JStr (ou_uid U w)), (''method'', JStr method), (''params'', params)] in
       (case obj_get (ds_registry D) actor of
          Some (JStr secret) \<Rightarrow>
            (case auth_sign C (JObj request) actor nonce secret of
               Inl e \<Rightarrow> (Inl e, D1, w)
             | Inr auth \<Rightarrow>
                 let D2 = dist_save (D1\<lparr>ds_flight := Some \<lparr>if_recipient = r, if_method = method, if_nonce = nonce\<rparr>\<rparr>) in
                 (case dist_call U (JObj (request @ [(''auth'', auth)])) BACKENDS w of
                    (Inl e, w1) \<Rightarrow> (Inl e, D2, w1)
                  | (Inr response, w1) \<Rightarrow> (case settle_reply method r response D2 of (x, D3) \<Rightarrow> (x, D3, w1))))
        | None \<Rightarrow> (Inl KeyError, D1, w)
        | Some _ \<Rightarrow> (Inl AttributeError, D1, w)))"

definition int_of_json :: "json \<Rightarrow> int result" where
  "int_of_json v = (case v of JInt i \<Rightarrow> Inr i | _ \<Rightarrow> Inl Unmodelled)"

text \<open>\<open>ledger[table].get(account, 0)\<close>.\<close>

definition table_get :: "json \<Rightarrow> string \<Rightarrow> string \<Rightarrow> json result" where
  "table_get ledger table account =
     bindR (item ledger table) (\<lambda>t. if obj_fields t = None then Inl AttributeError else Inr (get_or t account (JInt 0)))"

definition faucet_free :: "json \<Rightarrow> int result" where
  "faucet_free ledger =
     bindR (bindR (table_get ledger ''balances'' FAUCET) int_of_json) (\<lambda>b.
     bindR (bindR (table_get ledger ''locked'' FAUCET) int_of_json) (\<lambda>l. Inr (b - l)))"

text \<open>
  One round of \<open>fund_one\<close> on a ledger status: \<open>Inr (Some s)\<close> is \<open>return s\<close>, \<open>Inr None\<close> goes on with the
  next round.
\<close>

definition fund_round :: "crypto \<Rightarrow> 'w outside \<Rightarrow> string \<Rightarrow> json \<Rightarrow> (distributor \<times> 'w, string option) operation" where
  "fund_round C U r ledger S =
     (case S of (D, w) \<Rightarrow>
       (case bindR (dist_branch D ledger r) (\<lambda>row. bindR (table_get ledger ''balances'' r) (\<lambda>b. Inr (row, b))) of
          Inl e \<Rightarrow> (Inl e, D, w)
        | Inr (None, balance) \<Rightarrow>
            if \<not> py_eq balance (JInt 0)
            then (Inl (DistributionError (r @ '' has a balance but no matching branch; refusing a second payment'')), D, w)
            else (case faucet_free ledger of
                Inl e \<Rightarrow> (Inl e, D, w)
              | Inr free \<Rightarrow>
                  if free < 2 * ds_amount D
                  then (Inl (DistributionError ''faucet needs amount plus equal temporary stake''), D, w)
                  else map_op (\<lambda>_. None) (mutate C U ''offer'' r (JObj [(''sender'', JStr FAUCET), (''receiver'', JStr r),
                    (''value'', JInt (ds_amount D)), (''ttl'', JInt 3600)]) FAUCET (D, w)))
        | Inr (Some b, balance) \<Rightarrow>
            (case bindR (row_state b) (\<lambda>s. if s \<in> {JStr ''offered'', JStr ''accepted''}
                     then bindR (item b ''branch_id'') (\<lambda>k. Inr (s, k)) else Inr (s, JNull)) of
               Inl e \<Rightarrow> (Inl e, D, w)
             | Inr (s, k) \<Rightarrow>
                 if s = JStr ''offered'' then
                   map_op (\<lambda>_. None) (mutate C U ''accept'' r (JObj [(''branch_id'', k), (''receiver'', JStr r)]) r (D, w))
                 else if s = JStr ''accepted'' then
                   map_op (\<lambda>_. None) (mutate C U ''commit'' r (JObj [(''branch_id'', k), (''sender'', JStr FAUCET),
                     (''payload'', JObj [])]) FAUCET (D, w))
                 else if s = JStr ''committed'' then (Inr (Some ''committed''), D, w)
                 else if s = JStr ''final'' then (Inr (Some ''final''), D, w)
                 else (Inl (DistributionError (''branch for '' @ r @ '' is ''
                   @ (case s of JStr x \<Rightarrow> x | _ \<Rightarrow> []) @ ''; inspect before retrying'')), D, w))))"

text \<open>The rounds of \<open>fund_one\<close>; the source runs four.\<close>

fun fund_rounds :: "crypto \<Rightarrow> 'w outside \<Rightarrow> string \<Rightarrow> nat \<Rightarrow> (distributor \<times> 'w, string) operation" where
  "fund_rounds C U r 0 S = (Inl (DistributionError (r @ '' did not reach committed state; inspect nodes'')), S)"
| "fund_rounds C U r (Suc n) S =
     (case S of (D, w) \<Rightarrow>
       (case dist_snapshot U (ds_genesis D) BACKENDS w of
          (Inl e, w1) \<Rightarrow> (Inl e, D, w1)
        | (Inr ledger, w1) \<Rightarrow>
            (case reconcile r ledger D of
               (Inl e, D1) \<Rightarrow> (Inl e, D1, w1)
             | (Inr _, D1) \<Rightarrow>
                 (case fund_round C U r ledger (D1, w1) of
                    (Inl e, S2) \<Rightarrow> (Inl e, S2)
                  | (Inr (Some stage), S2) \<Rightarrow> (Inr stage, S2)
                  | (Inr None, S2) \<Rightarrow> fund_rounds C U r n S2))))"

definition fund_one :: "crypto \<Rightarrow> 'w outside \<Rightarrow> string \<Rightarrow> (distributor \<times> 'w, string) operation" where
  "fund_one C U r = fund_rounds C U r 4"

section \<open>The whole batch\<close>

fun fund_all :: "crypto \<Rightarrow> 'w outside \<Rightarrow> string list \<Rightarrow> (distributor \<times> 'w, unit) operation" where
  "fund_all C U [] S = (Inr (), S)"
| "fund_all C U (r # rs) S =
     (case fund_one C U r S of (Inl e, S1) \<Rightarrow> (Inl e, S1) | (Inr _, S1) \<Rightarrow> fund_all C U rs S1)"

text \<open>Whether the status shows the payment final and nothing else on the account.\<close>

definition paid_out :: "distributor \<Rightarrow> json \<Rightarrow> string \<Rightarrow> bool result" where
  "paid_out D ledger r =
     bindR (dist_branch D ledger r) (\<lambda>row.
       case row of None \<Rightarrow> Inr False
       | Some b \<Rightarrow> bindR (row_state b) (\<lambda>s. if s \<noteq> JStr ''final'' then Inr False
           else bindR (table_get ledger ''balances'' r) (\<lambda>v. Inr (py_eq v (JInt (ds_amount D))))))"

text \<open>The wait for finality; \<open>n\<close> polls fit before the deadline.\<close>

fun wait_final :: "'w outside \<Rightarrow> nat \<Rightarrow> (distributor \<times> 'w, unit) operation" where
  "wait_final U 0 S = (Inl (DistributionError ''not all transfers finalized in 180 seconds; rerun fund to inspect''), S)"
| "wait_final U (Suc n) S =
     (case S of (D, w) \<Rightarrow>
       (case dist_snapshot U (ds_genesis D) BACKENDS w of
          (Inl e, w1) \<Rightarrow> (Inl e, D, w1)
        | (Inr ledger, w1) \<Rightarrow>
            (case mapR (paid_out D ledger) (ds_recipients D) of
               Inl e \<Rightarrow> (Inl e, D, w1)
             | Inr oks \<Rightarrow> if list_all id oks then (Inr (), D, w1) else wait_final U n (D, w1))))"

definition dist_run :: "crypto \<Rightarrow> 'w outside \<Rightarrow> nat option \<Rightarrow> (distributor \<times> 'w, unit) operation" where
  "dist_run C U polls S =
     (case fund_all C U (ds_recipients (fst S)) S of
        (Inl e, S1) \<Rightarrow> (Inl e, S1)
      | (Inr _, S1) \<Rightarrow> (case polls of None \<Rightarrow> (Inr (), S1) | Some n \<Rightarrow> wait_final U n S1))"

text \<open>The option \<open>--faucet-next-nonce\<close>.\<close>

definition raise_nonce :: "int \<Rightarrow> (distributor, unit) operation" where
  "raise_nonce n D =
     (if n < 0 then (Inl (DistributionError ''nonce cannot be negative''), D)
      else (Inr (), dist_save (D\<lparr>ds_nonces := AList.update FAUCET (max (dict_get (ds_nonces D) FAUCET (- 1)) (n - 1)) (ds_nonces D)\<rparr>)))"

text \<open>
  One run of the command \<open>fund\<close> over the files (less the read-only diagnosis that precedes it): the process
  starts from the files and leaves its progress there, however it ends.
\<close>

definition fund_command ::
    "crypto \<Rightarrow> 'w outside \<Rightarrow> genesis_config \<Rightarrow> int option \<Rightarrow> nat option \<Rightarrow> (dist_files \<times> 'w, unit) operation" where
  "fund_command C U g next polls S =
     (case S of (F, w) \<Rightarrow>
       (case dist_init C g F of
          Inl e \<Rightarrow> (Inl e, F, w)
        | Inr D \<Rightarrow>
            (case (case next of None \<Rightarrow> (Inr (), D) | Some n \<Rightarrow> raise_nonce n D) of
               (Inl e, D1) \<Rightarrow> (Inl e, F\<lparr>df_state := ds_file D1\<rparr>, w)
             | (Inr _, D1) \<Rightarrow>
                 (case dist_run C U polls (D1, w) of (x, D2, w2) \<Rightarrow> (x, F\<lparr>df_state := ds_file D2\<rparr>, w2)))))"

end
