(* ===== verification/Distributor_Safety.thy ===== *)
theory Distributor_Safety
  imports Distributor Node_Server
begin

text \<open>
  No friend is paid twice: whatever is lost, delayed or answered by stale nodes, and however often the
  distributor is started again, the faucet's branches to one recipient never exceed the amount of the plan.
  The contract of the ledger service is the locale \<open>paying_service\<close>; the dispatcher of the reference node
  provides it.
\<close>

section \<open>The network\<close>

text \<open>
  The fate of a request: it is answered, it is applied but its reply is lost, it is delivered later, or
  another node answers (or nobody does) and the leader never sees it. Between two requests other traffic and
  late deliveries happen. A status changes nothing, so its answer is always taken from the script: it may be
  stale, or that of any other node.
\<close>

datatype ('o, 'e) event = Traffic 'o | Late nat 'e

datatype 'e fate = Answered 'e | Reply_lost 'e | Delayed | Elsewhere "json option"

record ('s, 'o, 'e) testnet =
  tn_state :: 's
  tn_late :: "json list"
  tn_script :: "(('o, 'e) event list \<times> 'e fate) list"

type_synonym ('s, 'e) handler = "'e \<Rightarrow> json \<Rightarrow> 's \<Rightarrow> json option \<times> 's"

fun happen :: "('s, 'e) handler \<Rightarrow> ('o \<Rightarrow> 's \<Rightarrow> 's) \<Rightarrow> ('o, 'e) event \<Rightarrow> ('s, 'o, 'e) testnet \<Rightarrow> ('s, 'o, 'e) testnet" where
  "happen handle traffic (Traffic x) T = T\<lparr>tn_state := traffic x (tn_state T)\<rparr>"
| "happen handle traffic (Late i e) T =
     (if i < length (tn_late T)
      then T\<lparr>tn_state := snd (handle e (tn_late T ! i) (tn_state T)), tn_late := take i (tn_late T) @ drop (Suc i) (tn_late T)\<rparr>
      else T)"

definition is_status :: "json \<Rightarrow> bool" where
  "is_status q = (obj_get q ''method'' = Some (JStr ''status''))"

definition tn_send ::
    "('s, 'e) handler \<Rightarrow> ('o \<Rightarrow> 's \<Rightarrow> 's) \<Rightarrow> string \<Rightarrow> json \<Rightarrow> ('s, 'o, 'e) testnet \<Rightarrow> json option \<times> ('s, 'o, 'e) testnet" where
  "tn_send handle traffic backend q T =
     (case tn_script T of
        [] \<Rightarrow> (None, T)
      | (events, fate) # script \<Rightarrow>
          let T1 = fold (happen handle traffic) events (T\<lparr>tn_script := script\<rparr>) in
          (case fate of
             Elsewhere v \<Rightarrow> (v, T1)
           | Delayed \<Rightarrow> (None, if is_status q then T1 else T1\<lparr>tn_late := q # tn_late T1\<rparr>)
           | Answered e \<Rightarrow>
               if is_status q then (None, T1)
               else (case handle e q (tn_state T1) of (v, s) \<Rightarrow> (v, T1\<lparr>tn_state := s\<rparr>))
           | Reply_lost e \<Rightarrow>
               (None, if is_status q then T1 else T1\<lparr>tn_state := snd (handle e q (tn_state T1))\<rparr>)))"

text \<open>Every row of a status has an identifier.\<close>

definition ledger_named :: "json \<Rightarrow> bool" where
  "ledger_named ledger =
     (case obj_get ledger ''branches'' of
        Some (JList bs) \<Rightarrow> list_all (\<lambda>b. obj_get b ''branch_id'' \<noteq> Some (JStr [])) bs
      | _ \<Rightarrow> True)"

definition rows_named :: "json \<Rightarrow> bool" where
  "rows_named v = ledger_named (get_or v ''result'' JNull)"

text \<open>A script: the traffic is harmless, and statuses of other nodes have named rows.\<close>

definition event_fine :: "('o \<Rightarrow> bool) \<Rightarrow> ('o, 'e) event \<Rightarrow> bool" where
  "event_fine harmless x = (case x of Traffic t \<Rightarrow> harmless t | Late _ _ \<Rightarrow> True)"

definition script_fine :: "('o \<Rightarrow> bool) \<Rightarrow> (('o, 'e) event list \<times> 'e fate) list \<Rightarrow> bool" where
  "script_fine harmless = list_all (\<lambda>(events, fate). list_all (event_fine harmless) events
     \<and> (case fate of Elsewhere (Some v) \<Rightarrow> rows_named v | _ \<Rightarrow> True))"

section \<open>Payments\<close>

text \<open>What a request offers to pay \<open>r\<close> from the faucet; a commit carries a mutation of the log.\<close>

definition offered_call :: "string \<Rightarrow> json \<Rightarrow> json \<Rightarrow> int" where
  "offered_call r v p =
     (if v = JStr ''offer'' \<and> obj_get p ''sender'' = Some (JStr FAUCET) \<and> obj_get p ''receiver'' = Some (JStr r)
      then (case obj_get p ''value'' of Some (JInt x) \<Rightarrow> max 0 x | _ \<Rightarrow> 0) else 0)"

definition offered_mutation :: "string \<Rightarrow> json \<Rightarrow> int" where
  "offered_mutation r mut = offered_call r (get_or mut ''method'' JNull) (get_or mut ''params'' (JObj []))"

definition offered :: "string \<Rightarrow> json \<Rightarrow> int" where
  "offered r q =
     (if get_or q ''method'' JNull = JStr ''replica.commit''
      then (case envelope_json (get_or q ''params'' (JObj [])) ''mutation'' of Inl _ \<Rightarrow> 0 | Inr mut \<Rightarrow> offered_mutation r mut)
      else offered_mutation r q)"

lemma offered_call_nonneg [simp]: "0 \<le> offered_call r v p"
  by (auto simp: offered_call_def split: option.split json.split)

lemma offered_nonneg [simp]: "0 \<le> offered r q"
  by (auto simp: offered_def offered_mutation_def split: sum.split)

definition definite :: "json \<Rightarrow> bool" where
  "definite v = (error_code v = Some (JStr ''INVALID_REQUEST'') \<or> error_code v = Some (JStr ''NOT_LEADER''))"

section \<open>What the progress guards\<close>

text \<open>The progress guards a recipient: its branch is known, or its offer is in flight.\<close>

definition guards :: "(string, string) dict \<Rightarrow> in_flight option \<Rightarrow> string \<Rightarrow> bool" where
  "guards known flight r = (dict_get known r [] \<noteq> [] \<or> (\<exists>p. flight = Some p \<and> if_recipient p = r \<and> if_method p = ''offer''))"

definition guarded :: "distributor \<Rightarrow> string \<Rightarrow> bool" where
  "guarded D = guards (ds_known D) (ds_flight D)"

lemma guarded_update [simp]:
  "guarded (dist_save D) = guarded D" "guarded (D\<lparr>ds_nonces := ns\<rparr>) = guarded D"
  by (simp_all add: guarded_def dist_save_def)

text \<open>The saved progress is the current one.\<close>

lemma str_table_map: "str_table (map (\<lambda>(r, b). (r, JStr b)) d) = Inr d"
  by (induction d) auto

lemma nonce_table_map: "nonce_table (map (\<lambda>(r, n). (r, JInt n)) d) = Inr d"
  by (induction d) auto

lemma read_flight_json: "read_flight (flight_json f) = Inr f"
  by (cases f) (simp_all add: read_flight_def flight_json_def)

lemma read_state_json: "read_progress (state_json D) = Inr (ds_nonces D, ds_known D, ds_flight D)"
  by (simp add: read_progress_def state_json_def get_or_def obj_get_def dict_json_def str_table_map nonce_table_map read_flight_json)

definition saved_ok :: "distributor \<Rightarrow> bool" where
  "saved_ok D =
     (case ds_file D of
        None \<Rightarrow> ds_known D = [] \<and> ds_flight D = None
      | Some st \<Rightarrow> (\<exists>ns. read_progress st = Inr (ns, ds_known D, ds_flight D)))"

lemma saved_dist_save [simp]: "saved_ok (dist_save D)"
  using read_state_json [of D] by (simp add: saved_ok_def dist_save_def)

lemma saved_nonces [simp]: "saved_ok (D\<lparr>ds_nonces := ns\<rparr>) = saved_ok D"
  unfolding saved_ok_def by (cases "ds_file D") simp_all

lemma dist_save_fields [simp]:
  "ds_amount (dist_save D) = ds_amount D" "ds_known (dist_save D) = ds_known D" "ds_flight (dist_save D) = ds_flight D"
  by (simp_all add: dist_save_def)

section \<open>Statuses\<close>

lemma matching_rows_mem: "matching_rows r bs = Inr rows \<Longrightarrow> set rows \<subseteq> set bs"
  by (induction bs arbitrary: rows) (auto simp: bindR_Inr_iff split: if_splits)

text \<open>The anatomy of \<open>branch\<close>.\<close>

lemma dist_branch_Inr:
  assumes "dist_branch D ledger r = Inr row"
  obtains bs rows where "obj_get ledger ''branches'' = Some (JList bs)" "matching_rows r bs = Inr rows"
    "row = (case rows of [] \<Rightarrow> None | b # _ \<Rightarrow> Some b)" "rows = [] \<Longrightarrow> known_branch D r = []"
proof -
  from assms obtain v where v: "item ledger ''branches'' = Inr v" by (auto simp: dist_branch_def bindR_Inr_iff)
  with assms obtain bs where bs: "v = JList bs" by (cases v) (auto simp: dist_branch_def)
  from assms v bs obtain rows where m: "matching_rows r bs = Inr rows" by (auto simp: dist_branch_def bindR_Inr_iff)
  note body = assms [unfolded dist_branch_def v bs m bindR_simps json.case]
  from v bs have get: "obj_get ledger ''branches'' = Some (JList bs)" by (auto simp: item_def split: if_splits option.splits)
  show thesis
  proof (cases rows)
    case Nil
    with body have "row = None" "known_branch D r = []" by (auto split: if_splits)
    with that [OF get m] Nil show thesis by simp
  next
    case (Cons b rest)
    with body have "row = Some b" by (auto simp: bindR_Inr_iff split: if_splits)
    with that [OF get m] Cons show thesis by simp
  qed
qed

lemma dist_branch_Some:
  assumes "dist_branch D ledger r = Inr (Some b)" "ledger_named ledger"
  shows "obj_get b ''branch_id'' \<noteq> Some (JStr [])"
proof (cases rule: dist_branch_Inr [OF assms(1)])
  case (1 bs rows)
  then have "b \<in> set rows" by (cases rows) auto
  with 1 assms(2) matching_rows_mem [OF 1(2)] show ?thesis by (auto simp: ledger_named_def list_all_iff)
qed

lemma dist_branch_None: "dist_branch D ledger r = Inr None \<Longrightarrow> known_branch D r = []"
  by (elim dist_branch_Inr) (auto split: list.splits)

lemma reconcile_guarded:
  assumes "reconcile r ledger D = (x, D')" "ledger_named ledger" "saved_ok D"
  shows "saved_ok D' \<and> ds_amount D' = ds_amount D \<and> (guarded D s \<longrightarrow> guarded D' s) \<and> (x = Inr () \<longrightarrow> ds_flight D' = None)"
proof (cases "ds_flight D")
  case None
  with assms show ?thesis by (auto simp: reconcile_def)
next
  case (Some p)
  let ?r = "bindR (dist_branch D ledger r) (\<lambda>row. bindR (flight_done (if_method p) row) (\<lambda>fin. Inr (row, fin)))"
  show ?thesis
  proof (cases "if_recipient p = r \<and> (\<exists>b. ?r = Inr (Some b, True))")
    case False
    have "D' = D \<and> x \<noteq> Inr ()"
    proof (cases ?r)
      case (Inl e)
      with assms(1) Some show ?thesis by (auto simp: reconcile_def split: if_splits)
    next
      case (Inr y)
      obtain row fin where y: "y = (row, fin)" by (cases y)
      with Inr have "flight_done (if_method p) row = Inr fin" by (auto simp: bindR_Inr_iff)
      then have "row = None \<Longrightarrow> \<not> fin" by (simp add: flight_done_def)
      with Inr False y have "if_recipient p = r \<Longrightarrow> \<not> fin" by (cases row) auto
      with assms(1) Some Inr y show ?thesis by (auto simp: reconcile_def split: if_splits)
    qed
    with assms show ?thesis by auto
  next
    case True
    then obtain b where r: "if_recipient p = r" and b: "?r = Inr (Some b, True)" by blast
    then have row: "dist_branch D ledger r = Inr (Some b)" by (auto simp: bindR_Inr_iff)
    from assms(1) Some r b have step: "(x, D') = (case item b ''branch_id'' of
        Inr (JStr k) \<Rightarrow> (Inr (), dist_save (D\<lparr>ds_known := AList.update r k (ds_known D), ds_flight := None\<rparr>))
      | Inr _ \<Rightarrow> (Inl Unmodelled, D) | Inl e \<Rightarrow> (Inl e, D))"
      by (simp add: reconcile_def)
    show ?thesis
    proof (cases "\<exists>k. item b ''branch_id'' = Inr (JStr k)")
      case True
      then obtain k where k: "item b ''branch_id'' = Inr (JStr k)" by blast
      then have "k \<noteq> []" using dist_branch_Some [OF row assms(2)] by (auto simp: item_def split: if_splits option.splits)
      with step k Some r show ?thesis by (auto simp: guarded_def guards_def)
    next
      case False
      with step have "D' = D \<and> x \<noteq> Inr ()" by (auto split: sum.splits json.splits)
      with assms show ?thesis by auto
    qed
  qed
qed

section \<open>The distributor over a service that pays\<close>

locale paying_service =
  fixes handle :: "'e \<Rightarrow> json \<Rightarrow> 's \<Rightarrow> json option \<times> 's" and traffic :: "'o \<Rightarrow> 's \<Rightarrow> 's"
    and harmless :: "'o \<Rightarrow> bool" and good :: "'s \<Rightarrow> bool" and paid :: "string \<Rightarrow> 's \<Rightarrow> int"
  assumes handle_good: "good s \<Longrightarrow> good (snd (handle e q s))"
    and traffic_good: "good s \<Longrightarrow> harmless x \<Longrightarrow> good (traffic x s)"
    and traffic_paid: "good s \<Longrightarrow> harmless x \<Longrightarrow> paid r (traffic x s) \<le> paid r s"
    and handle_paid: "good s \<Longrightarrow> paid r (snd (handle e q s)) \<le> paid r s + offered r q"
    and handle_definite: "good s \<Longrightarrow> fst (handle e q s) = Some v \<Longrightarrow> definite v \<Longrightarrow> paid r (snd (handle e q s)) \<le> paid r s"
begin

text \<open>What has been paid or may still be paid by requests on their way.\<close>

definition exposure :: "string \<Rightarrow> ('s, 'o, 'e) testnet \<Rightarrow> int" where
  "exposure r T = paid r (tn_state T) + sum_list (map (offered r) (tn_late T))"

abbreviation script_ok :: "('s, 'o, 'e) testnet \<Rightarrow> bool" where
  "script_ok T \<equiv> script_fine harmless (tn_script T)"

definition fair :: "('s, 'o, 'e) testnet \<Rightarrow> bool" where
  "fair T = (good (tn_state T) \<and> script_ok T)"

lemma paid_exposure: "paid r (tn_state T) \<le> exposure r T"
  unfolding exposure_def by (auto intro!: sum_list_nonneg)

lemma sum_remove: "i < length xs \<Longrightarrow>
  sum_list (map f (take i xs @ drop (Suc i) xs)) + f (xs ! i) = sum_list (map (f :: 'x \<Rightarrow> int) xs)"
  by (subst (3) id_take_nth_drop [of i xs]) simp_all

lemma happen_fair:
  assumes "good (tn_state T)" "event_fine harmless x"
  shows "good (tn_state (happen handle traffic x T)) \<and> exposure r (happen handle traffic x T) \<le> exposure r T
    \<and> tn_script (happen handle traffic x T) = tn_script T"
proof (cases x)
  case (Traffic o')
  with assms show ?thesis by (simp add: traffic_good exposure_def traffic_paid event_fine_def)
next
  case (Late i e)
  have "paid r (snd (handle e (tn_late T ! i) (tn_state T))) \<le> paid r (tn_state T) + offered r (tn_late T ! i)"
    by (rule handle_paid [OF assms(1)])
  with sum_remove [of i "tn_late T" "offered r"] assms(1) Late show ?thesis
    by (cases "i < length (tn_late T)") (simp_all add: handle_good exposure_def)
qed

lemma events_fair:
  assumes "good (tn_state T)" "list_all (event_fine harmless) events"
  shows "good (tn_state (fold (happen handle traffic) events T)) \<and> exposure r (fold (happen handle traffic) events T) \<le> exposure r T
    \<and> tn_script (fold (happen handle traffic) events T) = tn_script T"
  using assms
proof (induction events arbitrary: T)
  case (Cons x events)
  from Cons.prems happen_fair [of T x r] have x: "good (tn_state (happen handle traffic x T))"
    "exposure r (happen handle traffic x T) \<le> exposure r T" "tn_script (happen handle traffic x T) = tn_script T" by simp_all
  from Cons.IH [OF x(1)] Cons.prems(2) x show ?case by simp
qed simp

lemma send_fair:
  assumes "fair T" and sent: "tn_send handle traffic backend q T = (v, T')"
  shows "fair T' \<and> exposure r T' \<le> exposure r T + (if is_status q then 0 else offered r q)
    \<and> (\<forall>x. v = Some x \<and> definite x \<longrightarrow> exposure r T' \<le> exposure r T)
    \<and> (is_status q \<longrightarrow> (\<forall>x. v = Some x \<longrightarrow> rows_named x))"
proof (cases "tn_script T")
  case Nil
  with assms show ?thesis by (auto simp: tn_send_def)
next
  case (Cons c script)
  obtain events fate where c: "c = (events, fate)" by (cases c)
  let ?T = "fold (happen handle traffic) events (T\<lparr>tn_script := script\<rparr>)"
  have "exposure r (T\<lparr>tn_script := script\<rparr>) = exposure r T" by (simp add: exposure_def)
  with events_fair [of "T\<lparr>tn_script := script\<rparr>" events r] assms(1) c Cons
  have T1: "good (tn_state ?T)" "exposure r ?T \<le> exposure r T" "tn_script ?T = script" "script_ok ?T"
      and named: "\<forall>x. fate = Elsewhere (Some x) \<longrightarrow> rows_named x"
    by (auto simp: fair_def script_fine_def)
  have state: "exposure r (?T\<lparr>tn_state := s\<rparr>) = exposure r ?T - paid r (tn_state ?T) + paid r s"
      "script_ok (?T\<lparr>tn_state := s\<rparr>)" for s
    using T1(4) by (simp_all add: exposure_def)
  have late: "exposure r (?T\<lparr>tn_late := q # tn_late ?T\<rparr>) = exposure r ?T + offered r q" "script_ok (?T\<lparr>tn_late := q # tn_late ?T\<rparr>)"
    using T1(4) by (simp_all add: exposure_def)
  note sent = sent [unfolded tn_send_def Cons c list.case prod.case Let_def]
  show ?thesis
  proof (cases fate)
    case (Answered e)
    with sent T1 state handle_good [OF T1(1), of e q] handle_paid [OF T1(1), of r e q] handle_definite [OF T1(1), of e q _ r]
    show ?thesis by (cases "handle e q (tn_state ?T)") (fastforce simp: fair_def split: if_splits)
  next
    case (Reply_lost e)
    with sent T1 state handle_good [OF T1(1), of e q] handle_paid [OF T1(1), of r e q]
    show ?thesis by (fastforce simp: fair_def split: if_splits)
  next
    case Delayed
    with sent T1 late show ?thesis by (fastforce simp: fair_def split: if_splits)
  next
    case (Elsewhere x)
    with sent T1 named show ?thesis by (fastforce simp: fair_def split: if_splits intro: order_trans add_increasing2)
  qed
qed

lemma call_fair:
  assumes "fair w" "\<not> is_status q" "dist_call U q bs w = (x, w')" "ou_send U = tn_send handle traffic"
  shows "fair w' \<and> exposure r w' \<le> exposure r w + offered r q
    \<and> (\<forall>v. x = Inr v \<and> error_code v = Some (JStr ''INVALID_REQUEST'') \<longrightarrow> exposure r w' \<le> exposure r w)"
  using assms
proof (induction bs arbitrary: w)
  case (Cons b bs)
  obtain v w1 where v: "tn_send handle traffic b q w = (v, w1)" by (cases "tn_send handle traffic b q w")
  note s = send_fair [OF Cons.prems(1) v, of r]
  show ?case
  proof (cases "\<exists>y. v = Some y \<and> obj_fields y \<noteq> None \<and> py_eq (get_or y ''id'' JNull) (get_or q ''id'' JNull)
      \<and> error_code y = Some (JStr ''NOT_LEADER'')")
    case True
    then obtain y where y: "v = Some y" "error_code y = Some (JStr ''NOT_LEADER'')" by blast
    with s have w1: "fair w1" "exposure r w1 \<le> exposure r w" by (auto simp: definite_def)
    have "dist_call U q bs w1 = (x, w')" using Cons.prems(3,4) True v by auto
    from Cons.IH [OF w1(1) Cons.prems(2) this Cons.prems(4)] w1(2) show ?thesis by auto
  next
    case False
    then have "w' = w1 \<and> (\<forall>y. x = Inr y \<longrightarrow> v = Some y)"
      using Cons.prems(3,4) v by (auto split: option.split_asm if_split_asm)
    with s Cons.prems(2) show ?thesis by (auto simp: definite_def)
  qed
qed (use assms in auto)

lemma snapshot_fair:
  assumes "fair w" "dist_snapshot U g bs w = (x, w')" "ou_send U = tn_send handle traffic"
  shows "fair w' \<and> exposure r w' \<le> exposure r w \<and> (\<forall>ledger. x = Inr ledger \<longrightarrow> ledger_named ledger)"
  using assms
proof (induction bs arbitrary: w)
  case (Cons b bs)
  let ?q = "JObj [(''id'', JStr (ou_uid U w)), (''method'', JStr ''status''), (''params'', JObj [])]"
  obtain v w1 where v: "tn_send handle traffic b ?q w = (v, w1)" by (cases "tn_send handle traffic b ?q w")
  have "is_status ?q" by (simp add: is_status_def obj_get_def)
  with send_fair [OF Cons.prems(1) v, of r] have s: "fair w1" "exposure r w1 \<le> exposure r w" "\<forall>y. v = Some y \<longrightarrow> rows_named y"
    by auto
  show ?case
  proof (cases "dist_snapshot U g bs w1 = (x, w')")
    case True
    from Cons.IH [OF s(1) this Cons.prems(3)] s(2) show ?thesis by auto
  next
    case False
    with Cons.prems(2,3) v have "w' = w1 \<and> (\<forall>ledger. x = Inr ledger \<longrightarrow> (\<exists>y. v = Some y \<and> item y ''result'' = Inr ledger))"
      by (auto split: option.split_asm sum.split_asm if_split_asm)
    with s show ?thesis by (auto simp: rows_named_def item_def get_or_def split: if_splits option.splits)
  qed
qed auto

definition payable :: "string \<Rightarrow> int \<Rightarrow> int \<Rightarrow> distributor \<times> ('s, 'o, 'e) testnet \<Rightarrow> bool" where
  "payable r B a S =
     (fair (snd S) \<and> ds_amount (fst S) = a \<and> saved_ok (fst S)
      \<and> exposure r (snd S) \<le> B + (if guarded (fst S) r then max 0 a else 0))"

lemma mutate_payable:
  assumes pay: "payable r B a (D, w)" and U: "ou_send U = tn_send handle traffic" and "meth \<noteq> ''status''" "meth \<noteq> ''replica.commit''"
    and free: "ds_flight D = None" "meth = ''offer'' \<Longrightarrow> known_branch D r' = []"
    and off: "offered_call r (JStr meth) params \<le> (if r = r' \<and> meth = ''offer'' then max 0 a else 0)"
  shows "payable r B a (snd (mutate C U meth r' params actor (D, w)))"
proof -
  let ?nonce = "next_nonce (ou_now U w) actor D"
  let ?D1 = "D\<lparr>ds_nonces := AList.update actor ?nonce (ds_nonces D)\<rparr>"
  let ?req = "[(''id'', JStr (ou_uid U w)), (''method'', JStr meth), (''params'', params)]"
  have D1: "payable r B a (?D1, w)" using pay by (simp add: payable_def)
  show ?thesis
  proof (cases "\<exists>secret auth. obj_get (ds_registry D) actor = Some (JStr secret) \<and> auth_sign C (JObj ?req) actor ?nonce secret = Inr auth")
    case False
    then have "snd (mutate C U meth r' params actor (D, w)) = (?D1, w)"
      by (auto simp: mutate_def Let_def split: option.split json.split sum.split)
    with D1 show ?thesis by simp
  next
    case True
    then obtain secret auth where auth: "obj_get (ds_registry D) actor = Some (JStr secret)"
        "auth_sign C (JObj ?req) actor ?nonce secret = Inr auth" by blast
    let ?q = "JObj (?req @ [(''auth'', auth)])"
    let ?D2 = "dist_save (?D1\<lparr>ds_flight := Some \<lparr>if_recipient = r', if_method = meth, if_nonce = ?nonce\<rparr>\<rparr>)"
    have q: "offered r ?q = offered_call r (JStr meth) params" "\<not> is_status ?q"
      using assms(3,4) by (simp_all add: offered_def offered_mutation_def get_or_def obj_get_def is_status_def)
    obtain x w1 where x: "dist_call U ?q BACKENDS w = (x, w1)" by (cases "dist_call U ?q BACKENDS w")
    have fair: "fair w" "ds_amount D = a" "saved_ok D" and le: "exposure r w \<le> B + (if guarded D r then max 0 a else 0)"
      using pay by (simp_all add: payable_def)
    note c = call_fair [OF fair(1) q(2) x U, of r, unfolded q(1)]
    have known: "guarded D r \<longleftrightarrow> known_branch D r \<noteq> []" using free(1) by (simp add: guarded_def guards_def known_branch_def)
    have g2: "guarded ?D2 s \<longleftrightarrow> known_branch D s \<noteq> [] \<or> s = r' \<and> meth = ''offer''" for s
      by (auto simp: guarded_def guards_def known_branch_def)
    have le2: "exposure r w1 \<le> B + (if guarded ?D2 r then max 0 a else 0)"
      using c off le known g2 [of r] free(2) by (auto split: if_splits)
    have p2: "payable r B a (?D2, w1)" using c fair le2 by (simp add: payable_def)
    show ?thesis
    proof (cases x)
      case (Inl e)
      with auth x p2 show ?thesis by (simp add: mutate_def Let_def)
    next
      case (Inr v)
      obtain y D3 where y: "settle_reply meth r' v ?D2 = (y, D3)" by (cases "settle_reply meth r' v ?D2")
      have "payable r B a (D3, w1)"
      proof (cases "D3 = ?D2")
        case False
        have D3: "saved_ok D3 \<and> ds_amount D3 = a \<and> (if obj_get v ''error'' \<noteq> None
            then error_code v = Some (JStr ''INVALID_REQUEST'') \<and> ds_flight D3 = None \<and> ds_known D3 = ds_known D
            else ds_flight D3 = None \<and> (if meth = ''offer'' then \<exists>k. k \<noteq> [] \<and> ds_known D3 = AList.update r' k (ds_known D)
                  else ds_known D3 = ds_known D))"
          using y False fair(2) unfolding settle_reply_def
          by (auto simp: Let_def error_code_def get_or_def obj_get_def obj_fields_def split: option.split_asm if_split_asm json.split_asm)
        show ?thesis
        proof (cases "obj_get v ''error'' = None")
          case True
          then have "guarded D3 r \<longleftrightarrow> known_branch D r \<noteq> [] \<or> r = r' \<and> meth = ''offer''"
            using D3 by (auto simp: guarded_def guards_def known_branch_def split: if_splits)
          with D3 c le2 g2 [of r] show ?thesis by (simp add: payable_def)
        next
          case False
          with D3 have "error_code v = Some (JStr ''INVALID_REQUEST'')" "guarded D3 r \<longleftrightarrow> guarded D r"
            using free(1) by (auto simp: guarded_def)
          with D3 c Inr le show ?thesis by (auto simp: payable_def)
        qed
      qed (use p2 in simp)
      with auth x Inr y show ?thesis by (simp add: mutate_def Let_def)
    qed
  qed
qed

lemma fund_round_payable:
  assumes pay: "payable r B a (D, w)" and U: "ou_send U = tn_send handle traffic" and idle: "ds_flight D = None"
  shows "payable r B a (snd (fund_round C U r' ledger (D, w)))"
proof -
  have same: "payable r B a (snd (y, D, w))" for y :: "string option result" using pay by simp
  have a: "ds_amount D = a" using pay by (simp add: payable_def)
  have m: "payable r B a (snd (map_op (\<lambda>_. None) (mutate C U meth r' params actor (D, w))))"
    if "meth \<noteq> ''status''" "meth \<noteq> ''replica.commit''" "meth = ''offer'' \<Longrightarrow> known_branch D r' = []"
      "offered_call r (JStr meth) params \<le> (if r = r' \<and> meth = ''offer'' then max 0 a else 0)" for meth params actor
    using mutate_payable [OF pay U that(1,2) idle that(3,4)] by simp
  show ?thesis
  proof (cases "bindR (dist_branch D ledger r') (\<lambda>row. bindR (table_get ledger ''balances'' r') (\<lambda>b. Inr (row, b)))")
    case (Inl e)
    with same [of "Inl e"] show ?thesis by (simp add: fund_round_def)
  next
    case (Inr y)
    obtain row balance where y: "y = (row, balance)" by (cases y)
    with Inr have row: "dist_branch D ledger r' = Inr row" by (auto simp: bindR_Inr_iff)
    show ?thesis
    proof (cases row)
      case None
      then have known: "known_branch D r' = []" using dist_branch_None row by simp
      have "payable r B a (snd (map_op (\<lambda>_. None) (mutate C U ''offer'' r' (JObj [(''sender'', JStr FAUCET),
          (''receiver'', JStr r'), (''value'', JInt (ds_amount D)), (''ttl'', JInt 3600)]) FAUCET (D, w))))"
        by (rule m) (auto simp: known offered_call_def obj_get_def a)
      with pay Inr y None show ?thesis by (auto simp: fund_round_def split: sum.split)
    next
      case (Some b)
      have "payable r B a (snd (map_op (\<lambda>_. None) (mutate C U ''accept'' r' params r' (D, w))))"
        "payable r B a (snd (map_op (\<lambda>_. None) (mutate C U ''commit'' r' params FAUCET (D, w))))" for params
        by (rule m; simp add: offered_call_def)+
      with pay Inr y Some show ?thesis by (auto simp: fund_round_def split: sum.split)
    qed
  qed
qed

lemma fund_rounds_payable:
  "payable r B a S \<Longrightarrow> ou_send U = tn_send handle traffic \<Longrightarrow> payable r B a (snd (fund_rounds C U r' n S))"
proof (induction n arbitrary: S)
  case (Suc n)
  obtain D w where S: "S = (D, w)" by (cases S)
  obtain x w1 where x: "dist_snapshot U (ds_genesis D) BACKENDS w = (x, w1)" by (cases "dist_snapshot U (ds_genesis D) BACKENDS w")
  from Suc.prems S have w: "fair w" and D: "saved_ok D" "ds_amount D = a"
    and le: "exposure r w \<le> B + (if guarded D r then max 0 a else 0)" by (simp_all add: payable_def)
  from snapshot_fair [OF w x Suc.prems(2), of r]
  have w1: "fair w1" "exposure r w1 \<le> exposure r w" "\<And>ledger. x = Inr ledger \<Longrightarrow> ledger_named ledger" by auto
  have p1: "payable r B a (D, w1)" using w1 D le by (simp add: payable_def)
  show ?case
  proof (cases x)
    case (Inl e)
    with p1 S x show ?thesis by simp
  next
    case (Inr ledger)
    obtain z D1 where z: "reconcile r' ledger D = (z, D1)" by (cases "reconcile r' ledger D")
    note rec = reconcile_guarded [OF z w1(3) [OF Inr] D(1)]
    have "0 \<le> max 0 a" by simp
    with p1 rec [of r] have p2: "payable r B a (D1, w1)" by (auto simp: payable_def split: if_splits)
    show ?thesis
    proof (cases z)
      case (Inl e)
      with p2 S x Inr z show ?thesis by simp
    next
      case (Inr u)
      obtain y S2 where y: "fund_round C U r' ledger (D1, w1) = (y, S2)" by (cases "fund_round C U r' ledger (D1, w1)")
      have p3: "payable r B a S2"
        using fund_round_payable [OF p2 Suc.prems(2), of C r' ledger] rec Inr y by simp
      with Suc.IH [OF p3 Suc.prems(2)] S x \<open>x = Inr ledger\<close> z Inr y show ?thesis
        by (auto split: sum.split option.split)
    qed
  qed
qed simp

lemma fund_all_payable:
  "payable r B a S \<Longrightarrow> ou_send U = tn_send handle traffic \<Longrightarrow> payable r B a (snd (fund_all C U rs S))"
proof (induction rs arbitrary: S)
  case (Cons r' rs)
  have "payable r B a (snd (fund_one C U r' S))"
    unfolding fund_one_def by (rule fund_rounds_payable [OF Cons.prems])
  with Cons.IH [OF _ Cons.prems(2)] show ?case by (cases "fund_one C U r' S") (auto split: sum.split)
qed simp

lemma wait_final_payable:
  "payable r B a S \<Longrightarrow> ou_send U = tn_send handle traffic \<Longrightarrow> payable r B a (snd (wait_final U n S))"
proof (induction n arbitrary: S)
  case (Suc n)
  obtain D w where S: "S = (D, w)" by (cases S)
  obtain x w1 where x: "dist_snapshot U (ds_genesis D) BACKENDS w = (x, w1)" by (cases "dist_snapshot U (ds_genesis D) BACKENDS w")
  from Suc.prems S have "fair w" by (simp add: payable_def)
  from snapshot_fair [OF this x Suc.prems(2), of r] Suc.prems S have "payable r B a (D, w1)"
    by (auto simp: payable_def)
  with Suc.IH [OF _ Suc.prems(2), of "(D, w1)"] S x show ?case by (auto split: sum.split)
qed simp

lemma dist_run_payable:
  assumes "payable r B a S" "ou_send U = tn_send handle traffic"
  shows "payable r B a (snd (dist_run C U polls S))"
  using fund_all_payable [OF assms, of C "ds_recipients (fst S)"] wait_final_payable [OF _ assms(2)]
  by (cases "fund_all C U (ds_recipients (fst S)) S") (auto simp: dist_run_def split: sum.split option.split)

text \<open>The same for the files between two runs of the process.\<close>

definition files_guard :: "dist_files \<Rightarrow> string \<Rightarrow> bool" where
  "files_guard F r = (\<exists>st ns known flight. df_state F = Some st \<and> read_progress st = Inr (ns, known, flight) \<and> guards known flight r)"

definition files_payable :: "string \<Rightarrow> int \<Rightarrow> dist_plan \<Rightarrow> dist_files \<times> ('s, 'o, 'e) testnet \<Rightarrow> bool" where
  "files_payable r B P S =
     (fair (snd S) \<and> df_plan (fst S) = Some (plan_json P)
      \<and> exposure r (snd S) \<le> B + (if files_guard (fst S) r then max 0 (dp_amount P) else 0))"

lemma dist_init_fields:
  assumes "dist_init C g F = Inr D" "df_plan F = Some (plan_json P)"
  shows "ds_amount D = dp_amount P" "ds_file D = df_state F" "saved_ok D" "files_guard F r = guarded D r"
proof -
  have plan: "obj_get (plan_json P) ''amount'' = Some (JInt (dp_amount P))" by (simp add: plan_json_def obj_get_def)
  from assms plan obtain ns known flight where D: "ds_amount D = dp_amount P" "ds_file D = df_state F"
      "ds_known D = known" "ds_flight D = flight"
    and st: "(case df_state F of None \<Rightarrow> Inr ([], [], None)
                     | Some st \<Rightarrow>
                         if obj_fields st = None then Inl (DistributionError ''expected JSON object'')
                         else if get_or st ''schema'' JNull \<noteq> JStr SCHEMA \<or> get_or st ''plan_digest'' JNull \<noteq> JStr (ds_digest D)
                         then Inl (DistributionError ''state belongs to a different distribution plan'')
                         else read_progress st) = Inr (ns, known, flight)"
    unfolding dist_init_def by (auto elim!: bindR_InrE split: if_split_asm option.split_asm json.split_asm)
  show "ds_amount D = dp_amount P" "ds_file D = df_state F" by (rule D)+
  show "saved_ok D" using D st by (auto simp: saved_ok_def split: option.splits if_splits)
  show "files_guard F r = guarded D r"
    using D st by (auto simp: files_guard_def guarded_def guards_def split: option.splits if_splits)
qed

lemma saved_guard: "saved_ok D \<Longrightarrow> guarded D r \<Longrightarrow> files_guard (F\<lparr>df_state := ds_file D\<rparr>) r"
  by (auto simp: saved_ok_def files_guard_def guarded_def guards_def split: option.splits)

lemma payable_files:
  assumes "payable r B (dp_amount P) (D, w)" "df_plan F = Some (plan_json P)"
  shows "files_payable r B P (F\<lparr>df_state := ds_file D\<rparr>, w)"
  using assms saved_guard [of D r F] by (auto simp: payable_def files_payable_def split: if_splits)

lemma fund_command_payable:
  assumes pay: "files_payable r B P S" and U: "ou_send U = tn_send handle traffic"
  shows "files_payable r B P (snd (fund_command C U g next polls S))"
proof -
  obtain F w where S: "S = (F, w)" by (cases S)
  have plan: "df_plan F = Some (plan_json P)" using pay S by (simp add: files_payable_def)
  show ?thesis
  proof (cases "dist_init C g F")
    case (Inl e)
    with pay S show ?thesis by (simp add: fund_command_def)
  next
    case (Inr D)
    note f = dist_init_fields [OF Inr plan]
    have p: "payable r B (dp_amount P) (D, w)" using pay S f(1,3) f(4) [of r] by (simp add: payable_def files_payable_def)
    obtain x D1 where x: "(case next of None \<Rightarrow> (Inr (), D) | Some n \<Rightarrow> raise_nonce n D) = (x, D1)"
      by (cases "case next of None \<Rightarrow> (Inr (), D) | Some n \<Rightarrow> raise_nonce n D")
    then have p1: "payable r B (dp_amount P) (D1, w)"
      using p by (auto simp: raise_nonce_def payable_def split: option.splits if_splits)
    from dist_run_payable [OF p1 U, of C polls] p1 S Inr x plan show ?thesis
      by (cases "dist_run C U polls (D1, w)") (auto simp: fund_command_def intro: payable_files split: sum.split)
  qed
qed

text \<open>However often the command is run, the payments to one recipient grow by the amount of the plan at most.\<close>

lemma paid_once:
  assumes "fair T" "tn_late T = []" "df_plan F = Some (plan_json P)" "df_state F = None" "ou_send U = tn_send handle traffic"
  shows "paid r (tn_state (snd (run_ops (\<lambda>(next, polls). fund_command C U g next polls) runs (F, T))))
    \<le> paid r (tn_state T) + max 0 (dp_amount P)"
proof -
  have "files_payable r (paid r (tn_state T)) P (run_ops (\<lambda>(next, polls). fund_command C U g next polls) runs S)"
    if "files_payable r (paid r (tn_state T)) P S" for S
    using that
  proof (induction runs arbitrary: S)
    case (Cons x runs)
    show ?case by (cases x) (simp add: Cons.IH [OF fund_command_payable [OF Cons.prems assms(5)]])
  qed simp
  moreover have "files_payable r (paid r (tn_state T)) P (F, T)"
    using assms by (simp add: files_payable_def exposure_def)
  ultimately have "files_payable r (paid r (tn_state T)) P (run_ops (\<lambda>(next, polls). fund_command C U g next polls) runs (F, T))"
    by blast
  then show ?thesis
    using paid_exposure [of r "snd (run_ops (\<lambda>(next, polls). fund_command C U g next polls) runs (F, T))"]
    by (auto simp: files_payable_def split: if_splits)
qed

end

end
