(* ===== verification/Distributor_Node.thy ===== *)
theory Distributor_Node
  imports Distributor_Safety
begin

text \<open>
  The dispatcher of the reference node as the service that the distributor pays through: the ledger's
  payments from the faucet grow by what a request offers at most, and not at all when the reply is a
  definite rejection.
\<close>

section \<open>Payments of a ledger\<close>

definition faucet_value :: "string \<Rightarrow> branch \<Rightarrow> int" where
  "faucet_value r b = (if br_sender b = FAUCET \<and> br_receiver b = r then br_value b else 0)"

definition faucet_paid :: "string \<Rightarrow> ledger \<Rightarrow> int" where
  "faucet_paid r L = sum_list (map (\<lambda>(k, b). faucet_value r b) (lg_branches L))"

lemma sum_replace:
  "map_of d k = Some b \<Longrightarrow> f b' = f b \<Longrightarrow> sum_list (map (\<lambda>(k, b). f b :: int) (AList.update k b' d)) = sum_list (map (\<lambda>(k, b). f b) d)"
  by (induction d) (auto split: if_splits)

lemma sum_store: "\<forall>(k, b) \<in> set d. 0 \<le> f b \<Longrightarrow>
  sum_list (map (\<lambda>(k, b). f b :: int) (AList.update k b' d)) \<le> sum_list (map (\<lambda>(k, b). f b) d) + f b'"
  by (induction d) auto

lemma branch_move_paid: "branch_move C L L' \<Longrightarrow> faucet_paid r L' = faucet_paid r L"
  by (induction rule: branch_move.induct)
    (auto simp: faucet_paid_def faucet_value_def release_def settle_def move_value_def append_block_def new_account_def
      set_branch_def Let_def sum_replace [of _ _ _ "faucet_value r", unfolded faucet_value_def])

lemma branch_moves_paid: "branch_moves C L L' \<Longrightarrow> faucet_paid r L' = faucet_paid r L"
  by (induction rule: rtranclp_induct) (simp, metis branch_move_paid)

lemma faucet_value_nonneg: "ledger_inv L \<Longrightarrow> (k, b) \<in> set (lg_branches L) \<Longrightarrow> 0 \<le> faucet_value r b"
  using ledger_invD(9) [of L k b] wf_dict_mem [OF ledger_invD(3), of L k b] by (auto simp: faucet_value_def wf_branch_def)

lemma offer_paid:
  assumes "ledger_inv L"
  shows "faucet_paid r (snd (apply_method C (Offer s t v ttl) L)) \<le> faucet_paid r L + (if s = FAUCET \<and> t = r then max 0 v else 0)"
proof (cases rule: apply_offer_cases [of C s t v ttl L])
  case rejected
  then show ?thesis by (auto simp: max_def)
next
  case (accepted b)
  have "\<forall>(k, b) \<in> set (lg_branches L). 0 \<le> faucet_value r b" using faucet_value_nonneg [OF assms] by auto
  from sum_store [OF this, of "offer_id C L s t v" b] accepted
  show ?thesis by (auto simp: faucet_paid_def locked_more_def set_branch_def faucet_value_def new_branch_def split: if_splits)
qed

lemma bind_method_offer:
  assumes "bind_method m params = Inr mut"
  shows "is_offer mut \<longleftrightarrow> m = ''offer''"
    and "mut = Offer s t v ttl \<Longrightarrow> obj_get params ''sender'' = Some (JStr s) \<and> obj_get params ''receiver'' = Some (JStr t)
      \<and> obj_get params ''value'' = Some (JInt v)"
  using assms
  by (auto simp: bind_method_def bindR_Inr_iff arg_str_def arg_int_def split: if_split_asm option.split_asm json.split_asm)

lemma call_paid:
  assumes "ledger_inv L"
  shows "faucet_paid r (snd (call_ledger C v params L)) \<le> faucet_paid r L + offered_call r v params"
proof (cases "\<exists>m mut. v = JStr m \<and> bind_method m params = Inr mut")
  case True
  then obtain m mut where m: "v = JStr m" "bind_method m params = Inr mut" by blast
  show ?thesis
  proof (cases "is_offer mut")
    case True
    then obtain s t x ttl where mut: "mut = Offer s t x ttl" by (cases mut) auto
    with m bind_method_offer(1) [OF m(2)] bind_method_offer(2) [OF m(2) mut] offer_paid [OF assms, of r C s t x ttl]
    show ?thesis by (auto simp: call_ledger_def offered_call_def split: if_splits)
  next
    case False
    with m branch_moves_paid [OF apply_method_branch_moves [OF assms False], of r C] show ?thesis
      by (simp add: call_ledger_def)
  qed
qed (auto simp: call_ledger_def split: json.split sum.split)

lemma mutation_call_paid:
  "ledger_inv L \<Longrightarrow> faucet_paid r (snd (mutation_call C mut L)) \<le> faucet_paid r L + offered_mutation r mut"
  unfolding mutation_call_def offered_mutation_def by (rule call_paid)

section \<open>Payments of a node\<close>

text \<open>
  A step pays what is offered at most, and an exception, but for an uncertain commit, leaves the ledger as it
  was.
\<close>

definition pays :: "string \<Rightarrow> int \<Rightarrow> node \<Rightarrow> 'a result \<times> node \<Rightarrow> bool" where
  "pays r x N R =
     (faucet_paid r (nd_ledger (snd R)) \<le> faucet_paid r (nd_ledger N) + x
      \<and> (\<forall>e. fst R = Inl e \<longrightarrow> (\<forall>m. e \<noteq> CommitUncertain m) \<longrightarrow> nd_ledger (snd R) = nd_ledger N))"

lemma pays_same: "0 \<le> x \<Longrightarrow> nd_ledger M = nd_ledger N \<Longrightarrow> pays r x N (y, M)"
  by (simp add: pays_def)

lemma apply_mutation_pays:
  assumes "ledger_inv (nd_ledger N)"
  shows "pays r (offered_mutation r mut) N (apply_mutation C mut b N)"
proof (cases rule: apply_mutation_cases [OF assms, of C mut b, case_names error applied])
  case (error e A)
  then show ?thesis by (simp add: pays_def offered_mutation_def)
next
  case (applied y A)
  with mutation_call_paid [OF assms, of r C mut] show ?thesis by (simp add: pays_def)
qed

lemma try_mutation_ledger [simp]: "nd_ledger (snd (try_mutation C mut N)) = nd_ledger N"
proof -
  obtain A where "snd (try_mutation C mut N) = N\<lparr>nd_auth := A\<rparr>" using try_mutation_auth by blast
  then show ?thesis by simp
qed

lemma prepare_ledger: "nd_ledger (snd (prepare_replica C E env N)) = nd_ledger N"
proof (cases "verify_replica_envelope C E env N")
  case (Inr t)
  obtain l n mut where "t = (l, n, mut)" by (cases t)
  with Inr try_mutation_ledger [of C mut N] show ?thesis
    by (cases "try_mutation C mut N") (auto simp: prepare_replica_def split: option.split sum.split)
qed (simp add: prepare_replica_def)

lemma abort_ledger: "nd_ledger (snd (abort_replica C E env N)) = nd_ledger N"
  by (auto simp: abort_replica_def split: sum.split)

lemma heartbeat_ledger: "nd_ledger (snd (receive_heartbeat C E env N)) = nd_ledger N"
  by (auto simp: receive_heartbeat_def split: option.split json.split sum.split prod.split)

lemma certificate_ledger: "nd_ledger (snd (receive_certificate C E params N)) = nd_ledger N"
  by (auto simp: receive_certificate_def record_leadership_certificate_def split: option.split sum.split prod.split)

lemma sync_ledger: "nd_ledger (snd (sync_replicas W N)) = nd_ledger N"
  by (auto simp: sync_replicas_def abort_uncommitted_primary_def)

lemma commit_pays:
  assumes "ledger_inv (nd_ledger N)"
  shows "pays r (case envelope_json env ''mutation'' of Inl _ \<Rightarrow> 0 | Inr mut \<Rightarrow> offered_mutation r mut) N (commit_replica C E env N)"
proof (cases "verify_replica_envelope C E env N")
  case (Inl e)
  then show ?thesis by (auto simp: commit_replica_def pays_def offered_mutation_def split: sum.split)
next
  case (Inr t)
  obtain l n mut where t: "t = (l, n, mut)" by (cases t)
  have mut: "envelope_json env ''mutation'' = Inr mut" using verify_replica_envelope_Inr(3) Inr t by simp
  show ?thesis
    using apply_mutation_pays [OF assms, of r mut C True] Inr t mut
    by (cases "apply_mutation C mut True N")
      (auto simp: commit_replica_def pays_def record_commit_def offered_mutation_def split: sum.split)
qed

lemma replicate_pays:
  assumes inv: "ledger_inv (nd_ledger N)"
  shows "pays r (offered_mutation r mut) N (replicate_mutation C E prepared confirmed mut N)"
proof (cases "nd_repl N = None \<or> nd_leadership N \<noteq> None \<and> leader_of N \<noteq> nd_id N")
  case True
  then show ?thesis by (auto simp: replicate_mutation_def offered_mutation_def intro!: pays_same split: option.split)
next
  case False
  then obtain R where R: "nd_repl N = Some R" by auto
  let ?N0 = "abort_uncommitted_primary N"
  obtain x N1 where t: "try_mutation C mut ?N0 = (x, N1)" by (cases "try_mutation C mut ?N0")
  have L1: "nd_ledger N1 = nd_ledger N"
    using arg_cong [OF t, of "\<lambda>z. nd_ledger (snd z)"] by (simp add: abort_uncommitted_primary_def split: if_splits)
  note unfold = replicate_mutation_def R option.case if_not_P [OF False [unfolded de_Morgan_disj, THEN conjunct2]] t prod.case
  have same: "pays r (offered_mutation r mut) N (y, M)" if "nd_ledger M = nd_ledger N" for y :: "json result" and M
    by (rule pays_same) (simp_all add: that offered_mutation_def)
  show ?thesis
  proof (cases x)
    case (Inl e)
    with same [OF L1] show ?thesis unfolding unfold by simp
  next
    case (Inr u)
    show ?thesis
    proof (cases "replication_sign C E R (nd_id N1) (committed_position N1 + 1) mut")
      case (Inl e)
      with Inr same [OF L1] show ?thesis unfolding unfold by simp
    next
      case sign: (Inr env)
      let ?N2 = "node_save (N1\<lparr>nd_pending := Some env\<rparr>)"
      have "ledger_inv (nd_ledger ?N2)" using inv L1 by simp
      from apply_mutation_pays [OF this, of r mut C True] Inr sign L1 show ?thesis
        unfolding unfold
        by (cases "apply_mutation C mut True ?N2")
          (auto simp: pays_def record_commit_def Let_def offered_mutation_def split: sum.split)
    qed
  qed
qed

section \<open>Payments of the server\<close>

definition server_pays :: "string \<Rightarrow> int \<Rightarrow> node_server \<Rightarrow> json result \<times> node_server \<Rightarrow> bool" where
  "server_pays r x S R = pays r x (ns_node S) (fst R, ns_node (snd R))"

lemma server_pays_replying: "server_pays r x S R \<Longrightarrow> server_pays r x S (replying i R)"
  by (cases R; cases "fst R") (auto simp: server_pays_def pays_def replying_def)

lemma server_pays_on_node: "pays r x (ns_node S) (f (ns_node S)) \<Longrightarrow> server_pays r x S (on_node f S)"
  by (cases "f (ns_node S)") (simp add: server_pays_def on_node_def)

lemma server_pays_frame: "0 \<le> x \<Longrightarrow> nd_ledger (ns_node (snd R)) = nd_ledger (ns_node S) \<Longrightarrow> server_pays r x S R"
  by (simp add: server_pays_def pays_def)

lemma server_pays_same: "0 \<le> x \<Longrightarrow> server_pays r x S (y, S)"
  by (simp add: server_pays_frame)

lemma direct_call_pays:
  assumes inv: "ledger_inv (nd_ledger (ns_node S))"
  shows "server_pays r (offered_call r v params) S (direct_call C request v params S)"
proof -
  obtain A where A: "snd (verify_request_actor C request v params True (ns_node S)) = (ns_node S)\<lparr>nd_auth := A\<rparr>"
    using verify_request_actor_auth by blast
  let ?N = "(ns_node S)\<lparr>nd_auth := A\<rparr>"
  obtain x where v: "verify_request_actor C request v params True (ns_node S) = (x, ?N)"
    using A by (metis surjective_pairing)
  obtain y L where call: "call_ledger C v params (nd_ledger (ns_node S)) = (y, L)"
    by (cases "call_ledger C v params (nd_ledger (ns_node S))")
  have L: "faucet_paid r L \<le> faucet_paid r (nd_ledger (ns_node S)) + offered_call r v params"
      "\<And>e. y = Inl e \<Longrightarrow> L = nd_ledger (ns_node S)"
    using call_paid [OF inv, of r C v params] call_ledger_inv(2) [OF inv, of C v params] call by auto
  show ?thesis
  proof (cases x)
    case (Inl e)
    with v show ?thesis by (auto simp: direct_call_def intro: server_pays_frame)
  next
    case (Inr u)
    with v call L show ?thesis
      by (cases y) (auto simp: direct_call_def server_pays_def pays_def Let_def split: prod.split)
  qed
qed

lemma leader_mutation_offers: "offered_mutation r (leader_mutation request v params N) = offered_call r v params"
  by (simp add: offered_mutation_def leader_mutation_def get_or_def obj_get_def)

lemma mutating_call_pays:
  assumes "ledger_inv (nd_ledger (ns_node S))"
  shows "server_pays r (offered_call r v params) S (mutating_call C E W request v params S)"
  using server_pays_on_node [where f = "replicate_mutation C E (nw_prepared W) (nw_confirmed W) (leader_mutation request v params (ns_node S))",
      OF replicate_pays [OF assms]]
    direct_call_pays [OF assms, of r v params C request]
  by (simp add: mutating_call_def Let_def leader_mutation_offers server_pays_replying server_pays_same)

lemma route_pays:
  assumes inv: "ledger_inv (nd_ledger (ns_node S))" and v: "v = get_or q ''method'' JNull" "params = get_or q ''params'' (JObj [])"
  shows "server_pays r (offered r q) S (route C E W now q v params S)"
proof (cases "v = JStr ''replica.commit''")
  case True
  with v have q: "get_or q ''method'' JNull = JStr ''replica.commit''" by simp
  from server_pays_on_node [where f = "commit_replica C E params", OF commit_pays [OF inv]] show ?thesis
    by (simp add: route_def Let_def offered_def server_pays_replying True q v(2))
next
  case False
  then have q: "offered r q = offered_call r v params" using v by (simp add: offered_def offered_mutation_def)
  define x where "x = offered_call r v params"
  have x: "0 \<le> x" by (simp add: x_def)
  have frame: "server_pays r x S (replying i (on_node f S))"
    if "\<And>N. nd_ledger (snd (f N)) = nd_ledger N" for i and f :: "(node, json) operation"
    using x by (intro server_pays_replying server_pays_frame) (simp_all add: that)
  have same: "server_pays r x S (replying i (read_only f S))" for i f
    using x by (intro server_pays_replying) (simp add: read_only_def server_pays_same)
  have calls: "server_pays r x S (mutating_call C E W q v params S)" "server_pays r x S (replying i (direct_call C q v params S))" for i
    unfolding x_def by (rule mutating_call_pays [OF inv], rule server_pays_replying [OF direct_call_pays [OF inv]])
  show ?thesis
    unfolding q x_def [symmetric] using False
    by (simp add: route_def Let_def same frame [OF prepare_ledger] frame [OF abort_ledger] frame [OF heartbeat_ledger]
        frame [OF certificate_ledger] frame [OF sync_ledger] calls server_pays_same x)
qed

text \<open>A reply with a result is no rejection; the only other one is the reference to the leader.\<close>

lemma replying_not_definite: "fst (replying i R) = Inr v \<Longrightarrow> \<not> definite v"
  by (cases R; cases "fst R")
    (auto simp: replying_def reply_def definite_def error_code_def get_or_def obj_get_def obj_fields_def)

definition quiet :: "node_server \<Rightarrow> json result \<times> node_server \<Rightarrow> bool" where
  "quiet S R = (\<forall>x. fst R = Inr x \<longrightarrow> definite x \<longrightarrow> snd R = S)"

lemma quiet_simps: "quiet S (replying i R)" "quiet S (x, S)"
  using replying_not_definite by (auto simp: quiet_def)

lemma route_quiet: "quiet S (route C E W now q v params S)"
  by (simp add: route_def mutating_call_def Let_def quiet_simps)

lemma dispatch_pays:
  assumes inv: "ledger_inv (nd_ledger (ns_node S))"
  shows "faucet_paid r (nd_ledger (ns_node (snd (dispatch C E W now q peer S))))
      \<le> faucet_paid r (nd_ledger (ns_node S)) + offered r q"
    and "fst (dispatch C E W now q peer S) = Inr v \<Longrightarrow> definite v
      \<Longrightarrow> faucet_paid r (nd_ledger (ns_node (snd (dispatch C E W now q peer S)))) \<le> faucet_paid r (nd_ledger (ns_node S))"
proof -
  let ?v = "get_or q ''method'' JNull" and ?p = "get_or q ''params'' (JObj [])" and ?i = "get_or q ''id'' JNull"
  define R where "R = (if obj_fields ?p = None then (Inl (ProtocolError ''params must be an object''), S)
         else (case (case peer of None \<Rightarrow> Inr () | Some p \<Rightarrow> peer_checks p ?v ?p) of
             Inl e \<Rightarrow> (Inl e, S)
           | Inr _ \<Rightarrow> route C E W now q ?v ?p S))"
  have d: "dispatch C E W now q peer S = answer ?i R" by (simp add: dispatch_def R_def Let_def)
  have pay: "server_pays r (offered r q) S R"
    unfolding R_def using route_pays [OF inv refl refl, of r q C E W now]
    by (simp add: server_pays_same split: sum.split)
  then show "faucet_paid r (nd_ledger (ns_node (snd (dispatch C E W now q peer S))))
      \<le> faucet_paid r (nd_ledger (ns_node S)) + offered r q"
    by (simp add: d answer_snd server_pays_def pays_def)
  assume v: "fst (dispatch C E W now q peer S) = Inr v" "definite v"
  show "faucet_paid r (nd_ledger (ns_node (snd (dispatch C E W now q peer S)))) \<le> faucet_paid r (nd_ledger (ns_node S))"
  proof (cases "\<exists>e. fst R = Inl e")
    case True
    then obtain e where e: "fst R = Inl e" ..
    have "\<forall>m. e \<noteq> CommitUncertain m"
    proof (intro allI notI)
      fix m assume "e = CommitUncertain m"
      with v e d have "v = error_reply ?i ''COMMIT_UNCERTAIN'' m" by (cases R) (simp add: answer_def)
      with v(2) show False by (simp add: definite_def error_code_def error_reply_def get_or_def obj_get_def obj_fields_def)
    qed
    with e pay show ?thesis by (simp add: d answer_snd server_pays_def pays_def)
  next
    case False
    then obtain y where y: "fst R = Inr y" by (cases "fst R") auto
    with v(1) d have "y = v" by (cases R) (simp add: answer_def)
    with y v(2) have "snd R = S" unfolding R_def using route_quiet by (auto simp: quiet_def split: if_splits sum.splits)
    then show ?thesis by (simp add: d answer_snd)
  qed
qed

section \<open>The node provides the service\<close>

text \<open>What the rest of the cluster does, and the clock, while a request is handled.\<close>

definition rpc :: "crypto \<Rightarrow> ed25519 \<Rightarrow> node_world \<times> int \<Rightarrow> json \<Rightarrow> node_server \<Rightarrow> json option \<times> node_server" where
  "rpc C E e q S =
     (case dispatch C E (fst e) (snd e) q None S of (Inl _, S') \<Rightarrow> (None, S') | (Inr v, S') \<Rightarrow> (Some v, S'))"

text \<open>Other traffic: any request that offers nothing from the faucet, of any client or peer.\<close>

definition others :: "crypto \<Rightarrow> ed25519 \<Rightarrow> server_request \<Rightarrow> node_server \<Rightarrow> node_server" where
  "others C E x S = snd (serve C E x S)"

definition carried_mutation :: "json \<Rightarrow> json" where
  "carried_mutation q =
     (if get_or q ''method'' JNull = JStr ''replica.commit''
      then (case envelope_json (get_or q ''params'' (JObj [])) ''mutation'' of Inl _ \<Rightarrow> JNull | Inr mut \<Rightarrow> mut) else q)"

definition no_faucet_offer :: "server_request \<Rightarrow> bool" where
  "no_faucet_offer x =
     (let mut = carried_mutation (fst x) in
      get_or mut ''method'' JNull \<noteq> JStr ''offer'' \<or> obj_get (get_or mut ''params'' (JObj [])) ''sender'' \<noteq> Some (JStr FAUCET))"

lemma no_faucet_offer_offered: "no_faucet_offer x \<Longrightarrow> offered r (fst x) = 0"
  by (auto simp: no_faucet_offer_def carried_mutation_def offered_def offered_mutation_def offered_call_def Let_def
      split: sum.split)

interpretation node_pays: paying_service "rpc C E" "others C E" no_faucet_offer "\<lambda>S. node_inv C E (ns_node S)"
    "\<lambda>r S. faucet_paid r (nd_ledger (ns_node S))" for C E
proof
  fix S :: node_server and e :: "node_world \<times> int" and q :: json and x :: server_request and r v
  assume inv: "node_inv C E (ns_node S)"
  then have L: "ledger_inv (nd_ledger (ns_node S))" by (simp add: node_inv_def)
  have snd_rpc: "snd (rpc C E e q S) = snd (dispatch C E (fst e) (snd e) q None S)"
    by (auto simp: rpc_def split: prod.split sum.split)
  show "node_inv C E (ns_node (snd (rpc C E e q S)))"
    using dispatch_step [OF inv] by (simp add: snd_rpc server_step_def)
  show "faucet_paid r (nd_ledger (ns_node (snd (rpc C E e q S)))) \<le> faucet_paid r (nd_ledger (ns_node S)) + offered r q"
    unfolding snd_rpc by (rule dispatch_pays(1) [OF L])
  show "faucet_paid r (nd_ledger (ns_node (snd (rpc C E e q S)))) \<le> faucet_paid r (nd_ledger (ns_node S))"
    if "fst (rpc C E e q S) = Some v" "definite v"
  proof -
    have "fst (dispatch C E (fst e) (snd e) q None S) = Inr v"
      using that(1) by (auto simp: rpc_def split: prod.splits sum.splits)
    from dispatch_pays(2) [OF L this that(2)] show ?thesis by (simp only: snd_rpc)
  qed
  assume none: "no_faucet_offer x"
  obtain q' p W now where x: "x = (q', p, W, now)" by (cases x)
  show "node_inv C E (ns_node (others C E x S))"
    using dispatch_step [OF inv] by (simp add: others_def serve_def x server_step_def)
  show "faucet_paid r (nd_ledger (ns_node (others C E x S))) \<le> faucet_paid r (nd_ledger (ns_node S))"
    using dispatch_pays(1) [OF L, of r C E W now q' p] no_faucet_offer_offered [OF none, of r]
    by (simp add: others_def serve_def x)
qed

definition testnet_outside ::
    "crypto \<Rightarrow> ed25519 \<Rightarrow> ((node_server, server_request, node_world \<times> int) testnet \<Rightarrow> int)
     \<Rightarrow> ((node_server, server_request, node_world \<times> int) testnet \<Rightarrow> string)
     \<Rightarrow> (node_server, server_request, node_world \<times> int) testnet outside" where
  "testnet_outside C E now uid = \<lparr>ou_send = tn_send (rpc C E) (others C E), ou_now = now, ou_uid = uid\<rparr>"


definition friend_plan :: dist_plan where
  "friend_plan = \<lparr>dp_network = ''net'', dp_genesis = ''g'', dp_recipients = [''friend001''], dp_amount = 3, dp_total = 3\<rparr>"

definition friend_files :: dist_files where
  "friend_files = \<lparr>df_registry = JObj [(FAUCET, JStr ''f'')], df_plan = Some (plan_json friend_plan), df_drafts = [], df_state = None\<rparr>"

definition lossy_testnet :: "(node_server, server_request, node_world \<times> int) testnet" where
  "lossy_testnet = \<lparr>tn_state = plain_server, tn_late = [],
     tn_script = [([Traffic offer_call], Elsewhere (Some (JObj [(''result'', JObj [])]))), ([], Reply_lost (empty_world, 0)),
       ([Late 0 (empty_world, 0)], Delayed)]\<rparr>"

lemma plain_server_inv: "node_inv sample_crypto sample_ed (ns_node plain_server)"
proof -
  obtain L where L: "ledger_init sample_crypto (Some (nc_balances plain_config)) None = Inr L" "lg_balances L = nc_balances plain_config"
    by (rule ledger_init_ok)
  have "ledger_inv L" by (rule ledger_init_inv [OF L(1)]) (simp add: L(2) plain_config_def valid_start_def wf_dict_def)
  then show ?thesis by (simp add: plain_server_def L(1) plain_node_def node_inv_def committed_position_def)
qed


section \<open>Friends without a ledger account\<close>

text \<open>Nothing names the account: it has no balance and no branch.\<close>

definition stranger :: "string \<Rightarrow> ledger \<Rightarrow> bool" where
  "stranger r L = (\<not> dict_has (lg_balances L) r \<and> list_all (\<lambda>(k, b). br_receiver b \<noteq> r \<and> br_sender b \<noteq> r) (lg_branches L))"

lemma stranger_update:
  "list_all (\<lambda>(k, b). P b) d \<Longrightarrow> P b' \<Longrightarrow> list_all (\<lambda>(k, b). P b) (AList.update k b' d)"
  by (induction d) auto

lemma stranger_store:
  "stranger r L \<Longrightarrow> br_receiver b \<noteq> r \<Longrightarrow> br_sender b \<noteq> r \<Longrightarrow> stranger r (set_branch k b L)"
  unfolding stranger_def set_branch_def
  using stranger_update [of "\<lambda>b. br_receiver b \<noteq> r \<and> br_sender b \<noteq> r" "lg_branches L" b k] by simp

lemma stranger_locked [simp]: "stranger r (L\<lparr>lg_locked := d\<rparr>) = stranger r L" "stranger r (L\<lparr>lg_round := n\<rparr>) = stranger r L"
  by (simp_all add: stranger_def)

lemma stranger_branch:
  "stranger r L \<Longrightarrow> map_of (lg_branches L) k = Some b \<Longrightarrow> br_receiver b \<noteq> r \<and> br_sender b \<noteq> r"
  by (auto simp: stranger_def list_all_iff dest: map_of_SomeD)

lemma stranger_release:
  "stranger r L \<Longrightarrow> br_receiver b \<noteq> r \<Longrightarrow> br_sender b \<noteq> r \<Longrightarrow> stranger r (release k b L)"
  unfolding release_def by (simp add: stranger_store)

lemma age_stranger:
  assumes "ledger_inv L" "map_of (lg_branches L) k = Some b" "stranger r L"
  shows "stranger r (snd (age_branch C k b L))"
proof (cases rule: age_cases [OF assms(1,2), of C])
  case 1
  with assms show ?thesis by simp
next
  case 2
  with stranger_branch [OF assms(3,2)] assms(3) show ?thesis by (auto intro: stranger_release)
next
  case (3 x)
  have "stranger r (release k (b\<lparr>br_state := FINAL\<rparr>) L)"
    using stranger_branch [OF assms(3,2)] assms(3) by (intro stranger_release) simp_all
  with stranger_branch [OF assms(3,2)] have "stranger r (settle C k b L)"
    by (auto simp: settle_def Let_def stranger_def append_block_def move_value_def)
  with 3(4) show ?thesis by simp
qed

lemma sweep_stranger: "ledger_inv L \<Longrightarrow> stranger r L \<Longrightarrow> stranger r (snd (sweep C ks ch L))"
proof (induction ks arbitrary: ch L)
  case (Cons k ks)
  show ?case
  proof (cases "map_of (lg_branches L) k")
    case (Some b)
    from age_inv [OF Cons.prems(1) Some, of C] obtain x L' where
      x: "age_branch C k b L = (Inr x, L')" and inv: "ledger_inv L'"
      by (cases "age_branch C k b L") auto
    have "stranger r L'" using age_stranger [OF Cons.prems(1) Some Cons.prems(2), of C] x by simp
    with Cons.IH [OF inv] x Some show ?thesis by (cases x) auto
  qed (use Cons in simp)
qed simp

lemma advance_loop_stranger: "ledger_inv L \<Longrightarrow> stranger r L \<Longrightarrow> stranger r (snd (advance_loop C n ch L))"
proof (induction n arbitrary: ch L)
  case (Suc n)
  from tick_inv [OF Suc.prems(1), of C ch] obtain x L' where
    x: "tick C ch L = (Inr x, L')" and inv: "ledger_inv L'"
    by (cases "tick C ch L") auto
  have "stranger r (snd (tick C ch L))"
    unfolding tick_def Let_def using Suc.prems(2) by (intro sweep_stranger [OF next_round_inv [OF Suc.prems(1)]]) simp
  with x have "stranger r L'" by simp
  with Suc.IH [OF inv] x show ?case by auto
qed simp

lemma offer_needs_account:
  assumes "stranger r L" "\<not> is_reserved L s" "0 < v" "3 \<le> ttl" "s \<noteq> r"
  shows "apply_method C (Offer s r v ttl) L = (Inl (ProtocolError ''unknown receiver account''), L)"
  using assms by (simp add: offer_def stranger_def FINALITY_ROUNDS_def map_op_def)

lemma method_stranger:
  assumes inv: "ledger_inv L" and "stranger r L" "m \<noteq> Register r"
  shows "stranger r (snd (apply_method C m L))"
proof (cases m)
  case (Offer s t v ttl)
  have "available L r \<le> 0" using assms(2) ledger_invD(6) [OF inv, of r]
    by (auto simp: available_def stranger_def dict_has_def dict_get_def split: option.splits)
  with Offer assms(2) show ?thesis
    by (cases rule: offer_cases [of C s t v ttl L])
      (auto simp: locked_more_def new_branch_def stranger_def [of r L] intro!: stranger_store)
next
  case (Accept k t)
  with assms show ?thesis
    by (cases rule: accept_cases [of k t L]) (auto dest: stranger_branch intro!: stranger_store)
next
  case (Commit k s p)
  with assms show ?thesis
    by (cases rule: commit_cases [of C k s p L]) (auto dest: stranger_branch intro!: stranger_store)
next
  case (Cancel k a)
  with assms show ?thesis
    by (cases rule: cancel_cases [OF inv, of k a]) (auto dest: stranger_branch intro!: stranger_release)
next
  case (Advance n)
  with assms advance_loop_stranger [OF inv assms(2)] show ?thesis by (simp add: advance_def)
next
  case (Register a)
  with assms show ?thesis
    by (cases rule: register_cases [of C a L]) (auto simp: stranger_def append_block_def new_account_def)
qed

lemma stranger_unpaid: "stranger r L \<Longrightarrow> faucet_paid r L = 0"
proof -
  have "list_all (\<lambda>(k, b). br_receiver b \<noteq> r \<and> br_sender b \<noteq> r) d \<Longrightarrow> sum_list (map (\<lambda>(k, b). faucet_value r b) d) = 0" for d
    by (induction d) (auto simp: faucet_value_def)
  then show "stranger r L \<Longrightarrow> faucet_paid r L = 0" unfolding stranger_def faucet_paid_def by blast
qed

lemma run_stranger:
  "ledger_inv L \<Longrightarrow> stranger r L \<Longrightarrow> Register r \<notin> set ms \<Longrightarrow> stranger r (run_ops (apply_method C) ms L)"
proof (induction ms arbitrary: L)
  case (Cons m ms)
  have "stranger r (snd (apply_method C m L))" using Cons.prems by (intro method_stranger) auto
  with Cons.IH [OF apply_method_inv [OF Cons.prems(1)]] Cons.prems(3) show ?case by simp
qed simp

lemma run_reserved:
  assumes "ledger_inv L"
  shows "is_reserved (run_ops (apply_method C) ms L) s = is_reserved L s"
  by (rule is_reserved_cong [OF ledger_moves_genesis_same [OF run_moves [OF assms]]])

text \<open>A batch for accounts that nobody registered pays nobody: the documented procedure prepares and funds
  (offers, accepts, commits, rounds), and none of it opens the recipient's account. After any run without that
  registration the faucet has paid the recipient nothing, and its next offer is refused as
  an unknown receiver.\<close>

theorem unregistered_friend_unpaid:
  assumes "ledger_inv L" "stranger r L" "Register r \<notin> set ms" "0 < amount" "r \<noteq> FAUCET" "\<not> is_reserved L FAUCET"
  shows "faucet_paid r (run_ops (apply_method C) ms L) = 0
    \<and> apply_method C (Offer FAUCET r amount 3600) (run_ops (apply_method C) ms L)
      = (Inl (ProtocolError ''unknown receiver account''), run_ops (apply_method C) ms L)"
  using stranger_unpaid [OF run_stranger [OF assms(1-3)]] offer_needs_account [OF run_stranger [OF assms(1-3)] _ assms(4), where s = FAUCET and ttl = 3600] assms(5,6)
    run_reserved [OF assms(1)]
  by simp

theorem unregistered_friend_unpaid_witness:
  "faucet_paid ''friend001'' (run_ops (apply_method sample_crypto) [Advance 2] sample_ledger) = 0"
  by (rule conjunct1 [OF unregistered_friend_unpaid [OF sample_inv, where amount = 1]])
    (use ledger_init_fields [OF sample_init] in \<open>auto simp: stranger_def dict_has_def sample_balances_def FAUCET_def is_reserved_def\<close>)

end
