(* ===== verification/Distributor_Plan.thy ===== *)
theory Distributor_Plan
  imports Distributor
begin

text \<open>
  The plan of a batch and its preparation: bounds of the plan, and the round trip from \<open>prepare\<close> to the
  constructor of the funding process.
\<close>

section \<open>Bounds of the plan\<close>

lemma nat_str_short: "n < 1000 \<Longrightarrow> length (nat_str n) \<le> 3"
proof -
  assume n: "n < 1000"
  have 1: "length (nat_str k) = 1" if "k < 10" for k using that by (simp add: nat_str.simps)
  have 2: "length (nat_str k) \<le> 2" if "k < 100" for k
  proof (cases "k < 10")
    case False
    moreover have "length (nat_str (k div 10)) = 1" using that by (intro 1) simp
    ultimately show ?thesis by (subst nat_str.simps) simp
  qed (simp add: 1)
  show ?thesis
  proof (cases "n < 10")
    case False
    moreover have "length (nat_str (n div 10)) \<le> 2" using n by (intro 2) simp
    ultimately show ?thesis by (subst nat_str.simps) simp
  qed (simp add: 1)
qed

lemma nat_val_zeros: "nat_val (replicate k (CHR ''0'') @ s) = nat_val s"
proof -
  have "foldl (\<lambda>n c. 10 * n + digit_val c) 0 (replicate k (CHR ''0'')) = 0"
    by (induction k) simp_all
  then show ?thesis by (simp add: nat_val_def)
qed

lemma pad3_digits: "i \<le> 100 \<Longrightarrow> nat_val (pad3 i) = i \<and> length (pad3 i) = 3 \<and> list_all is_digit (pad3 i)"
  using nat_str_short [of i] nat_str_digits [of i]
  by (auto simp: pad3_def nat_val_zeros list_all_iff is_digit_def digit_set_def)

lemma pad3_inj: "inj_on pad3 {1..100}"
  by (rule inj_on_inverseI [of _ nat_val]) (use pad3_digits in auto)

lemma digit_account_char: "is_digit c \<Longrightarrow> account_char c"
  by (simp add: account_char_def is_digit_def Let_def)

lemma friend_name:
  assumes "prefix_ok p" "1 \<le> i" "i \<le> 100"
  shows "account_name (p @ pad3 i)"
  using assms(1) pad3_digits [OF assms(3)] digit_account_char
  by (cases p) (auto simp: prefix_ok_def account_name_def list_all_iff)

lemma friend_not_reserved:
  assumes "\<not> starts_with p ''testnet_''" "1 \<le> i" "i \<le> 100"
  shows "\<not> starts_with (p @ pad3 i) ''testnet_''"
proof
  assume a: "starts_with (p @ pad3 i) ''testnet_''"
  show False
  proof (cases "8 \<le> length p")
    case True
    with a assms(1) show False by (simp add: starts_with_def)
  next
    case False
    have len: "length ''testnet_'' = 8" by simp
    from a have eq: "take 8 (p @ pad3 i) = ''testnet_''" unfolding starts_with_def len .
    have "last (take 8 (p @ pad3 i)) \<in> set (pad3 i)"
    proof -
      have "take 8 (p @ pad3 i) = p @ take (8 - length p) (pad3 i)" using False by simp
      moreover have "take (8 - length p) (pad3 i) \<noteq> []" using False pad3_digits [OF assms(3)] by auto
      ultimately have "last (take 8 (p @ pad3 i)) \<in> set (take (8 - length p) (pad3 i))" by simp
      then show ?thesis by (rule in_set_takeD)
    qed
    then have "CHR ''_'' \<in> set (pad3 i)" unfolding eq by simp
    with pad3_digits [OF assms(3)] show False by (auto simp: list_all_iff is_digit_def)
  qed
qed

text \<open>The last test of \<open>accounts_for\<close> never fires: a prefix of at most 25 characters and three digits fit.\<close>

lemma accounts_for_ok:
  "accounts_for p n = (if \<not> prefix_ok p \<or> starts_with p ''testnet_''
     then Inl (DistributionError ''prefix must start with a lowercase letter and contain only lowercase letters, digits or underscore'')
     else if \<not> (1 \<le> n \<and> n \<le> 100) then Inl (DistributionError ''count must be between 1 and 100'')
     else Inr (map (\<lambda>i. p @ pad3 i) [1..<Suc (nat n)]))"
  using friend_name [of p] by (auto simp: accounts_for_def Let_def list_ex_iff)

lemma plan_for_Inr:
  assumes "plan_for C p n amount g = Inr P"
  shows "1 \<le> amount" "dp_amount P = amount" "dp_total P = n * amount" "1 \<le> n" "n \<le> 100"
    "dp_recipients P = map (\<lambda>i. p @ pad3 i) [1..<Suc (nat n)]" "prefix_ok p" "\<not> starts_with p ''testnet_''"
    "genesis_digest C g = Inr (dp_genesis P)" "\<exists>cap. map_of (allocations g) FAUCET = Some cap \<and> n * amount \<le> cap"
  using assms
  by (auto simp: plan_for_def accounts_for_ok bindR_Inr_iff Let_def split: if_splits option.splits)

lemma recipients_distinct:
  assumes "plan_for C p n amount g = Inr P"
  shows "distinct (dp_recipients P)"
proof -
  note f = plan_for_Inr [OF assms]
  have "inj_on (\<lambda>i. p @ pad3 i) (set [1..<Suc (nat n)])"
  proof (rule inj_onI)
    fix i j assume ij: "i \<in> set [1..<Suc (nat n)]" "j \<in> set [1..<Suc (nat n)]" and "p @ pad3 i = p @ pad3 j"
    then have "pad3 i = pad3 j" by simp
    moreover have "i \<in> {1..100}" "j \<in> {1..100}" using ij f(5) by auto
    ultimately show "i = j" by (rule inj_onD [OF pad3_inj])
  qed
  then show ?thesis unfolding f(6) by (simp add: distinct_map)
qed

text \<open>C19. A plan stays within its bounds: between 1 and 100 distinct recipients, each a valid account name of at most 32
  characters outside the reserved ones; and the payments to all of them together fit in the faucet's allocation.\<close>

theorem distribution_bounds:
  assumes "plan_for C p n amount g = Inr P"
  shows "1 \<le> length (dp_recipients P) \<and> length (dp_recipients P) \<le> 100 \<and> distinct (dp_recipients P)
    \<and> list_all (\<lambda>a. account_name a \<and> length a \<le> 32 \<and> \<not> starts_with a ''testnet_'') (dp_recipients P)
    \<and> 1 \<le> dp_amount P \<and> dp_total P = int (length (dp_recipients P)) * dp_amount P
    \<and> (\<exists>cap. map_of (allocations g) FAUCET = Some cap \<and> dp_total P \<le> cap)"
proof -
  note f = plan_for_Inr [OF assms]
  have "distinct (dp_recipients P)" by (rule recipients_distinct [OF assms])
  moreover have short: "account_name a \<Longrightarrow> length a \<le> 32" for a by (cases a) (auto simp: account_name_def)
  then have "account_name a \<and> length a \<le> 32 \<and> \<not> starts_with a ''testnet_''" if "a \<in> set (dp_recipients P)" for a
  proof -
    from that obtain i where "a = p @ pad3 i" "1 \<le> i" "i \<le> nat n" unfolding f(6) by fastforce
    moreover from this f(5) have "i \<le> 100" by simp
    ultimately show ?thesis
      using friend_name [OF f(7)] friend_not_reserved [OF f(8)] short [of a] by simp
  qed
  then have "list_all (\<lambda>a. account_name a \<and> length a \<le> 32 \<and> \<not> starts_with a ''testnet_'') (dp_recipients P)"
    unfolding list_all_iff by blast
  moreover have "length (dp_recipients P) = nat n" unfolding f(6) by simp
  ultimately show ?thesis using f(1-5,10) by (simp, linarith)
qed

definition faucet_genesis :: genesis_config where
  "faucet_genesis = sample_genesis\<lparr>allocations := [(FAUCET, 500)]\<rparr>"

lemma friend_plan_exists: "1 \<le> n \<Longrightarrow> n \<le> 5 \<Longrightarrow> \<exists>P. plan_for sample_crypto ''friend'' n 100 faucet_genesis = Inr P"
proof -
  assume n: "1 \<le> n" "n \<le> 5"
  have "\<not> has_nonfinite (genesis_public faucet_genesis)"
    by (auto simp: genesis_public_def dict_json_def faucet_genesis_def sample_genesis_def sorted_dict_def)
  then obtain d where "genesis_digest sample_crypto faucet_genesis = Inr d"
    using protocol_digest_ok [of "''splitchain/canonical-genesis/v2''"] by (auto simp: genesis_digest_def is_ascii_def)
  moreover have "prefix_ok ''friend''" "\<not> starts_with ''friend'' ''testnet_''" by code_simp+
  ultimately show ?thesis using n by (simp add: plan_for_def accounts_for_ok faucet_genesis_def)
qed

theorem distribution_bounds_witness:
  "\<exists>P. plan_for sample_crypto ''friend'' 3 100 faucet_genesis = Inr P \<and> distinct (dp_recipients P) \<and> 1 \<le> dp_amount P"
proof -
  obtain P where P: "plan_for sample_crypto ''friend'' 3 100 faucet_genesis = Inr P" using friend_plan_exists [of 3] by auto
  with distribution_bounds [OF P] show ?thesis by blast
qed

section \<open>Drafts\<close>

lemma split_line: "list_all (\<lambda>c. \<not> line_end c) xs \<Longrightarrow>
  split_lines acc (xs @ newline # ys) = (rev acc @ xs) # split_lines [] ys"
proof (induction xs arbitrary: acc)
  case Nil
  then show ?case by (simp add: newline_def line_end_def)
next
  case (Cons x xs)
  then have "x \<noteq> CHR 0x0D" by (auto simp: line_end_def)
  with Cons show ?case by simp
qed

definition token_ok :: "string \<Rightarrow> bool" where
  "token_ok s = (length s = 64 \<and> list_all hex_char_ok s)"

lemma plain_chars:
  "account_char c \<Longrightarrow> \<not> line_end c" "hex_char_ok c \<Longrightarrow> \<not> line_end c" "c \<in> digit_set \<Longrightarrow> \<not> line_end c"
  by (auto simp: account_char_def hex_char_ok_def line_end_def digit_set_def Let_def)

lemma credential_draft:
  assumes "account_name actor" "token_ok secret"
  shows "credential (draft actor secret amount) actor = Inr secret"
proof -
  have a: "list_all (\<lambda>c. \<not> line_end c) actor"
    using assms(1) plain_chars(1) by (cases actor) (auto simp: account_name_def list_all_iff line_end_def)
  have s: "list_all (\<lambda>c. \<not> line_end c) secret" using assms(2) plain_chars(2) by (auto simp: token_ok_def list_all_iff)
  have n: "list_all (\<lambda>c. \<not> line_end c) (int_str amount)"
    using nat_str_digits plain_chars(3) by (fastforce simp: int_str_def list_all_iff line_end_def)
  let ?l0 = "''SplitChain TESTNET (valueless) - '' @ int_str amount @ '' test units''"
  let ?l1 = "''Wallet ID: '' @ actor" and ?l2 = "''Credential: '' @ secret"
  have l: "list_all (\<lambda>c. \<not> line_end c) ?l0" "list_all (\<lambda>c. \<not> line_end c) ?l1" "list_all (\<lambda>c. \<not> line_end c) ?l2"
    using a s n by (simp_all add: line_end_def)
  define rest where "rest = ''Wallet app or browser: '' @ SMS_URL @ [newline]
     @ ''Keep the credential private. These are sandbox units, not real coins.'' @ [newline]"
  have "draft actor secret amount = ?l0 @ newline # ?l1 @ newline # ?l2 @ newline # rest"
    by (simp add: draft_def rest_def)
  then have "split_lines [] (draft actor secret amount) = ?l0 # ?l1 # ?l2 # split_lines [] rest"
    by (simp only: split_line [OF l(1)] split_line [OF l(2)] split_line [OF l(3)] rev.simps append_Nil)
  then show ?thesis
    using assms(2) by (simp add: credential_def Let_def token_ok_def starts_with_def)
qed

section \<open>Preparation\<close>

lemma map_of_append_other: "k' \<noteq> k \<Longrightarrow> map_of (d @ [(k, v)]) k' = map_of d k'"
  by (simp add: map_add_def split: option.split)

text \<open>What the loop leaves: the drafts that were there, and a readable one for every recipient.\<close>

lemma prepare_drafts_Inr:
  assumes "prepare_drafts tokens amount stored actors F = (Inr additions, F')" "\<forall>a. token_ok (tokens a)"
    "list_all account_name actors"
  shows "df_registry F' = df_registry F \<and> df_plan F' = df_plan F \<and> df_state F' = df_state F \<and> map fst additions = actors
    \<and> (\<forall>a t. map_of (df_drafts F) a = Some t \<longrightarrow> map_of (df_drafts F') a = Some t)
    \<and> list_all (\<lambda>(a, s). \<exists>t. map_of (df_drafts F') a = Some t \<and> credential t a = Inr s) additions"
  using assms(1,3)
proof (induction actors arbitrary: F additions)
  case (Cons a actors)
  let ?x = "case map_of (df_drafts F) a of
              Some text \<Rightarrow> bindR (credential text a) (\<lambda>s. Inr (s, F))
            | None \<Rightarrow>
                if obj_get stored a \<noteq> None
                then Inl (DistributionError (''missing SMS draft for enrolled account '' @ a @ ''; inspect before retrying''))
                else Inr (tokens a, F\<lparr>df_drafts := df_drafts F @ [(a, draft a (tokens a) amount)]\<rparr>)"
  from Cons.prems(1) obtain s F1 rest where x: "?x = Inr (s, F1)"
      and r: "prepare_drafts tokens amount stored actors F1 = (Inr rest, F')" "additions = (a, s) # rest"
    by (auto split: sum.split_asm prod.split_asm if_split_asm)
  have F1: "df_registry F1 = df_registry F \<and> df_plan F1 = df_plan F \<and> df_state F1 = df_state F
      \<and> (\<forall>b t. map_of (df_drafts F) b = Some t \<longrightarrow> map_of (df_drafts F1) b = Some t)
      \<and> (\<exists>t. map_of (df_drafts F1) a = Some t \<and> credential t a = Inr s)"
  proof (cases "map_of (df_drafts F) a")
    case None
    with x have "s = tokens a" "F1 = F\<lparr>df_drafts := df_drafts F @ [(a, draft a (tokens a) amount)]\<rparr>" by (auto split: if_splits)
    with None credential_draft [of a "tokens a" amount] Cons.prems(2) assms(2) show ?thesis
      by (auto simp: map_add_def)
  next
    case (Some t)
    with x show ?thesis by (auto simp: bindR_Inr_iff)
  qed
  from Cons.IH [OF r(1)] Cons.prems(2) F1 r(2) show ?case by auto
qed simp

lemma merge_registry_get:
  "obj_get (merge_registry (JObj kvs) additions) k
     = (case map_of (rev additions) k of Some s \<Rightarrow> Some (JStr s) | None \<Rightarrow> map_of kvs k)"
proof -
  have "map_of (fold (\<lambda>(k, s). AList.update k (JStr s)) additions kvs) k
     = (case map_of (rev additions) k of Some s \<Rightarrow> Some (JStr s) | None \<Rightarrow> map_of kvs k)"
    by (induction additions arbitrary: kvs) (auto simp: map_add_def split: option.split)
  then show ?thesis by (simp add: obj_get_def)
qed

declare merge_registry.simps [simp del]

lemma merge_registry_addition:
  assumes "distinct (map fst additions)" "(k, s) \<in> set additions"
  shows "obj_get (merge_registry (JObj kvs) additions) k = Some (JStr s)"
proof -
  have "map_of (rev additions) k = Some s" using assms by (intro map_of_is_SomeI) (simp_all add: rev_map [symmetric])
  then show ?thesis by (simp add: merge_registry_get)
qed

lemma merge_registry_other:
  "k \<notin> set (map fst additions) \<Longrightarrow> obj_get (merge_registry (JObj kvs) additions) k = map_of kvs k"
  using map_of_eq_None_iff [of "rev additions" k] by (auto simp: merge_registry_get split: option.split)

lemma check_drafts_ok:
  "\<forall>a \<in> set actors. \<exists>t s. map_of (df_drafts F) a = Some t \<and> credential t a = Inr s \<and> obj_get (df_registry F) a = Some (JStr s)
     \<Longrightarrow> check_drafts F actors = Inr ()"
  by (induction actors) auto

text \<open>C20. A prepared batch can start: when \<open>prepare\<close> ends normally for a plan of \<open>plan_for\<close>, whatever drafts were
  there before and whatever others wrote to the registry meanwhile (they keep the faucet's credential),
  the constructor of the funding process accepts the files and reads back the plan.\<close>

theorem prepared_batch_starts:
  assumes "plan_for C p n amount g = Inr P" "prepare tokens meanwhile P F = (Inr (), F')"
    "df_plan F = None \<or> df_plan F = Some (plan_json P)" "df_state F = None" "\<forall>a. token_ok (tokens a)"
    "obj_get (df_registry F) FAUCET = Some (JStr f)" "obj_get (meanwhile (df_registry F)) FAUCET = Some (JStr f)"
  shows "\<exists>D. dist_init C g F' = Inr D \<and> ds_recipients D = dp_recipients P \<and> ds_amount D = amount
    \<and> ds_known D = [] \<and> ds_flight D = None"
proof -
  note plan = plan_for_Inr [OF assms(1)]
  have names: "account_name a \<and> \<not> starts_with a ''testnet_''" if "a \<in> set (dp_recipients P)" for a
  proof -
    from that obtain i where "a = p @ pad3 i" "1 \<le> i" "i \<le> nat n" unfolding plan(6) by fastforce
    moreover from this plan(5) have "i \<le> 100" by simp
    ultimately show ?thesis using friend_name [OF plan(7)] friend_not_reserved [OF plan(8)] by simp
  qed
  have "starts_with FAUCET ''testnet_''" by (simp add: FAUCET_def starts_with_def)
  with names have faucet: "FAUCET \<notin> set (dp_recipients P)" by blast
  obtain F1 where F1: "check_plan P F = (Inr (), F1)" "F1 = F\<lparr>df_plan := Some (plan_json P)\<rparr>"
    using assms(2,3) by (auto simp: prepare_def check_plan_def split: if_splits)
  obtain additions F2 where F2: "prepare_drafts tokens (dp_amount P) (df_registry F) (dp_recipients P) F1 = (Inr additions, F2)"
    using assms(2) F1(1) by (auto simp: prepare_def split: if_split_asm sum.split_asm prod.split_asm)
  have d: "df_registry F2 = df_registry F" "df_plan F2 = Some (plan_json P)" "df_state F2 = None"
      "map fst additions = dp_recipients P"
    and cred: "\<And>a s. (a, s) \<in> set additions \<Longrightarrow> \<exists>t. map_of (df_drafts F2) a = Some t \<and> credential t a = Inr s"
    using prepare_drafts_Inr [OF F2 assms(5)] names F1(2) assms(4) by (auto simp: list_all_iff)
  have distinct: "distinct (map fst additions)" using recipients_distinct [OF assms(1)] d(4) by simp
  have F': "df_plan F' = Some (plan_json P) \<and> df_state F' = None \<and> df_drafts F' = df_drafts F2 \<and> obj_fields (df_registry F') \<noteq> None
      \<and> obj_get (df_registry F') FAUCET = Some (JStr f) \<and> (\<forall>(a, s) \<in> set additions. obj_get (df_registry F') a = Some (JStr s))"
  proof (cases "list_all (\<lambda>(k, s). obj_get (df_registry F) k = Some (JStr s)) additions")
    case True
    with assms(2) F1(1) F2 have "F' = F2" by (auto simp: prepare_def split: if_splits)
    moreover have "obj_fields (df_registry F) \<noteq> None" using assms(6) by (auto simp: obj_get_def obj_fields_def split: json.splits)
    ultimately show ?thesis using True d assms(6) by (simp add: list_all_iff)
  next
    case False
    let ?fresh = "meanwhile (df_registry F)"
    obtain kvs where kvs: "?fresh = JObj kvs" using assms(7) by (cases ?fresh) (auto simp: obj_get_def)
    from False assms(2) F1(1) F2 have "F' = F2\<lparr>df_registry := merge_registry ?fresh additions\<rparr>"
      by (auto simp: prepare_def Let_def d(1) split: if_splits)
    moreover have "map_of kvs FAUCET = Some (JStr f)" using assms(7) kvs by (simp add: obj_get_def)
    moreover have merged: "\<exists>y. obj_fields (merge_registry (JObj kvs) additions) = Some y"
      by (simp add: merge_registry.simps obj_fields_def)
    ultimately show ?thesis
      using d faucet merge_registry_addition [OF distinct] merge_registry_other [of FAUCET additions kvs]
      by (auto simp: kvs merged simp del: set_map)
  qed
  have drafts: "check_drafts F' (dp_recipients P) = Inr ()"
  proof (rule check_drafts_ok, intro ballI)
    fix a assume "a \<in> set (dp_recipients P)"
    then have "a \<in> set (map fst additions)" using d(4) by simp
    then obtain s where "(a, s) \<in> set additions" by auto
    with cred F' show "\<exists>t s. map_of (df_drafts F') a = Some t \<and> credential t a = Inr s \<and> obj_get (df_registry F') a = Some (JStr s)"
      by fastforce
  qed
  have digest: "\<exists>x. json_sha256 C (plan_json P) = Inr x"
    by (auto simp: json_sha256_def canonical_json_def plan_json_def list_ex_iff)
  have recips: "plan_recipients (plan_json P) = Inr (dp_recipients P)"
  proof -
    have "str_list (map JStr rs) = Some rs" for rs by (induction rs) simp_all
    then show ?thesis by (simp add: plan_recipients_def plan_json_def obj_get_def)
  qed
  have fields: "obj_fields (plan_json P) \<noteq> None" "get_or (plan_json P) ''schema'' JNull = JStr SCHEMA"
    "get_or (plan_json P) ''genesis_digest'' JNull = JStr (dp_genesis P)" "obj_get (plan_json P) ''amount'' = Some (JInt amount)"
    using plan(2) by (simp_all add: plan_json_def obj_fields_def get_or_def obj_get_def)
  from digest obtain x where x: "json_sha256 C (plan_json P) = Inr x" ..
  show ?thesis
    using F' drafts x recips fields plan(9) by (simp add: dist_init_def)
qed

definition fresh_files :: dist_files where
  "fresh_files = \<lparr>df_registry = JObj [(FAUCET, JStr ''f'')], df_plan = None, df_drafts = [], df_state = None\<rparr>"

definition sample_token :: string where "sample_token = replicate 64 (CHR ''a'')"

theorem prepared_batch_starts_witness:
  "\<exists>P F' D. plan_for sample_crypto ''friend'' 1 100 faucet_genesis = Inr P
    \<and> prepare (\<lambda>_. sample_token) (\<lambda>x. x) P fresh_files = (Inr (), F') \<and> dist_init sample_crypto faucet_genesis F' = Inr D
    \<and> ds_recipients D = [''friend001'']"
proof -
  obtain P where P: "plan_for sample_crypto ''friend'' 1 100 faucet_genesis = Inr P" using friend_plan_exists [of 1] by auto
  have "pad3 1 = ''001''" by code_simp
  then have r: "dp_recipients P = [''friend001'']" using plan_for_Inr(6) [OF P] by simp
  have "token_ok sample_token" by (auto simp: token_ok_def sample_token_def hex_char_ok_def list_all_iff)
  moreover obtain F' where F': "prepare (\<lambda>_. sample_token) (\<lambda>x. x) P fresh_files = (Inr (), F')"
    by (simp add: prepare_def check_plan_def fresh_files_def r obj_fields_def obj_get_def FAUCET_def merge_registry.simps)
  moreover have reg: "obj_get (df_registry fresh_files) FAUCET = Some (JStr ''f'')" "df_plan fresh_files = None" "df_state fresh_files = None"
    by (simp_all add: fresh_files_def obj_get_def)
  ultimately obtain D where "dist_init sample_crypto faucet_genesis F' = Inr D" "ds_recipients D = dp_recipients P"
    using prepared_batch_starts [OF P F', of "''f''"] by auto
  with P F' r show ?thesis by auto
qed

end
