(* ===== verification/Enrollment.thy ===== *)
theory Enrollment
  imports Distributor Node_Runs
begin

text \<open>
  Wallet enrollment (\<open>splitchain/enrollment.py\<close>, \<open>splitchain/enrollment_web.py\<close>): the public intake of requests, the
  operator's approval, which adds a credential to the registry of the nodes, and the activation, which registers
  the account in the ledger. The files of the queue and the registry are values; whether a file is private and
  regular, what others make of the registry between two readings, random receipts and the network are
  arguments.
\<close>

section \<open>Requests\<close>

definition ENROLL_SCHEMA :: string where "ENROLL_SCHEMA = ''splitchain-wallet-enrollment/v1''"

definition ENROLL_FIELDS :: "string list" where "ENROLL_FIELDS = [''schema'', ''network_id'', ''account'', ''credential'']"

definition hex_exact :: "nat \<Rightarrow> string \<Rightarrow> bool" where
  "hex_exact n s = (length s = n \<and> list_all is_hex s)"

definition wallet_id :: "genesis_config \<Rightarrow> string \<Rightarrow> bool" where
  "wallet_id g a = (account_name a \<and> \<not> starts_with a ''testnet_'' \<and> \<not> dict_has (allocations g) a)"

definition wallet_fields :: "genesis_config \<Rightarrow> json \<Rightarrow> (string \<times> string) result" where
  "wallet_fields g d =
     (case (obj_get d ''account'', obj_get d ''credential'') of
        (Some (JStr a), Some (JStr s)) \<Rightarrow>
          if wallet_id g a \<and> hex_exact 64 s then Inr (a, s)
          else Inl (EnrollmentError ''invalid wallet ID or credential'')
      | _ \<Rightarrow> Inl (EnrollmentError ''invalid wallet ID or credential''))"

definition this_testnet :: "genesis_config \<Rightarrow> json \<Rightarrow> bool" where
  "this_testnet g d =
     (get_or d ''schema'' JNull = JStr ENROLL_SCHEMA \<and> get_or d ''network_id'' JNull = JStr (network_id g))"

text \<open>\<open>request_from_file\<close>; \<open>private\<close> tells that the file is regular and has mode 0600.\<close>

definition request_from_file :: "genesis_config \<Rightarrow> bool \<Rightarrow> json \<Rightarrow> (string \<times> string) result" where
  "request_from_file g private d =
     (if \<not> private then Inl (EnrollmentError ''enrollment request must be a private regular file (mode 0600)'')
      else (case obj_fields d of
          None \<Rightarrow> Inl (DistributionError ''expected JSON object'')
        | Some kvs \<Rightarrow>
            if set (map fst kvs) \<notin> {set ENROLL_FIELDS, set (''receipt'' # ENROLL_FIELDS)} \<or> \<not> this_testnet g d
            then Inl (EnrollmentError ''enrollment request does not match this testnet'')
            else if (case obj_get d ''receipt'' of None \<Rightarrow> False | Some (JStr r) \<Rightarrow> \<not> hex_exact 48 r | Some _ \<Rightarrow> True)
            then Inl (EnrollmentError ''invalid enrollment receipt'')
            else wallet_fields g d))"

section \<open>The operator's registry\<close>

text \<open>
  \<open>approve\<close>: \<open>meanwhile\<close> gives the registry at the second reading and whether it is still the same file.
\<close>

definition approve_wallet ::
    "genesis_config \<Rightarrow> bool \<Rightarrow> (json \<Rightarrow> json \<times> bool) \<Rightarrow> bool \<Rightarrow> json \<Rightarrow> (json, string) operation" where
  "approve_wallet g reg_private meanwhile private d registry =
     (case request_from_file g private d of
        Inl e \<Rightarrow> (Inl e, registry)
      | Inr (account, secret) \<Rightarrow>
          if \<not> reg_private then (Inl (EnrollmentError ''registry must be a private regular file''), registry)
          else (case registry of
              JObj stored \<Rightarrow>
                (case map_of stored account of
                   Some v \<Rightarrow>
                     if v \<noteq> JStr secret
                     then (Inl (EnrollmentError ''wallet ID already enrolled with a different credential''), registry)
                     else (Inr account, registry)
                 | None \<Rightarrow>
                     if map_of stored ''testnet_operator'' = None
                     then (Inl (EnrollmentError ''operator credential missing''), registry)
                     else (case meanwhile registry of (fresh, same_file) \<Rightarrow>
                       if obj_fields fresh = None then (Inl (DistributionError ''expected JSON object''), fresh)
                       else if \<not> py_eq fresh registry \<or> \<not> same_file
                       then (Inl (EnrollmentError ''registry changed during enrollment; retry''), fresh)
                       else (Inr account, JObj (AList.update account (JStr secret) stored))))
            | _ \<Rightarrow> (Inl (DistributionError ''expected JSON object''), registry)))"

section \<open>Activation\<close>

definition rpc_unknown :: error where
  "rpc_unknown = EnrollmentError ''RPC result unknown; inspect status before retrying''"

definition status_request :: json where
  "status_request = JObj [(''id'', JStr ''enrollment-status''), (''method'', JStr ''status''), (''params'', JObj [])]"

text \<open>
  The reply to the registration: \<open>Inr None\<close> when the node is not the leader. The text of a rejection is not
  kept beyond its first words.
\<close>

definition registration_reply :: "json \<Rightarrow> string \<Rightarrow> json \<Rightarrow> json option result" where
  "registration_reply i account response =
     (if obj_fields response = None then Inl AttributeError
      else if get_or response ''id'' JNull \<noteq> i
      then Inl (EnrollmentError ''unexpected RPC response; inspect ledger before retrying'')
      else (case error_code response of
          None \<Rightarrow> Inl AttributeError
        | Some code \<Rightarrow>
            if code = JStr ''NOT_LEADER'' then Inr None
            else (case obj_get response ''error'' of
                Some e \<Rightarrow> bindR (item e ''code'') (\<lambda>_. bindR (item e ''message'') (\<lambda>_.
                  Inl (EnrollmentError ''registration rejected'')))
              | None \<Rightarrow> bindR (item response ''result'') (\<lambda>v.
                  Inr (Some (JObj [(''account'', JStr account), (''status'', JStr ''active''), (''result'', v)]))))))"

text \<open>One backend: its ledger, then the signed registration. A \<open>balances\<close> that is no object is left out.\<close>

definition activate_at ::
    "crypto \<Rightarrow> 'w outside \<Rightarrow> genesis_config \<Rightarrow> string \<Rightarrow> string \<Rightarrow> string \<Rightarrow> ('w, json option) operation" where
  "activate_at C U g secret account backend w =
     (case ou_send U backend status_request w of
        (None, w1) \<Rightarrow> (Inl rpc_unknown, w1)
      | (Some status, w1) \<Rightarrow>
          (case item status ''result'' of
             Inl e \<Rightarrow> (Inl e, w1)
           | Inr ledger \<Rightarrow>
               if obj_fields ledger = None then (Inl AttributeError, w1)
               else if \<not> py_eq (get_or ledger ''genesis'' JNull) (genesis_public g)
               then (Inl (EnrollmentError ''connected node has a different genesis''), w1)
               else (case obj_get ledger ''balances'' of
                   None \<Rightarrow> (Inl KeyError, w1)
                 | Some (JObj balances) \<Rightarrow>
                     if map_of balances account \<noteq> None
                     then (Inr (Some (JObj [(''account'', JStr account), (''status'', JStr ''already active'')])), w1)
                     else
                       let request = [(''id'', JStr (ou_uid U w1)), (''method'', JStr ''account.register''),
                             (''params'', JObj [(''account'', JStr account)])] in
                       (case auth_sign C (JObj request) ''testnet_operator'' (ou_now U w1) secret of
                          Inl e \<Rightarrow> (Inl e, w1)
                        | Inr auth \<Rightarrow>
                            (case ou_send U backend (JObj (request @ [(''auth'', auth)])) w1 of
                               (None, w2) \<Rightarrow> (Inl rpc_unknown, w2)
                             | (Some response, w2) \<Rightarrow> (registration_reply (JStr (ou_uid U w1)) account response, w2)))
                 | Some _ \<Rightarrow> (Inl Unmodelled, w1))))"

fun activate_from ::
    "crypto \<Rightarrow> 'w outside \<Rightarrow> genesis_config \<Rightarrow> string \<Rightarrow> string \<Rightarrow> string list \<Rightarrow> ('w, json) operation" where
  "activate_from C U g secret account [] w =
     (Inl (EnrollmentError ''no leader accepted registration; check cluster leadership''), w)"
| "activate_from C U g secret account (backend # backends) w =
     (case activate_at C U g secret account backend w of
        (Inl e, w1) \<Rightarrow> (Inl e, w1)
      | (Inr None, w1) \<Rightarrow> activate_from C U g secret account backends w1
      | (Inr (Some v), w1) \<Rightarrow> (Inr v, w1))"

definition activate :: "crypto \<Rightarrow> 'w outside \<Rightarrow> genesis_config \<Rightarrow> string \<Rightarrow> json \<Rightarrow> ('w, json) operation" where
  "activate C U g account registry w =
     (if obj_fields registry = None then (Inl (DistributionError ''expected JSON object''), w)
      else (case (obj_get registry account, obj_get registry ''testnet_operator'') of
          (Some _, Some (JStr secret)) \<Rightarrow> activate_from C U g secret account BACKENDS w
        | (Some _, Some _) \<Rightarrow> (Inl Unmodelled, w)
        | _ \<Rightarrow> (Inl (EnrollmentError ''approve the wallet in the registry first''), w)))"

section \<open>The queue\<close>

text \<open>A file of the queue: the four fields of the request with receipt and status.\<close>

record ticket =
  tk_network :: string
  tk_credential :: string
  tk_receipt :: string
  tk_status :: string

record enroll_store =
  en_genesis :: genesis_config
  en_queue :: "(string, ticket) dict"
  en_registry :: json

definition MAX_PENDING :: nat where "MAX_PENDING = 200"

definition ticket_document :: "string \<Rightarrow> ticket \<Rightarrow> json" where
  "ticket_document account t = JObj
     [(''schema'', JStr ENROLL_SCHEMA), (''network_id'', JStr (tk_network t)), (''account'', JStr account),
      (''credential'', JStr (tk_credential t))]"

definition ticket_receipt :: "string \<Rightarrow> ticket \<Rightarrow> json" where
  "ticket_receipt account t = JObj
     [(''account'', JStr account), (''receipt'', JStr (tk_receipt t)), (''status'', JStr (tk_status t))]"

text \<open>\<open>submit\<close>: \<open>body\<close> is the JSON value of the request (\<open>None\<close> when it does not parse), \<open>token\<close> the new receipt.\<close>

definition enroll_submit :: "string \<Rightarrow> json option \<Rightarrow> (enroll_store, json) operation" where
  "enroll_submit token body Q =
     (case body of
        None \<Rightarrow> (Inl (EnrollmentError ''invalid JSON request''), Q)
      | Some d \<Rightarrow>
          (case obj_fields d of
             None \<Rightarrow> (Inl (EnrollmentError ''invalid request''), Q)
           | Some kvs \<Rightarrow>
               if set (map fst kvs) \<noteq> set ENROLL_FIELDS \<or> \<not> this_testnet (en_genesis Q) d
               then (Inl (EnrollmentError ''invalid testnet request''), Q)
               else (case wallet_fields (en_genesis Q) d of
                   Inl e \<Rightarrow> (Inl e, Q)
                 | Inr (account, secret) \<Rightarrow>
                     (case map_of (en_queue Q) account of
                        Some t \<Rightarrow>
                          (case compare_digest (tk_credential t) secret of
                             Inl e \<Rightarrow> (Inl e, Q)
                           | Inr False \<Rightarrow> (Inl (EnrollmentError ''wallet ID already requested''), Q)
                           | Inr True \<Rightarrow> (Inr (ticket_receipt account t), Q))
                      | None \<Rightarrow>
                          if length (en_queue Q) \<ge> MAX_PENDING then (Inl (EnrollmentError ''enrollment queue is full''), Q)
                          else
                            let t = \<lparr>tk_network = network_id (en_genesis Q), tk_credential = secret, tk_receipt = token,
                                  tk_status = ''pending''\<rparr> in
                            (Inr (ticket_receipt account t), Q\<lparr>en_queue := AList.update account t (en_queue Q)\<rparr>)))))"

text \<open>\<open>check\<close>: every exception is one answer.\<close>

definition enroll_check :: "json option \<Rightarrow> enroll_store \<Rightarrow> json result" where
  "enroll_check body Q =
     (let unknown = Inl (EnrollmentError ''request not found'') in
      case body of
        None \<Rightarrow> unknown
      | Some query \<Rightarrow>
          (case (obj_get query ''account'', obj_get query ''receipt'') of
             (Some (JStr account), Some (JStr receipt)) \<Rightarrow>
               if \<not> account_name account then unknown
               else (case map_of (en_queue Q) account of
                   None \<Rightarrow> unknown
                 | Some t \<Rightarrow>
                     if compare_digest (tk_receipt t) receipt = Inr True
                     then Inr (JObj [(''account'', JStr account), (''status'', JStr (tk_status t))])
                     else unknown)
           | _ \<Rightarrow> unknown))"

definition set_status :: "string \<Rightarrow> ticket \<Rightarrow> string \<Rightarrow> enroll_store \<Rightarrow> enroll_store" where
  "set_status account t status Q = Q\<lparr>en_queue := AList.update account (t\<lparr>tk_status := status\<rparr>) (en_queue Q)\<rparr>"

definition enrollment_error :: "error \<Rightarrow> bool" where
  "enrollment_error e = (case e of EnrollmentError _ \<Rightarrow> True | _ \<Rightarrow> False)"

text \<open>\<open>approve\<close>: the registry first, then the status, then the activation; an \<open>EnrollmentError\<close> of the latter leaves it approved.\<close>

definition enroll_approve ::
    "crypto \<Rightarrow> 'w outside \<Rightarrow> (json \<Rightarrow> json \<times> bool) \<Rightarrow> bool \<Rightarrow> string \<Rightarrow> (enroll_store \<times> 'w, string) operation" where
  "enroll_approve C U meanwhile reg_private account X =
     (case X of (Q, w) \<Rightarrow>
       if \<not> account_name account then (Inl (EnrollmentError ''invalid account''), Q, w)
       else (case map_of (en_queue Q) account of
           None \<Rightarrow> (Inl OSError, Q, w)
         | Some t \<Rightarrow>
             if tk_status t = ''active'' then (Inr ''active'', Q, w)
             else (case approve_wallet (en_genesis Q) reg_private meanwhile True (ticket_document account t) (en_registry Q) of
                 (Inl e, registry) \<Rightarrow> (Inl e, Q\<lparr>en_registry := registry\<rparr>, w)
               | (Inr _, registry) \<Rightarrow>
                   let Q1 = set_status account t ''approved'' (Q\<lparr>en_registry := registry\<rparr>) in
                   (case activate C U (en_genesis Q) account registry w of
                      (Inl e, w1) \<Rightarrow> ((if enrollment_error e then Inr ''approved'' else Inl e), Q1, w1)
                    | (Inr _, w1) \<Rightarrow> (Inr ''active'', set_status account t ''active'' Q1, w1)))))"

definition enroll_pending :: "enroll_store \<Rightarrow> json list" where
  "enroll_pending Q = map (\<lambda>(account, t). JObj [(''account'', JStr account), (''status'', JStr (tk_status t))])
     (sort_key fst (en_queue Q))"

section \<open>The web handlers\<close>

text \<open>
  The rate limit of the public handler: started and count per address, all forgotten when there are more than
  2048 addresses. Times are in nanoseconds of the monotonic clock, which is read once here.
\<close>

definition public_limit :: "string \<Rightarrow> int \<Rightarrow> (string, int \<times> nat) dict \<Rightarrow> bool \<times> (string, int \<times> nat) dict" where
  "public_limit address now limiter =
     (let (started0, count0) = dict_get limiter address (now, 0);
          (started, k) = (if now - started0 \<ge> 60000000000 then (now, 0) else (started0, count0));
          updated = AList.update address (started, Suc k) limiter in
      (k < 12, if length updated > 2048 then [] else updated))"

record web_request =
  wr_path :: string
  wr_type :: string
  wr_address :: string
  wr_length :: int
  wr_body :: "json option"

definition caught_by_handler :: "error \<Rightarrow> bool" where
  "caught_by_handler e =
     (case e of EnrollmentError _ \<Rightarrow> True | DistributionError _ \<Rightarrow> True | ProtocolError _ \<Rightarrow> True | ValueError _ \<Rightarrow> True
      | OSError \<Rightarrow> True | KeyError \<Rightarrow> True | _ \<Rightarrow> False)"

text \<open>\<open>PublicHandler.do_POST\<close>: the status code and the result; the text of an error is not kept.\<close>

definition public_post ::
    "string \<Rightarrow> int \<Rightarrow> web_request \<Rightarrow> (enroll_store \<times> (string, int \<times> nat) dict, nat \<times> json) operation" where
  "public_post token now R S =
     (case S of (Q, limiter) \<Rightarrow>
       if wr_path R \<notin> {''/request'', ''/check''} \<or> takeWhile (\<lambda>c. c \<noteq> CHR '';'') (wr_type R) \<noteq> ''application/json''
       then (Inr (404, JObj [(''error'', JStr ''unknown endpoint'')]), S)
       else (case public_limit (take 64 (wr_address R)) now limiter of (allowed, limiter1) \<Rightarrow>
         if \<not> allowed then (Inr (429, JObj [(''error'', JStr ''rate limit exceeded'')]), Q, limiter1)
         else if \<not> (0 < wr_length R \<and> wr_length R \<le> 2048) then (Inr (400, JNull), Q, limiter1)
         else (case (if wr_path R = ''/request'' then enroll_submit token (wr_body R) Q else (enroll_check (wr_body R) Q, Q)) of
             (Inr v, Q1) \<Rightarrow> (Inr (200, v), Q1, limiter1)
           | (Inl e, Q1) \<Rightarrow> ((if caught_by_handler e then Inr (400, JNull) else Inl e), Q1, limiter1))))"

text \<open>\<open>s.split(c, 1)\<close>: \<open>None\<close> when the separator does not occur.\<close>

definition split_once :: "char \<Rightarrow> string \<Rightarrow> (string \<times> string) option" where
  "split_once c s = (if c \<in> set s then Some (takeWhile (\<lambda>x. x \<noteq> c) s, tl (dropWhile (\<lambda>x. x \<noteq> c) s)) else None)"

text \<open>\<open>AdminHandler.authenticated\<close>; credentials that are not ASCII are left out.\<close>

definition authenticated :: "string \<Rightarrow> string \<Rightarrow> bool result" where
  "authenticated password header =
     (case split_once (CHR '' '') header of
        None \<Rightarrow> Inr False
      | Some (scheme, token) \<Rightarrow>
          (case b64decode token of
             None \<Rightarrow> Inr False
           | Some credentials \<Rightarrow>
               if \<not> is_ascii credentials then Inl Unmodelled
               else (case split_once (CHR '':'') credentials of
                   None \<Rightarrow> Inr False
                 | Some (user, supplied) \<Rightarrow>
                     if scheme \<noteq> ''Basic'' \<or> user \<noteq> ''operator'' then Inr False else compare_digest supplied password)))"

record admin_request =
  ar_authorization :: string
  ar_path :: string
  ar_host :: string
  ar_origin :: "string option"
  ar_length :: int
  ar_account :: "string option"

text \<open>
  \<open>AdminHandler.do_POST\<close> behind port \<open>port\<close>: the status code and the status of the wallet; \<open>ar_account\<close> is the
  first \<open>account\<close> of the form (\<open>None\<close> when there is none).
\<close>

definition admin_post ::
    "crypto \<Rightarrow> 'w outside \<Rightarrow> (json \<Rightarrow> json \<times> bool) \<Rightarrow> bool \<Rightarrow> string \<Rightarrow> nat \<Rightarrow> admin_request
     \<Rightarrow> (enroll_store \<times> 'w, nat \<times> string) operation" where
  "admin_post C U meanwhile reg_private password port R X =
     (case authenticated password (ar_authorization R) of
        Inl e \<Rightarrow> (Inl e, X)
      | Inr False \<Rightarrow> (Inr (401, []), X)
      | Inr True \<Rightarrow>
          if ar_path R \<noteq> ''/approve'' \<or> ar_host R \<notin> {''127.0.0.1:'' @ nat_str port, ''localhost:'' @ nat_str port}
             \<or> ar_origin R \<noteq> Some (''http://'' @ ar_host R)
          then (Inr (403, []), X)
          else if \<not> (0 < ar_length R \<and> ar_length R < 128) then (Inr (400, []), X)
          else (case ar_account R of
              None \<Rightarrow> (Inr (400, []), X)
            | Some account \<Rightarrow>
                (case enroll_approve C U meanwhile reg_private account X of
                   (Inr status, X1) \<Rightarrow> (Inr (303, status), X1)
                 | (Inl e, X1) \<Rightarrow> ((if caught_by_handler e then Inr (400, []) else Inl e), X1))))"

end
