(* ===== verification/Enrollment_Safety.thy ===== *)
theory Enrollment_Safety
  imports Enrollment
begin

text \<open>
  What enrollment promises, for every sequence of submissions, checks and approvals: a wallet identifier stays
  bound to the credential of its first request, the registry only grows by such pairs, and the credential
  then opens the node. The limit of the queue counts every request ever made.
\<close>

section \<open>Runs\<close>

datatype enroll_op =
    SubmitWallet string "json option"
  | CheckWallet "json option"
  | ApproveWallet "json \<Rightarrow> json \<times> bool" bool string

fun enroll_step :: "crypto \<Rightarrow> 'w outside \<Rightarrow> enroll_op \<Rightarrow> (enroll_store \<times> 'w, json) operation" where
  "enroll_step C U (SubmitWallet token body) X = (case enroll_submit token body (fst X) of (r, Q) \<Rightarrow> (r, Q, snd X))"
| "enroll_step C U (CheckWallet body) X = (enroll_check body (fst X), X)"
| "enroll_step C U (ApproveWallet meanwhile priv account) X =
     map_op JStr (enroll_approve C U meanwhile priv account X)"

text \<open>Nobody else edits the registry between the two readings.\<close>

fun undisturbed :: "enroll_op \<Rightarrow> bool" where
  "undisturbed (ApproveWallet meanwhile priv account) = (\<forall>r. fst (meanwhile r) = r)"
| "undisturbed op = True"

section \<open>The invariant\<close>

text \<open>Tickets are for valid wallets of this network; what a ticket binds never changes.\<close>

definition ticket_ok :: "genesis_config \<Rightarrow> string \<Rightarrow> ticket \<Rightarrow> bool" where
  "ticket_ok g account t = (wallet_id g account \<and> hex_exact 64 (tk_credential t) \<and> tk_network t = network_id g)"

definition enroll_inv :: "enroll_store \<Rightarrow> bool" where
  "enroll_inv Q = (\<forall>a t. map_of (en_queue Q) a = Some t \<longrightarrow> ticket_ok (en_genesis Q) a t)"

definition ticket_kept :: "ticket option \<Rightarrow> ticket option \<Rightarrow> bool" where
  "ticket_kept t t' = (\<forall>x. t = Some x \<longrightarrow> (\<exists>y. t' = Some y \<and> tk_credential y = tk_credential x
     \<and> tk_receipt y = tk_receipt x \<and> tk_network y = tk_network x))"

text \<open>The registry keeps its entries, and a new one is the credential of a ticket.\<close>

definition registry_grows :: "enroll_store \<Rightarrow> enroll_store \<Rightarrow> bool" where
  "registry_grows Q Q' =
     (\<forall>a. obj_get (en_registry Q') a = obj_get (en_registry Q) a
        \<or> obj_get (en_registry Q) a = None
          \<and> (\<exists>t. map_of (en_queue Q') a = Some t \<and> obj_get (en_registry Q') a = Some (JStr (tk_credential t))
                \<and> ticket_ok (en_genesis Q') a t))"

definition enrolls :: "enroll_store \<Rightarrow> enroll_store \<Rightarrow> bool" where
  "enrolls Q Q' =
     (enroll_inv Q' \<and> en_genesis Q' = en_genesis Q \<and> registry_grows Q Q'
      \<and> (\<forall>a. ticket_kept (map_of (en_queue Q) a) (map_of (en_queue Q') a))
      \<and> length (en_queue Q) \<le> length (en_queue Q')
      \<and> length (en_queue Q') \<le> max MAX_PENDING (length (en_queue Q)))"

lemma enrolls_refl: "enroll_inv Q \<Longrightarrow> enrolls Q Q"
  by (simp add: enrolls_def registry_grows_def ticket_kept_def)

lemma enrolls_trans:
  assumes "enrolls Q R" "enrolls R S"
  shows "enrolls Q S"
proof -
  have "registry_grows Q S"
    unfolding registry_grows_def
  proof
    fix a
    from assms(1) have 1: "obj_get (en_registry R) a = obj_get (en_registry Q) a \<or> obj_get (en_registry Q) a = None
        \<and> (\<exists>t. map_of (en_queue R) a = Some t \<and> obj_get (en_registry R) a = Some (JStr (tk_credential t)) \<and> ticket_ok (en_genesis R) a t)"
      by (auto simp: enrolls_def registry_grows_def)
    from assms(2) have 2: "obj_get (en_registry S) a = obj_get (en_registry R) a \<or> obj_get (en_registry R) a = None
        \<and> (\<exists>t. map_of (en_queue S) a = Some t \<and> obj_get (en_registry S) a = Some (JStr (tk_credential t)) \<and> ticket_ok (en_genesis S) a t)"
      by (auto simp: enrolls_def registry_grows_def)
    from assms(2) have 3: "ticket_kept (map_of (en_queue R) a) (map_of (en_queue S) a)" "enroll_inv S"
      by (auto simp: enrolls_def)
    show "obj_get (en_registry S) a = obj_get (en_registry Q) a \<or> obj_get (en_registry Q) a = None
        \<and> (\<exists>t. map_of (en_queue S) a = Some t \<and> obj_get (en_registry S) a = Some (JStr (tk_credential t)) \<and> ticket_ok (en_genesis S) a t)"
      using 1 2 3 by (fastforce simp: ticket_kept_def enroll_inv_def)
  qed
  moreover have "ticket_kept (map_of (en_queue Q) a) (map_of (en_queue S) a)" for a
    using assms by (fastforce simp: enrolls_def ticket_kept_def)
  ultimately show ?thesis using assms by (auto simp: enrolls_def)
qed

lemma wallet_fields_Inr:
  "wallet_fields g d = Inr (a, s) \<Longrightarrow> wallet_id g a \<and> hex_exact 64 s \<and> obj_get d ''account'' = Some (JStr a) \<and> obj_get d ''credential'' = Some (JStr s)"
  by (auto simp: wallet_fields_def split: option.splits json.splits if_splits)

lemma length_update: "length (AList.update k v d) = (if map_of d k = None then Suc (length d) else length d)"
  by (induction d) auto

lemma enroll_submit_enrolls:
  assumes "enroll_inv Q"
  shows "enrolls Q (snd (enroll_submit token body Q))"
proof (cases "snd (enroll_submit token body Q) = Q")
  case True
  with enrolls_refl [OF assms] show ?thesis by simp
next
  case False
  then obtain d account secret where d: "body = Some d" "wallet_fields (en_genesis Q) d = Inr (account, secret)"
    "map_of (en_queue Q) account = None" "length (en_queue Q) < MAX_PENDING"
    "snd (enroll_submit token body Q) = Q\<lparr>en_queue := AList.update account \<lparr>tk_network = network_id (en_genesis Q),
       tk_credential = secret, tk_receipt = token, tk_status = ''pending''\<rparr> (en_queue Q)\<rparr>"
    by (auto simp: enroll_submit_def Let_def split: option.splits if_splits sum.splits bool.splits)
  show ?thesis
    unfolding d(5) using assms wallet_fields_Inr [OF d(2)] d(3,4)
    by (auto simp: enrolls_def enroll_inv_def registry_grows_def ticket_kept_def ticket_ok_def length_update update_conv')
qed

lemma ticket_request:
  "request_from_file g p (ticket_document account t) = Inr (a, s) \<Longrightarrow> a = account \<and> s = tk_credential t"
  by (auto simp: request_from_file_def ticket_document_def obj_get_def dest!: wallet_fields_Inr split: option.splits if_splits)

lemma approve_wallet_effect:
  assumes "approve_wallet g rp meanwhile p d registry = (r, registry')" "\<And>v. fst (meanwhile v) = v"
  shows "registry' = registry \<or> (\<exists>kvs a s. request_from_file g p d = Inr (a, s) \<and> registry = JObj kvs \<and> map_of kvs a = None
      \<and> registry' = JObj (AList.update a (JStr s) kvs))"
    and "r = Inr a \<Longrightarrow> \<exists>s. request_from_file g p d = Inr (a, s) \<and> obj_get registry' a = Some (JStr s)"
proof -
  have m: "fresh = v" if "meanwhile v = (fresh, b)" for v fresh b using assms(2) [of v] that by simp
  show "registry' = registry \<or> (\<exists>kvs a s. request_from_file g p d = Inr (a, s) \<and> registry = JObj kvs \<and> map_of kvs a = None
      \<and> registry' = JObj (AList.update a (JStr s) kvs))"
    using assms(1) unfolding approve_wallet_def
    by (auto split: sum.split_asm prod.split_asm if_split_asm json.split_asm option.split_asm dest!: m)
  show "\<exists>s. request_from_file g p d = Inr (a, s) \<and> obj_get registry' a = Some (JStr s)" if "r = Inr a"
    using assms(1) that unfolding approve_wallet_def
    by (auto split: sum.split_asm prod.split_asm if_split_asm json.split_asm option.split_asm simp: obj_get_def update_conv')
qed

lemma approve_registry_enrolls:
  assumes inv: "enroll_inv Q" and t: "map_of (en_queue Q) account = Some t" and m: "\<And>v. fst (meanwhile v) = v"
    and r: "approve_wallet (en_genesis Q) rp meanwhile True (ticket_document account t) (en_registry Q) = (r, registry)"
  shows "enrolls Q (Q\<lparr>en_registry := registry\<rparr>)"
proof -
  have grow: "registry_grows Q (Q\<lparr>en_registry := registry\<rparr>)"
    using approve_wallet_effect(1) [OF r m]
  proof (elim disjE exE conjE)
    fix kvs a s
    assume k: "request_from_file (en_genesis Q) True (ticket_document account t) = Inr (a, s)" "en_registry Q = JObj kvs"
      "map_of kvs a = None" "registry = JObj (AList.update a (JStr s) kvs)"
    from ticket_request [OF k(1)] have "a = account" "s = tk_credential t" by simp_all
    moreover have "ticket_ok (en_genesis Q) account t" using inv t by (simp add: enroll_inv_def)
    ultimately show ?thesis using k t by (auto simp: registry_grows_def obj_get_def update_conv')
  qed (simp add: registry_grows_def)
  then show ?thesis using inv by (simp add: enrolls_def enroll_inv_def ticket_kept_def)
qed

lemma set_status_enrolls:
  assumes "enroll_inv Q" "map_of (en_queue Q) account = Some u" "tk_credential t = tk_credential u" "tk_receipt t = tk_receipt u"
    "tk_network t = tk_network u"
  shows "enrolls Q (set_status account t status Q)"
  using assms
  by (auto simp: enrolls_def enroll_inv_def registry_grows_def ticket_kept_def ticket_ok_def length_update update_conv' set_status_def)

lemma enroll_approve_enrolls:
  assumes inv: "enroll_inv (fst X)" and m: "\<And>v. fst (meanwhile v) = v"
  shows "enrolls (fst X) (fst (snd (enroll_approve C U meanwhile rp account X)))"
proof -
  obtain Q w where X: "X = (Q, w)" by (cases X)
  note refl = enrolls_refl [OF inv [unfolded X fst_conv]]
  show ?thesis
  proof (cases "map_of (en_queue Q) account")
    case None
    with refl show ?thesis by (simp add: X enroll_approve_def)
  next
    case (Some t)
    obtain r registry where r: "approve_wallet (en_genesis Q) rp meanwhile True (ticket_document account t) (en_registry Q) = (r, registry)"
      by (cases "approve_wallet (en_genesis Q) rp meanwhile True (ticket_document account t) (en_registry Q)")
    have Q1: "enrolls Q (Q\<lparr>en_registry := registry\<rparr>)"
      by (rule approve_registry_enrolls [OF inv [unfolded X fst_conv] Some m r])
    let ?Q2 = "set_status account t ''approved'' (Q\<lparr>en_registry := registry\<rparr>)"
    have Q2: "enrolls Q ?Q2"
      using Q1 Some by (intro enrolls_trans [OF Q1 set_status_enrolls [of _ _ t]]) (auto simp: enrolls_def)
    moreover have "enrolls Q (set_status account t ''active'' ?Q2)"
      using Q2 Some
      by (intro enrolls_trans [OF Q2 set_status_enrolls [of _ _ "t\<lparr>tk_status := ''approved''\<rparr>"]]) (auto simp: enrolls_def set_status_def)
    ultimately show ?thesis
      using Q1 refl Some r by (auto simp: X enroll_approve_def Let_def split: sum.split prod.split)
  qed
qed

lemma enroll_step_enrolls:
  assumes "enroll_inv (fst X)" "undisturbed op"
  shows "enrolls (fst X) (fst (snd (enroll_step C U op X)))"
proof (cases op)
  case (SubmitWallet token body)
  with enroll_submit_enrolls [OF assms(1)] show ?thesis by (simp split: prod.split) (metis snd_conv)
next
  case (CheckWallet body)
  with enrolls_refl [OF assms(1)] show ?thesis by simp
next
  case (ApproveWallet meanwhile priv account)
  with enroll_approve_enrolls [OF assms(1)] assms(2) show ?thesis by simp
qed

lemma enroll_run_enrolls:
  "enroll_inv (fst X) \<Longrightarrow> list_all undisturbed ops \<Longrightarrow> enrolls (fst X) (fst (run_ops (enroll_step C U) ops X))"
proof (induction ops arbitrary: X)
  case (Cons op ops)
  have 1: "enrolls (fst X) (fst (snd (enroll_step C U op X)))" using Cons.prems by (intro enroll_step_enrolls) simp_all
  then have "enroll_inv (fst (snd (enroll_step C U op X)))" by (simp add: enrolls_def)
  with Cons.IH Cons.prems(2) enrolls_trans [OF 1] show ?case by simp
qed (simp add: enrolls_refl)

lemma py_len_hex: "list_all is_hex s \<Longrightarrow> py_len s = length s"
proof -
  have "(of_char c :: nat) div 64 \<noteq> 2" if "is_hex c" for c using that by (auto simp: is_hex_def)
  then show "list_all is_hex s \<Longrightarrow> py_len s = length s"
    by (induction s) (simp_all add: py_len_def)
qed

section \<open>Properties\<close>

text \<open>C33. A wallet identifier belongs to who asked for it first: whatever requests, checks and approvals follow, in any
  order and whatever the network answers, a ticket keeps its credential and receipt, the registry keeps every
  entry (nobody else editing it meanwhile), and each new entry is the credential of the ticket of a valid wallet
  identifier that the genesis file does not use.\<close>

theorem enrollment_binds:
  assumes "enroll_inv Q" "list_all undisturbed ops" "run_ops (enroll_step C U) ops (Q, w) = (Q', w')"
    and "map_of (en_queue Q) a = Some t"
  shows "(\<exists>u. map_of (en_queue Q') a = Some u \<and> tk_credential u = tk_credential t \<and> tk_receipt u = tk_receipt t)
    \<and> (\<forall>b v. obj_get (en_registry Q) b = Some v \<longrightarrow> obj_get (en_registry Q') b = Some v)
    \<and> (\<forall>b v. obj_get (en_registry Q) b = None \<longrightarrow> obj_get (en_registry Q') b = Some v \<longrightarrow>
         wallet_id (en_genesis Q) b \<and> (\<exists>u. map_of (en_queue Q') b = Some u \<and> v = JStr (tk_credential u) \<and> hex_exact 64 (tk_credential u)))"
proof -
  have e: "enrolls Q Q'" using enroll_run_enrolls [of "(Q, w)" ops C U] assms(1-3) by simp
  then have "ticket_kept (map_of (en_queue Q) a) (map_of (en_queue Q') a)" "registry_grows Q Q'" "en_genesis Q' = en_genesis Q"
    by (auto simp: enrolls_def)
  with assms(4) show ?thesis
    by (auto simp: ticket_kept_def registry_grows_def ticket_ok_def) (metis option.distinct(1) option.inject)+
qed

text \<open>C35. The queue fills up for good: \<open>MAX_PENDING\<close> counts every request ever made, and neither approval nor
  activation removes one. After 200 requests every further wallet is turned away, however many of the others are
  active.\<close>

theorem enrollment_full_forever:
  assumes "enroll_inv Q" "list_all undisturbed ops" "MAX_PENDING \<le> length (en_queue Q)"
    and "run_ops (enroll_step C U) ops (Q, w) = (Q', w')" "map_of (en_queue Q') a = None"
    and "wallet_id (en_genesis Q) a" "hex_exact 64 secret"
  shows "enroll_submit token (Some (JObj [(''schema'', JStr ENROLL_SCHEMA), (''network_id'', JStr (network_id (en_genesis Q))),
      (''account'', JStr a), (''credential'', JStr secret)])) Q' = (Inl (EnrollmentError ''enrollment queue is full''), Q')"
proof -
  have "enrolls Q Q'" using enroll_run_enrolls [of "(Q, w)" ops C U] assms(1,2,4) by simp
  then have "MAX_PENDING \<le> length (en_queue Q')" "en_genesis Q' = en_genesis Q" using assms(3) by (auto simp: enrolls_def)
  with assms(5-7) show ?thesis
    by (simp add: enroll_submit_def obj_fields_def ENROLL_FIELDS_def this_testnet_def get_or_def obj_get_def wallet_fields_def insert_commute)
qed

text \<open>C34. An approved wallet can act at once: when the operator has approved a ticket, a node that reads the registry
  accepts, without a restart, a transfer request signed with the credential of the ticket and naming the wallet as its
  participant.\<close>

theorem enrolled_wallet_acts:
  assumes "map_of (en_queue Q) a = Some t" "tk_status t \<noteq> ''active''" "enroll_inv Q"
    and "enroll_approve C U (\<lambda>r. (r, True)) True a (Q, w) = (Inr status, Q', w')"
    and "en_registry Q' = JObj entries" "nd_registry N = Some entries" "nd_auth N = Some A" "\<not> auth_knows a A"
    and "auth_sign C (JObj kvs) a nonce (tk_credential t) = Inr auth" "map_of kvs ''auth'' = Some auth" "hex_digests C"
    and "last_nonce A a < nonce" "map_of actor_fields m = Some f" "obj_get params f = Some (JStr a)"
  shows "fst (verify_request_actor C (JObj kvs) (JStr m) params True N) = Inr ()"
proof -
  let ?s = "tk_credential t" and ?A = "snd (auth_add_actor a (tk_credential t) A)"
  obtain r registry where r: "approve_wallet (en_genesis Q) True (\<lambda>r. (r, True)) True (ticket_document a t) (en_registry Q) = (r, registry)"
    by (cases "approve_wallet (en_genesis Q) True (\<lambda>r. (r, True)) True (ticket_document a t) (en_registry Q)")
  from assms(4) assms(1,2) r obtain b where b: "r = Inr b" "en_registry Q' = registry"
    by (auto simp: enroll_approve_def set_status_def Let_def split: if_splits sum.splits prod.splits)
  from approve_wallet_effect(2) [OF r _ b(1)] b(2) assms(5)
  have entry: "map_of entries a = Some (JStr ?s)" by (auto simp: obj_get_def dest!: ticket_request)
  have "ticket_ok (en_genesis Q) a t" using assms(1,3) by (simp add: enroll_inv_def)
  then have hex: "length ?s = 64" "list_all is_hex ?s" by (simp_all add: ticket_ok_def hex_exact_def)
  have len: "32 \<le> py_len ?s" using hex py_len_hex by simp
  obtain sg where auth: "auth = JObj [(''actor'', JStr a), (''nonce'', JInt nonce), (''signature'', JStr sg)]"
    using assms(9) by (auto simp: auth_sign_def bindR_Inr_iff)
  have "get_or (JObj kvs) ''auth'' JNull = auth" using assms(10) by (simp add: get_or_def obj_get_def)
  then have learn: "learn_actor (JObj kvs) N = N\<lparr>nd_auth := Some ?A\<rparr>"
    using assms(6-8) entry len auth by (simp add: learn_actor_def obj_get_def)
  have A: "map_of (au_secrets ?A) a = Some ?s" "last_nonce ?A a < nonce"
    using assms(8,12) by (auto simp: auth_add_actor_def auth_knows_def dict_has_def last_nonce_def update_conv')
  have "fst (auth_verify C (JObj kvs) True ?A) = Inr a"
    using auth_signed_request_accepted [OF assms(9,11) A(1) assms(10)] A(2) by simp
  then obtain A1 where ver: "auth_verify C (JObj kvs) True ?A = (Inr a, A1)" by (cases "auth_verify C (JObj kvs) True ?A") auto
  have m: "m \<noteq> ''account.register''" "m \<noteq> ''status''" "m \<noteq> ''advance''" "actor_field (JStr m) = Some f"
    using assms(13) by (auto simp: actor_fields_def actor_field_def split: if_splits)
  have "obj_fields params \<noteq> None" using assms(14) by (auto simp: obj_get_def obj_fields_def split: json.splits)
  with m assms(7,14) show ?thesis
    unfolding verify_request_actor_def learn Let_def by (simp add: ver)
qed

section \<open>A concrete queue\<close>

definition quiet_net :: "unit outside" where
  "quiet_net = \<lparr>ou_send = (\<lambda>backend request w. (None, w)), ou_now = (\<lambda>_. 0), ou_uid = (\<lambda>_. [])\<rparr>"

definition sample_genesis_file :: genesis_config where
  "sample_genesis_file = \<lparr>network_id = ''pilot'', max_supply = 9, allocations = [(''testnet_faucet'', 9)], locked_accounts = []\<rparr>"

definition sample_ticket :: ticket where
  "sample_ticket = \<lparr>tk_network = ''pilot'', tk_credential = replicate 64 CHR ''a'', tk_receipt = ''r'', tk_status = ''pending''\<rparr>"

definition sample_queue :: enroll_store where
  "sample_queue = \<lparr>en_genesis = sample_genesis_file, en_queue = [(''alice'', sample_ticket)],
     en_registry = JObj [(''testnet_operator'', JStr ''op'')]\<rparr>"

definition many_wallets :: "string list" where
  "many_wallets = map (\<lambda>(x, y). [CHR ''w'', x, y]) (List.product ''abcdefghijklmnop'' ''abcdefghijklmnop'')"

definition full_queue :: enroll_store where
  "full_queue = sample_queue\<lparr>en_queue := map (\<lambda>a. (a, sample_ticket\<lparr>tk_status := ''active''\<rparr>)) many_wallets\<rparr>"

lemma sample_ticket_ok: "wallet_id sample_genesis_file a \<Longrightarrow> ticket_ok sample_genesis_file a (sample_ticket\<lparr>tk_status := st\<rparr>)"
  by (simp add: ticket_ok_def sample_ticket_def sample_genesis_file_def hex_exact_def list_all_iff is_hex_def)

lemma sample_ids: "wallet_id sample_genesis_file ''alice''" "wallet_id sample_genesis_file ''zed''"
  "list_all (wallet_id sample_genesis_file) many_wallets" "length many_wallets = 256" "''zed'' \<notin> set many_wallets"
  by code_simp+

lemma sample_queue_inv: "enroll_inv sample_queue"
  using sample_ticket_ok [OF sample_ids(1), of "''pending''"]
  by (simp add: enroll_inv_def sample_queue_def sample_ticket_def)

lemma full_queue_inv: "enroll_inv full_queue"
  using sample_ids(3) sample_ticket_ok
  by (auto simp: enroll_inv_def full_queue_def sample_queue_def list_all_iff dest!: map_of_SomeD)

theorem enrollment_binds_witness:
  "\<exists>u. map_of (en_queue (fst (run_ops (enroll_step sample_crypto quiet_net) [ApproveWallet (\<lambda>r. (r, True)) True ''alice'']
      (sample_queue, ())))) ''alice'' = Some u \<and> tk_credential u = replicate 64 CHR ''a''"
proof -
  obtain Q' w' where r: "run_ops (enroll_step sample_crypto quiet_net) [ApproveWallet (\<lambda>r. (r, True)) True ''alice'']
      (sample_queue, ()) = (Q', w')" by (metis surj_pair)
  have "map_of (en_queue sample_queue) ''alice'' = Some sample_ticket" by (simp add: sample_queue_def)
  from enrollment_binds [OF sample_queue_inv _ r this] r show ?thesis by (auto simp: sample_ticket_def)
qed

theorem enrollment_full_forever_witness:
  "enroll_submit ''t'' (Some (JObj [(''schema'', JStr ENROLL_SCHEMA), (''network_id'', JStr ''pilot''),
      (''account'', JStr ''zed''), (''credential'', JStr (replicate 64 CHR ''a''))])) full_queue
    = (Inl (EnrollmentError ''enrollment queue is full''), full_queue)"
proof -
  have "map_of (en_queue full_queue) ''zed'' = None" "MAX_PENDING \<le> length (en_queue full_queue)" "en_genesis full_queue = sample_genesis_file"
    using sample_ids(4,5) by (auto simp: full_queue_def sample_queue_def MAX_PENDING_def map_of_eq_None_iff)
  moreover have "hex_exact 64 (replicate 64 CHR ''a'')" by (simp add: hex_exact_def list_all_iff is_hex_def)
  ultimately show ?thesis
    using enrollment_full_forever [OF full_queue_inv, of "[]" sample_crypto quiet_net "()" full_queue "()" "''zed''" "replicate 64 CHR ''a''" "''t''"]
      sample_ids(2) by (simp add: sample_genesis_file_def)
qed

definition offer_fields :: "(string \<times> json) list" where
  "offer_fields = [(''id'', JStr ''1''), (''method'', JStr ''offer''), (''params'', JObj [(''sender'', JStr ''alice'')])]"

definition offer_auth :: json where
  "offer_auth = projr (auth_sign ascii_crypto (JObj offer_fields) ''alice'' 5 (replicate 64 CHR ''a''))"

definition fresh_node :: "(string \<times> json) list \<Rightarrow> node" where
  "fresh_node entries = sample_node\<lparr>nd_auth := Some (authenticator_init []), nd_registry := Some entries\<rparr>"

lemma offer_signed:
  "auth_sign ascii_crypto (JObj (offer_fields @ [(''auth'', offer_auth)])) ''alice'' 5 (replicate 64 CHR ''a'') = Inr offer_auth"
proof -
  have "auth_message (JObj (offer_fields @ [(''auth'', offer_auth)])) ''alice'' 5 = auth_message (JObj offer_fields) ''alice'' 5"
    by (simp add: auth_message_def offer_fields_def get_or_def obj_get_def)
  then have "auth_sign ascii_crypto (JObj (offer_fields @ [(''auth'', offer_auth)])) ''alice'' 5 (replicate 64 CHR ''a'')
      = auth_sign ascii_crypto (JObj offer_fields) ''alice'' 5 (replicate 64 CHR ''a'')"
    by (simp add: auth_sign_def)
  moreover have "is_ok (auth_sign ascii_crypto (JObj offer_fields) ''alice'' 5 (replicate 64 CHR ''a''))" by code_simp
  ultimately show ?thesis by (auto simp: offer_auth_def is_ok_iff)
qed

theorem enrolled_wallet_acts_witness:
  "fst (verify_request_actor ascii_crypto (JObj (offer_fields @ [(''auth'', offer_auth)])) (JStr ''offer'')
     (JObj [(''sender'', JStr ''alice'')]) True
     (fresh_node [(''testnet_operator'', JStr ''op''), (''alice'', JStr (replicate 64 CHR ''a''))])) = Inr ()"
proof -
  let ?entries = "[(''testnet_operator'', JStr ''op''), (''alice'', JStr (replicate 64 CHR ''a''))]"
  have hex: "hex_exact 64 (replicate 64 CHR ''a'')" by (simp add: hex_exact_def list_all_iff is_hex_def)
  have name: "account_name ''alice''" using sample_ids(1) by (simp add: wallet_id_def)
  have f: "request_from_file sample_genesis_file True (ticket_document ''alice'' sample_ticket) = Inr (''alice'', replicate 64 CHR ''a'')"
    using sample_ids(1) hex
    by (simp add: request_from_file_def ticket_document_def obj_fields_def ENROLL_FIELDS_def this_testnet_def get_or_def obj_get_def
        wallet_fields_def sample_ticket_def sample_genesis_file_def insert_commute)
  have ap: "approve_wallet sample_genesis_file True (\<lambda>r. (r, True)) True (ticket_document ''alice'' sample_ticket)
      (JObj [(''testnet_operator'', JStr ''op'')]) = (Inr ''alice'', JObj ?entries)"
    by (simp add: approve_wallet_def f obj_fields_def)
  have ac: "activate ascii_crypto quiet_net sample_genesis_file ''alice'' (JObj ?entries) () = (Inl rpc_unknown, ())"
    by (simp add: activate_def obj_fields_def obj_get_def BACKENDS_def activate_at_def quiet_net_def)
  obtain status Q' w' where r: "enroll_approve ascii_crypto quiet_net (\<lambda>r. (r, True)) True ''alice'' (sample_queue, ()) = (Inr status, Q', w')"
    and Q': "en_registry Q' = JObj ?entries"
    using ap ac name by (simp add: enroll_approve_def sample_queue_def sample_ticket_def set_status_def rpc_unknown_def enrollment_error_def Let_def)
  have t: "map_of (en_queue sample_queue) ''alice'' = Some sample_ticket" by (simp add: sample_queue_def)
  show ?thesis
    by (rule enrolled_wallet_acts [OF t _ sample_queue_inv r Q', of _ "authenticator_init []" _ 5 offer_auth _ "''sender''"])
      (use offer_signed hex_ascii_crypto in \<open>simp_all add: sample_ticket_def fresh_node_def auth_knows_def authenticator_init_def
         dict_has_def last_nonce_def offer_fields_def actor_fields_def obj_get_def\<close>)
qed

end
