(* ===== verification/Public_Edge.thy ===== *)
theory Public_Edge
  imports Distributor
begin

text \<open>
  The edge of the public testnet: the driver of the rounds (\<open>splitchain/round_clock.py\<close>), the ingress for signed
  transfers (\<open>splitchain/public_rpc.py\<close>), the status summary of the nodes with its rate limit
  (\<open>splitchain/public_status.py\<close>), and the manifest of candidate validators (\<open>splitchain/validator_candidate.py\<close>).
\<close>

section \<open>The round clock\<close>

text \<open>\<open>rc_file\<close> is the number in the state file.\<close>

record round_clock =
  rc_secret :: string
  rc_last :: int
  rc_file :: "int option"

definition clock_init :: "string \<Rightarrow> int option \<Rightarrow> round_clock result" where
  "clock_init secret state =
     (let n = (case state of None \<Rightarrow> - 1 | Some n \<Rightarrow> n) in
      if py_len secret < 32 then Inl (ValueError ''operator secret is too short'')
      else if n < - 1 then Inl (ValueError ''invalid round clock nonce'')
      else Inr \<lparr>rc_secret = secret, rc_last = n, rc_file = state\<rparr>)"

text \<open>\<open>next_request\<close>: the nonce is on disk before the request exists.\<close>

definition next_request :: "crypto \<Rightarrow> int \<Rightarrow> string \<Rightarrow> (round_clock, json) operation" where
  "next_request C now uid K =
     (let nonce = max now (rc_last K + 1);
          K1 = K\<lparr>rc_file := Some nonce, rc_last := nonce\<rparr>;
          request = [(''id'', JStr uid), (''method'', JStr ''advance''), (''params'', JObj [(''rounds'', JInt 1)])] in
      (case auth_sign C (JObj request) ''testnet_operator'' nonce (rc_secret K) of
         Inl e \<Rightarrow> (Inl e, K1)
       | Inr auth \<Rightarrow> (Inr (JObj (request @ [(''auth'', auth)])), K1)))"

text \<open>The loop over the nodes; a reply that is no object is an \<open>AttributeError\<close>.\<close>

fun ask_leader :: "'w outside \<Rightarrow> json \<Rightarrow> json \<Rightarrow> string list \<Rightarrow> ('w, json) operation" where
  "ask_leader U unavailable request [] w = (Inr unavailable, w)"
| "ask_leader U unavailable request (backend # backends) w =
     (case ou_send U backend request w of
        (None, w1) \<Rightarrow> ask_leader U unavailable request backends w1
      | (Some response, w1) \<Rightarrow>
          (case (if obj_fields response = None then None else error_code response) of
             None \<Rightarrow> (Inl AttributeError, w1)
           | Some code \<Rightarrow>
               if code = JStr ''NOT_LEADER'' then ask_leader U unavailable request backends w1 else (Inr response, w1)))"

definition clock_step :: "crypto \<Rightarrow> 'w outside \<Rightarrow> (round_clock \<times> 'w, json) operation" where
  "clock_step C U X =
     (case X of (K, w) \<Rightarrow>
       (case next_request C (ou_now U w) (ou_uid U w) K of
          (Inl e, K1) \<Rightarrow> (Inl e, K1, w)
        | (Inr request, K1) \<Rightarrow>
            (case ask_leader U (JObj [(''error'', JObj [(''code'', JStr ''UNAVAILABLE''),
                    (''message'', JStr ''round did not reach a leader'')])]) request BACKENDS w of
               (r, w1) \<Rightarrow> (r, K1, w1))))"

section \<open>The public ingress\<close>

definition PUBLIC_METHODS :: "string list" where
  "PUBLIC_METHODS = [''offer'', ''accept'', ''commit'', ''cancel'']"

text \<open>
  \<open>client_ip\<close>: \<open>trusted\<close> is the setting of the proxy, \<open>forwarded\<close> the header in the form that \<open>ip_address\<close> gives
  it (\<open>None\<close> when it is missing or no address).
\<close>

definition client_ip :: "bool \<Rightarrow> string option \<Rightarrow> string option \<Rightarrow> string" where
  "client_ip trusted forwarded peer =
     (let source = (case peer of None \<Rightarrow> ''unknown'' | Some p \<Rightarrow> p) in
      if trusted then (case forwarded of None \<Rightarrow> source | Some ip \<Rightarrow> ip) else source)"

type_synonym windows = "(string, int \<times> nat) dict"

text \<open>A fixed window of 60 seconds, in nanoseconds of the monotonic clock.\<close>

definition WINDOW :: int where "WINDOW = 60000000000"

definition window_at :: "string \<Rightarrow> int \<Rightarrow> windows \<Rightarrow> int \<times> nat" where
  "window_at client now T =
     (let (started, k) = dict_get T client (now, 0) in if now - started \<ge> WINDOW then (now, 0) else (started, k))"

definition ingress_limit :: "string \<Rightarrow> int \<Rightarrow> windows \<Rightarrow> bool \<times> windows" where
  "ingress_limit client now T =
     (let (started, k) = window_at client now T; T1 = AList.update client (started, Suc k) T in
      if Suc k > 120 then (False, T1)
      else (True, if length T1 > 1024 then filter (\<lambda>(ip, s, n). now - s < WINDOW) T1 else T1))"

definition transfer_ok :: "json \<Rightarrow> bool" where
  "transfer_ok request =
     (get_or request ''method'' JNull \<in> set (map JStr PUBLIC_METHODS)
      \<and> obj_fields (get_or request ''params'' JNull) \<noteq> None \<and> obj_fields (get_or request ''auth'' JNull) \<noteq> None)"

definition invalid_request :: json where
  "invalid_request = JObj [(''id'', JNull), (''error'', JObj [(''code'', JStr ''INVALID_REQUEST'')])]"

text \<open>
  \<open>handler\<close> for a socket on \<open>/rpc\<close>: \<open>request\<close> is \<open>None\<close> when the text is no JSON; the text of an error is not kept. A
  \<open>method\<close> that is a list or an object has no hash value and is the same answer.
\<close>

definition ingress ::
    "'w outside \<Rightarrow> string \<Rightarrow> int \<Rightarrow> json option \<Rightarrow> (windows \<times> 'w, json) operation" where
  "ingress U client now request X =
     (case X of (T, w) \<Rightarrow>
       (case request of
          None \<Rightarrow> (Inr invalid_request, T, w)
        | Some r \<Rightarrow>
            if \<not> transfer_ok r then (Inr invalid_request, T, w)
            else (case ingress_limit client now T of (allowed, T1) \<Rightarrow>
              if \<not> allowed then (Inr invalid_request, T1, w)
              else (case ask_leader U (JObj [(''id'', get_or r ''id'' JNull), (''error'', JObj [(''code'', JStr ''UNAVAILABLE''),
                      (''message'', JStr ''no certified leader accepted the request'')])]) r BACKENDS w of
                  (v, w1) \<Rightarrow> (v, T1, w1)))))"

section \<open>The status of the nodes\<close>

text \<open>\<open>allow_nodes_request\<close>.\<close>

definition nodes_limit :: "string \<Rightarrow> int \<Rightarrow> (windows, bool) operation" where
  "nodes_limit client now T =
     (let (started, k) = window_at client now T in
      if k \<ge> 30 then (Inr False, AList.update client (started, k) T)
      else
        let T1 = AList.update client (started, Suc k) T in
        (Inr True, if length T1 > 2048 then [] else T1))"

definition backend_name :: "string \<Rightarrow> string" where
  "backend_name backend = takeWhile (\<lambda>c. c \<noteq> CHR '':'') (if take 5 backend = ''ws://'' then drop 5 backend else backend)"

definition STATUS_METHODS :: "string list" where
  "STATUS_METHODS = [''status'', ''cluster.leadership'']"

text \<open>\<open>"result" in response\<close> of a JSON value that is no object is left out.\<close>

fun first_status :: "'w outside \<Rightarrow> string \<Rightarrow> string list \<Rightarrow> ('w, json) operation" where
  "first_status U m [] w = (Inl OSError, w)"
| "first_status U m (backend # backends) w =
     (case ou_send U backend (JObj [(''id'', JStr ''public-status''), (''method'', JStr m), (''params'', JObj [])]) w of
        (None, w1) \<Rightarrow> first_status U m backends w1
      | (Some response, w1) \<Rightarrow>
          if obj_fields response = None then (Inl Unmodelled, w1)
          else (case obj_get response ''result'' of
              None \<Rightarrow> first_status U m backends w1
            | Some v \<Rightarrow> (Inr (JObj [(''source'', JStr (backend_name backend)), (''result'', v)]), w1)))"

definition fetch_read_only :: "'w outside \<Rightarrow> string \<Rightarrow> ('w, json) operation" where
  "fetch_read_only U m w =
     (if m \<notin> set STATUS_METHODS then (Inl (ValueError ''unsupported status method''), w)
      else first_status U m BACKENDS w)"

record node_status =
  ns_name :: string
  ns_head :: "(int \<times> string \<times> json) option"

text \<open>
  \<open>fetch_node_status\<close> from the reply of one node: height, digest and round when it is online; every exception makes it
  unavailable. A height that is a truth value counts as an integer.
\<close>

definition status_head :: "json \<Rightarrow> (int \<times> string \<times> json) option" where
  "status_head response =
     (case bindR (item response ''result'') (\<lambda>v. bindR (item v ''canonical_head'') (\<lambda>h.
             bindR (item h ''height'') (\<lambda>n. bindR (item h ''digest'') (\<lambda>d. bindR (item v ''round'') (\<lambda>r. Inr (n, d, r)))))) of
        Inr (JInt n, JStr d, r) \<Rightarrow> Some (n, d, r)
      | Inr (JBool b, JStr d, r) \<Rightarrow> Some (if b then 1 else 0, d, r)
      | _ \<Rightarrow> None)"

definition fetch_node :: "'w outside \<Rightarrow> string \<Rightarrow> 'w \<Rightarrow> node_status \<times> 'w" where
  "fetch_node U backend w =
     (case ou_send U backend (JObj [(''id'', JStr ''node-status''), (''method'', JStr ''status''), (''params'', JObj [])]) w of
        (response, w1) \<Rightarrow> (\<lparr>ns_name = backend_name backend, ns_head = Option.bind response status_head\<rparr>, w1))"

primrec fetch_each :: "'w outside \<Rightarrow> string list \<Rightarrow> 'w \<Rightarrow> node_status list \<times> 'w" where
  "fetch_each U [] w = ([], w)"
| "fetch_each U (b # bs) w = (case fetch_node U b w of (x, w1) \<Rightarrow> (case fetch_each U bs w1 of (xs, w2) \<Rightarrow> (x # xs, w2)))"

text \<open>\<open>fetch_nodes\<close>: the nodes, how many are online, and whether all are and have one head.\<close>

definition fetch_nodes :: "'w outside \<Rightarrow> 'w \<Rightarrow> (node_status list \<times> nat \<times> bool) \<times> 'w" where
  "fetch_nodes U w =
     (case fetch_each U BACKENDS w of
        (nodes, w1) \<Rightarrow>
          (let heads = remdups (map (\<lambda>(n, d, r). (n, d)) (List.map_filter ns_head nodes));
               online = length (filter (\<lambda>x. ns_head x \<noteq> None) nodes) in
           ((nodes, online, online = length nodes \<and> length heads = 1), w1)))"

section \<open>Candidate validators\<close>

definition CANDIDATE_SCHEMA :: string where "CANDIDATE_SCHEMA = ''splitchain-validator-candidates/v1''"

definition CANDIDATES :: "string list" where
  "CANDIDATES = [''colleague-primary'', ''colleague-secondary'', ''colleague-tertiary'']"

definition candidate_payload :: "string \<Rightarrow> string \<Rightarrow> string \<Rightarrow> string \<Rightarrow> json" where
  "candidate_payload network digest name public = JObj
     [(''schema'', JStr CANDIDATE_SCHEMA), (''network_id'', JStr network), (''genesis_digest'', JStr digest),
      (''node_id'', JStr name), (''public_key'', JStr (b64encode public))]"

fun with_field :: "json \<Rightarrow> string \<Rightarrow> json \<Rightarrow> json" where
  "with_field (JObj kvs) k v = JObj (AList.update k v kvs)"
| "with_field d k v = d"

text \<open>\<open>prepare\<close>: \<open>keys\<close> are the private keys generated for the three names; writing the key files is I/O.\<close>

definition candidate_node :: "ed25519 \<Rightarrow> string \<Rightarrow> string \<Rightarrow> string \<times> string \<Rightarrow> json result" where
  "candidate_node E network digest = (\<lambda>(name, private).
     let payload = candidate_payload network digest name (ed_public E private) in
     bindR (canonical_json payload) (\<lambda>body. Inr (with_field payload ''proof'' (JStr (b64encode (ed_sign E private body))))))"

definition prepare_candidates :: "crypto \<Rightarrow> ed25519 \<Rightarrow> string list \<Rightarrow> genesis_config \<Rightarrow> json result" where
  "prepare_candidates C E privates g =
     bindR (genesis_digest C g) (\<lambda>digest.
     bindR (mapR (candidate_node E (network_id g) digest) (zip CANDIDATES privates)) (\<lambda>nodes.
       Inr (JObj [(''schema'', JStr CANDIDATE_SCHEMA), (''network_id'', JStr (network_id g)),
         (''genesis_digest'', JStr digest), (''nodes'', JList nodes)])))"

definition candidate_error :: "string \<Rightarrow> 'a result" where
  "candidate_error m = Inl (ProtocolError m)"

text \<open>The proof of possession: a key of another length than 32 bytes is a \<open>ValueError\<close>.\<close>

definition possession :: "ed25519 \<Rightarrow> json \<Rightarrow> bool" where
  "possession E node =
     (case (obj_fields node, obj_get node ''public_key'', obj_get node ''proof'') of
        (Some kvs, Some (JStr public), Some (JStr proof)) \<Rightarrow>
          (case (b64decode public, b64decode proof, canonical_json (JObj (filter (\<lambda>(k, v). k \<noteq> ''proof'') kvs))) of
             (Some key, Some signature, Inr body) \<Rightarrow> length key = 32 \<and> ed_verify E key signature body
           | _ \<Rightarrow> False)
      | _ \<Rightarrow> False)"

fun verify_nodes :: "ed25519 \<Rightarrow> json \<Rightarrow> json list \<Rightarrow> unit result" where
  "verify_nodes E manifest [] = Inr ()"
| "verify_nodes E manifest (node # nodes) =
     (case obj_fields node of
        None \<Rightarrow> candidate_error ''invalid candidate identity''
      | Some kvs \<Rightarrow>
          if set (map fst kvs) \<noteq> {''schema'', ''network_id'', ''genesis_digest'', ''node_id'', ''public_key'', ''proof''}
          then candidate_error ''invalid candidate identity''
          else if list_ex (\<lambda>k. \<not> py_eq (get_or node k JNull) (get_or manifest k JNull)) [''schema'', ''network_id'', ''genesis_digest'']
          then candidate_error ''candidate uses a different network''
          else if \<not> possession E node then candidate_error ''invalid candidate proof of possession''
          else verify_nodes E manifest nodes)"

text \<open>\<open>verify\<close>. A \<open>node_id\<close> without a hash value is left out (it is a \<open>TypeError\<close>).\<close>

definition verify_candidates :: "crypto \<Rightarrow> ed25519 \<Rightarrow> json \<Rightarrow> genesis_config \<Rightarrow> unit result" where
  "verify_candidates C E manifest g =
     bindR (genesis_digest C g) (\<lambda>digest.
     (case (obj_fields manifest, obj_get manifest ''nodes'') of
        (Some kvs, Some (JList nodes)) \<Rightarrow>
          if set (map fst kvs) \<noteq> {''schema'', ''network_id'', ''genesis_digest'', ''nodes''}
             \<or> get_or manifest ''schema'' JNull \<noteq> JStr CANDIDATE_SCHEMA
             \<or> get_or manifest ''network_id'' JNull \<noteq> JStr (network_id g)
             \<or> get_or manifest ''genesis_digest'' JNull \<noteq> JStr digest \<or> length nodes \<noteq> 3
          then candidate_error ''candidate manifest does not match pinned genesis''
          else if list_ex (\<lambda>n. obj_fields n \<noteq> None \<and> \<not> hashable (get_or n ''node_id'' JNull)) nodes then Inl Unmodelled
          else if set (map (\<lambda>n. get_or n ''node_id'' JNull) (filter (\<lambda>n. obj_fields n \<noteq> None) nodes)) \<noteq> set (map JStr CANDIDATES)
          then candidate_error ''candidate identities are incomplete''
          else verify_nodes E manifest nodes
      | _ \<Rightarrow> candidate_error ''candidate manifest does not match pinned genesis''))"

end
