(* ===== verification/Public_Safety.thy ===== *)
theory Public_Safety
  imports Public_Edge
begin

text \<open>
  What the edge promises: every request of the round clock is fresh for the nodes, across restarts and with a
  clock that jumps; the rate limit of the node summary; and the manifest of candidate validators that
  \<open>prepare\<close> writes passes \<open>verify\<close>.
\<close>

section \<open>The round clock and the nodes\<close>

text \<open>Restarts of the clock, its turns, and requests of other actors at the same authenticator.\<close>

datatype clock_op = Restart | Turn int string | OtherRequest json

fun clock_run :: "crypto \<Rightarrow> clock_op list \<Rightarrow> round_clock \<Rightarrow> authenticator \<Rightarrow> string result list" where
  "clock_run C [] K A = []"
| "clock_run C (Restart # ops) K A =
     (case clock_init (rc_secret K) (rc_file K) of Inl e \<Rightarrow> [Inl e] | Inr K1 \<Rightarrow> clock_run C ops K1 A)"
| "clock_run C (Turn now uid # ops) K A =
     (case next_request C now uid K of
        (Inl e, K1) \<Rightarrow> Inl e # clock_run C ops K1 A
      | (Inr request, K1) \<Rightarrow> (case auth_verify C request True A of (r, A1) \<Rightarrow> r # clock_run C ops K1 A1))"
| "clock_run C (OtherRequest request # ops) K A = clock_run C ops K (snd (auth_verify C request True A))"

definition clock_inv :: "round_clock \<Rightarrow> authenticator \<Rightarrow> bool" where
  "clock_inv K A =
     (32 \<le> py_len (rc_secret K) \<and> - 1 \<le> rc_last K \<and> (case rc_file K of None \<Rightarrow> - 1 | Some n \<Rightarrow> n) = rc_last K
      \<and> map_of (au_secrets A) ''testnet_operator'' = Some (rc_secret K) \<and> last_nonce A ''testnet_operator'' \<le> rc_last K)"

lemma verify_secrets: "au_secrets (snd (auth_verify C request True A)) = au_secrets A"
  by (cases "fst (auth_verify C request True A)") (auto simp: auth_verify_Inl elim!: auth_verify_Inr)

lemma next_request_accepted:
  assumes "clock_inv K A" "hex_digests C"
  obtains request K1 A1 where "next_request C now uid K = (Inr request, K1)"
    "auth_verify C request True A = (Inr ''testnet_operator'', A1)" "clock_inv K1 A1"
proof -
  let ?n = "max now (rc_last K + 1)"
  let ?r = "[(''id'', JStr uid), (''method'', JStr ''advance''), (''params'', JObj [(''rounds'', JInt 1)])]"
  obtain auth where auth: "auth_sign C (JObj ?r) ''testnet_operator'' ?n (rc_secret K) = Inr auth"
    by (auto simp: auth_sign_def auth_message_def get_or_def obj_get_def hmac_json_def canonical_json_def)
  let ?q = "?r @ [(''auth'', auth)]" and ?K = "K\<lparr>rc_file := Some ?n, rc_last := ?n\<rparr>"
  have "auth_message (JObj ?q) a n = auth_message (JObj ?r) a n" for a n
    by (simp add: auth_message_def get_or_def obj_get_def)
  then have signed: "auth_sign C (JObj ?q) ''testnet_operator'' ?n (rc_secret K) = Inr auth"
    using auth by (simp only: auth_sign_def)
  have secret: "map_of (au_secrets A) ''testnet_operator'' = Some (rc_secret K)" and low: "last_nonce A ''testnet_operator'' < ?n"
    using assms(1) by (auto simp: clock_inv_def)
  have ok: "fst (auth_verify C (JObj ?q) True A) = Inr ''testnet_operator''"
    using auth_signed_request_accepted [OF signed assms(2) secret] low by simp
  obtain sg where "auth = JObj [(''actor'', JStr ''testnet_operator''), (''nonce'', JInt ?n), (''signature'', JStr sg)]"
    using auth by (auto simp: auth_sign_def bindR_Inr_iff)
  then have q: "request_actor (JObj ?q) = ''testnet_operator''" "request_nonce (JObj ?q) = ?n"
    by (simp_all add: request_actor_def request_nonce_def auth_str_def auth_int_def auth_field_def get_or_def obj_get_def)
  let ?A = "snd (auth_verify C (JObj ?q) True A)"
  have "last_nonce ?A = (last_nonce A)(''testnet_operator'' := ?n)"
    using auth.accept_last [OF ok] q by simp
  then have "clock_inv ?K ?A"
    using assms(1) by (auto simp: clock_inv_def verify_secrets)
  moreover have "next_request C now uid K = (Inr (JObj ?q), ?K)" using auth by (simp add: next_request_def Let_def)
  ultimately show thesis using that ok by (metis prod.collapse)
qed

lemma clock_run_accepts:
  "clock_inv K A \<Longrightarrow> hex_digests C \<Longrightarrow>
     list_all (\<lambda>op. case op of OtherRequest r \<Rightarrow> request_actor r \<noteq> ''testnet_operator'' | _ \<Rightarrow> True) ops \<Longrightarrow>
     list_all (\<lambda>r. r = Inr ''testnet_operator'') (clock_run C ops K A)"
proof (induction ops arbitrary: K A)
  case (Cons op ops)
  show ?case
  proof (cases op)
    case Restart
    let ?K = "\<lparr>rc_secret = rc_secret K, rc_last = rc_last K, rc_file = rc_file K\<rparr>"
    have "clock_init (rc_secret K) (rc_file K) = Inr ?K"
      using Cons.prems(1) by (auto simp: clock_inv_def clock_init_def Let_def split: option.splits)
    with Restart Cons.IH [of ?K A] Cons.prems show ?thesis by (simp add: clock_inv_def)
  next
    case (Turn now uid)
    obtain request K1 A1 where n: "next_request C now uid K = (Inr request, K1)"
      "auth_verify C request True A = (Inr ''testnet_operator'', A1)" "clock_inv K1 A1"
      by (rule next_request_accepted [OF Cons.prems(1,2)])
    with Turn Cons.IH [OF n(3)] Cons.prems show ?thesis by simp
  next
    case (OtherRequest request)
    have "last_nonce (snd (auth_verify C request True A)) ''testnet_operator'' = last_nonce A ''testnet_operator''"
      using Cons.prems(3) OtherRequest auth.accept_last [of C request A] auth.reject_last [of C request A]
      by (cases "fst (auth_verify C request True A)") auto
    then have "clock_inv K (snd (auth_verify C request True A))" using Cons.prems(1) by (simp add: clock_inv_def verify_secrets)
    with OtherRequest Cons.IH [OF this] Cons.prems show ?thesis by simp
  qed
qed simp

text \<open>C36. The round clock is never taken for a replay: from a start where its file is not behind the nodes, every
  request it makes is accepted by the authenticator as one of the operator, however often it is restarted, whatever
  the system clock shows (it may jump back), and whatever other actors send in between.\<close>

theorem round_clock_accepted:
  assumes "clock_init secret state = Inr K" "map_of (au_secrets A) ''testnet_operator'' = Some secret"
    and "last_nonce A ''testnet_operator'' \<le> rc_last K" "hex_digests C"
    and "list_all (\<lambda>op. case op of OtherRequest r \<Rightarrow> request_actor r \<noteq> ''testnet_operator'' | _ \<Rightarrow> True) ops"
  shows "list_all (\<lambda>r. r = Inr ''testnet_operator'') (clock_run C ops K A)"
proof (rule clock_run_accepts [OF _ assms(4,5)])
  show "clock_inv K A"
    using assms(1-3) by (auto simp: clock_init_def clock_inv_def Let_def split: option.splits if_splits)
qed

theorem round_clock_accepted_witness:
  "list_all (\<lambda>r. r = Inr ''testnet_operator'')
     (clock_run ascii_crypto [Turn 7 ''a'', Restart, Turn 3 ''b'', Turn 3 ''c'']
       \<lparr>rc_secret = replicate 32 CHR ''s'', rc_last = - 1, rc_file = None\<rparr>
       (authenticator_init [(''testnet_operator'', replicate 32 CHR ''s'')]))"
proof -
  have "py_len (replicate 32 CHR ''s'') = 32" by (simp add: py_len_def)
  then have "clock_init (replicate 32 CHR ''s'') None = Inr \<lparr>rc_secret = replicate 32 CHR ''s'', rc_last = - 1, rc_file = None\<rparr>"
    by (simp add: clock_init_def)
  then show ?thesis
    by (rule round_clock_accepted) (simp_all add: authenticator_init_def last_nonce_def dict_get_def hex_ascii_crypto)
qed

section \<open>The rate limit of the node summary\<close>

text \<open>The requests of a run with their times, and how many of one client were let through.\<close>

fun limit_run :: "string \<Rightarrow> (string \<times> int) list \<Rightarrow> windows \<Rightarrow> nat" where
  "limit_run client [] T = 0"
| "limit_run client ((c, now) # rs) T =
     (case nodes_limit c now T of
        (r, T1) \<Rightarrow> (if c = client \<and> r = Inr True then 1 else 0) + limit_run client rs T1)"

text \<open>What a client may still get in a span of time that starts at \<open>t\<close> and is shorter than the window.\<close>

definition allowance :: "string \<Rightarrow> int \<Rightarrow> windows \<Rightarrow> nat" where
  "allowance client t T =
     (case map_of T client of
        None \<Rightarrow> 30
      | Some (s, k) \<Rightarrow> (if t \<le> s then 30 - k else (30 - k) + 30))"

lemma nodes_limit_table:
  assumes "nodes_limit c now T = (r, T1)" "card (insert c (fst ` set T)) \<le> 2048" "wf_dict T"
  shows "T1 = AList.update c (fst (window_at c now T), (if r = Inr True then Suc else id) (snd (window_at c now T))) T"
    and "r = Inr (snd (window_at c now T) < 30)" "wf_dict T1" "fst ` set T1 = insert c (fst ` set T)"
proof -
  obtain s k where w: "window_at c now T = (s, k)" by (cases "window_at c now T")
  have keys: "fst ` set (AList.update c v T) = insert c (fst ` set T)" for v
    by (simp add: dom_update dom_map_of_conv_image_fst [symmetric])
  have len: "length (AList.update c v T) \<le> 2048" for v
  proof -
    have "wf_dict (AList.update c v T)" using assms(3) by simp
    then have "length (AList.update c v T) = card (fst ` set (AList.update c v T))"
      unfolding wf_dict_def using distinct_card [of "map fst (AList.update c v T)"] by simp
    with keys assms(2) show ?thesis by simp
  qed
  show "T1 = AList.update c (fst (window_at c now T), (if r = Inr True then Suc else id) (snd (window_at c now T))) T"
    "r = Inr (snd (window_at c now T) < 30)"
    using assms(1) len [unfolded not_less [symmetric]] by (auto simp: nodes_limit_def w Let_def split: if_splits)
  then show "wf_dict T1" "fst ` set T1 = insert c (fst ` set T)" using assms(3) keys by auto
qed

lemma nodes_limit_allowance:
  assumes "nodes_limit c now T = (r, T1)" "card (insert c (fst ` set T)) \<le> 2048" "wf_dict T" "t \<le> now" "now < t + WINDOW"
  shows "(if c = client \<and> r = Inr True then 1 else 0) + allowance client t T1 \<le> allowance client t T"
proof (cases "c = client")
  case False
  then show ?thesis unfolding nodes_limit_table(1) [OF assms(1-3)] by (simp add: allowance_def update_conv')
next
  case True
  note T1 = nodes_limit_table(1,2) [OF assms(1-3)]
  have "0 < WINDOW" by (simp add: WINDOW_def)
  then show ?thesis
    unfolding T1(1) allowance_def update_conv' using True T1(2) assms(4,5)
    by (cases "map_of T c") (auto simp: window_at_def dict_get_def split: if_splits)
qed

lemma limit_run_allowance:
  "wf_dict T \<Longrightarrow> card (fst ` set T \<union> fst ` set rs) \<le> 2048 \<Longrightarrow> list_all (\<lambda>(c, now). t \<le> now \<and> now < t + WINDOW) rs \<Longrightarrow>
     limit_run client rs T \<le> allowance client t T"
proof (induction rs arbitrary: T)
  case (Cons q rs)
  obtain c now where q: "q = (c, now)" by (cases q)
  obtain r T1 where l: "nodes_limit c now T = (r, T1)" by (cases "nodes_limit c now T")
  have "card (insert c (fst ` set T)) \<le> card (fst ` set T \<union> fst ` set (q # rs))"
    by (rule card_mono) (auto simp: q)
  with Cons.prems(2) have small: "card (insert c (fst ` set T)) \<le> 2048" by simp
  note T1 = nodes_limit_table(3,4) [OF l small Cons.prems(1)]
  have "fst ` set T1 \<union> fst ` set rs = fst ` set T \<union> fst ` set (q # rs)" using T1(2) by (auto simp: q)
  then have "card (fst ` set T1 \<union> fst ` set rs) \<le> 2048" using Cons.prems(2) by simp
  from Cons.IH [OF T1(1) this] Cons.prems(3) have "limit_run client rs T1 \<le> allowance client t T1" by simp
  moreover have "(if c = client \<and> r = Inr True then 1 else 0) + allowance client t T1 \<le> allowance client t T"
    using nodes_limit_allowance [OF l small Cons.prems(1)] Cons.prems(3) q by simp
  ultimately show ?case by (simp add: q l)
qed simp



section \<open>Candidate validators\<close>

lemma candidate_node_ok:
  assumes "candidate_node E network digest (name, k) = Inr node" "ed25519_correct E" "length (ed_public E k) = 32"
  shows "\<exists>sg. node = JObj [(''schema'', JStr CANDIDATE_SCHEMA), (''network_id'', JStr network), (''genesis_digest'', JStr digest),
      (''node_id'', JStr name), (''public_key'', JStr (b64encode (ed_public E k))), (''proof'', JStr sg)] \<and> possession E node"
proof -
  let ?fields = "[(''schema'', JStr CANDIDATE_SCHEMA), (''network_id'', JStr network), (''genesis_digest'', JStr digest),
      (''node_id'', JStr name), (''public_key'', JStr (b64encode (ed_public E k)))]"
  from assms(1) obtain body where body: "canonical_json (JObj ?fields) = Inr body"
    "node = JObj (?fields @ [(''proof'', JStr (b64encode (ed_sign E k body)))])"
    by (auto simp: candidate_node_def candidate_payload_def Let_def bindR_Inr_iff)
  have "possession E node"
    using body(1) assms(2,3)
    by (simp add: possession_def body(2) obj_fields_def obj_get_def b64decode_encode ed25519_correct_def)
  then show ?thesis unfolding body(2) by auto
qed

text \<open>C38. What the colleague prepares, the operator accepts: the manifest that \<open>prepare\<close> writes for three keys passes
  \<open>verify\<close> against the same genesis file (with Ed25519 signatures that verify and public keys of 32 bytes).\<close>

theorem candidates_verify:
  assumes "prepare_candidates C E privates g = Inr manifest" "length privates = 3"
    and "ed25519_correct E" "list_all (\<lambda>k. length (ed_public E k) = 32) privates"
  shows "verify_candidates C E manifest g = Inr ()"
proof -
  from assms(2) obtain k1 k2 k3 where k: "privates = [k1, k2, k3]"
    by (auto simp: numeral_3_eq_3 length_Suc_conv)
  from assms(1) obtain digest n1 n2 n3 where g: "genesis_digest C g = Inr digest"
    and n: "candidate_node E (network_id g) digest (''colleague-primary'', k1) = Inr n1"
      "candidate_node E (network_id g) digest (''colleague-secondary'', k2) = Inr n2"
      "candidate_node E (network_id g) digest (''colleague-tertiary'', k3) = Inr n3"
    and m: "manifest = JObj [(''schema'', JStr CANDIDATE_SCHEMA), (''network_id'', JStr (network_id g)),
         (''genesis_digest'', JStr digest), (''nodes'', JList [n1, n2, n3])]"
    by (auto simp: prepare_candidates_def bindR_Inr_iff k CANDIDATES_def)
  have len: "length (ed_public E k1) = 32" "length (ed_public E k2) = 32" "length (ed_public E k3) = 32"
    using assms(4) by (simp_all add: k)
  have one: "verify_nodes E manifest (node # nodes) = verify_nodes E manifest nodes
      \<and> get_or node ''node_id'' JNull = JStr name \<and> obj_fields node \<noteq> None"
    if "candidate_node E (network_id g) digest (name, k) = Inr node" "length (ed_public E k) = 32" for node nodes name k
  proof -
    from candidate_node_ok [OF that(1) assms(3) that(2)] obtain sg where
      "node = JObj [(''schema'', JStr CANDIDATE_SCHEMA), (''network_id'', JStr (network_id g)), (''genesis_digest'', JStr digest),
        (''node_id'', JStr name), (''public_key'', JStr (b64encode (ed_public E k))), (''proof'', JStr sg)]" "possession E node"
      by auto
    then show ?thesis by (simp add: m get_or_def obj_get_def obj_fields_def insert_commute)
  qed
  note one = one [OF n(1) len(1)] one [OF n(2) len(2)] one [OF n(3) len(3)]
  have "verify_nodes E manifest [n1, n2, n3] = Inr ()" using one by simp
  moreover have "hashable (JStr s)" for s by simp
  ultimately show ?thesis
    using one by (simp add: verify_candidates_def g m obj_fields_def [of "JObj _"] obj_get_def [of "JObj _"] get_or_def [of "JObj _"]
        CANDIDATES_def insert_commute)
qed

definition sample_keys :: "string list" where
  "sample_keys = [replicate 32 CHR ''a'', replicate 32 CHR ''b'', replicate 32 CHR ''c'']"

lemma candidate_node_is_ok: "is_ok (candidate_node E network digest (name, key))"
  by (simp add: candidate_node_def candidate_payload_def canonical_json_def is_ok_def)

lemma sample_prepared_candidates: "is_ok (prepare_candidates ascii_crypto sample_ed sample_keys sample_genesis)"
proof -
  have digest: "is_ok (genesis_digest ascii_crypto sample_genesis)"
    by (simp add: genesis_digest_def protocol_digest_def genesis_public_def dict_json_def sample_genesis_def canonical_json_def
        is_ok_def sorted_dict_def is_ascii_def)
  have "\<exists>v. candidate_node sample_ed network d (name, key) = Inr v" for network d name key
    using candidate_node_is_ok [of sample_ed network d name key] by (auto simp: is_ok_iff)
  then have "\<exists>ns. mapR (candidate_node sample_ed network d) xs = Inr ns" for network d xs
  proof (induction xs)
    case (Cons x xs)
    then show ?case by (cases x) (metis bindR_simps(2) mapR.simps(2))
  qed simp
  with digest show ?thesis by (fastforce simp: prepare_candidates_def is_ok_iff bindR_Inr_iff)
qed

theorem candidates_verify_witness:
  "verify_candidates ascii_crypto sample_ed (projr (prepare_candidates ascii_crypto sample_ed sample_keys sample_genesis))
     sample_genesis = Inr ()"
proof -
  obtain m where "prepare_candidates ascii_crypto sample_ed sample_keys sample_genesis = Inr m"
    using sample_prepared_candidates by (auto simp: is_ok_iff)
  with candidates_verify [OF this] sample_ed_correct show ?thesis by (simp add: sample_keys_def sample_ed_def)
qed

end
