(* ===== verification/Spec2Isabelle.thy ===== *)
theory Spec2Isabelle
  imports Ledger_Equiv Finality Replication Recovery Gossip Transport Cluster_Elections Olc_Safety Distributor_Node Distributor_Plan
    Enrollment_Safety Public_Safety
begin

text \<open>
  SplitChain is a research ledger in Python: two accounts take a payment through a branch that is offered,
  accepted, committed and, some rounds later, finalised into the canonical chain; three reference nodes
  replicate the ledger under a certified leader and fail over to the next role; around the node stand a proof layer, a
  compute scheduler with a container runtime, the Open Light Compute pilot, and the operator's tools. All paths are
  relative to \<open>src/splitchain/\<close>.

  \<^bold>\<open>Conventions.\<close> \<open>Prelude\<close> holds the shared vocabulary. A Python exception is a value of \<open>error\<close>, a result is
  \<open>error + 'a\<close>, and a method that changes its object is a function \<open>'s \<Rightarrow> ('a result \<times> 's)\<close> that returns the state
  on the error path too, because Python keeps what was assigned before a \<open>raise\<close>. Python integers are \<open>int\<close>, strings
  are lists of characters, dictionaries are association lists in insertion order with \<open>AList.update\<close> for an
  assignment, JSON values are the datatype \<open>json\<close>. \<open>Inl Unmodelled\<close> marks the inputs that leave the model (mostly
  conversions like \<open>int(v)\<close> of a JSON value of another type than the writer's); no property claims success there. Hash
  functions, HMAC and Ed25519 are parameters (\<open>crypto\<close>, \<open>ed25519\<close>); what a property needs of them (hexadecimal digests,
  verification of own signatures, no collision between two named payloads) is a named hypothesis. Clocks, random
  tokens and the answers of other processes are arguments.

  \<^bold>\<open>The ledger\<close> (\<open>model.py\<close>). \<open>Canonical_Json\<close> is \<open>canonical_json\<close> and \<open>protocol_digest\<close>, \<open>Json_Encoding\<close> proves the
  encoding unambiguous. \<open>Genesis\<close> is \<open>GenesisConfig\<close>. \<open>Ledger_Model\<close> has \<open>Branch\<close> and \<open>Ledger\<close> with every method
  (\<open>offer\<close>, \<open>accept\<close>, \<open>commit\<close>, \<open>cancel\<close>, \<open>advance\<close>, \<open>register_account\<close>); \<open>Ledger_Snapshot\<close> has \<open>snapshot\<close> and
  \<open>from_snapshot\<close> with its validation. \<open>Ledger_Invariants\<close> proves the invariant, \<open>Ledger_Steps\<close> gives the abstract
  transitions of a branch and of the chain as inductive relations and shows that every call is a sequence of them,
  \<open>Ledger_Safety\<close> the properties of runs (supply, locks, lifecycle, atomic rejection; the oracle is
  \<open>assert_invariants\<close> of \<open>simulator.py\<close>), \<open>Ledger_Rounds\<close> the closed form of \<open>advance\<close>, \<open>Ledger_Restore\<close> the round
  trip of snapshots, \<open>Ledger_Equiv\<close> that a restored ledger answers every later call like the original.

  \<^bold>\<open>Identities and messages.\<close> \<open>Signatures\<close> holds what the authenticated parts share: what a signature over canonical
  JSON binds, and the locale \<open>replay_guard\<close> of everything that counts nonces, interpreted by the request
  authenticator (\<open>Request_Auth\<close>, \<open>auth.py\<close>), the replicas (\<open>Replication\<close>, \<open>replication.py\<close>) and the gossip nodes
  (\<open>Gossip\<close>, \<open>network.py\<close>). \<open>Certificates\<close> is \<open>identity.py\<close>, \<open>Node_Keys\<close> is \<open>node_identity.py\<close> with base64,
  \<open>Transport\<close> is the peer registry and the table of permitted methods of \<open>transport.py\<close>.

  \<^bold>\<open>Agreement.\<close> \<open>Membership\<close> (\<open>membership.py\<close>) states the quorum contract as a locale; \<open>Finality\<close> (\<open>finality.py\<close>) is the
  three-round vote with accountable conflicts and liveness of a quorum; \<open>Failover\<close> and \<open>Failover_Safety\<close> (\<open>failover.py\<close>)
  are the leadership: terms, votes, certificates, snapshots, split brain only with two signed votes of one survivor;
  \<open>Recovery\<close> (\<open>recovery.py\<close>) is the takeover of roles after claims and a challenge window.

  \<^bold>\<open>The node\<close> (\<open>node.py\<close>, \<open>persistence.py\<close>). \<open>Node_Model\<close> has the state of \<open>ReferenceNode\<close> and the handlers of replicas,
  leader and leadership; \<open>Node_Dispatch\<close> has \<open>dispatch\<close>, the constructor and the loaders of the state file.
  \<open>Node_Safety\<close> proves one invariant and one step relation (\<open>good_step\<close>) for all handlers, \<open>Node_Runs\<close> the replicated
  state machine (the ledger is the replay of the log), fencing and prepare-then-commit, \<open>Node_Server\<close> the server from its
  start on. \<open>Node_Cluster\<close> has what the node does over the network: \<open>_sync_history\<close>, \<open>_sync_from_peer\<close> (its \<open>range(10)\<close>
  is the bound 10), \<open>_reconcile_with_witness\<close> and \<open>failover_step\<close>, the other nodes being an arbitrary state behind a
  function; \<open>Cluster_Writes\<close> has \<open>replicate_mutation\<close>, \<open>sync_replicas\<close> and \<open>cluster_status\<close> over the network, proves
  that they refine the handlers of \<open>Node_Model\<close> (whose parameters only say how many peers prepared and whether one
  confirmed), and, with a real node behind \<open>dispatch\<close>, that an accepted write ends on both nodes;
  \<open>Cluster_Elections\<close> shows what a new leader has done before and that two survivors elect one. Calls that
  \<open>asyncio.gather\<close> interleaves are made one after the other, and a handler is one step: the lock serialises the steps that
  change the ledger; other interleavings inside \<open>failover_step\<close> are not modelled.

  \<^bold>\<open>Compute and proofs.\<close> \<open>Distops\<close> (\<open>distops.py\<close>), \<open>Runtime\<close> (\<open>runtime.py\<close>) and \<open>Signed_Windows\<close>, whose locales (signed
  documents with a window of rounds, tokens accepted at most once) they share, with their properties in
  \<open>Compute_Safety\<close>; \<open>Services\<close> (\<open>truelies.py\<close>, \<open>services.py\<close>); \<open>Ecosystem\<close> (\<open>ecosystem.py\<close>) composes scheduler,
  proofs, ledger and finality in the demo. \<open>Olc_Gateway\<close> (\<open>olc_gateway.py\<close>, one turn of \<open>olc_verifier.py\<close>),
  \<open>Olc_Receipts\<close> (\<open>olc_receipts.py\<close>) and \<open>Olc_Safety\<close>: the published receipts pass the public check, verified jobs rest
  on genuine approvals, at most one lease.

  \<^bold>\<open>The distributor\<close> (\<open>distributor.py\<close>). \<open>Distributor\<close> models the plan, \<open>prepare\<close> and the class \<open>Distributor\<close>;
  \<open>fund_one\<close> makes at most four rounds and \<open>dist_call\<close> as many polls as its list of backends allows, so no fuel can run
  out. \<open>Distributor_Safety\<close> states the ledger service as the locale \<open>paying_service\<close> and proves inside it that no
  friend is paid twice; \<open>Distributor_Node\<close> interprets it with \<open>dispatch\<close> of the node; \<open>Distributor_Plan\<close> has the bounds of
  a plan and the round trip of the prepared files.

  \<^bold>\<open>Interfaces.\<close> \<open>invariant_machine\<close> and \<open>atomic_machine\<close> (\<open>Prelude\<close>) are the contracts of a component with an invariant
  and of one whose rejected operations change nothing; they are interpreted by the ledger, the leadership, the
  recovery coordinator, the node, the server and others, and their run lemmas carry the properties of runs.

  \<^bold>\<open>Not modelled.\<close> Files, sockets, TLS contexts, subprocesses and argument parsing (\<open>cli.py\<close>, the \<open>main\<close>
  functions, \<open>TLSMaterial\<close>, \<open>NodeKeyring.from_files\<close>, the HTTP plumbing of the services): they only call the
  operating system. The atomic replacement of a file is one assignment. The pages of \<open>public_status.py\<close> and the
  seeded choices of \<open>simulator.run\<close> have no state of their own; the safety theorem of the ledger covers every
  sequence of calls. \<open>olc_worker.py\<close> is an HTTP client around one fixed command.
\<close>

end
